(* ===== verification/Prelude.thy ===== *)
theory Prelude
  imports Main "HOL-Library.Sublist"
begin

text \<open>
  Shared foundations of the development: the result type that stands for Rust's
  \<^verbatim>\<open>Result\<close>, the chunked-processing contract every resumable byte machine of the
  program obeys, and generic facts on lists and options that several components use.

  A \<^verbatim>\<open>Result<T, E>\<close> is \<open>'e + 'a\<close>: \<open>Inl\<close> is \<^verbatim>\<open>Err\<close>, \<open>Inr\<close> is \<^verbatim>\<open>Ok\<close>; the \<^verbatim>\<open>?\<close> operator is
  \<open>rbind\<close>. A \<^verbatim>\<open>Duration\<close> and an \<^verbatim>\<open>Instant\<close> are natural numbers of nanoseconds.
\<close>

named_theorems rust_eval \<open>unfolding rules that evaluate standard-library calls on closed inputs\<close>

section \<open>Results\<close>

type_synonym ('e, 'a) result = "'e + 'a"

definition rbind :: "('e, 'a) result \<Rightarrow> ('a \<Rightarrow> ('e, 'b) result) \<Rightarrow> ('e, 'b) result" where
  "rbind r f = (case r of Inl e \<Rightarrow> Inl e | Inr x \<Rightarrow> f x)"

definition ok_or :: "'a option \<Rightarrow> 'e \<Rightarrow> ('e, 'a) result" where
  "ok_or x e = (case x of None \<Rightarrow> Inl e | Some y \<Rightarrow> Inr y)"

definition or_else :: "'a option \<Rightarrow> 'a option \<Rightarrow> 'a option" where
  "or_else x y = (case x of None \<Rightarrow> y | Some z \<Rightarrow> Some z)"

definition unwrap_or :: "'a option \<Rightarrow> 'a \<Rightarrow> 'a" where
  "unwrap_or x d = (case x of None \<Rightarrow> d | Some y \<Rightarrow> y)"

lemma rbind_simps [simp]: "rbind (Inl e) f = Inl e" "rbind (Inr x) f = f x"
  by (simp_all add: rbind_def)

lemma rbind_Inr_iff: "rbind r f = Inr y \<longleftrightarrow> (\<exists>x. r = Inr x \<and> f x = Inr y)"
  by (cases r) auto

lemma rbind_assoc: "rbind (rbind r f) g = rbind r (\<lambda>x. rbind (f x) g)"
  by (cases r) simp_all

lemma ok_or_simps [simp]: "ok_or None e = Inl e" "ok_or (Some y) e = Inr y"
  by (simp_all add: ok_or_def)

lemma or_else_simps [simp]: "or_else None y = y" "or_else (Some z) y = Some z"
  by (simp_all add: or_else_def)

lemma or_else_None_right [simp]: "or_else x None = x"
  by (cases x) simp_all

lemma unwrap_or_simps [simp]: "unwrap_or None d = d" "unwrap_or (Some y) d = y"
  by (simp_all add: unwrap_or_def)

section \<open>Time\<close>

type_synonym duration = nat
type_synonym instant = nat

definition from_secs :: "nat \<Rightarrow> duration" where
  "from_secs n = n * 1000000000"

definition from_millis :: "nat \<Rightarrow> duration" where
  "from_millis n = n * 1000000"

lemma from_secs_mono: "a \<le> b \<Longrightarrow> from_secs a \<le> from_secs b"
  by (simp add: from_secs_def)

section \<open>Resumable stream machines\<close>

text \<open>
  A machine that consumes its input one element at a time and emits output as it goes. The
  program has several (the SSE frame decoder, the bracketed-paste normaliser): each has a
  \<^verbatim>\<open>for\<close> loop over a chunk that updates private fields. What callers rely on is that the
  way the network or the terminal fragments the input is invisible.
\<close>

fun run_machine :: "('s \<Rightarrow> 'i \<Rightarrow> 's \<times> 'o list) \<Rightarrow> 's \<Rightarrow> 'i list \<Rightarrow> 's \<times> 'o list" where
  "run_machine step s [] = (s, [])"
| "run_machine step s (i # is) =
     (let (s', out) = step s i; (s'', outs) = run_machine step s' is in (s'', out @ outs))"

fun run_chunks :: "('s \<Rightarrow> 'c \<Rightarrow> 's \<times> 'o list) \<Rightarrow> 's \<Rightarrow> 'c list \<Rightarrow> 's \<times> 'o list" where
  "run_chunks push s [] = (s, [])"
| "run_chunks push s (c # cs) =
     (let (s', out) = push s c; (s'', outs) = run_chunks push s' cs in (s'', out @ outs))"

lemma run_machine_append:
  "run_machine step s (xs @ ys) =
     (let (s', out) = run_machine step s xs; (s'', outs) = run_machine step s' ys
      in (s'', out @ outs))"
  by (induction xs arbitrary: s) (auto simp: Let_def split: prod.splits)

text \<open>
  The contract of such a machine as its callers see it: feeding two chunks in turn is feeding
  their concatenation, and an empty chunk is a no-op. Every fact about fragmentation follows.
\<close>

locale chunked_machine =
  fixes push :: "'s \<Rightarrow> 'i list \<Rightarrow> 's \<times> 'o list"
    and valid_chunk :: "'i list \<Rightarrow> bool"
    and reachable_state :: "'s \<Rightarrow> bool"
  assumes push_empty: "reachable_state s \<Longrightarrow> push s [] = (s, [])"
    and push_append: "reachable_state s \<Longrightarrow> valid_chunk xs \<Longrightarrow> valid_chunk ys \<Longrightarrow>
      push s (xs @ ys) =
        (let (s', out) = push s xs; (s'', outs) = push s' ys in (s'', out @ outs))"
    and push_reachable: "reachable_state s \<Longrightarrow> valid_chunk xs \<Longrightarrow> reachable_state (fst (push s xs))"
    and valid_append: "valid_chunk xs \<Longrightarrow> valid_chunk ys \<Longrightarrow> valid_chunk (xs @ ys)"
    and valid_empty: "valid_chunk []"
begin

lemma valid_concat: "list_all valid_chunk cs \<Longrightarrow> valid_chunk (concat cs)"
  by (induction cs) (auto intro: valid_append valid_empty)

lemma run_chunks_concat:
  "reachable_state s \<Longrightarrow> list_all valid_chunk cs \<Longrightarrow> run_chunks push s cs = push s (concat cs)"
proof (induction cs arbitrary: s)
  case Nil
  then show ?case by (simp add: push_empty)
next
  case (Cons c cs)
  obtain s' out where c: "push s c = (s', out)" by fastforce
  from Cons.prems have "reachable_state s'"
    using push_reachable [of s c] c by simp
  with Cons have "run_chunks push s' cs = push s' (concat cs)" by simp
  with Cons.prems c show ?case
    using push_append [of s c "concat cs"] valid_concat [of cs] by simp
qed

lemma fragmentation_invisible:
  "reachable_state s \<Longrightarrow> list_all valid_chunk cs \<Longrightarrow> list_all valid_chunk ds \<Longrightarrow>
    concat cs = concat ds \<Longrightarrow> run_chunks push s cs = run_chunks push s ds"
  by (simp add: run_chunks_concat)

lemma reachable_run: "reachable_state s \<Longrightarrow> list_all valid_chunk cs \<Longrightarrow>
    reachable_state (fst (run_chunks push s cs))"
  using run_chunks_concat push_reachable valid_concat by metis

end

section \<open>Lists\<close>

definition list_contains :: "'a list \<Rightarrow> 'a \<Rightarrow> bool" where
  "list_contains xs x = list_ex ((=) x) xs"

lemma length_dropWhile_less [termination_simp]: "length (dropWhile P xs) < Suc (length xs)"
  by (simp add: less_Suc_eq_le length_dropWhile_le)

lemma list_contains_iff [simp]: "list_contains xs x \<longleftrightarrow> x \<in> set xs"
  by (auto simp: list_contains_def list_ex_iff)

text \<open>\<^verbatim>\<open>Iterator::position\<close> and \<^verbatim>\<open>Vec::remove\<close> at that position.\<close>

fun position :: "('a \<Rightarrow> bool) \<Rightarrow> 'a list \<Rightarrow> nat option" where
  "position p [] = None"
| "position p (x # xs) = (if p x then Some 0 else map_option Suc (position p xs))"

lemma position_None_iff: "position p xs = None \<longleftrightarrow> (\<forall>x \<in> set xs. \<not> p x)"
  by (induction xs) auto

lemma position_SomeD:
  "position p xs = Some i \<Longrightarrow> i < length xs \<and> p (xs ! i) \<and> (\<forall>j < i. \<not> p (xs ! j))"
proof (induction xs arbitrary: i)
  case Nil
  then show ?case by simp
next
  case (Cons x xs)
  show ?case
  proof (cases "p x")
    case True
    with Cons.prems show ?thesis by auto
  next
    case False
    with Cons.prems obtain k where k: "position p xs = Some k" "i = Suc k" by auto
    from Cons.IH [OF k(1)] k(2) False show ?thesis
      by (auto simp: less_Suc_eq_0_disj)
  qed
qed

lemma position_nth_distinct:
  "distinct (map f xs) \<Longrightarrow> i < length xs \<Longrightarrow> position (\<lambda>x. f x = f (xs ! i)) xs = Some i"
proof (induction xs arbitrary: i)
  case Nil
  then show ?case by simp
next
  case (Cons x xs)
  show ?case
  proof (cases i)
    case 0
    then show ?thesis by simp
  next
    case (Suc k)
    with Cons.prems have "f x \<noteq> f (xs ! k)" by (auto simp: image_iff)
    with Suc Cons show ?thesis by simp
  qed
qed

lemma find_SomeD: "find p xs = Some x \<Longrightarrow> x \<in> set xs \<and> p x"
  by (auto simp: find_Some_iff)

lemma find_None_ball: "List.find p xs = None \<longleftrightarrow> (\<forall>x \<in> set xs. \<not> p x)"
  by (auto simp: find_None_iff)

end
