(* ===== verification/Utf8.thy ===== *)
theory Utf8
  imports Rust_Text
begin

text \<open>
  UTF-8 as Rust's standard library reads it: \<^verbatim>\<open>String::from_utf8_lossy\<close>, which replaces every
  maximal ill-formed byte run by U+FFFD, and well-formedness (\<^verbatim>\<open>str::from_utf8\<close> is \<^verbatim>\<open>Ok\<close>).
\<close>

definition byte_in :: "nat \<Rightarrow> nat \<Rightarrow> char \<Rightarrow> bool" where
  "byte_in lo hi c \<longleftrightarrow> lo \<le> code_of c \<and> code_of c \<le> hi"

text \<open>The second byte a three- or four-byte lead byte admits (no overlong forms, no surrogates).\<close>

definition second3_ok :: "char \<Rightarrow> char \<Rightarrow> bool" where
  "second3_ok c d =
     (if code_of c = 0xE0 then byte_in 0xA0 0xBF d
      else if code_of c = 0xED then byte_in 0x80 0x9F d
      else is_cont d)"

definition second4_ok :: "char \<Rightarrow> char \<Rightarrow> bool" where
  "second4_ok c d =
     (if code_of c = 0xF0 then byte_in 0x90 0xBF d
      else if code_of c = 0xF4 then byte_in 0x80 0x8F d
      else is_cont d)"

text \<open>
  The first scalar of a byte string: whether it is well formed, and how many bytes it (or its
  ill-formed maximal prefix) takes.
\<close>

fun scalar_len :: "string \<Rightarrow> bool \<times> nat" where
  "scalar_len [] = (True, 0)"
| "scalar_len (c # t) =
     (if is_ascii c then (True, 1)
      else if byte_in 0xC2 0xDF c then
        (case t of d # _ \<Rightarrow> if is_cont d then (True, 2) else (False, 1) | [] \<Rightarrow> (False, 1))
      else if byte_in 0xE0 0xEF c then
        (case t of
           d # u \<Rightarrow>
             if second3_ok c d then
               (case u of e # _ \<Rightarrow> if is_cont e then (True, 3) else (False, 2) | [] \<Rightarrow> (False, 2))
             else (False, 1)
         | [] \<Rightarrow> (False, 1))
      else if byte_in 0xF0 0xF4 c then
        (case t of
           d # u \<Rightarrow>
             if second4_ok c d then
               (case u of
                  e # v \<Rightarrow>
                    if is_cont e then
                      (case v of f # _ \<Rightarrow> if is_cont f then (True, 4) else (False, 3) | [] \<Rightarrow> (False, 3))
                    else (False, 2)
                | [] \<Rightarrow> (False, 2))
             else (False, 1)
         | [] \<Rightarrow> (False, 1))
      else (False, 1))"

definition replacement :: string where
  "replacement = [CHR 0xEF, CHR 0xBF, CHR 0xBD]"

lemma scalar_len_pos: "s \<noteq> [] \<Longrightarrow> 0 < snd (scalar_len s)"
  by (cases s) (auto split: list.splits)

lemma scalar_len_Cons_pos: "(ok, k) = scalar_len (c # t) \<Longrightarrow> 0 < k"
  using scalar_len_pos [of "c # t"] by (metis list.distinct(1) snd_conv)

declare scalar_len.simps(2) [simp del]

function from_utf8_lossy :: "string \<Rightarrow> string" where
  "from_utf8_lossy [] = []"
| "from_utf8_lossy (c # t) =
     (let (ok, k) = scalar_len (c # t)
      in (if ok then take k (c # t) else replacement) @ from_utf8_lossy (drop k (c # t)))"
  by pat_completeness auto
termination
  by (relation "measure length") (auto dest: scalar_len_Cons_pos)

function valid_utf8 :: "string \<Rightarrow> bool" where
  "valid_utf8 [] = True"
| "valid_utf8 (c # t) =
     (fst (scalar_len (c # t)) \<and> valid_utf8 (drop (snd (scalar_len (c # t))) (c # t)))"
  by pat_completeness auto
termination
  by (relation "measure length") (auto simp: scalar_len_pos)

declare from_utf8_lossy.simps(2) [simp del] valid_utf8.simps(2) [simp del]

lemma scalar_len_append:
  "fst (scalar_len (c # t)) \<Longrightarrow>
    scalar_len ((c # t) @ y) = scalar_len (c # t) \<and> snd (scalar_len (c # t)) \<le> length (c # t)"
proof -
  assume ok: "fst (scalar_len (c # t))"
  show ?thesis
  proof (cases t)
    case Nil
    with ok show ?thesis by (simp add: scalar_len.simps(2) split: if_splits)
  next
    case t1: (Cons d t1)
    show ?thesis
    proof (cases t1)
      case Nil
      with ok t1 show ?thesis by (simp add: scalar_len.simps(2) split: if_splits)
    next
      case t2: (Cons e t2)
      with ok t1 show ?thesis
        by (cases t2) (simp_all add: scalar_len.simps(2) split: if_splits)
    qed
  qed
qed

lemma lossy_append: "valid_utf8 x \<Longrightarrow> from_utf8_lossy (x @ y) = x @ from_utf8_lossy y"
proof (induction x rule: valid_utf8.induct)
  case 1
  then show ?case by simp
next
  case (2 c t)
  obtain k where k: "scalar_len (c # t) = (True, k)" "valid_utf8 (drop k (c # t))"
    using "2.prems" by (cases "scalar_len (c # t)") (auto simp: valid_utf8.simps(2))
  with scalar_len_append [of c t y] have ky: "scalar_len (c # t @ y) = (True, k)"
    and kl: "k \<le> length (c # t)" by auto
  have "from_utf8_lossy (drop k (c # t) @ y) = drop k (c # t) @ from_utf8_lossy y"
    using 2 k by simp
  moreover have "drop k (c # t @ y) = drop k (c # t) @ y" "take k (c # t @ y) = take k (c # t)"
    using kl by (simp_all add: drop_Cons' take_Cons')
  moreover have "take k (c # t) @ drop k (c # t) @ from_utf8_lossy y = (c # t) @ from_utf8_lossy y"
    by (metis append.assoc append_take_drop_id)
  ultimately show ?case
    using ky by (simp add: from_utf8_lossy.simps(2) [of c "t @ y"])
qed

lemma lossy_id: "valid_utf8 x \<Longrightarrow> from_utf8_lossy x = x"
  using lossy_append [of x "[]"] by simp

lemma valid_utf8_append: "valid_utf8 x \<Longrightarrow> valid_utf8 y \<Longrightarrow> valid_utf8 (x @ y)"
proof (induction x rule: valid_utf8.induct)
  case 1
  then show ?case by simp
next
  case (2 c t)
  obtain k where k: "scalar_len (c # t) = (True, k)" "valid_utf8 (drop k (c # t))"
    using "2.prems" by (cases "scalar_len (c # t)") (auto simp: valid_utf8.simps(2))
  with scalar_len_append [of c t y] have ky: "scalar_len (c # t @ y) = (True, k)"
    and kl: "k \<le> length (c # t)" by auto
  have "valid_utf8 (drop k (c # t) @ y)" using 2 k by simp
  moreover have "drop k (c # t @ y) = drop k (c # t) @ y"
    using kl by (simp add: drop_Cons')
  ultimately show ?case using ky by (simp add: valid_utf8.simps(2) [of c "t @ y"])
qed

lemma valid_utf8_ascii: "list_all is_ascii s \<Longrightarrow> valid_utf8 s"
  by (induction s) (auto simp: valid_utf8.simps(2) scalar_len.simps(2))

lemmas [rust_eval] = byte_in_def second3_ok_def second4_ok_def scalar_len.simps replacement_def
  from_utf8_lossy.simps valid_utf8.simps

end
