(* ===== verification/Sse_Frames.thy ===== *)
theory Sse_Frames
  imports Utf8
begin

text \<open>
  \<^verbatim>\<open>codex_sse.rs\<close>, first layer: \<^verbatim>\<open>FrameDecoder\<close>, the byte-level framing of a server-sent-event
  stream. State: the text not yet split into frames and the carriage return held back at the end of
  a read. Operations: \<^verbatim>\<open>push\<close> (a network read), \<^verbatim>\<open>finish\<close> (end of stream). The abstract
  specification normalises the line ends of the whole stream and cuts it at blank lines.
\<close>

section \<open>Model\<close>

record sse_frame =
  event :: "string option"
  data :: string

record frame_decoder =
  buffer :: string
  pending_cr :: bool

definition new_decoder :: frame_decoder where
  "new_decoder = \<lparr>buffer = [], pending_cr = False\<rparr>"

abbreviation cr :: char where "cr \<equiv> CHR 0x0D"
abbreviation lf :: char where "lf \<equiv> CHR 0x0A"

definition absorb_char :: "frame_decoder \<Rightarrow> char \<Rightarrow> frame_decoder" where
  "absorb_char d c =
     (if c = cr then
        (if pending_cr d then d\<lparr>buffer := buffer d @ [lf], pending_cr := True\<rparr>
         else d\<lparr>pending_cr := True\<rparr>)
      else if c = lf then d\<lparr>pending_cr := False, buffer := buffer d @ [lf]\<rparr>
      else if pending_cr d then d\<lparr>buffer := buffer d @ [lf] @ [c], pending_cr := False\<rparr>
      else d\<lparr>buffer := buffer d @ [c]\<rparr>)"

definition absorb :: "frame_decoder \<Rightarrow> string \<Rightarrow> frame_decoder" where
  "absorb d text = foldl absorb_char d text"

text \<open>\<^verbatim>\<open>find("\n\n")\<close>, and the text up to and including it.\<close>

fun split_blank :: "string \<Rightarrow> (string \<times> string) option" where
  "split_blank (a # b # s) =
     (if a = lf \<and> b = lf then Some ([a, b], s)
      else map_option (\<lambda>(raw, rest). (a # raw, rest)) (split_blank (b # s)))"
| "split_blank s = None"

text \<open>One line of a frame, folded into the event name and the data lines seen so far.\<close>

definition frame_line ::
    "string option \<times> string list \<Rightarrow> string \<Rightarrow> string option \<times> string list" where
  "frame_line acc line =
     (if line = [] then acc
      else if starts_with line '':'' then acc
      else
        let (field, val) =
          (case split_once CHR '':'' line of
             Some (f, v) \<Rightarrow> (f, unwrap_or (strip_prefix v '' '') v)
           | None \<Rightarrow> (line, []))
        in if field = ''event'' then (Some val, snd acc)
           else if field = ''data'' then (fst acc, snd acc @ [val])
           else acc)"

definition parse_frame :: "string \<Rightarrow> sse_frame option" where
  "parse_frame raw =
     (let (ev, data_lines) = foldl frame_line (None, []) (split_on lf raw)
      in if ev = None \<and> data_lines = [] then None
         else Some \<lparr>event = ev, data = join_with [lf] data_lines\<rparr>)"

lemma split_blank_length: "split_blank s = Some (raw, rest) \<Longrightarrow> length rest < length s"
  by (induction s arbitrary: raw rest rule: split_blank.induct) (force split: if_splits)+

text \<open>The \<^verbatim>\<open>while let\<close> loop of \<^verbatim>\<open>drain\<close>: the raw frames cut off, and what stays in the buffer.\<close>

function drain_raw :: "string \<Rightarrow> string list \<times> string" where
  "drain_raw s =
     (case split_blank s of
        None \<Rightarrow> ([], s)
      | Some (raw, rest) \<Rightarrow> (let (raws, left) = drain_raw rest in (raw # raws, left)))"
  by pat_completeness auto
termination
  by (relation "measure length") (auto dest: split_blank_length)

declare drain_raw.simps [simp del]

definition drain :: "frame_decoder \<Rightarrow> bool \<Rightarrow> frame_decoder \<times> sse_frame list" where
  "drain d flush =
     (let (raws, left) = drain_raw (buffer d); frames = List.map_filter parse_frame raws
      in if flush then
           (d\<lparr>buffer := []\<rparr>,
            frames @ (case parse_frame left of None \<Rightarrow> [] | Some f \<Rightarrow> [f]))
         else (d\<lparr>buffer := left\<rparr>, frames))"

definition push :: "frame_decoder \<Rightarrow> string \<Rightarrow> frame_decoder \<times> sse_frame list" where
  "push d bytes = drain (absorb d (from_utf8_lossy bytes)) False"

definition finish :: "frame_decoder \<Rightarrow> frame_decoder \<times> sse_frame list" where
  "finish d =
     (let d' = (if pending_cr d then d\<lparr>buffer := buffer d @ [lf], pending_cr := False\<rparr> else d)
      in drain d' True)"

text \<open>A whole stream as the pipeline runs it: one \<^verbatim>\<open>push\<close> per read, then \<^verbatim>\<open>finish\<close>.\<close>

definition decode_stream :: "string list \<Rightarrow> sse_frame list" where
  "decode_stream chunks =
     (let (d, frames) = run_chunks push new_decoder chunks in frames @ snd (finish d))"

text \<open>The text \<^verbatim>\<open>anthropic_frame\<close> writes for one downstream event.\<close>

definition anthropic_frame_text :: "string \<Rightarrow> string \<Rightarrow> string" where
  "anthropic_frame_text ev body = ''event: '' @ ev @ [lf] @ ''data: '' @ body @ [lf, lf]"

section \<open>Specification\<close>

fun normalize_newlines :: "string \<Rightarrow> string" where
  "normalize_newlines [] = []"
| "normalize_newlines (c # s) =
     (if c = cr then
        (case s of d # t \<Rightarrow> if d = lf then lf # normalize_newlines t else lf # normalize_newlines s
         | [] \<Rightarrow> [lf])
      else c # normalize_newlines s)"

definition sse_blocks :: "string \<Rightarrow> string list" where
  "sse_blocks s = (let (raws, left) = drain_raw s in raws @ [left])"

definition sse_spec :: "string \<Rightarrow> sse_frame list" where
  "sse_spec stream = List.map_filter parse_frame (sse_blocks (normalize_newlines stream))"

section \<open>Lemmas\<close>

text \<open>What one text adds to the buffer, as a function of the held-back carriage return.\<close>

fun norm_from :: "bool \<Rightarrow> string \<Rightarrow> string \<times> bool" where
  "norm_from p [] = ([], p)"
| "norm_from p (c # s) =
     (if c = cr then (let (t, q) = norm_from True s in ((if p then [lf] else []) @ t, q))
      else if c = lf then (let (t, q) = norm_from False s in (lf # t, q))
      else (let (t, q) = norm_from False s in ((if p then [lf] else []) @ c # t, q)))"

lemma absorb_norm:
  "absorb d s =
     d\<lparr>buffer := buffer d @ fst (norm_from (pending_cr d) s),
       pending_cr := snd (norm_from (pending_cr d) s)\<rparr>"
proof (induction s arbitrary: d)
  case Nil
  then show ?case by (simp add: absorb_def)
next
  case (Cons c s)
  have step: "absorb d (c # s) = absorb (absorb_char d c) s" by (simp add: absorb_def)
  show ?case unfolding step Cons.IH
    by (auto simp: absorb_char_def split: prod.splits)
qed

lemma absorb_append: "absorb d (x @ y) = absorb (absorb d x) y"
  by (simp add: absorb_def)

lemma norm_from_normalize:
  "fst (norm_from p s) @ (if snd (norm_from p s) then [lf] else []) =
     (if p then normalize_newlines (cr # s) else normalize_newlines s)"
proof (induction s arbitrary: p)
  case Nil
  then show ?case by simp
next
  case (Cons c s)
  from Cons.IH [of True] Cons.IH [of False] show ?case
    by (auto split: prod.splits)
qed

lemma split_blank_append:
  "split_blank x = Some (raw, rest) \<Longrightarrow> split_blank (x @ y) = Some (raw, rest @ y)"
  by (induction x arbitrary: raw rest rule: split_blank.induct) (force split: if_splits)+

lemma drain_raw_append:
  "drain_raw (x @ y) =
     (let (fs, r) = drain_raw x; (gs, r') = drain_raw (r @ y) in (fs @ gs, r'))"
proof (induction x rule: drain_raw.induct)
  case (1 x)
  show ?case
  proof (cases "split_blank x")
    case None
    then show ?thesis by (simp add: drain_raw.simps [of x])
  next
    case (Some p)
    obtain raw rest where p: "p = (raw, rest)" by fastforce
    with Some have "split_blank (x @ y) = Some (raw, rest @ y)" by (simp add: split_blank_append)
    moreover have "drain_raw (rest @ y) =
        (let (fs, r) = drain_raw rest; (gs, r') = drain_raw (r @ y) in (fs @ gs, r'))"
      using 1 Some p by blast
    ultimately show ?thesis using Some p
      by (simp add: drain_raw.simps [of x] drain_raw.simps [of "x @ y"] Let_def split: prod.splits)
  qed
qed

lemma drain_raw_left: "drain_raw s = (raws, left) \<Longrightarrow> split_blank left = None"
proof (induction s arbitrary: raws left rule: drain_raw.induct)
  case (1 s)
  show ?case
  proof (cases "split_blank s")
    case None
    with "1.prems" show ?thesis by (simp add: drain_raw.simps [of s])
  next
    case (Some p)
    obtain raw rest where p: "p = (raw, rest)" by fastforce
    obtain raws' where "drain_raw rest = (raws', left)"
      using "1.prems" Some p by (auto simp: drain_raw.simps [of s] split: prod.splits)
    with 1 Some p show ?thesis by blast
  qed
qed

lemma drain_raw_blocked: "split_blank s = None \<Longrightarrow> drain_raw s = ([], s)"
  by (simp add: drain_raw.simps)

lemma map_filter_append [simp]:
  "List.map_filter f (xs @ ys) = List.map_filter f xs @ List.map_filter f ys"
  by (simp add: List.map_filter_def)

section \<open>The decoder is a chunked machine\<close>

text \<open>Between two reads the buffer holds no complete frame.\<close>

definition decoder_ok :: "frame_decoder \<Rightarrow> bool" where
  "decoder_ok d \<longleftrightarrow> split_blank (buffer d) = None"

lemma decoder_ok_new [simp]: "decoder_ok new_decoder"
  by (simp add: decoder_ok_def new_decoder_def)

lemma push_eq:
  "valid_utf8 bytes \<Longrightarrow> push d bytes =
     (let (t, q) = norm_from (pending_cr d) bytes; (raws, left) = drain_raw (buffer d @ t)
      in (d\<lparr>buffer := left, pending_cr := q\<rparr>, List.map_filter parse_frame raws))"
  by (simp add: push_def lossy_id absorb_norm drain_def split: prod.splits)

lemma norm_from_append:
  "norm_from p (x @ y) =
     (let (t, q) = norm_from p x; (u, r) = norm_from q y in (t @ u, r))"
  by (induction x arbitrary: p) (auto simp: Let_def split: prod.splits)

lemma push_append_chunks:
  assumes "valid_utf8 x" "valid_utf8 y"
  shows "push d (x @ y) =
    (let (d', out) = push d x; (d'', outs) = push d' y in (d'', out @ outs))"
proof -
  obtain t q where x: "norm_from (pending_cr d) x = (t, q)" by fastforce
  obtain u r where y: "norm_from q y = (u, r)" by fastforce
  obtain fs left where t: "drain_raw (buffer d @ t) = (fs, left)" by fastforce
  obtain gs left' where u: "drain_raw (left @ u) = (gs, left')" by fastforce
  have "drain_raw (buffer d @ t @ u) = (fs @ gs, left')"
    using drain_raw_append [of "buffer d @ t" u] t u by simp
  then show ?thesis
    using assms x y t u by (simp add: push_eq valid_utf8_append norm_from_append)
qed

lemma decoder_ok_push: "valid_utf8 x \<Longrightarrow> decoder_ok (fst (push d x))"
  by (auto simp: push_eq decoder_ok_def Let_def dest: drain_raw_left split: prod.splits)

lemma push_nil: "decoder_ok d \<Longrightarrow> push d [] = (d, [])"
  by (simp add: push_eq decoder_ok_def drain_raw_blocked List.map_filter_def)

interpretation frames: chunked_machine push valid_utf8 decoder_ok
  by unfold_locales
    (simp_all add: push_nil push_append_chunks decoder_ok_push valid_utf8_append)

section \<open>Round trip with the frames the bridge writes\<close>

lemma split_on_segment: "c \<notin> set a \<Longrightarrow> split_on c (a @ c # s) = a # split_on c s"
  by (induction a) auto

lemma split_blank_end: "lf \<notin> set a \<Longrightarrow> split_blank (a @ [lf, lf] @ s) = Some (a @ [lf, lf], s)"
proof (induction a)
  case Nil
  then show ?case by simp
next
  case (Cons x a)
  then show ?case by (cases a) auto
qed

lemma split_blank_line:
  "lf \<notin> set a \<Longrightarrow> c \<noteq> lf \<Longrightarrow> split_blank (a @ [lf] @ c # s) =
     map_option (\<lambda>(raw, rest). (a @ [lf] @ raw, rest)) (split_blank (c # s))"
proof (induction a)
  case Nil
  then show ?case by (cases "split_blank (c # s)") auto
next
  case (Cons x a)
  then show ?case
    by (cases a) (auto simp: option.map_comp comp_def case_prod_unfold)
qed

lemma split_blank_frame:
  assumes "lf \<notin> set ev" "lf \<notin> set body"
  shows "split_blank (anthropic_frame_text ev body @ s) = Some (anthropic_frame_text ev body, s)"
proof -
  have "split_blank (''data: '' @ body @ [lf, lf] @ s) = Some (''data: '' @ body @ [lf, lf], s)"
    using split_blank_end [of "''data: '' @ body" s] assms by simp
  then show ?thesis
    using split_blank_line [of "''event: '' @ ev" "CHR ''d''" "''ata: '' @ body @ [lf, lf] @ s"] assms
    by (simp add: anthropic_frame_text_def)
qed

lemma parse_frame_frame:
  assumes "lf \<notin> set ev" "lf \<notin> set body"
  shows "parse_frame (anthropic_frame_text ev body) = Some \<lparr>event = Some ev, data = body\<rparr>"
proof -
  have "split_on lf (anthropic_frame_text ev body) =
      [''event: '' @ ev, ''data: '' @ body, [], []]"
    using assms split_on_segment [of lf "''event: '' @ ev" "''data: '' @ body @ [lf, lf]"]
      split_on_segment [of lf "''data: '' @ body" "[lf]"]
    by (simp add: anthropic_frame_text_def)
  moreover have "frame_line (None, []) (''event: '' @ ev) = (Some ev, [])"
    by (simp add: frame_line_def starts_with_def strip_prefix_def)
  moreover have "frame_line (Some ev, []) (''data: '' @ body) = (Some ev, [body])"
    by (simp add: frame_line_def starts_with_def strip_prefix_def)
  ultimately show ?thesis by (simp add: parse_frame_def frame_line_def)
qed

lemma normalize_no_cr: "cr \<notin> set s \<Longrightarrow> normalize_newlines s = s"
  by (induction s) auto

definition frame_ok :: "string \<times> string \<Rightarrow> bool" where
  "frame_ok f \<longleftrightarrow> set (fst f @ snd f) \<inter> {cr, lf} = {}"

definition frames_text :: "(string \<times> string) list \<Rightarrow> string" where
  "frames_text fs = concat (map (\<lambda>(ev, body). anthropic_frame_text ev body) fs)"

lemma drain_raw_frames:
  "list_all frame_ok fs \<Longrightarrow>
    drain_raw (frames_text fs) = (map (\<lambda>(ev, body). anthropic_frame_text ev body) fs, [])"
proof (induction fs)
  case Nil
  then show ?case by (simp add: frames_text_def drain_raw.simps)
next
  case (Cons f fs)
  obtain ev body where f: "f = (ev, body)" by fastforce
  with Cons.prems have ok: "lf \<notin> set ev" "lf \<notin> set body" by (auto simp: frame_ok_def)
  have "split_blank (frames_text (f # fs)) = Some (anthropic_frame_text ev body, frames_text fs)"
    using split_blank_frame [OF ok, of "frames_text fs"] by (simp add: f frames_text_def)
  with Cons f show ?case by (simp add: drain_raw.simps [of "frames_text ((ev, body) # fs)"])
qed

lemma decode_stream_eq:
  assumes "list_all valid_utf8 chunks"
  shows "decode_stream chunks = sse_spec (concat chunks)"
proof -
  let ?s = "concat chunks"
  obtain t q where n: "norm_from False ?s = (t, q)" by fastforce
  obtain raws left where r: "drain_raw t = (raws, left)" by fastforce
  have "run_chunks push new_decoder chunks = push new_decoder ?s"
    using assms by (simp add: frames.run_chunks_concat)
  also have "\<dots> = (\<lparr>buffer = left, pending_cr = q\<rparr>, List.map_filter parse_frame raws)"
    using n r frames.valid_concat [OF assms] by (simp add: push_eq new_decoder_def)
  finally have run: "run_chunks push new_decoder chunks =
      (\<lparr>buffer = left, pending_cr = q\<rparr>, List.map_filter parse_frame raws)" .
  have norm: "t @ (if q then [lf] else []) = normalize_newlines ?s"
    using norm_from_normalize [of False ?s] n by simp
  have "drain_raw left = ([], left)"
    using r by (auto intro: drain_raw_blocked drain_raw_left)
  then have fin: "snd (finish \<lparr>buffer = left, pending_cr = q\<rparr>) =
      (let (raws', left') = drain_raw (left @ (if q then [lf] else []))
       in List.map_filter parse_frame (raws' @ [left']))"
    by (auto simp: finish_def drain_def Let_def List.map_filter_def split: prod.splits option.splits)
  show ?thesis
    using run fin drain_raw_append [of t "if q then [lf] else []"] r norm
    by (simp add: decode_stream_def sse_spec_def sse_blocks_def Let_def split: prod.splits)
qed

section \<open>Properties\<close>

text \<open>
  C9. The decoder implements the abstract reading of an event stream: however the network cuts a
  stream into reads at scalar boundaries, the frames delivered by the reads and the final flush are
  the blank-line-separated blocks of the whole stream after line-end normalisation (CRLF, CR and LF
  alike), each parsed once. In particular two fragmentations of one stream give the same frames.
\<close>

theorem decode_stream_refines_spec:
  assumes "list_all valid_utf8 chunks"
  shows "decode_stream chunks = sse_spec (concat chunks)"
  using assms by (rule decode_stream_eq)

theorem decode_stream_refines_spec_witness:
  "decode_stream [''event: a'' @ [cr], [lf] @ ''data: x'' @ [lf], [cr]] =
     sse_spec (''event: a'' @ [cr, lf] @ ''data: x'' @ [lf, cr])"
proof -
  have "list_all valid_utf8 [''event: a'' @ [cr], [lf] @ ''data: x'' @ [lf], [cr]]"
    by (simp add: valid_utf8_ascii is_ascii_def code_of_def)
  from decode_stream_refines_spec [OF this] show ?thesis by simp
qed

text \<open>
  Round trip: the frames the bridge writes with \<^verbatim>\<open>anthropic_frame\<close> are read back by the decoder
  as exactly the same events and bodies, in order, whatever the fragmentation.
\<close>

theorem decode_frames_roundtrip:
  assumes "list_all frame_ok fs" "list_all valid_utf8 chunks" "concat chunks = frames_text fs"
  shows "decode_stream chunks = map (\<lambda>(ev, body). \<lparr>event = Some ev, data = body\<rparr>) fs"
proof -
  have "cr \<notin> set (frames_text fs)"
    using assms(1) by (auto simp: frames_text_def anthropic_frame_text_def frame_ok_def list_all_iff)
  then have "decode_stream chunks = List.map_filter parse_frame (fst (drain_raw (frames_text fs)) @ [[]])"
    using decode_stream_eq [OF assms(2)] assms(3) drain_raw_frames [OF assms(1)]
    by (simp add: sse_spec_def sse_blocks_def normalize_no_cr)
  moreover have "parse_frame [] = None" by (simp add: parse_frame_def frame_line_def)
  moreover have "List.map_filter parse_frame (map (\<lambda>(ev, body). anthropic_frame_text ev body) fs) =
      map (\<lambda>(ev, body). \<lparr>event = Some ev, data = body\<rparr>) fs"
    using assms(1)
    by (induction fs) (auto simp: List.map_filter_def frame_ok_def parse_frame_frame)
  ultimately show ?thesis
    using drain_raw_frames [OF assms(1)] by (simp add: List.map_filter_def)
qed

theorem decode_frames_roundtrip_witness:
  "decode_stream [''event: ping'' @ [lf] @ ''da'', ''ta: {}'' @ [lf, lf]] =
     [\<lparr>event = Some ''ping'', data = ''{}''\<rparr>]"
proof -
  let ?cs = "[''event: ping'' @ [lf] @ ''da'', ''ta: {}'' @ [lf, lf]]"
  have "list_all frame_ok [(''ping'', ''{}'')]" by (simp add: frame_ok_def)
  moreover have "list_all valid_utf8 ?cs"
    by (simp add: valid_utf8_ascii is_ascii_def code_of_def)
  moreover have "concat ?cs = frames_text [(''ping'', ''{}'')]"
    by (simp add: frames_text_def anthropic_frame_text_def)
  ultimately show ?thesis using decode_frames_roundtrip by fastforce
qed

text \<open>
  Fragmentation is not invisible when a read ends inside a multi-byte scalar: each read is
  decoded on its own by \<^verbatim>\<open>from_utf8_lossy\<close>, so a two-byte scalar cut between two reads reaches the
  translator as two replacement characters, while the same bytes in one read arrive intact.
\<close>

theorem split_scalar_is_corrupted:
  assumes "byte_in 0xC2 0xDF a" "is_cont b"
  shows "decode_stream [''data: '' @ [a], [b, lf, lf]] =
           [\<lparr>event = None, data = replacement @ replacement\<rparr>] \<and>
         decode_stream [''data: '' @ [a, b, lf, lf]] = [\<lparr>event = None, data = [a, b]\<rparr>]"
proof -
  have codes: "194 \<le> code_of a" "code_of a \<le> 223" "128 \<le> code_of b" "code_of b < 192"
    using assms by (auto simp: byte_in_def is_cont_def)
  then have ne: "a \<noteq> cr" "a \<noteq> lf" "b \<noteq> cr" "b \<noteq> lf" "a \<noteq> CHR '' ''" "a \<noteq> CHR '':''"
    "b \<noteq> CHR '':''"
    by (auto simp: code_of_def)
  have lossy_a: "from_utf8_lossy (''data: '' @ [a]) = ''data: '' @ replacement"
    using codes by (simp add: rust_eval)
  have lossy_b: "from_utf8_lossy [b, lf, lf] = replacement @ [lf, lf]"
    using codes by (simp add: rust_eval)
  have whole: "valid_utf8 (''data: '' @ [a, b, lf, lf])"
    using codes by (simp add: rust_eval)
  have d1: "push new_decoder (''data: '' @ [a]) =
      (\<lparr>buffer = ''data: '' @ replacement, pending_cr = False\<rparr>, [])"
    unfolding push_def lossy_a
    by (simp add: new_decoder_def absorb_def absorb_char_def drain_def drain_raw.simps
        replacement_def List.map_filter_def)
  have d2: "push \<lparr>buffer = ''data: '' @ replacement, pending_cr = False\<rparr> [b, lf, lf] =
      (new_decoder, [\<lparr>event = None, data = replacement @ replacement\<rparr>])"
    unfolding push_def lossy_b
    by (simp add: new_decoder_def absorb_def absorb_char_def drain_def drain_raw.simps
        replacement_def List.map_filter_def parse_frame_def frame_line_def starts_with_def
        strip_prefix_def)
  have fin: "finish new_decoder = (new_decoder, [])"
    by (simp add: finish_def new_decoder_def drain_def drain_raw.simps List.map_filter_def
        parse_frame_def frame_line_def)
  have "push new_decoder (''data: '' @ [a, b, lf, lf]) =
      (new_decoder, [\<lparr>event = None, data = [a, b]\<rparr>])"
    using ne lossy_id [OF whole]
    by (simp add: push_def new_decoder_def absorb_def absorb_char_def drain_def
        drain_raw.simps List.map_filter_def parse_frame_def frame_line_def starts_with_def
        strip_prefix_def)
  with d1 d2 fin show ?thesis by (simp add: decode_stream_def)
qed

theorem split_scalar_is_corrupted_witness:
  "decode_stream [''data: '' @ [CHR 0xC3], [CHR 0xA9, lf, lf]] \<noteq>
   decode_stream [''data: '' @ [CHR 0xC3, CHR 0xA9, lf, lf]]"
proof -
  have "byte_in 0xC2 0xDF (CHR 0xC3)" "is_cont (CHR 0xA9)" by (simp_all add: rust_eval)
  from split_scalar_is_corrupted [OF this] show ?thesis by (simp add: replacement_def)
qed

end
