(* ===== verification/Json_Api.thy ===== *)
theory Json_Api
  imports Rust_Text
begin

text \<open>
  The JSON library (\<^verbatim>\<open>serde_json\<close>) is not part of the repository, so the components that read
  JSON take its accessors as a parameter: a record of the functions they call, over an abstract type
  of values. No law of these functions is assumed anywhere: what is proved holds for every
  instantiation. The second section is one concrete instantiation, used by witnesses only.
\<close>

section \<open>The interface\<close>

record 'v json_api =
  from_str :: "string \<Rightarrow> 'v option"
  get_field :: "'v \<Rightarrow> string \<Rightarrow> 'v option"
  pointer :: "'v \<Rightarrow> string \<Rightarrow> 'v option"
  as_str :: "'v \<Rightarrow> string option"
  as_i64 :: "'v \<Rightarrow> int option"
  as_u64 :: "'v \<Rightarrow> nat option"
  as_array :: "'v \<Rightarrow> 'v list option"
  null_value :: 'v

definition get_str :: "'v json_api \<Rightarrow> 'v \<Rightarrow> string \<Rightarrow> string option" where
  "get_str J v k = Option.bind (get_field J v k) (as_str J)"

definition pointer_str :: "'v json_api \<Rightarrow> 'v \<Rightarrow> string \<Rightarrow> string option" where
  "pointer_str J v p = Option.bind (pointer J v p) (as_str J)"

section \<open>A concrete instance\<close>

datatype json_value =
    JNull
  | JStr string
  | JNum int
  | JArr "json_value list"
  | JObj "(string \<times> json_value) list"

fun jget :: "json_value \<Rightarrow> string \<Rightarrow> json_value option" where
  "jget (JObj kvs) k = map_of kvs k"
| "jget _ k = None"

fun jwalk :: "json_value \<Rightarrow> string list \<Rightarrow> json_value option" where
  "jwalk v [] = Some v"
| "jwalk v (k # ks) = Option.bind (jget v k) (\<lambda>w. jwalk w ks)"

definition jpointer :: "json_value \<Rightarrow> string \<Rightarrow> json_value option" where
  "jpointer v p = (case split_on CHR ''/'' p of [] # ks \<Rightarrow> if ks = [] then Some v else jwalk v ks | _ \<Rightarrow> None)"

fun jas_str :: "json_value \<Rightarrow> string option" where
  "jas_str (JStr s) = Some s"
| "jas_str _ = None"

fun jas_int :: "json_value \<Rightarrow> int option" where
  "jas_int (JNum n) = Some n"
| "jas_int _ = None"

fun jas_nat :: "json_value \<Rightarrow> nat option" where
  "jas_nat (JNum n) = (if 0 \<le> n then Some (nat n) else None)"
| "jas_nat _ = None"

fun jas_array :: "json_value \<Rightarrow> json_value list option" where
  "jas_array (JArr vs) = Some vs"
| "jas_array _ = None"

text \<open>The parser is a lookup in a table of texts, enough for a witness's inputs.\<close>

definition demo_json :: "(string \<times> json_value) list \<Rightarrow> json_value json_api" where
  "demo_json table =
     \<lparr>from_str = map_of table, get_field = jget, pointer = jpointer, as_str = jas_str,
      as_i64 = jas_int, as_u64 = jas_nat, as_array = jas_array, null_value = JNull\<rparr>"

lemma demo_json_simps [simp]:
  "from_str (demo_json t) = map_of t" "get_field (demo_json t) = jget"
  "pointer (demo_json t) = jpointer" "as_str (demo_json t) = jas_str"
  "as_i64 (demo_json t) = jas_int" "as_u64 (demo_json t) = jas_nat"
  "as_array (demo_json t) = jas_array" "null_value (demo_json t) = JNull"
  by (simp_all add: demo_json_def)

end
