(* ===== verification/Sse_Translator.thy ===== *)
theory Sse_Translator
  imports Sse_Frames Json_Api
begin

text \<open>
  \<^verbatim>\<open>codex_sse.rs\<close>, \<^verbatim>\<open>StreamTranslator\<close>: Responses events in, Anthropic events out. The frames it
  writes are the constructors of \<open>aframe\<close>, before \<^verbatim>\<open>serde_json\<close> serialises them; reading JSON is the
  parameter \<open>'v json_api\<close>. A method that pushes to \<^verbatim>\<open>out\<close> is an operation from a state to a state and
  the frames it added; \<open>run_ops\<close> runs operations in order. Block indices are naturals.
\<close>

section \<open>Frames\<close>

datatype block_kind = TextBlock | ThinkingBlock | ToolUse string string

datatype block_delta =
    TextDelta string
  | ThinkingDelta string
  | SignatureDelta string
  | InputJsonDelta string

datatype aframe =
    MessageStart string string
  | BlockStart nat block_kind
  | BlockDelta nat block_delta
  | BlockStop nat
  | MessageDelta string nat nat "nat option"
  | MessageStop
  | ErrorFrame string string

section \<open>State\<close>

record call_state =
  c_index :: "nat option"
  c_call_id :: "string option"
  c_name :: "string option"
  c_arguments :: string
  c_emitted :: nat
  c_closed :: bool

definition default_call :: call_state where
  "default_call =
     \<lparr>c_index = None, c_call_id = None, c_name = None, c_arguments = [], c_emitted = 0,
      c_closed = False\<rparr>"

record thinking_state =
  th_index :: nat
  th_parts :: nat
  th_signature :: "string option"

record in_band_failure =
  ib_category :: string
  ib_code :: "string option"
  ib_request_id :: "string option"

record translator =
  tr_model :: string
  tr_message_id :: string
  tr_started :: bool
  tr_finished :: bool
  tr_next_index :: nat
  tr_text_indices :: "int \<times> int \<Rightarrow> nat option"
  tr_open_blocks :: "nat list"
  tr_calls :: "call_state list"
  tr_aliases :: "string \<Rightarrow> nat option"
  tr_thinking :: "thinking_state option"
  tr_saw_tool_call :: bool
  tr_has_text_delta :: bool
  tr_input_tokens :: nat
  tr_output_tokens :: nat
  tr_cached_tokens :: nat
  tr_stop_reason :: "string option"
  tr_tool_names :: "string \<Rightarrow> string option"
  tr_in_band_failure :: "in_band_failure option"
  tr_in_band_provider_failure :: bool
  tr_terminal_account_failure :: bool

definition new_translator :: "string \<Rightarrow> string \<Rightarrow> (string \<Rightarrow> string option) \<Rightarrow> translator" where
  "new_translator model message_id tool_names =
     \<lparr>tr_model = model, tr_message_id = message_id, tr_started = False, tr_finished = False,
      tr_next_index = 0, tr_text_indices = (\<lambda>_. None), tr_open_blocks = [], tr_calls = [],
      tr_aliases = (\<lambda>_. None), tr_thinking = None, tr_saw_tool_call = False,
      tr_has_text_delta = False, tr_input_tokens = 0, tr_output_tokens = 0, tr_cached_tokens = 0,
      tr_stop_reason = None, tr_tool_names = tool_names, tr_in_band_failure = None,
      tr_in_band_provider_failure = False, tr_terminal_account_failure = False\<rparr>"

section \<open>Operations in sequence\<close>

type_synonym op = "translator \<Rightarrow> translator \<times> aframe list"

fun run_ops :: "op list \<Rightarrow> op" where
  "run_ops [] st = (st, [])"
| "run_ops (m # ms) st = (let (st1, o1) = m st; (st2, o2) = run_ops ms st1 in (st2, o1 @ o2))"

lemma run_ops_Cons:
  "run_ops (m # ms) st = (fst (run_ops ms (fst (m st))), snd (m st) @ snd (run_ops ms (fst (m st))))"
  by (simp add: Let_def split: prod.splits)

definition quiet :: "(translator \<Rightarrow> translator) \<Rightarrow> op" where
  "quiet f st = (f st, [])"

definition emit :: "aframe list \<Rightarrow> op" where
  "emit fs st = (st, fs)"

section \<open>Reading upstream values\<close>

definition text_key :: "'v json_api \<Rightarrow> 'v \<Rightarrow> int \<times> int" where
  "text_key J v =
     (unwrap_or (Option.bind (get_field J v ''output_index'') (as_i64 J)) 0,
      unwrap_or (Option.bind (get_field J v ''content_index'') (as_i64 J)) 0)"

definition message_item_text :: "'v json_api \<Rightarrow> 'v \<Rightarrow> string option" where
  "message_item_text J item =
     (case Option.bind (get_field J item ''content'') (as_array J) of
        None \<Rightarrow> None
      | Some parts \<Rightarrow>
          let txt = concat (List.map_filter (\<lambda>part. get_str J part ''text'') parts)
          in if txt = [] then None else Some txt)"

text \<open>A scalar of an id that is not an ASCII letter, digit, underscore or hyphen becomes one underscore.\<close>

definition sanitize_tool_id :: "string \<Rightarrow> string" where
  "sanitize_tool_id i =
     (let sanitized = map (\<lambda>c. if is_ascii_alphanumeric c \<or> c = CHR ''_'' \<or> c = CHR ''-'' then c
            else CHR ''_'') (filter (\<lambda>c. \<not> is_cont c) i)
      in if sanitized = [] then ''tool_call'' else sanitized)"

definition map_stop_reason :: "'v json_api \<Rightarrow> string \<Rightarrow> 'v \<Rightarrow> bool \<Rightarrow> string" where
  "map_stop_reason J kind v saw_tool_call =
     (if saw_tool_call then ''tool_use''
      else
        let raw = unwrap_or (or_else (pointer_str J v ''/response/stop_reason'')
              (pointer_str J v ''/response/incomplete_details/reason'')) []
        in if raw = [] \<and> kind = ''response.incomplete'' then ''max_tokens''
           else if raw = ''max_tokens'' \<or> raw = ''max_output_tokens'' then ''max_tokens''
           else if raw = ''content_filter'' then ''refusal''
           else if list_contains [''end_turn'', ''stop_sequence'', ''pause_turn'', ''refusal'',
               ''model_context_window_exceeded''] raw then raw
           else ''end_turn'')"

definition error_code :: "'v json_api \<Rightarrow> 'v \<Rightarrow> string option" where
  "error_code J v =
     Option.bind (or_else (pointer J v ''/response/error/code'')
       (or_else (pointer J v ''/error/code'') (get_field J v ''code''))) (as_str J)"

definition error_kind :: "'v json_api \<Rightarrow> 'v \<Rightarrow> string option" where
  "error_kind J v =
     Option.bind (or_else (pointer J v ''/response/error/type'') (pointer J v ''/error/type'')) (as_str J)"

definition upstream_error_type :: "'v json_api \<Rightarrow> 'v \<Rightarrow> string" where
  "upstream_error_type J v =
     (let code = unwrap_or (error_code J v) []; kind = unwrap_or (error_kind J v) []
      in if code = ''cyber_policy'' \<or> code = ''invalid_request'' \<or> kind = ''invalid_request'' then
           ''invalid_request_error''
         else if code = ''rate_limit_exceeded'' then ''rate_limit_error''
         else if code = ''insufficient_quota'' \<or> code = ''usage_limit_reached'' \<or> code = ''quota_exceeded''
         then ''billing_error''
         else if code = ''context_length_exceeded'' then ''invalid_request_error''
         else ''api_error'')"

definition upstream_error_message :: "string \<Rightarrow> string" where
  "upstream_error_message kind =
     (if kind = ''billing_error'' then
        ''upstream account quota exhausted -- check your plan usage, or switch providers with --claude''
      else if kind = ''rate_limit_error'' then ''upstream rate limited this request''
      else if kind = ''invalid_request_error'' then ''upstream rejected the request as invalid''
      else if kind = ''authentication_error'' then ''upstream rejected the bridge'' @ [CHR 0x27] @ ''s credentials''
      else ''upstream provider error'')"

definition failure_from_upstream :: "'v json_api \<Rightarrow> 'v \<Rightarrow> in_band_failure" where
  "failure_from_upstream J v =
     (let code = error_code J v
      in \<lparr>ib_category =
            (if code = Some ''context_length_exceeded'' then ''context_length''
             else if code = Some ''cyber_policy'' then ''policy''
             else if error_kind J v = Some ''invalid_request'' then ''malformed_request''
             else ''unknown_invalid_request''),
          ib_code =
            (if code = Some ''context_length_exceeded'' \<or> code = Some ''cyber_policy'' then code else None),
          ib_request_id =
            (case Option.bind (or_else (pointer J v ''/response/request_id'')
                 (or_else (pointer J v ''/request_id'') (get_field J v ''request_id''))) (as_str J) of
               None \<Rightarrow> None
             | Some r \<Rightarrow> if r = [] then None else Some r)\<rparr>)"

definition failure_client_message :: "in_band_failure \<Rightarrow> string" where
  "failure_client_message f =
     (if ib_category f = ''context_length'' then
        ''upstream rejected this request because its context is too long''
      else if ib_category f = ''policy'' then ''upstream rejected this request due to provider policy''
      else if ib_category f = ''malformed_request'' then
        ''upstream rejected an unsupported or malformed bridge request''
      else ''upstream rejected the request as invalid (unclassified; enable CLUD_CODEX_BRIDGE_DEBUG=1 for a safe diagnostic)'')"

section \<open>Blocks\<close>

definition ensure_started :: op where
  "ensure_started st =
     (if tr_started st then (st, [])
      else (st\<lparr>tr_started := True\<rparr>, [MessageStart (tr_message_id st) (tr_model st)]))"

definition close_block :: "nat \<Rightarrow> op" where
  "close_block i st =
     (if i \<in> set (tr_open_blocks st)
      then (st\<lparr>tr_open_blocks := remove1 i (tr_open_blocks st)\<rparr>, [BlockStop i])
      else (st, []))"

text \<open>\<^verbatim>\<open>allocate_index\<close>, \<^verbatim>\<open>open_blocks.push\<close> and the start frame.\<close>

definition start_block :: "block_kind \<Rightarrow> translator \<Rightarrow> nat \<times> translator \<times> aframe list" where
  "start_block kind st =
     (let i = tr_next_index st
      in (i, st\<lparr>tr_next_index := i + 1, tr_open_blocks := tr_open_blocks st @ [i]\<rparr>, [BlockStart i kind]))"

definition with_text_block :: "int \<times> int \<Rightarrow> (nat \<Rightarrow> op) \<Rightarrow> op" where
  "with_text_block key f st =
     (case tr_text_indices st key of
        Some i \<Rightarrow> f i st
      | None \<Rightarrow>
          let (i, st1, o1) = start_block TextBlock st;
              (st2, o2) = f i (st1\<lparr>tr_text_indices := (tr_text_indices st1)(key \<mapsto> i)\<rparr>)
          in (st2, o1 @ o2))"

definition with_thinking_block :: "(nat \<Rightarrow> op) \<Rightarrow> op" where
  "with_thinking_block f st =
     (case tr_thinking st of
        Some t \<Rightarrow> f (th_index t) st
      | None \<Rightarrow>
          let (i, st1, o1) = start_block ThinkingBlock st;
              (st2, o2) = f i (st1\<lparr>tr_thinking :=
                Some \<lparr>th_index = i, th_parts = 1, th_signature = None\<rparr>\<rparr>)
          in (st2, o1 @ o2))"

definition finalize_thinking :: op where
  "finalize_thinking st =
     (case tr_thinking st of
        None \<Rightarrow> (st, [])
      | Some t \<Rightarrow>
          run_ops
            [quiet (\<lambda>st. st\<lparr>tr_thinking := None\<rparr>),
             emit (case th_signature t of
                     None \<Rightarrow> [] | Some s \<Rightarrow> [BlockDelta (th_index t) (SignatureDelta s)]),
             close_block (th_index t)] st)"

section \<open>Tool calls\<close>

definition show_int :: "int \<Rightarrow> string" where
  "show_int n = (if n < 0 then ''-'' @ show_nat (nat (- n)) else show_nat (nat n))"

definition slot_keys :: "'v json_api \<Rightarrow> 'v \<Rightarrow> 'v \<Rightarrow> string list" where
  "slot_keys J ev item =
     (case Option.bind (get_field J ev ''output_index'') (as_i64 J) of
        None \<Rightarrow> [] | Some i \<Rightarrow> [''output:'' @ show_int i]) @
     concat (map (\<lambda>source.
       List.map_filter (\<lambda>field.
           case get_str J source field of
             None \<Rightarrow> None
           | Some v \<Rightarrow> if v = [] then None
               else Some ((if field = ''call_id'' then ''call'' else ''item'') @ '':'' @ v))
         [''call_id'', ''item_id'', ''id'']) [ev, item])"

fun find_alias :: "(string \<Rightarrow> nat option) \<Rightarrow> string list \<Rightarrow> nat option" where
  "find_alias m [] = None"
| "find_alias m (k # ks) = (case m k of Some s \<Rightarrow> Some s | None \<Rightarrow> find_alias m ks)"

definition with_slot :: "'v json_api \<Rightarrow> 'v \<Rightarrow> 'v \<Rightarrow> (nat \<Rightarrow> op) \<Rightarrow> op" where
  "with_slot J ev item f st =
     (let keys = slot_keys J ev item;
          (slot, st1) =
            (case find_alias (tr_aliases st) keys of
               Some s \<Rightarrow> (s, st)
             | None \<Rightarrow> (length (tr_calls st), st\<lparr>tr_calls := tr_calls st @ [default_call]\<rparr>));
          st2 = st1\<lparr>tr_aliases := foldl (\<lambda>m k. m(k \<mapsto> slot)) (tr_aliases st1) keys\<rparr>
      in f slot st2)"

definition on_call :: "nat \<Rightarrow> (call_state \<Rightarrow> call_state) \<Rightarrow> op" where
  "on_call slot f = quiet (\<lambda>st. st\<lparr>tr_calls := (tr_calls st)[slot := f (tr_calls st ! slot)]\<rparr>)"

definition merge_identity :: "'v json_api \<Rightarrow> 'v \<Rightarrow> call_state \<Rightarrow> call_state" where
  "merge_identity J item c =
     (let c = (case c_call_id c of
                 Some _ \<Rightarrow> c
               | None \<Rightarrow>
                   (case or_else (get_str J item ''call_id'') (get_str J item ''id'') of
                      Some i \<Rightarrow> if i \<noteq> [] then c\<lparr>c_call_id := Some i\<rparr> else c
                    | None \<Rightarrow> c))
      in (case c_name c of
            Some _ \<Rightarrow> c
          | None \<Rightarrow>
              (case get_str J item ''name'' of
                 Some n \<Rightarrow> if n \<noteq> [] then c\<lparr>c_name := Some n\<rparr> else c
               | None \<Rightarrow> c)))"

definition append_arguments :: "string option \<Rightarrow> call_state \<Rightarrow> call_state" where
  "append_arguments a c = (case a of None \<Rightarrow> c | Some s \<Rightarrow> c\<lparr>c_arguments := c_arguments c @ s\<rparr>)"

definition adopt_arguments :: "string option \<Rightarrow> call_state \<Rightarrow> call_state" where
  "adopt_arguments a c =
     (case a of
        None \<Rightarrow> c
      | Some s \<Rightarrow> if starts_with s (c_arguments c) then c\<lparr>c_arguments := s\<rparr> else c)"

definition open_call :: "nat \<Rightarrow> op" where
  "open_call slot st =
     (let c = tr_calls st ! slot
      in if c_index c \<noteq> None \<or> c_closed c then (st, [])
         else
           (case (c_call_id c, c_name c) of
              (Some call_id, Some name) \<Rightarrow>
                let name = unwrap_or (tr_tool_names st name) name;
                    (i, st1, o1) = start_block (ToolUse (sanitize_tool_id call_id) name) st
                in (st1\<lparr>tr_calls := (tr_calls st1)[slot := (tr_calls st1 ! slot)\<lparr>c_index := Some i\<rparr>]\<rparr>, o1)
            | _ \<Rightarrow> (st, [])))"

definition flush_call_arguments :: "nat \<Rightarrow> op" where
  "flush_call_arguments slot st =
     (let c = tr_calls st ! slot
      in case c_index c of
           None \<Rightarrow> (st, [])
         | Some i \<Rightarrow>
             if c_emitted c \<ge> length (c_arguments c) then (st, [])
             else
               (st\<lparr>tr_calls := (tr_calls st)[slot := c\<lparr>c_emitted := length (c_arguments c)\<rparr>]\<rparr>,
                [BlockDelta i (InputJsonDelta (drop (c_emitted c) (c_arguments c)))]))"

definition close_call :: "nat \<Rightarrow> op" where
  "close_call slot st =
     (case c_index (tr_calls st ! slot) of
        None \<Rightarrow> (st, [])
      | Some i \<Rightarrow> run_ops [close_block i, on_call slot (\<lambda>c. c\<lparr>c_closed := True\<rparr>)] st)"

section \<open>Closing the turn\<close>

definition stop_open_blocks :: op where
  "stop_open_blocks st = (st\<lparr>tr_open_blocks := []\<rparr>, map BlockStop (tr_open_blocks st))"

definition closing_frames :: "translator \<Rightarrow> aframe list" where
  "closing_frames st =
     [MessageDelta
        (unwrap_or (tr_stop_reason st) (if tr_saw_tool_call st then ''tool_use'' else ''end_turn''))
        (tr_input_tokens st - tr_cached_tokens st) (tr_output_tokens st)
        (if tr_cached_tokens st > 0 then Some (tr_cached_tokens st) else None),
      MessageStop]"

definition finish_turn :: op where
  "finish_turn st =
     (if tr_finished st then (st, [])
      else
        run_ops
          [ensure_started, finalize_thinking, stop_open_blocks,
           (\<lambda>st. (st\<lparr>tr_finished := True\<rparr>, closing_frames st))] st)"

definition error_frame :: "'v json_api \<Rightarrow> 'v \<Rightarrow> aframe" where
  "error_frame J v =
     (let kind = upstream_error_type J v
      in ErrorFrame kind
           (if kind = ''invalid_request_error'' then failure_client_message (failure_from_upstream J v)
            else upstream_error_message kind))"

definition fail_turn :: "'v json_api \<Rightarrow> 'v \<Rightarrow> op" where
  "fail_turn J v st =
     (if tr_finished st then (st, [])
      else
        let kind = upstream_error_type J v
        in run_ops
             [finalize_thinking, stop_open_blocks,
              quiet (\<lambda>st. st
                \<lparr>tr_in_band_provider_failure := True,
                 tr_in_band_failure :=
                   (if kind = ''invalid_request_error'' then Some (failure_from_upstream J v)
                    else tr_in_band_failure st),
                 tr_terminal_account_failure :=
                   (kind = ''billing_error'' \<or> kind = ''authentication_error'' \<or>
                    tr_terminal_account_failure st)\<rparr>),
              (\<lambda>st. (st\<lparr>tr_finished := True\<rparr>, [error_frame J v]))] st)"

definition fail_opaque :: "'v json_api \<Rightarrow> op" where
  "fail_opaque J = fail_turn J (null_value J)"

definition absorb_usage :: "'v json_api \<Rightarrow> 'v \<Rightarrow> translator \<Rightarrow> translator" where
  "absorb_usage J v st =
     (case pointer J v ''/response/usage'' of
        None \<Rightarrow> st
      | Some usage \<Rightarrow>
          st\<lparr>tr_input_tokens :=
               unwrap_or (Option.bind (get_field J usage ''input_tokens'') (as_u64 J)) (tr_input_tokens st),
             tr_output_tokens :=
               unwrap_or (Option.bind (get_field J usage ''output_tokens'') (as_u64 J)) (tr_output_tokens st),
             tr_cached_tokens :=
               unwrap_or (Option.bind (pointer J usage ''/input_tokens_details/cached_tokens'') (as_u64 J))
                 (tr_cached_tokens st)\<rparr>)"

section \<open>One upstream event\<close>

definition on_text_delta :: "'v json_api \<Rightarrow> 'v \<Rightarrow> op" where
  "on_text_delta J v =
     run_ops
       [ensure_started, finalize_thinking, quiet (\<lambda>st. st\<lparr>tr_has_text_delta := True\<rparr>),
        with_text_block (text_key J v)
          (\<lambda>i. emit (case get_str J v ''delta'' of None \<Rightarrow> [] | Some d \<Rightarrow> [BlockDelta i (TextDelta d)]))]"

definition on_text_done :: "'v json_api \<Rightarrow> 'v \<Rightarrow> op" where
  "on_text_done J v st =
     (case tr_text_indices st (text_key J v) of None \<Rightarrow> (st, []) | Some i \<Rightarrow> close_block i st)"

definition on_summary_part :: op where
  "on_summary_part =
     run_ops
       [ensure_started,
        (\<lambda>st. case tr_thinking st of
           None \<Rightarrow> (st, [])
         | Some t \<Rightarrow>
             (st\<lparr>tr_thinking := Some (t\<lparr>th_parts := th_parts t + 1\<rparr>)\<rparr>,
              if th_parts t > 0 then [BlockDelta (th_index t) (ThinkingDelta [lf, lf])] else []))]"

definition on_reasoning_delta :: "'v json_api \<Rightarrow> 'v \<Rightarrow> op" where
  "on_reasoning_delta J v =
     run_ops
       [ensure_started,
        with_thinking_block
          (\<lambda>i. emit (case get_str J v ''delta'' of None \<Rightarrow> [] | Some d \<Rightarrow> [BlockDelta i (ThinkingDelta d)]))]"

definition on_item_added :: "'v json_api \<Rightarrow> 'v \<Rightarrow> op" where
  "on_item_added J v =
     run_ops
       [ensure_started,
        (case get_field J v ''item'' of
           None \<Rightarrow> emit []
         | Some item \<Rightarrow>
             if get_str J item ''type'' = Some ''function_call'' then
               run_ops
                 [finalize_thinking,
                  with_slot J v item (\<lambda>slot. run_ops
                    [on_call slot (merge_identity J item),
                     on_call slot (append_arguments (get_str J item ''arguments'')),
                     quiet (\<lambda>st. st\<lparr>tr_saw_tool_call := True\<rparr>), open_call slot])]
             else if get_str J item ''type'' = Some ''reasoning'' then finalize_thinking
             else emit [])]"

definition on_arguments_delta :: "'v json_api \<Rightarrow> 'v \<Rightarrow> op" where
  "on_arguments_delta J v =
     run_ops
       [ensure_started, finalize_thinking,
        with_slot J v (null_value J) (\<lambda>slot. run_ops
          [quiet (\<lambda>st. st\<lparr>tr_saw_tool_call := True\<rparr>),
           on_call slot (append_arguments (get_str J v ''delta'')), flush_call_arguments slot])]"

definition on_arguments_done :: "'v json_api \<Rightarrow> 'v \<Rightarrow> op" where
  "on_arguments_done J v =
     with_slot J v (null_value J) (\<lambda>slot. run_ops
       [on_call slot (adopt_arguments (get_str J v ''arguments'')), flush_call_arguments slot])"

definition on_call_done :: "'v json_api \<Rightarrow> 'v \<Rightarrow> 'v \<Rightarrow> op" where
  "on_call_done J v item =
     with_slot J v item (\<lambda>slot. run_ops
       [on_call slot (merge_identity J item),
        on_call slot (adopt_arguments (get_str J item ''arguments'')),
        quiet (\<lambda>st. st\<lparr>tr_saw_tool_call := True\<rparr>), open_call slot, flush_call_arguments slot,
        close_call slot])"

definition on_reasoning_done :: "'v json_api \<Rightarrow> 'v \<Rightarrow> op" where
  "on_reasoning_done J item =
     (let signature = (case get_str J item ''encrypted_content'' of
            None \<Rightarrow> None | Some s \<Rightarrow> if s = [] then None else Some s)
      in run_ops
           [(\<lambda>st. if signature \<noteq> None \<and> tr_thinking st = None
                  then with_thinking_block (\<lambda>_. emit []) st else (st, [])),
            quiet (\<lambda>st. case tr_thinking st of
              None \<Rightarrow> st | Some t \<Rightarrow> st\<lparr>tr_thinking := Some (t\<lparr>th_signature := signature\<rparr>)\<rparr>),
            finalize_thinking])"

definition on_message_done :: "'v json_api \<Rightarrow> 'v \<Rightarrow> op" where
  "on_message_done J item st =
     (if tr_has_text_delta st then (st, [])
      else
        (case message_item_text J item of
           None \<Rightarrow> (st, [])
         | Some txt \<Rightarrow>
             with_text_block (0, 0)
               (\<lambda>i. run_ops [emit [BlockDelta i (TextDelta txt)], close_block i]) st))"

definition on_item_done :: "'v json_api \<Rightarrow> 'v \<Rightarrow> op" where
  "on_item_done J v =
     (case get_field J v ''item'' of
        None \<Rightarrow> emit []
      | Some item \<Rightarrow>
          if get_str J item ''type'' = Some ''function_call'' then on_call_done J v item
          else if get_str J item ''type'' = Some ''reasoning'' then on_reasoning_done J item
          else if get_str J item ''type'' = Some ''message'' then on_message_done J item
          else emit [])"

definition on_completed :: "'v json_api \<Rightarrow> string \<Rightarrow> 'v \<Rightarrow> op" where
  "on_completed J kind v =
     run_ops
       [quiet (absorb_usage J v),
        quiet (\<lambda>st. case tr_stop_reason st of
          Some _ \<Rightarrow> st
        | None \<Rightarrow> st\<lparr>tr_stop_reason := Some (map_stop_reason J kind v (tr_saw_tool_call st))\<rparr>),
        finish_turn]"

definition dispatch_event :: "'v json_api \<Rightarrow> string \<Rightarrow> 'v \<Rightarrow> op" where
  "dispatch_event J kind v =
     (if kind = ''response.created'' \<or> kind = ''response.in_progress'' then ensure_started
      else if kind = ''response.output_text.delta'' then on_text_delta J v
      else if kind = ''response.content_part.done'' \<or> kind = ''response.output_text.done'' then
        on_text_done J v
      else if kind = ''response.reasoning_summary_part.added'' then on_summary_part
      else if kind = ''response.reasoning_summary_text.delta'' \<or>
          kind = ''response.reasoning_text.delta'' then on_reasoning_delta J v
      else if kind = ''response.output_item.added'' then on_item_added J v
      else if kind = ''response.function_call_arguments.delta'' then on_arguments_delta J v
      else if kind = ''response.function_call_arguments.done'' then on_arguments_done J v
      else if kind = ''response.output_item.done'' then on_item_done J v
      else if kind = ''response.completed'' \<or> kind = ''response.incomplete'' then on_completed J kind v
      else if kind = ''response.failed'' \<or> kind = ''error'' then fail_turn J v
      else emit [])"

definition push_frame :: "'v json_api \<Rightarrow> sse_frame \<Rightarrow> op" where
  "push_frame J frame st =
     (if tr_finished st then (st, [])
      else
        (case from_str J (data frame) of
           None \<Rightarrow> (st, [])
         | Some v \<Rightarrow>
             dispatch_event J (unwrap_or (or_else (get_str J v ''type'') (event frame)) []) v st))"

text \<open>A whole stream: every frame, then the end of the turn.\<close>

definition translate :: "'v json_api \<Rightarrow> sse_frame list \<Rightarrow> op" where
  "translate J frames = run_ops (map (push_frame J) frames @ [finish_turn])"

section \<open>The protocol the client expects\<close>

text \<open>
  An acceptor of Anthropic streams: blocks are numbered in order and open once, a delta addresses a
  block that was started and is of its kind, a block stops once, the turn ends with everything closed,
  and nothing follows its end. Per block it keeps the kind and the content received.
\<close>

record protocol =
  p_blocks :: "(block_kind \<times> string) list"
  p_open :: "nat list"
  p_started :: bool
  p_done :: bool

definition p_init :: protocol where
  "p_init = \<lparr>p_blocks = [], p_open = [], p_started = False, p_done = False\<rparr>"

definition tool_char :: "char \<Rightarrow> bool" where
  "tool_char c \<longleftrightarrow> is_ascii_alphanumeric c \<or> c = CHR ''_'' \<or> c = CHR ''-''"

fun kind_ok :: "block_kind \<Rightarrow> bool" where
  "kind_ok (ToolUse i name) \<longleftrightarrow> i \<noteq> [] \<and> list_all tool_char i \<and> name \<noteq> []"
| "kind_ok _ \<longleftrightarrow> True"

fun delta_fits :: "block_kind \<Rightarrow> block_delta \<Rightarrow> bool" where
  "delta_fits TextBlock (TextDelta _) \<longleftrightarrow> True"
| "delta_fits ThinkingBlock (ThinkingDelta _) \<longleftrightarrow> True"
| "delta_fits ThinkingBlock (SignatureDelta _) \<longleftrightarrow> True"
| "delta_fits (ToolUse _ _) (InputJsonDelta _) \<longleftrightarrow> True"
| "delta_fits _ _ \<longleftrightarrow> False"

fun delta_text :: "block_delta \<Rightarrow> string" where
  "delta_text (TextDelta s) = s"
| "delta_text (ThinkingDelta s) = s"
| "delta_text (InputJsonDelta s) = s"
| "delta_text (SignatureDelta s) = []"

definition p_accept :: "protocol \<Rightarrow> aframe \<Rightarrow> protocol option" where
  "p_accept p f =
     (if p_done p then None
      else
        (case f of
           MessageStart _ _ \<Rightarrow> if p_started p then None else Some (p\<lparr>p_started := True\<rparr>)
         | BlockStart i k \<Rightarrow>
             if i = length (p_blocks p) \<and> kind_ok k
             then Some (p\<lparr>p_blocks := p_blocks p @ [(k, [])], p_open := p_open p @ [i]\<rparr>) else None
         | BlockDelta i d \<Rightarrow>
             if i < length (p_blocks p) \<and> delta_fits (fst (p_blocks p ! i)) d
             then Some (p\<lparr>p_blocks := (p_blocks p)
               [i := (fst (p_blocks p ! i), snd (p_blocks p ! i) @ delta_text d)]\<rparr>) else None
         | BlockStop i \<Rightarrow>
             if i \<in> set (p_open p) then Some (p\<lparr>p_open := remove1 i (p_open p)\<rparr>) else None
         | MessageDelta _ _ _ _ \<Rightarrow> if p_started p \<and> p_open p = [] then Some p else None
         | MessageStop \<Rightarrow> if p_started p \<and> p_open p = [] then Some (p\<lparr>p_done := True\<rparr>) else None
         | ErrorFrame _ _ \<Rightarrow> if p_open p = [] then Some (p\<lparr>p_done := True\<rparr>) else None))"

fun p_run :: "protocol \<Rightarrow> aframe list \<Rightarrow> protocol option" where
  "p_run p [] = Some p"
| "p_run p (f # fs) = Option.bind (p_accept p f) (\<lambda>p'. p_run p' fs)"

lemma p_run_append: "p_run p (fs @ gs) = Option.bind (p_run p fs) (\<lambda>p'. p_run p' gs)"
  by (induction fs arbitrary: p) (auto split: Option.bind_splits)

end
