(* ===== verification/Sse_Invariants.thy ===== *)
theory Sse_Invariants
  imports Sse_Translator
begin

text \<open>
  Facts about the state and the output of the stream translator that hold event by event. A law is an
  invariant of the state with a predicate on frames; \<open>event_law\<close> says what makes one a law of every
  event but the failure, whatever the upstream sends, and is interpreted where a law is used.
\<close>

definition stop_reasons :: "string list" where
  "stop_reasons =
     [''tool_use'', ''max_tokens'', ''refusal'', ''end_turn'', ''stop_sequence'', ''pause_turn'',
      ''model_context_window_exceeded'']"

definition obeys :: "(translator \<Rightarrow> bool) \<Rightarrow> (aframe \<Rightarrow> bool) \<Rightarrow> op \<Rightarrow> bool" where
  "obeys I P m \<longleftrightarrow> (\<forall>st. I st \<longrightarrow> list_all P (snd (m st)) \<and> I (fst (m st)))"

lemma obeysD: "obeys I P m \<Longrightarrow> I st \<Longrightarrow> list_all P (snd (m st)) \<and> I (fst (m st))"
  by (simp add: obeys_def)

lemma obeys_run_ops: "list_all (obeys I P) ms \<Longrightarrow> obeys I P (run_ops ms)"
proof (induction ms)
  case Nil
  then show ?case by (simp add: obeys_def)
next
  case (Cons m ms)
  then have "obeys I P m" "obeys I P (run_ops ms)" by simp_all
  then show ?case by (simp add: obeys_def run_ops_Cons del: run_ops.simps(2))
qed

lemma obeys_quiet: "(\<And>st. I st \<Longrightarrow> I (f st)) \<Longrightarrow> obeys I P (quiet f)"
  by (simp add: obeys_def quiet_def)

lemma obeys_emit: "list_all P fs \<Longrightarrow> obeys I P (emit fs)"
  by (simp add: obeys_def emit_def)

lemma obeys_if: "obeys I P a \<Longrightarrow> obeys I P b \<Longrightarrow> obeys I P (if c then a else b)"
  by simp

lemma map_stop_reason_known: "map_stop_reason J kind v saw \<in> set stop_reasons"
  by (auto simp: map_stop_reason_def stop_reasons_def Let_def list_contains_def)

named_theorems law_rules \<open>operations that obey a law\<close>

locale event_law =
  fixes I :: "translator \<Rightarrow> bool"
    and P :: "aframe \<Rightarrow> bool"
  assumes fields:
      "I (st\<lparr>tr_started := b\<rparr>) = I st" "I (st\<lparr>tr_finished := b\<rparr>) = I st"
      "I (st\<lparr>tr_next_index := n\<rparr>) = I st" "I (st\<lparr>tr_text_indices := t\<rparr>) = I st"
      "I (st\<lparr>tr_open_blocks := xs\<rparr>) = I st" "I (st\<lparr>tr_calls := cs\<rparr>) = I st"
      "I (st\<lparr>tr_aliases := m\<rparr>) = I st" "I (st\<lparr>tr_thinking := th\<rparr>) = I st"
      "I (st\<lparr>tr_saw_tool_call := b\<rparr>) = I st" "I (st\<lparr>tr_has_text_delta := b\<rparr>) = I st"
      "I (st\<lparr>tr_input_tokens := n\<rparr>) = I st" "I (st\<lparr>tr_output_tokens := n\<rparr>) = I st"
      "I (st\<lparr>tr_cached_tokens := n\<rparr>) = I st"
    and reason: "I st \<Longrightarrow> r \<in> set stop_reasons \<Longrightarrow> I (st\<lparr>tr_stop_reason := Some r\<rparr>)"
    and frames: "P (MessageStart a c)" "P (BlockStart n k)" "P (BlockDelta n d)" "P (BlockStop n)"
    and closing: "I st \<Longrightarrow> list_all P (closing_frames st)"
begin

lemma law_run_ops [law_rules]: "list_all (obeys I P) ms \<Longrightarrow> obeys I P (run_ops ms)"
  by (rule obeys_run_ops)

lemma law_emit [law_rules]: "list_all P fs \<Longrightarrow> obeys I P (emit fs)"
  by (rule obeys_emit)

lemma law_on_call [law_rules]: "obeys I P (on_call s f)"
  unfolding on_call_def by (rule obeys_quiet) (simp add: fields)

lemma law_quiet_fields [law_rules]:
  "obeys I P (quiet (\<lambda>st. st\<lparr>tr_has_text_delta := b\<rparr>))"
  "obeys I P (quiet (\<lambda>st. st\<lparr>tr_saw_tool_call := b\<rparr>))"
  "obeys I P (quiet (\<lambda>st. st\<lparr>tr_thinking := th\<rparr>))"
  by (rule obeys_quiet, simp add: fields)+

lemma law_blocks [law_rules]:
  "obeys I P ensure_started" "obeys I P (close_block i)" "obeys I P stop_open_blocks"
  by (auto simp: obeys_def ensure_started_def close_block_def stop_open_blocks_def fields frames list_all_iff)

lemma law_with_text_block [law_rules]: "(\<And>i. obeys I P (f i)) \<Longrightarrow> obeys I P (with_text_block key f)"
  by (simp add: obeys_def with_text_block_def start_block_def Let_def case_prod_beta fields frames
      split: option.split)

lemma law_with_thinking_block [law_rules]: "(\<And>i. obeys I P (f i)) \<Longrightarrow> obeys I P (with_thinking_block f)"
  by (simp add: obeys_def with_thinking_block_def start_block_def Let_def case_prod_beta fields frames
      split: option.split)

lemma law_with_slot [law_rules]: "(\<And>s. obeys I P (f s)) \<Longrightarrow> obeys I P (with_slot J ev item f)"
  by (simp add: obeys_def with_slot_def Let_def fields split: option.split)

lemma law_finalize_thinking [law_rules]: "obeys I P finalize_thinking"
proof -
  have "obeys I P (run_ops [quiet (\<lambda>st. st\<lparr>tr_thinking := None\<rparr>),
      emit (case s of None \<Rightarrow> [] | Some s \<Rightarrow> [BlockDelta i (SignatureDelta s)]), close_block i])" for s i
    by (auto intro!: law_rules simp: frames split: option.splits)
  then show ?thesis by (auto simp: obeys_def finalize_thinking_def split: option.splits)
qed

lemma law_call_ops [law_rules]:
  "obeys I P (open_call s)" "obeys I P (flush_call_arguments s)" "obeys I P (close_call s)"
proof -
  show "obeys I P (open_call s)"
    by (auto simp: obeys_def open_call_def start_block_def Let_def fields frames split: option.splits)
  show "obeys I P (flush_call_arguments s)"
    by (auto simp: obeys_def flush_call_arguments_def Let_def fields frames split: option.splits)
  have "obeys I P (run_ops [close_block i, on_call s (\<lambda>c. c\<lparr>c_closed := True\<rparr>)])" for i
    by (auto intro!: law_rules)
  then show "obeys I P (close_call s)" by (auto simp: obeys_def close_call_def split: option.splits)
qed

lemma law_finish_turn [law_rules]: "obeys I P finish_turn"
proof -
  have "obeys I P (\<lambda>st. (st\<lparr>tr_finished := True\<rparr>, closing_frames st))"
    by (simp add: obeys_def fields closing)
  then have "obeys I P (run_ops [ensure_started, finalize_thinking, stop_open_blocks,
      (\<lambda>st. (st\<lparr>tr_finished := True\<rparr>, closing_frames st))])"
    by (auto intro!: law_rules)
  then show ?thesis by (simp add: obeys_def finish_turn_def del: run_ops.simps)
qed

lemma law_texts [law_rules]:
  "obeys I P (on_text_delta J v)" "obeys I P (on_text_done J v)" "obeys I P (on_reasoning_delta J v)"
  "obeys I P (on_message_done J item)"
proof -
  show "obeys I P (on_text_delta J v)" "obeys I P (on_reasoning_delta J v)"
    unfolding on_text_delta_def on_reasoning_delta_def
    by (auto intro!: law_rules simp: frames split: option.splits)
  show "obeys I P (on_text_done J v)"
    using law_blocks by (auto simp: obeys_def on_text_done_def split: option.splits)
  have "obeys I P (with_text_block (0, 0) (\<lambda>i. run_ops [emit [BlockDelta i (TextDelta t)], close_block i]))" for t
    by (auto intro!: law_rules simp: frames)
  then show "obeys I P (on_message_done J item)"
    by (auto simp: obeys_def on_message_done_def split: option.splits)
qed

lemma law_calls [law_rules]:
  "obeys I P (on_item_added J v)" "obeys I P (on_arguments_delta J v)" "obeys I P (on_arguments_done J v)"
  "obeys I P (on_call_done J v item)"
  unfolding on_item_added_def on_arguments_delta_def on_arguments_done_def on_call_done_def
  by (auto intro!: law_rules split: option.splits)

lemma law_reasoning [law_rules]: "obeys I P on_summary_part" "obeys I P (on_reasoning_done J item)"
proof -
  have "obeys I P (\<lambda>st. case tr_thinking st of None \<Rightarrow> (st, [])
     | Some t \<Rightarrow> (st\<lparr>tr_thinking := Some (t\<lparr>th_parts := th_parts t + 1\<rparr>)\<rparr>,
          if th_parts t > 0 then [BlockDelta (th_index t) (ThinkingDelta [lf, lf])] else []))"
    by (auto simp: obeys_def fields frames split: option.splits)
  then show "obeys I P on_summary_part" unfolding on_summary_part_def by (auto intro!: law_rules)
  have "obeys I P (with_thinking_block (\<lambda>_. emit []))" by (auto intro!: law_rules)
  then have open_step: "obeys I P (\<lambda>st. if c \<and> tr_thinking st = None
      then with_thinking_block (\<lambda>_. emit []) st else (st, []))" for c
    by (simp add: obeys_def)
  have "obeys I P (quiet (\<lambda>st. case tr_thinking st of None \<Rightarrow> st
      | Some t \<Rightarrow> st\<lparr>tr_thinking := Some (t\<lparr>th_signature := s\<rparr>)\<rparr>))" for s
    by (rule obeys_quiet) (auto simp: fields split: option.splits)
  with open_step show "obeys I P (on_reasoning_done J item)"
    unfolding on_reasoning_done_def Let_def by (auto intro!: law_run_ops law_finalize_thinking)
qed

lemma law_on_item_done [law_rules]: "obeys I P (on_item_done J v)"
  unfolding on_item_done_def by (auto intro!: law_rules split: option.splits)

lemma law_on_completed [law_rules]: "obeys I P (on_completed J kind v)"
proof -
  have "obeys I P (quiet (absorb_usage J v))"
    by (rule obeys_quiet) (auto simp: absorb_usage_def fields split: option.splits)
  moreover have "obeys I P (quiet (\<lambda>st. case tr_stop_reason st of Some _ \<Rightarrow> st
    | None \<Rightarrow> st\<lparr>tr_stop_reason := Some (map_stop_reason J kind v (tr_saw_tool_call st))\<rparr>))"
    by (rule obeys_quiet) (auto simp: map_stop_reason_known reason split: option.splits)
  ultimately show ?thesis
    unfolding on_completed_def by (auto intro!: law_run_ops law_finish_turn)
qed

text \<open>One event, and one frame, given what the failure does.\<close>

lemma law_dispatch: "obeys I P (fail_turn J v) \<Longrightarrow> obeys I P (dispatch_event J kind v)"
  unfolding dispatch_event_def
  by (intro obeys_if law_blocks law_texts law_calls law_reasoning law_on_item_done law_on_completed law_emit)
    simp_all

lemma law_push_frame: "(\<And>v. obeys I P (fail_turn J v)) \<Longrightarrow> obeys I P (push_frame J frame)"
  using law_dispatch [of J] by (simp add: obeys_def push_frame_def split: option.split)

end

end
