(* ===== verification/Sse_Protocol.thy ===== *)
theory Sse_Protocol
  imports Sse_Invariants
begin

text \<open>
  The refinement of the stream translator: whatever the upstream sends, the frames written are accepted
  by the protocol of \<open>Sse_Translator\<close>, and the protocol's view of each tool block is what the translator
  has forwarded of its call's arguments. The simulation relates a translator state to the protocol
  state its output has reached; every operation of the translator keeps it.
\<close>

section \<open>The simulation\<close>

definition call_sim :: "protocol \<Rightarrow> call_state \<Rightarrow> bool" where
  "call_sim p c \<longleftrightarrow>
     c_call_id c \<noteq> Some [] \<and> c_name c \<noteq> Some [] \<and> c_emitted c \<le> length (c_arguments c) \<and>
     (case c_index c of
        None \<Rightarrow> c_emitted c = 0
      | Some i \<Rightarrow> i < length (p_blocks p) \<and> (\<exists>t n. fst (p_blocks p ! i) = ToolUse t n) \<and>
          snd (p_blocks p ! i) = take (c_emitted c) (c_arguments c))"

definition calls_apart :: "call_state list \<Rightarrow> bool" where
  "calls_apart cs \<longleftrightarrow>
     (\<forall>s t i. s < length cs \<longrightarrow> t < length cs \<longrightarrow> c_index (cs ! s) = Some i \<longrightarrow>
       c_index (cs ! t) = Some i \<longrightarrow> s = t)"

definition kind_at :: "protocol \<Rightarrow> nat \<Rightarrow> block_kind \<Rightarrow> bool" where
  "kind_at p i k \<longleftrightarrow> i < length (p_blocks p) \<and> fst (p_blocks p ! i) = k"

definition names_ok :: "(string \<Rightarrow> string option) \<Rightarrow> bool" where
  "names_ok m \<longleftrightarrow> (\<forall>k. m k \<noteq> Some [])"

definition sim :: "translator \<Rightarrow> protocol \<Rightarrow> bool" where
  "sim st p \<longleftrightarrow>
     length (p_blocks p) = tr_next_index st \<and> p_open p = tr_open_blocks st \<and>
     distinct (tr_open_blocks st) \<and> (\<forall>i \<in> set (tr_open_blocks st). i < tr_next_index st) \<and>
     p_started p = tr_started st \<and> p_done p = tr_finished st \<and>
     (\<forall>k i. tr_text_indices st k = Some i \<longrightarrow> kind_at p i TextBlock) \<and>
     (\<forall>t. tr_thinking st = Some t \<longrightarrow> kind_at p (th_index t) ThinkingBlock) \<and>
     list_all (call_sim p) (tr_calls st) \<and> calls_apart (tr_calls st) \<and>
     (\<forall>k s. tr_aliases st k = Some s \<longrightarrow> s < length (tr_calls st)) \<and>
     names_ok (tr_tool_names st)"

definition live :: "translator \<Rightarrow> protocol \<Rightarrow> bool" where
  "live st p \<longleftrightarrow> sim st p \<and> \<not> tr_finished st"

text \<open>
  An operation keeps the simulation under a condition on the state that it preserves.
\<close>

definition keeps :: "(translator \<Rightarrow> protocol \<Rightarrow> bool) \<Rightarrow> op \<Rightarrow> bool" where
  "keeps C m \<longleftrightarrow>
     (\<forall>st p. live st p \<longrightarrow> C st p \<longrightarrow>
       (\<exists>p'. p_run p (snd (m st)) = Some p' \<and> live (fst (m st)) p' \<and> C (fst (m st)) p'))"

abbreviation any_state :: "translator \<Rightarrow> protocol \<Rightarrow> bool" where
  "any_state \<equiv> \<lambda>_ _. True"

definition has_slot :: "nat \<Rightarrow> translator \<Rightarrow> protocol \<Rightarrow> bool" where
  "has_slot s st p \<longleftrightarrow> s < length (tr_calls st)"

definition has_kind :: "nat \<Rightarrow> block_kind \<Rightarrow> translator \<Rightarrow> protocol \<Rightarrow> bool" where
  "has_kind i k st p \<longleftrightarrow> kind_at p i k"

named_theorems keeps_rules \<open>operations that keep the simulation\<close>

lemma keepsI:
  "(\<And>st p. live st p \<Longrightarrow> C st p \<Longrightarrow>
      \<exists>p'. p_run p (snd (m st)) = Some p' \<and> live (fst (m st)) p' \<and> C (fst (m st)) p') \<Longrightarrow> keeps C m"
  by (simp add: keeps_def)

lemma keepsD:
  "keeps C m \<Longrightarrow> live st p \<Longrightarrow> C st p \<Longrightarrow>
    \<exists>p'. p_run p (snd (m st)) = Some p' \<and> live (fst (m st)) p' \<and> C (fst (m st)) p'"
  by (simp add: keeps_def)

lemma keeps_run_ops [keeps_rules]: "list_all (keeps C) ms \<Longrightarrow> keeps C (run_ops ms)"
proof (induction ms)
  case Nil
  then show ?case by (simp add: keeps_def)
next
  case (Cons m ms)
  show ?case
  proof (rule keepsI)
    fix st p
    assume "live st p" "C st p"
    moreover have "keeps C m" using Cons.prems by simp
    ultimately obtain p1 where p1: "p_run p (snd (m st)) = Some p1" "live (fst (m st)) p1" "C (fst (m st)) p1"
      by (blast dest: keepsD)
    moreover have "keeps C (run_ops ms)" using Cons by simp
    ultimately obtain p2 where "p_run p1 (snd (run_ops ms (fst (m st)))) = Some p2"
      "live (fst (run_ops ms (fst (m st)))) p2" "C (fst (run_ops ms (fst (m st)))) p2"
      by (blast dest: keepsD)
    with p1 show "\<exists>p'. p_run p (snd (run_ops (m # ms) st)) = Some p' \<and>
        live (fst (run_ops (m # ms) st)) p' \<and> C (fst (run_ops (m # ms) st)) p'"
      by (simp add: run_ops_Cons p_run_append del: run_ops.simps)
  qed
qed

lemma keeps_emit_nothing [keeps_rules]: "keeps C (emit [])"
  by (simp add: keeps_def emit_def)

text \<open>State updates the simulation does not look at.\<close>

lemma keeps_quiet:
  "(\<And>st p. live st p \<Longrightarrow> C st p \<Longrightarrow> live (f st) p \<and> C (f st) p) \<Longrightarrow> keeps C (quiet f)"
  by (simp add: keeps_def quiet_def)

section \<open>Protocol steps\<close>

lemma call_sim_append:
  "call_sim p c \<Longrightarrow> p_blocks p' = p_blocks p @ [b] \<Longrightarrow> call_sim p' c"
  by (auto simp: call_sim_def nth_append split: option.splits)

lemma call_sim_blocks: "p_blocks p' = p_blocks p \<Longrightarrow> call_sim p' c = call_sim p c"
  by (simp add: call_sim_def split: option.splits)

lemma kind_at_append: "kind_at p i k \<Longrightarrow> p_blocks p' = p_blocks p @ [b] \<Longrightarrow> kind_at p' i k"
  by (auto simp: kind_at_def nth_append)

lemma kind_at_blocks: "p_blocks p' = p_blocks p \<Longrightarrow> kind_at p' i k = kind_at p i k"
  by (simp add: kind_at_def)

lemma kind_at_update:
  "p_blocks p' = (p_blocks p)[j := (fst (p_blocks p ! j), s)] \<Longrightarrow> kind_at p' i k = kind_at p i k"
  by (cases "i = j") (auto simp: kind_at_def)

text \<open>A delta to a block that is no tool block leaves every call's view as it was.\<close>

lemma call_sim_update:
  "p_blocks p' = (p_blocks p)[j := (fst (p_blocks p ! j), s)] \<Longrightarrow> kind_at p j k \<Longrightarrow>
    (\<And>t n. k \<noteq> ToolUse t n) \<Longrightarrow> call_sim p c \<Longrightarrow> call_sim p' c"
  by (auto simp: call_sim_def kind_at_def nth_list_update split: option.splits)

lemma keeps_delta:
  assumes "\<And>t n. k \<noteq> ToolUse t n" "list_all (delta_fits k) ds"
    and "\<And>st p p'. C st p \<Longrightarrow> length (p_blocks p') = length (p_blocks p) \<Longrightarrow>
      (\<And>i k. kind_at p' i k = kind_at p i k) \<Longrightarrow> C st p'"
    and "\<And>st p. live st p \<Longrightarrow> C st p \<Longrightarrow> kind_at p i k"
  shows "keeps C (emit (map (BlockDelta i) ds))"
  using assms(2)
proof (induction ds)
  case Nil
  then show ?case by (simp add: keeps_def emit_def)
next
  case (Cons d ds)
  show ?case
  proof (rule keepsI)
    fix st p
    assume live: "live st p" and C: "C st p"
    let ?p = "p\<lparr>p_blocks := (p_blocks p)[i := (fst (p_blocks p ! i), snd (p_blocks p ! i) @ delta_text d)]\<rparr>"
    have k: "kind_at p i k" using assms(4) [OF live C] .
    have acc: "p_accept p (BlockDelta i d) = Some ?p"
      using k live Cons.prems by (auto simp: p_accept_def kind_at_def live_def sim_def)
    have kinds: "kind_at ?p j k' = kind_at p j k'" for j k' by (rule kind_at_update) simp
    have calls: "call_sim p c \<Longrightarrow> call_sim ?p c" for c
      by (rule call_sim_update [OF _ k assms(1)]) simp_all
    have "live st ?p"
      using live kinds calls by (auto simp: live_def sim_def list_all_iff)
    moreover have "C st ?p" by (rule assms(3) [OF C]) (simp_all add: kinds)
    ultimately obtain p' where "p_run ?p (map (BlockDelta i) ds) = Some p'" "live st p'" "C st p'"
      using keepsD [OF Cons.IH] Cons.prems by (auto simp: emit_def)
    with acc show "\<exists>p'. p_run p (snd (emit (map (BlockDelta i) (d # ds)) st)) = Some p' \<and>
        live (fst (emit (map (BlockDelta i) (d # ds)) st)) p' \<and>
        C (fst (emit (map (BlockDelta i) (d # ds)) st)) p'"
      by (simp add: emit_def)
  qed
qed

section \<open>The operations keep the simulation\<close>

lemma keeps_ensure_started [keeps_rules]: "keeps any_state ensure_started"
proof (rule keepsI)
  fix st p
  assume live: "live st p"
  let ?p = "p\<lparr>p_started := True\<rparr>"
  show "\<exists>p'. p_run p (snd (ensure_started st)) = Some p' \<and> live (fst (ensure_started st)) p' \<and> True"
  proof (cases "tr_started st")
    case True
    with live show ?thesis by (simp add: ensure_started_def)
  next
    case False
    then have "p_accept p (MessageStart (tr_message_id st) (tr_model st)) = Some ?p"
      using live by (simp add: p_accept_def live_def sim_def)
    moreover have "live (st\<lparr>tr_started := True\<rparr>) ?p"
      using live by (auto simp: live_def sim_def kind_at_blocks [of ?p p] call_sim_blocks [of ?p p] list_all_iff)
    ultimately show ?thesis using False by (simp add: ensure_started_def)
  qed
qed

lemma keeps_close_block:
  assumes "\<And>st p xs. C st p \<Longrightarrow> C (st\<lparr>tr_open_blocks := xs\<rparr>) (p\<lparr>p_open := xs\<rparr>)"
  shows "keeps C (close_block i)"
proof (rule keepsI)
  fix st p
  assume live: "live st p" and C: "C st p"
  let ?xs = "remove1 i (tr_open_blocks st)"
  let ?p = "p\<lparr>p_open := ?xs\<rparr>"
  show "\<exists>p'. p_run p (snd (close_block i st)) = Some p' \<and> live (fst (close_block i st)) p' \<and>
      C (fst (close_block i st)) p'"
  proof (cases "i \<in> set (tr_open_blocks st)")
    case False
    with live C show ?thesis by (simp add: close_block_def)
  next
    case True
    then have "p_accept p (BlockStop i) = Some ?p"
      using live by (simp add: p_accept_def live_def sim_def)
    moreover have "live (st\<lparr>tr_open_blocks := ?xs\<rparr>) ?p"
      using live notin_set_remove1 set_remove1_subset [of i "tr_open_blocks st"]
      by (auto simp: live_def sim_def kind_at_blocks [of ?p p] call_sim_blocks [of ?p p] list_all_iff)
    ultimately show ?thesis using True assms [OF C, of ?xs] by (simp add: close_block_def)
  qed
qed

lemma keeps_close_any [keeps_rules]: "keeps any_state (close_block i)"
  by (rule keeps_close_block) simp

lemma keeps_close_kind [keeps_rules]: "keeps (has_kind j k) (close_block i)"
  by (rule keeps_close_block) (simp add: has_kind_def kind_at_def)

lemma keeps_close_slot [keeps_rules]: "keeps (has_slot s) (close_block i)"
  by (rule keeps_close_block) (simp add: has_slot_def)

lemma keeps_kind_delta [keeps_rules]:
  "(\<And>t n. k \<noteq> ToolUse t n) \<Longrightarrow> list_all (delta_fits k) ds \<Longrightarrow>
    keeps (has_kind i k) (emit (map (BlockDelta i) ds))"
  by (rule keeps_delta) (auto simp: has_kind_def)

text \<open>Starting a block extends both sides by the same index.\<close>

lemma start_block_accepted:
  assumes "live st p" "kind_ok k"
  shows "p_accept p (BlockStart (tr_next_index st) k) =
      Some (p\<lparr>p_blocks := p_blocks p @ [(k, [])], p_open := p_open p @ [tr_next_index st]\<rparr>)"
  using assms by (simp add: p_accept_def live_def sim_def)

lemma start_block_live:
  assumes "live st p"
  shows "live (st\<lparr>tr_next_index := tr_next_index st + 1,
        tr_open_blocks := tr_open_blocks st @ [tr_next_index st]\<rparr>)
      (p\<lparr>p_blocks := p_blocks p @ [(k, [])], p_open := p_open p @ [tr_next_index st]\<rparr>)"
    (is "live ?st ?p")
proof -
  have kinds: "kind_at p i k' \<Longrightarrow> kind_at ?p i k'" for i k' by (erule kind_at_append) simp
  have calls: "call_sim p c \<Longrightarrow> call_sim ?p c" for c by (erule call_sim_append) simp
  show ?thesis
    using assms kinds calls by (auto simp: live_def sim_def list_all_iff dest: less_SucI)
qed

lemma kind_at_new: "length (p_blocks p) = n \<Longrightarrow> kind_at (p\<lparr>p_blocks := p_blocks p @ [(k, b)], p_open := xs\<rparr>) n k"
  by (auto simp: kind_at_def)

lemma live_next: "live st p \<Longrightarrow> length (p_blocks p) = tr_next_index st"
  by (simp add: live_def sim_def)

lemma keeps_with_text_block [keeps_rules]:
  assumes "\<And>i. keeps (has_kind i TextBlock) (f i)"
  shows "keeps any_state (with_text_block key f)"
proof (rule keepsI)
  fix st p
  assume live: "live st p"
  show "\<exists>p'. p_run p (snd (with_text_block key f st)) = Some p' \<and>
      live (fst (with_text_block key f st)) p' \<and> True"
  proof (cases "tr_text_indices st key")
    case (Some i)
    then have "has_kind i TextBlock st p"
      using live by (cases key) (auto simp: has_kind_def live_def sim_def)
    with Some keepsD [OF assms live] show ?thesis by (auto simp: with_text_block_def)
  next
    case None
    let ?i = "tr_next_index st"
    let ?p = "p\<lparr>p_blocks := p_blocks p @ [(TextBlock, [])], p_open := p_open p @ [?i]\<rparr>"
    let ?st1 = "st\<lparr>tr_next_index := ?i + 1, tr_open_blocks := tr_open_blocks st @ [?i]\<rparr>"
    let ?st2 = "?st1\<lparr>tr_text_indices := (tr_text_indices ?st1)(key \<mapsto> ?i)\<rparr>"
    have k: "kind_at ?p ?i TextBlock" using live by (intro kind_at_new live_next)
    have "live ?st2 ?p"
      using start_block_live [OF live, of TextBlock] k by (auto simp: live_def sim_def)
    then obtain p' where "p_run ?p (snd (f ?i ?st2)) = Some p'" "live (fst (f ?i ?st2)) p'"
      using keepsD [OF assms, of ?st2 ?p ?i] k by (auto simp: has_kind_def)
    with None start_block_accepted [OF live, of TextBlock] show ?thesis
      by (simp add: with_text_block_def start_block_def Let_def case_prod_beta)
  qed
qed

lemma keeps_with_thinking_block [keeps_rules]:
  assumes "\<And>i. keeps (has_kind i ThinkingBlock) (f i)"
  shows "keeps any_state (with_thinking_block f)"
proof (rule keepsI)
  fix st p
  assume live: "live st p"
  show "\<exists>p'. p_run p (snd (with_thinking_block f st)) = Some p' \<and>
      live (fst (with_thinking_block f st)) p' \<and> True"
  proof (cases "tr_thinking st")
    case (Some t)
    then have "has_kind (th_index t) ThinkingBlock st p"
      using live by (simp add: has_kind_def live_def sim_def)
    with Some keepsD [OF assms live] show ?thesis by (auto simp: with_thinking_block_def)
  next
    case None
    let ?i = "tr_next_index st"
    let ?p = "p\<lparr>p_blocks := p_blocks p @ [(ThinkingBlock, [])], p_open := p_open p @ [?i]\<rparr>"
    let ?st1 = "st\<lparr>tr_next_index := ?i + 1, tr_open_blocks := tr_open_blocks st @ [?i]\<rparr>"
    let ?st2 = "?st1\<lparr>tr_thinking := Some \<lparr>th_index = ?i, th_parts = 1, th_signature = None\<rparr>\<rparr>"
    have k: "kind_at ?p ?i ThinkingBlock" using live by (intro kind_at_new live_next)
    have "live ?st2 ?p"
      using start_block_live [OF live, of ThinkingBlock] k by (auto simp: live_def sim_def)
    then obtain p' where "p_run ?p (snd (f ?i ?st2)) = Some p'" "live (fst (f ?i ?st2)) p'"
      using keepsD [OF assms, of ?st2 ?p ?i] k by (auto simp: has_kind_def)
    with None start_block_accepted [OF live, of ThinkingBlock] show ?thesis
      by (simp add: with_thinking_block_def start_block_def Let_def case_prod_beta)
  qed
qed

lemma keeps_finalize_thinking [keeps_rules]: "keeps any_state finalize_thinking"
proof (rule keepsI)
  fix st p
  assume live: "live st p"
  show "\<exists>p'. p_run p (snd (finalize_thinking st)) = Some p' \<and> live (fst (finalize_thinking st)) p' \<and> True"
  proof (cases "tr_thinking st")
    case None
    with live show ?thesis by (simp add: finalize_thinking_def)
  next
    case (Some t)
    let ?i = "th_index t"
    let ?ds = "case th_signature t of None \<Rightarrow> [] | Some s \<Rightarrow> [SignatureDelta s]"
    have "keeps (has_kind ?i ThinkingBlock)
        (run_ops [quiet (\<lambda>st. st\<lparr>tr_thinking := None\<rparr>), emit (map (BlockDelta ?i) ?ds), close_block ?i])"
    proof (rule keeps_run_ops, simp, intro conjI)
      show "keeps (has_kind ?i ThinkingBlock) (quiet (\<lambda>st. st\<lparr>tr_thinking := None\<rparr>))"
        by (rule keeps_quiet) (auto simp: live_def sim_def has_kind_def)
      show "keeps (has_kind ?i ThinkingBlock) (emit (map (BlockDelta ?i) ?ds))"
        by (rule keeps_kind_delta) (auto split: option.splits)
      show "keeps (has_kind ?i ThinkingBlock) (close_block ?i)" by (rule keeps_rules)
    qed
    moreover have "has_kind ?i ThinkingBlock st p"
      using live Some by (simp add: has_kind_def live_def sim_def)
    moreover have "map (BlockDelta ?i) ?ds =
        (case th_signature t of None \<Rightarrow> [] | Some s \<Rightarrow> [BlockDelta ?i (SignatureDelta s)])"
      by (cases "th_signature t") simp_all
    ultimately show ?thesis
      using live Some keepsD unfolding finalize_thinking_def by fastforce
  qed
qed

section \<open>Calls\<close>

lemma call_sim_at: "live st p \<Longrightarrow> s < length (tr_calls st) \<Longrightarrow> call_sim p (tr_calls st ! s)"
  by (simp add: live_def sim_def list_all_length)

lemma calls_apart_update:
  "calls_apart cs \<Longrightarrow> c_index c = c_index (cs ! s) \<Longrightarrow> calls_apart (cs[s := c])"
proof -
  assume apart: "calls_apart cs" and c: "c_index c = c_index (cs ! s)"
  have "c_index (cs[s := c] ! t) = c_index (cs ! t)" for t
    using c by (cases "t = s"; cases "s < length cs") (simp_all add: list_update_beyond)
  with apart show ?thesis by (simp add: calls_apart_def)
qed

lemma live_calls:
  "live st p \<Longrightarrow> list_all (call_sim p) cs \<Longrightarrow> calls_apart cs \<Longrightarrow> length cs = length (tr_calls st) \<Longrightarrow>
    live (st\<lparr>tr_calls := cs\<rparr>) p"
  by (simp add: live_def sim_def)

text \<open>An update of one call that keeps its block and its view.\<close>

lemma live_on_call:
  assumes "live st p" "s < length (tr_calls st)" "call_sim p c" "c_index c = c_index (tr_calls st ! s)"
  shows "live (st\<lparr>tr_calls := (tr_calls st)[s := c]\<rparr>) p"
proof -
  have "list_all (call_sim p) ((tr_calls st)[s := c])"
    using assms(1,3) set_update_subset_insert [of "tr_calls st" s c]
    by (auto simp: live_def sim_def list_all_iff)
  moreover have "calls_apart ((tr_calls st)[s := c])"
    using assms(1,4) by (intro calls_apart_update) (simp_all add: live_def sim_def)
  ultimately show ?thesis using assms(1) by (simp add: live_def sim_def)
qed

lemma keeps_on_call:
  assumes "\<And>p c. call_sim p c \<Longrightarrow> call_sim p (g c) \<and> c_index (g c) = c_index c"
  shows "keeps (has_slot s) (on_call s g)"
  unfolding on_call_def
proof (rule keeps_quiet)
  fix st p
  assume live: "live st p" and s: "has_slot s st p"
  then have "call_sim p (tr_calls st ! s)" by (simp add: call_sim_at has_slot_def)
  with assms live s show "live (st\<lparr>tr_calls := (tr_calls st)[s := g (tr_calls st ! s)]\<rparr>) p \<and>
      has_slot s (st\<lparr>tr_calls := (tr_calls st)[s := g (tr_calls st ! s)]\<rparr>) p"
    by (auto simp: has_slot_def intro: live_on_call)
qed

lemma merge_identity_sim: "call_sim p c \<Longrightarrow> call_sim p (merge_identity J item c) \<and>
    c_index (merge_identity J item c) = c_index c"
  by (auto simp: merge_identity_def call_sim_def Let_def split: option.splits)

lemma append_arguments_sim: "call_sim p c \<Longrightarrow> call_sim p (append_arguments a c) \<and>
    c_index (append_arguments a c) = c_index c"
  by (auto simp: append_arguments_def call_sim_def split: option.splits)

lemma adopt_arguments_sim: "call_sim p c \<Longrightarrow> call_sim p (adopt_arguments a c) \<and>
    c_index (adopt_arguments a c) = c_index c"
proof (cases "\<exists>s. a = Some s \<and> prefix (c_arguments c) s")
  case True
  then obtain rest where a: "a = Some (c_arguments c @ rest)" by (auto simp: prefix_def)
  assume c: "call_sim p c"
  then have "take (c_emitted c) (c_arguments c @ rest) = take (c_emitted c) (c_arguments c)"
    by (simp add: call_sim_def)
  with c show ?thesis
    by (simp add: a adopt_arguments_def call_sim_def starts_with_def split: option.splits)
next
  case False
  then have "adopt_arguments a c = c"
    by (auto simp: adopt_arguments_def starts_with_def split: option.splits)
  moreover assume "call_sim p c"
  ultimately show ?thesis by simp
qed

lemma sanitized_tool_id: "sanitize_tool_id i \<noteq> [] \<and> list_all tool_char (sanitize_tool_id i)"
proof -
  have "list_all tool_char ''tool_call''" by (simp add: tool_char_def rust_eval)
  then show ?thesis by (auto simp: sanitize_tool_id_def Let_def tool_char_def list_all_iff)
qed

lemma keeps_open_call [keeps_rules]: "keeps (has_slot s) (open_call s)"
proof (rule keepsI)
  fix st p
  assume live: "live st p" and slot: "has_slot s st p"
  let ?c = "tr_calls st ! s"
  have s: "s < length (tr_calls st)" using slot by (simp add: has_slot_def)
  show "\<exists>p'. p_run p (snd (open_call s st)) = Some p' \<and> live (fst (open_call s st)) p' \<and>
      has_slot s (fst (open_call s st)) p'"
  proof (cases "c_index ?c = None \<and> \<not> c_closed ?c \<and> c_call_id ?c \<noteq> None \<and> c_name ?c \<noteq> None")
    case False
    then have "open_call s st = (st, [])" by (auto simp: open_call_def Let_def split: option.splits)
    with live slot show ?thesis by simp
  next
    case True
    then obtain ci n0 where ids: "c_call_id ?c = Some ci" "c_name ?c = Some n0" by auto
    let ?n = "unwrap_or (tr_tool_names st n0) n0" and ?i = "tr_next_index st"
    let ?k = "ToolUse (sanitize_tool_id ci) ?n"
    let ?p = "p\<lparr>p_blocks := p_blocks p @ [(?k, [])], p_open := p_open p @ [?i]\<rparr>"
    let ?st1 = "st\<lparr>tr_next_index := ?i + 1, tr_open_blocks := tr_open_blocks st @ [?i]\<rparr>"
    let ?st2 = "?st1\<lparr>tr_calls := (tr_calls ?st1)[s := ?c\<lparr>c_index := Some ?i\<rparr>]\<rparr>"
    have csim: "call_sim p ?c" using live s by (rule call_sim_at)
    have "?n \<noteq> []"
      using csim ids live by (cases "tr_tool_names st n0") (auto simp: call_sim_def live_def sim_def names_ok_def)
    then have ok: "kind_ok ?k" using sanitized_tool_id by simp
    have run: "open_call s st = (?st2, [BlockStart ?i ?k])"
      using True ids by (simp add: open_call_def start_block_def Let_def)
    have live1: "live ?st1 ?p" using live by (rule start_block_live)
    have "call_sim ?p (?c\<lparr>c_index := Some ?i\<rparr>)"
      using csim True live_next [OF live] by (auto simp: call_sim_def nth_append)
    then have "list_all (call_sim ?p) ((tr_calls st)[s := ?c\<lparr>c_index := Some ?i\<rparr>])"
      using live1 set_update_subset_insert [of "tr_calls st" s "?c\<lparr>c_index := Some ?i\<rparr>"]
      by (auto simp: live_def sim_def list_all_iff)
    moreover have "calls_apart ((tr_calls st)[s := ?c\<lparr>c_index := Some ?i\<rparr>])"
    proof -
      have apart: "calls_apart (tr_calls st)" using live by (simp add: live_def sim_def)
      have fresh: "c_index (tr_calls st ! t) \<noteq> Some ?i" if "t < length (tr_calls st)" for t
        using call_sim_at [OF live that] live_next [OF live] by (auto simp: call_sim_def)
      show ?thesis
        unfolding calls_apart_def
      proof (intro allI impI)
        fix a b j
        assume a: "a < length ((tr_calls st)[s := ?c\<lparr>c_index := Some ?i\<rparr>])"
          and b: "b < length ((tr_calls st)[s := ?c\<lparr>c_index := Some ?i\<rparr>])"
          and ia: "c_index ((tr_calls st)[s := ?c\<lparr>c_index := Some ?i\<rparr>] ! a) = Some j"
          and ib: "c_index ((tr_calls st)[s := ?c\<lparr>c_index := Some ?i\<rparr>] ! b) = Some j"
        show "a = b"
          using a b ia ib apart fresh [of a] fresh [of b]
          by (cases "a = s"; cases "b = s") (auto simp: calls_apart_def nth_list_update)
      qed
    qed
    ultimately have "live ?st2 ?p" by (intro live_calls live1) simp_all
    with start_block_accepted [OF live ok] s show ?thesis by (simp add: run has_slot_def)
  qed
qed

lemma keeps_flush [keeps_rules]: "keeps (has_slot s) (flush_call_arguments s)"
proof (rule keepsI)
  fix st p
  assume live: "live st p" and slot: "has_slot s st p"
  let ?c = "tr_calls st ! s"
  have s: "s < length (tr_calls st)" using slot by (simp add: has_slot_def)
  have csim: "call_sim p ?c" using live s by (rule call_sim_at)
  show "\<exists>p'. p_run p (snd (flush_call_arguments s st)) = Some p' \<and>
      live (fst (flush_call_arguments s st)) p' \<and> has_slot s (fst (flush_call_arguments s st)) p'"
  proof (cases "\<exists>i. c_index ?c = Some i \<and> c_emitted ?c < length (c_arguments ?c)")
    case False
    then have "flush_call_arguments s st = (st, [])"
      by (auto simp: flush_call_arguments_def Let_def not_less split: option.splits)
    with live slot show ?thesis by simp
  next
    case True
    then obtain i where i: "c_index ?c = Some i" "c_emitted ?c < length (c_arguments ?c)" by blast
    let ?d = "drop (c_emitted ?c) (c_arguments ?c)"
    let ?new = "?c\<lparr>c_emitted := length (c_arguments ?c)\<rparr>"
    let ?st = "st\<lparr>tr_calls := (tr_calls st)[s := ?new]\<rparr>"
    let ?p = "p\<lparr>p_blocks := (p_blocks p)[i := (fst (p_blocks p ! i), snd (p_blocks p ! i) @ ?d)]\<rparr>"
    have run: "flush_call_arguments s st = (?st, [BlockDelta i (InputJsonDelta ?d)])"
      using i by (simp add: flush_call_arguments_def Let_def)
    have blk: "i < length (p_blocks p)" "\<exists>t n. fst (p_blocks p ! i) = ToolUse t n"
      "snd (p_blocks p ! i) = take (c_emitted ?c) (c_arguments ?c)"
      using csim i(1) by (auto simp: call_sim_def)
    then have acc: "p_accept p (BlockDelta i (InputJsonDelta ?d)) = Some ?p"
      using live by (auto simp: p_accept_def live_def sim_def)
    have kinds: "kind_at ?p j k = kind_at p j k" for j k by (rule kind_at_update) simp
    have new: "call_sim ?p ?new" using csim i blk by (auto simp: call_sim_def)
    have others: "call_sim ?p (tr_calls st ! t)" if "t < length (tr_calls st)" "t \<noteq> s" for t
    proof -
      have "c_index (tr_calls st ! t) \<noteq> Some i"
        using live that s i(1) by (auto simp: live_def sim_def calls_apart_def)
      with call_sim_at [OF live that(1)] show ?thesis
        by (auto simp: call_sim_def split: option.splits)
    qed
    have "list_all (call_sim ?p) ((tr_calls st)[s := ?new])"
      unfolding list_all_length
    proof (intro allI impI)
      fix t
      assume "t < length ((tr_calls st)[s := ?new])"
      then show "call_sim ?p ((tr_calls st)[s := ?new] ! t)"
        using new others [of t] s by (cases "t = s") simp_all
    qed
    moreover have "calls_apart ((tr_calls st)[s := ?new])"
      using live by (intro calls_apart_update) (simp_all add: live_def sim_def)
    ultimately have "live ?st ?p" using live kinds by (simp add: live_def sim_def)
    with acc s show ?thesis by (simp add: run has_slot_def)
  qed
qed

lemma keeps_close_call [keeps_rules]: "keeps (has_slot s) (close_call s)"
proof (rule keepsI)
  fix st p
  assume live: "live st p" and slot: "has_slot s st p"
  show "\<exists>p'. p_run p (snd (close_call s st)) = Some p' \<and> live (fst (close_call s st)) p' \<and>
      has_slot s (fst (close_call s st)) p'"
  proof (cases "c_index (tr_calls st ! s)")
    case None
    with live slot show ?thesis by (simp add: close_call_def)
  next
    case (Some i)
    have "keeps (has_slot s) (run_ops [close_block i, on_call s (\<lambda>c. c\<lparr>c_closed := True\<rparr>)])"
      by (rule keeps_run_ops)
        (auto intro!: keeps_rules keeps_on_call simp: call_sim_def split: option.splits)
    from keepsD [OF this live slot] Some show ?thesis by (simp add: close_call_def)
  qed
qed

lemma find_alias_Some: "find_alias m ks = Some s \<Longrightarrow> \<exists>k. m k = Some s"
  by (induction ks) (auto split: option.splits)

lemma foldl_aliases:
  "foldl (\<lambda>m k. m(k \<mapsto> s)) m ks k = (if k \<in> set ks then Some s else m k)"
  by (induction ks arbitrary: m) auto

lemma keeps_with_slot [keeps_rules]:
  assumes "\<And>s. keeps (has_slot s) (f s)"
  shows "keeps any_state (with_slot J ev item f)"
proof (rule keepsI)
  fix st p
  assume live: "live st p"
  let ?keys = "slot_keys J ev item"
  define pr where "pr = (case find_alias (tr_aliases st) ?keys of Some s \<Rightarrow> (s, st)
      | None \<Rightarrow> (length (tr_calls st), st\<lparr>tr_calls := tr_calls st @ [default_call]\<rparr>))"
  obtain slot st1 where pr1: "pr = (slot, st1)" by fastforce
  let ?st2 = "st1\<lparr>tr_aliases := foldl (\<lambda>m k. m(k \<mapsto> slot)) (tr_aliases st1) ?keys\<rparr>"
  have st1: "live st1 p \<and> slot < length (tr_calls st1)"
  proof (cases "find_alias (tr_aliases st) ?keys")
    case (Some s)
    with live pr1 show ?thesis
      by (auto simp: pr_def live_def sim_def dest: find_alias_Some)
  next
    case None
    have "calls_apart (tr_calls st @ [default_call])"
      using live by (auto simp: live_def sim_def calls_apart_def nth_append default_call_def)
    moreover have "call_sim p default_call" by (simp add: call_sim_def default_call_def)
    ultimately show ?thesis
      using None live pr1 by (auto simp: pr_def live_def sim_def less_Suc_eq)
  qed
  then have "live ?st2 p" by (auto simp: live_def sim_def foldl_aliases)
  moreover have "has_slot slot ?st2 p" using st1 by (simp add: has_slot_def)
  ultimately have "\<exists>p'. p_run p (snd (f slot ?st2)) = Some p' \<and> live (fst (f slot ?st2)) p'"
    using keepsD [OF assms, of ?st2 p slot] by blast
  then show "\<exists>p'. p_run p (snd (with_slot J ev item f st)) = Some p' \<and>
      live (fst (with_slot J ev item f st)) p' \<and> True"
    by (simp add: with_slot_def pr_def [symmetric] pr1 Let_def)
qed

section \<open>Events\<close>

text \<open>Updates of fields the simulation does not read.\<close>

lemma keeps_quiet_fields [keeps_rules]:
  "keeps any_state (quiet (\<lambda>st. st\<lparr>tr_has_text_delta := b\<rparr>))"
  "keeps (has_slot s) (quiet (\<lambda>st. st\<lparr>tr_saw_tool_call := b\<rparr>))"
  by (rule keeps_quiet, simp add: live_def sim_def has_slot_def)+

lemma keeps_emit_opt [keeps_rules]:
  "keeps (has_kind i TextBlock) (emit (case d of None \<Rightarrow> [] | Some s \<Rightarrow> [BlockDelta i (TextDelta s)]))"
  "keeps (has_kind i ThinkingBlock) (emit (case d of None \<Rightarrow> [] | Some s \<Rightarrow> [BlockDelta i (ThinkingDelta s)]))"
  "keeps (has_kind i TextBlock) (emit [BlockDelta i (TextDelta t)])"
  using keeps_kind_delta [of TextBlock "case d of None \<Rightarrow> [] | Some s \<Rightarrow> [TextDelta s]" i]
    keeps_kind_delta [of ThinkingBlock "case d of None \<Rightarrow> [] | Some s \<Rightarrow> [ThinkingDelta s]" i]
    keeps_kind_delta [of TextBlock "[TextDelta t]" i]
  by (auto split: option.splits)

lemma keeps_on_text_delta [keeps_rules]: "keeps any_state (on_text_delta J v)"
  unfolding on_text_delta_def by (rule keeps_run_ops) (auto intro!: keeps_rules)

lemma keeps_on_text_done [keeps_rules]: "keeps any_state (on_text_done J v)"
  using keeps_close_any unfolding keeps_def by (auto simp: on_text_done_def split: option.splits)

lemma keeps_summary_step:
  "keeps any_state (\<lambda>st. case tr_thinking st of
     None \<Rightarrow> (st, [])
   | Some t \<Rightarrow>
       (st\<lparr>tr_thinking := Some (t\<lparr>th_parts := th_parts t + 1\<rparr>)\<rparr>,
        if th_parts t > 0 then [BlockDelta (th_index t) (ThinkingDelta [lf, lf])] else []))"
    (is "keeps _ ?m")
proof (rule keepsI)
  fix st p
  assume live: "live st p"
  show "\<exists>p'. p_run p (snd (?m st)) = Some p' \<and> live (fst (?m st)) p' \<and> True"
  proof (cases "tr_thinking st")
    case None
    with live show ?thesis by simp
  next
    case (Some t)
    let ?st = "st\<lparr>tr_thinking := Some (t\<lparr>th_parts := th_parts t + 1\<rparr>)\<rparr>"
    let ?ds = "if th_parts t > 0 then [ThinkingDelta [lf, lf]] else []"
    have st: "live ?st p" "has_kind (th_index t) ThinkingBlock ?st p"
      using live Some by (auto simp: live_def sim_def has_kind_def)
    have "keeps (has_kind (th_index t) ThinkingBlock) (emit (map (BlockDelta (th_index t)) ?ds))"
      by (rule keeps_kind_delta) auto
    from keepsD [OF this st] Some show ?thesis by (auto simp: emit_def)
  qed
qed

lemma keeps_on_summary_part [keeps_rules]: "keeps any_state on_summary_part"
  unfolding on_summary_part_def
  by (rule keeps_run_ops) (simp add: keeps_ensure_started keeps_summary_step)

lemma keeps_on_reasoning_delta [keeps_rules]: "keeps any_state (on_reasoning_delta J v)"
  unfolding on_reasoning_delta_def by (rule keeps_run_ops) (auto intro!: keeps_rules)

lemmas keeps_call_updates [keeps_rules] =
  keeps_on_call [OF merge_identity_sim] keeps_on_call [OF append_arguments_sim]
  keeps_on_call [OF adopt_arguments_sim]

lemma keeps_on_item_added [keeps_rules]: "keeps any_state (on_item_added J v)"
  unfolding on_item_added_def
  by (rule keeps_run_ops)
    (auto intro!: keeps_rules split: option.splits)

lemma keeps_on_arguments_delta [keeps_rules]: "keeps any_state (on_arguments_delta J v)"
  unfolding on_arguments_delta_def
  by (rule keeps_run_ops)
    (auto intro!: keeps_rules)

lemma keeps_on_arguments_done [keeps_rules]: "keeps any_state (on_arguments_done J v)"
  unfolding on_arguments_done_def
  by (auto intro!: keeps_rules)

lemma keeps_on_call_done [keeps_rules]: "keeps any_state (on_call_done J v item)"
  unfolding on_call_done_def
  by (auto intro!: keeps_rules)

lemma keeps_on_reasoning_done [keeps_rules]: "keeps any_state (on_reasoning_done J item)"
proof -
  have open_step: "keeps any_state (\<lambda>st. if c \<and> tr_thinking st = None
      then with_thinking_block (\<lambda>_. emit []) st else (st, []))" for c
    using keeps_with_thinking_block [OF keeps_emit_nothing] unfolding keeps_def by auto
  have sign_step: "keeps any_state (quiet (\<lambda>st. case tr_thinking st of
      None \<Rightarrow> st | Some t \<Rightarrow> st\<lparr>tr_thinking := Some (t\<lparr>th_signature := s\<rparr>)\<rparr>))" for s
    by (rule keeps_quiet) (auto simp: live_def sim_def split: option.splits)
  show ?thesis
    unfolding on_reasoning_done_def Let_def
    by (rule keeps_run_ops) (simp add: open_step sign_step keeps_finalize_thinking)
qed

lemma keeps_on_message_done [keeps_rules]: "keeps any_state (on_message_done J item)"
proof -
  have "keeps any_state (with_text_block (0, 0)
      (\<lambda>i. run_ops [emit [BlockDelta i (TextDelta t)], close_block i]))" for t
    by (rule keeps_with_text_block, rule keeps_run_ops) (auto intro!: keeps_rules)
  then show ?thesis
    unfolding keeps_def by (auto simp: on_message_done_def split: option.splits)
qed

lemma keeps_on_item_done [keeps_rules]: "keeps any_state (on_item_done J v)"
  unfolding on_item_done_def by (auto intro!: keeps_rules split: option.splits)

text \<open>The end of a turn: everything is stopped, and nothing may follow.\<close>

definition ends_turn :: "op \<Rightarrow> bool" where
  "ends_turn m \<longleftrightarrow>
     (\<forall>st p. live st p \<longrightarrow>
       (\<exists>p'. p_run p (snd (m st)) = Some p' \<and> sim (fst (m st)) p' \<and> tr_finished (fst (m st)) \<and>
         p_open p' = []))"

lemma p_run_stops: "distinct is \<Longrightarrow> p_open p = is \<Longrightarrow> \<not> p_done p \<Longrightarrow>
    p_run p (map BlockStop is) = Some (p\<lparr>p_open := []\<rparr>)"
  by (induction "is" arbitrary: p) (auto simp: p_accept_def)

lemma stop_open_blocks_run:
  "live st p \<Longrightarrow> p_run p (snd (stop_open_blocks st)) = Some (p\<lparr>p_open := []\<rparr>) \<and>
    live (fst (stop_open_blocks st)) (p\<lparr>p_open := []\<rparr>)"
  by (auto simp: stop_open_blocks_def live_def sim_def p_run_stops list_all_iff kind_at_def
      call_sim_blocks [of "p\<lparr>p_open := []\<rparr>" p])

lemma ensure_started_on: "tr_started (fst (ensure_started st))"
  by (simp add: ensure_started_def)

lemma close_block_started [simp]: "tr_started (fst (close_block i st)) = tr_started st"
  by (simp add: close_block_def)

lemma finalize_thinking_started [simp]: "tr_started (fst (finalize_thinking st)) = tr_started st"
  by (auto simp: finalize_thinking_def run_ops_Cons quiet_def emit_def simp del: run_ops.simps(2)
      split: option.splits)

lemma run_ops_Nil [simp]: "fst (run_ops [] st) = st" "snd (run_ops [] st) = []"
  by simp_all

lemma ends_finish_turn: "ends_turn finish_turn"
  unfolding ends_turn_def
proof (intro allI impI)
  fix st p
  assume live: "live st p"
  let ?pre = "run_ops [ensure_started, finalize_thinking]"
  have "keeps any_state ?pre" by (rule keeps_run_ops) (auto intro!: keeps_rules)
  from keepsD [OF this live] obtain p1 where
    p1: "p_run p (snd (?pre st)) = Some p1" "live (fst (?pre st)) p1" by auto
  let ?st1 = "fst (?pre st)" and ?p2 = "p1\<lparr>p_open := []\<rparr>"
  let ?st2 = "fst (stop_open_blocks ?st1)"
  have p2: "p_run p1 (snd (stop_open_blocks ?st1)) = Some ?p2" "live ?st2 ?p2"
    using stop_open_blocks_run [OF p1(2)] by auto
  have started: "tr_started ?st1"
    by (simp add: run_ops_Cons ensure_started_on del: run_ops.simps(2))
  then have "p_started p1" using p1(2) by (simp add: live_def sim_def)
  then have p3: "p_run ?p2 (closing_frames ?st2) = Some (?p2\<lparr>p_done := True\<rparr>)"
    using p2(2) by (simp add: closing_frames_def p_accept_def live_def sim_def)
  have "sim (?st2\<lparr>tr_finished := True\<rparr>) (?p2\<lparr>p_done := True\<rparr>)"
    using p2(2) by (auto simp: live_def sim_def list_all_iff kind_at_def
        call_sim_blocks [of "?p2\<lparr>p_done := True\<rparr>" ?p2])
  moreover have "finish_turn st =
      (?st2\<lparr>tr_finished := True\<rparr>, snd (?pre st) @ snd (stop_open_blocks ?st1) @ closing_frames ?st2)"
    using live by (simp add: finish_turn_def run_ops_Cons live_def del: run_ops.simps(2))
  ultimately show "\<exists>p'. p_run p (snd (finish_turn st)) = Some p' \<and> sim (fst (finish_turn st)) p' \<and>
      tr_finished (fst (finish_turn st)) \<and> p_open p' = []"
    using p1(1) p2(1) p3 by (simp add: p_run_append)
qed

lemma ends_fail_turn: "ends_turn (fail_turn J v)"
  unfolding ends_turn_def
proof (intro allI impI)
  fix st p
  assume live: "live st p"
  obtain p1 where p1: "p_run p (snd (finalize_thinking st)) = Some p1" "live (fst (finalize_thinking st)) p1"
    using keepsD [OF keeps_finalize_thinking live] by auto
  let ?st1 = "fst (finalize_thinking st)" and ?p2 = "p1\<lparr>p_open := []\<rparr>"
  let ?st2 = "fst (stop_open_blocks ?st1)"
  have p2: "p_run p1 (snd (stop_open_blocks ?st1)) = Some ?p2" "live ?st2 ?p2"
    using stop_open_blocks_run [OF p1(2)] by auto
  define st3 where "st3 = fst (fail_turn J v st)"
  have run: "snd (fail_turn J v st) = snd (finalize_thinking st) @ snd (stop_open_blocks ?st1) @ [error_frame J v]"
    using live by (simp add: fail_turn_def run_ops_Cons quiet_def Let_def live_def del: run_ops.simps(2))
  have "p_run ?p2 [error_frame J v] = Some (?p2\<lparr>p_done := True\<rparr>)"
    using p2(2) by (simp add: error_frame_def Let_def p_accept_def live_def sim_def)
  moreover have "sim st3 (?p2\<lparr>p_done := True\<rparr>) \<and> tr_finished st3"
    using p2(2) live
    by (auto simp: st3_def fail_turn_def run_ops_Cons quiet_def Let_def live_def sim_def list_all_iff
        kind_at_def call_sim_blocks [of "?p2\<lparr>p_done := True\<rparr>" ?p2] simp del: run_ops.simps(2))
  ultimately show "\<exists>p'. p_run p (snd (fail_turn J v st)) = Some p' \<and> sim (fst (fail_turn J v st)) p' \<and>
      tr_finished (fst (fail_turn J v st)) \<and> p_open p' = []"
    using p1(1) p2(1) by (simp add: run p_run_append st3_def [symmetric])
qed

text \<open>
  One frame, and a stream of them: the simulation is kept, finished or not, and once finished the
  protocol has nothing open.
\<close>

definition good :: "translator \<Rightarrow> protocol \<Rightarrow> bool" where
  "good st p \<longleftrightarrow> sim st p \<and> (tr_finished st \<longrightarrow> p_open p = [])"

definition safe :: "op \<Rightarrow> bool" where
  "safe m \<longleftrightarrow> (\<forall>st p. good st p \<longrightarrow> (\<exists>p'. p_run p (snd (m st)) = Some p' \<and> good (fst (m st)) p'))"

lemma safeD: "safe m \<Longrightarrow> good st p \<Longrightarrow> \<exists>p'. p_run p (snd (m st)) = Some p' \<and> good (fst (m st)) p'"
  by (simp add: safe_def)

lemma keeps_good:
  "keeps any_state m \<Longrightarrow> live st p \<Longrightarrow> \<exists>p'. p_run p (snd (m st)) = Some p' \<and> good (fst (m st)) p'"
  by (drule keepsD) (auto simp: live_def good_def)

lemma ends_good:
  "ends_turn m \<Longrightarrow> live st p \<Longrightarrow> \<exists>p'. p_run p (snd (m st)) = Some p' \<and> good (fst (m st)) p'"
  by (force simp: ends_turn_def good_def)

lemma on_completed_good:
  assumes "live st p"
  shows "\<exists>p'. p_run p (snd (on_completed J kind v st)) = Some p' \<and> good (fst (on_completed J kind v st)) p'"
proof -
  define f :: "translator \<Rightarrow> translator" where "f st = (case tr_stop_reason st of Some _ \<Rightarrow> st
    | None \<Rightarrow> st\<lparr>tr_stop_reason := Some (map_stop_reason J kind v (tr_saw_tool_call st))\<rparr>)" for st
  have "live (absorb_usage J v st) p"
    using assms by (auto simp: absorb_usage_def live_def sim_def split: option.splits)
  then have "live (f (absorb_usage J v st)) p"
    by (auto simp: f_def live_def sim_def split: option.splits)
  from ends_good [OF ends_finish_turn this] show ?thesis
    by (simp add: on_completed_def f_def [abs_def] run_ops_Cons quiet_def del: run_ops.simps(2))
qed

lemma dispatch_good:
  assumes "live st p"
  shows "\<exists>p'. p_run p (snd (dispatch_event J kind v st)) = Some p' \<and>
    good (fst (dispatch_event J kind v st)) p'"
proof -
  note kept = keeps_good [OF _ assms]
  show ?thesis
    by (simp add: dispatch_event_def ends_good [OF ends_fail_turn assms] on_completed_good [OF assms]
        kept [OF keeps_ensure_started] kept [OF keeps_on_text_delta] kept [OF keeps_on_text_done]
        kept [OF keeps_on_summary_part] kept [OF keeps_on_reasoning_delta] kept [OF keeps_on_item_added]
        kept [OF keeps_on_arguments_delta] kept [OF keeps_on_arguments_done]
        kept [OF keeps_on_item_done] kept [OF keeps_emit_nothing])
qed

lemma safe_push_frame: "safe (push_frame J frame)"
  unfolding safe_def
proof (intro allI impI)
  fix st p
  assume g: "good st p"
  show "\<exists>p'. p_run p (snd (push_frame J frame st)) = Some p' \<and> good (fst (push_frame J frame st)) p'"
  proof (cases "tr_finished st \<or> from_str J (data frame) = None")
    case True
    with g show ?thesis by (auto simp: push_frame_def)
  next
    case False
    then have "live st p" using g by (simp add: live_def good_def)
    with False show ?thesis using dispatch_good by (auto simp: push_frame_def)
  qed
qed

lemma safe_finish_turn: "safe finish_turn"
  unfolding safe_def
proof (intro allI impI)
  fix st p
  assume g: "good st p"
  show "\<exists>p'. p_run p (snd (finish_turn st)) = Some p' \<and> good (fst (finish_turn st)) p'"
  proof (cases "tr_finished st")
    case True
    with g show ?thesis by (simp add: finish_turn_def)
  next
    case False
    then have "live st p" using g by (simp add: live_def good_def)
    then show ?thesis by (rule ends_good [OF ends_finish_turn])
  qed
qed

lemma safe_run_ops: "list_all safe ms \<Longrightarrow> safe (run_ops ms)"
proof (induction ms)
  case Nil
  then show ?case by (simp add: safe_def)
next
  case (Cons m ms)
  show ?case
    unfolding safe_def
  proof (intro allI impI)
    fix st p
    assume "good st p"
    then obtain p1 where p1: "p_run p (snd (m st)) = Some p1" "good (fst (m st)) p1"
      using Cons.prems safeD by fastforce
    moreover have "safe (run_ops ms)" using Cons by simp
    ultimately show "\<exists>p'. p_run p (snd (run_ops (m # ms) st)) = Some p' \<and> good (fst (run_ops (m # ms) st)) p'"
      using safeD [of "run_ops ms" "fst (m st)" p1]
      by (auto simp: run_ops_Cons p_run_append simp del: run_ops.simps(2))
  qed
qed

lemma good_init: "names_ok names \<Longrightarrow> good (new_translator model mid names) p_init"
  by (simp add: good_def sim_def new_translator_def p_init_def calls_apart_def)

lemma pushes_good:
  "names_ok names \<Longrightarrow>
    \<exists>p. p_run p_init (snd (run_ops (map (push_frame J) frames) (new_translator model mid names))) = Some p \<and>
      good (fst (run_ops (map (push_frame J) frames) (new_translator model mid names))) p"
  by (rule safeD [OF safe_run_ops good_init]) (auto simp: list_all_iff safe_push_frame)

lemma finish_turn_finished: "tr_finished (fst (finish_turn st))"
  by (auto simp: finish_turn_def run_ops_Cons simp del: run_ops.simps(2))

lemma run_ops_snoc:
  "run_ops (ms @ [m]) st =
     (fst (m (fst (run_ops ms st))), snd (run_ops ms st) @ snd (m (fst (run_ops ms st))))"
  by (induction ms arbitrary: st) (simp_all add: run_ops_Cons del: run_ops.simps(2))

section \<open>What the client reads of a failure\<close>

text \<open>
  The texts and reasons a turn can carry are fixed; an operation is worded if it writes only those and
  records no other stop reason.
\<close>

definition error_words :: "(string \<times> string) list" where
  "error_words =
     map (\<lambda>k. (k, upstream_error_message k)) [''billing_error'', ''rate_limit_error'', ''api_error''] @
     map (\<lambda>c. (''invalid_request_error'',
         failure_client_message \<lparr>ib_category = c, ib_code = None, ib_request_id = None\<rparr>))
       [''context_length'', ''policy'', ''malformed_request'', ''unknown_invalid_request'']"

fun frame_worded :: "aframe \<Rightarrow> bool" where
  "frame_worded (ErrorFrame kind txt) \<longleftrightarrow> (kind, txt) \<in> set error_words"
| "frame_worded (MessageDelta reason _ _ _) \<longleftrightarrow> reason \<in> set stop_reasons"
| "frame_worded _ \<longleftrightarrow> True"

definition reason_ok :: "translator \<Rightarrow> bool" where
  "reason_ok st \<longleftrightarrow> (\<forall>r. tr_stop_reason st = Some r \<longrightarrow> r \<in> set stop_reasons)"

lemma default_reasons: "''tool_use'' \<in> set stop_reasons" "''end_turn'' \<in> set stop_reasons"
  by (simp_all add: stop_reasons_def)

interpretation wording: event_law reason_ok frame_worded
proof unfold_locales
  fix st
  assume "reason_ok st"
  then show "list_all frame_worded (closing_frames st)"
    by (cases "tr_stop_reason st") (simp_all add: closing_frames_def reason_ok_def default_reasons)
qed (simp_all add: reason_ok_def)

lemma error_frame_worded: "frame_worded (error_frame J v)"
  by (simp add: error_frame_def upstream_error_type_def failure_from_upstream_def error_words_def
      failure_client_message_def Let_def)

lemma worded_fail_turn: "obeys reason_ok frame_worded (fail_turn J v)"
proof -
  have "obeys reason_ok frame_worded (\<lambda>st. (st\<lparr>tr_finished := True\<rparr>, [error_frame J v]))"
    by (simp add: obeys_def error_frame_worded wording.fields)
  then have "obeys reason_ok frame_worded (run_ops [finalize_thinking, stop_open_blocks, quiet f,
      (\<lambda>st. (st\<lparr>tr_finished := True\<rparr>, [error_frame J v]))])"
    if "\<And>st. tr_stop_reason (f st) = tr_stop_reason st" for f
    using that by (auto intro!: law_rules obeys_quiet simp: reason_ok_def)
  then show ?thesis by (simp add: obeys_def fail_turn_def Let_def del: run_ops.simps)
qed

lemma worded_translate: "obeys reason_ok frame_worded (translate J frames)"
  unfolding translate_def
  by (rule obeys_run_ops)
    (simp add: list_all_iff wording.law_push_frame worded_fail_turn wording.law_finish_turn)

section \<open>Properties\<close>


definition call_event :: json_value where
  "call_event =
     JObj [(''type'', JStr ''response.output_item.done''),
           (''item'', JObj [(''type'', JStr ''function_call''), (''call_id'', JStr ''c''),
             (''name'', JStr ''f''), (''arguments'', JStr ''{}'')])]"


text \<open>
  C11. The arguments of a tool call are forwarded exactly once and in order: at every point of a turn,
  what the client has received for a call's block is the part of the call's arguments counted as
  forwarded, a prefix of them, and each block belongs to one call.
\<close>

theorem tool_arguments_forwarded_once:
  assumes "names_ok names"
    and "run_ops (map (push_frame J) frames) (new_translator model mid names) = (st, out)"
    and "s < length (tr_calls st)" "c_index (tr_calls st ! s) = Some i"
  shows "\<exists>p t n. p_run p_init out = Some p \<and>
    p_blocks p ! i = (ToolUse t n, take (c_emitted (tr_calls st ! s)) (c_arguments (tr_calls st ! s))) \<and>
    (\<forall>s' < length (tr_calls st). c_index (tr_calls st ! s') = Some i \<longrightarrow> s' = s)"
proof -
  from pushes_good [OF assms(1), of J frames model mid] assms(2) obtain p where
    p: "p_run p_init out = Some p" "sim st p" by (auto simp: good_def)
  then have "call_sim p (tr_calls st ! s)" using assms(3) by (simp add: sim_def list_all_length)
  moreover have "\<forall>s' < length (tr_calls st). c_index (tr_calls st ! s') = Some i \<longrightarrow> s' = s"
    using p(2) assms(3,4) by (auto simp: sim_def calls_apart_def)
  ultimately show ?thesis
    using p(1) assms(4) by (auto simp: call_sim_def prod_eq_iff)
qed

lemma call_event_run:
  "run_ops (map (push_frame (demo_json [(''e'', call_event)])) [\<lparr>event = None, data = ''e''\<rparr>])
      (new_translator ''m'' ''id'' Map.empty) = (st, out) \<Longrightarrow>
    length (tr_calls st) = 1 \<and> c_index (tr_calls st ! 0) = Some 0 \<and> c_emitted (tr_calls st ! 0) = 2 \<and>
    c_arguments (tr_calls st ! 0) = ''{}''"
  by (auto simp: push_frame_def call_event_def dispatch_event_def get_str_def on_item_done_def
      on_call_done_def with_slot_def slot_keys_def List.map_filter_def new_translator_def on_call_def
      quiet_def merge_identity_def adopt_arguments_def starts_with_def open_call_def start_block_def
      flush_call_arguments_def close_call_def close_block_def default_call_def Let_def)

theorem tool_arguments_forwarded_once_witness:
  "\<exists>p t n. p_run p_init (snd (run_ops (map (push_frame (demo_json [(''e'', call_event)]))
      [\<lparr>event = None, data = ''e''\<rparr>]) (new_translator ''m'' ''id'' Map.empty))) = Some p \<and>
    p_blocks p ! 0 = (ToolUse t n, ''{}'')"
proof -
  obtain st out where run: "run_ops (map (push_frame (demo_json [(''e'', call_event)]))
      [\<lparr>event = None, data = ''e''\<rparr>]) (new_translator ''m'' ''id'' Map.empty) = (st, out)"
    by fastforce
  have ok: "names_ok Map.empty" by (simp add: names_ok_def)
  from call_event_run [OF run] tool_arguments_forwarded_once [OF ok run, of 0 0] run show ?thesis
    by auto
qed

text \<open>
  Nothing the upstream words itself reaches the client as an error or a stop reason: every error
  frame carries one of seven fixed pairs of type and text, and every stop reason is one of the seven the
  client's API knows.
\<close>

theorem errors_are_reworded:
  "f \<in> set (snd (translate J frames (new_translator model mid names))) \<Longrightarrow>
    (\<forall>kind txt. f = ErrorFrame kind txt \<longrightarrow> (kind, txt) \<in> set error_words) \<and>
    (\<forall>reason i out c. f = MessageDelta reason i out c \<longrightarrow> reason \<in> set stop_reasons)"
proof -
  assume f: "f \<in> set (snd (translate J frames (new_translator model mid names)))"
  have "reason_ok (new_translator model mid names)" by (simp add: reason_ok_def new_translator_def)
  from obeysD [OF worded_translate this] f have "frame_worded f" by (auto simp: list_all_iff)
  then show ?thesis by (cases f) simp_all
qed

definition failed_event :: json_value where
  "failed_event =
     JObj [(''type'', JStr ''error''),
           (''error'', JObj [(''code'', JStr ''rate_limit_exceeded''), (''message'', JStr ''org-1'')])]"

lemma failed_event_run:
  "snd (translate (demo_json [(''e'', failed_event)]) [\<lparr>event = None, data = ''e''\<rparr>]
      (new_translator m mid names)) =
    [ErrorFrame ''rate_limit_error'' ''upstream rate limited this request'']"
  by (simp add: translate_def push_frame_def failed_event_def dispatch_event_def get_str_def
      fail_turn_def finalize_thinking_def stop_open_blocks_def quiet_def error_frame_def
      upstream_error_type_def error_code_def error_kind_def upstream_error_message_def
      finish_turn_def new_translator_def jpointer_def Let_def)

theorem errors_are_reworded_witness:
  "(''rate_limit_error'', ''upstream rate limited this request'') \<in> set error_words"
  using errors_are_reworded [of "ErrorFrame ''rate_limit_error'' ''upstream rate limited this request''"
      "demo_json [(''e'', failed_event)]" "[\<lparr>event = None, data = ''e''\<rparr>]" "[]" "[]" Map.empty]
  by (simp only: failed_event_run) simp

definition message_event :: "string \<Rightarrow> json_value" where
  "message_event t =
     JObj [(''type'', JStr ''response.output_item.done''),
           (''item'', JObj [(''type'', JStr ''message''),
             (''content'', JArr [JObj [(''text'', JStr t)]])])]"

text \<open>
  A delta can follow the stop of its own block, and a block can start before the message does: two
  completed message items in a stream without text deltas share one text block, which the first closes,
  and neither starts the message.
\<close>

theorem delta_after_stop:
  assumes "s \<noteq> []" "t \<noteq> []"
  shows "take 4 (snd (translate (demo_json [(''a'', message_event s), (''b'', message_event t)])
      [\<lparr>event = None, data = ''a''\<rparr>, \<lparr>event = None, data = ''b''\<rparr>] (new_translator m mid names))) =
    [BlockStart 0 TextBlock, BlockDelta 0 (TextDelta s), BlockStop 0, BlockDelta 0 (TextDelta t)]"
  using assms
  by (simp add: translate_def push_frame_def message_event_def dispatch_event_def get_str_def
      on_item_done_def on_message_done_def message_item_text_def List.map_filter_def
      with_text_block_def start_block_def close_block_def emit_def new_translator_def Let_def
      split: prod.splits)

theorem delta_after_stop_witness:
  "BlockDelta 0 (TextDelta ''bye'') \<in> set (take 4 (snd (translate
      (demo_json [(''a'', message_event ''hi''), (''b'', message_event ''bye'')])
      [\<lparr>event = None, data = ''a''\<rparr>, \<lparr>event = None, data = ''b''\<rparr>] (new_translator [] [] Map.empty))))"
proof -
  have "''hi'' \<noteq> []" "''bye'' \<noteq> []" by simp_all
  from delta_after_stop [OF this, of "[]" "[]" Map.empty] show ?thesis by simp
qed

end
