(* ===== verification/Upstream_Failure.thy ===== *)
theory Upstream_Failure
  imports Json_Api Utf8
begin

text \<open>
  \<^verbatim>\<open>codex_upstream.rs\<close>, the failure side: what a non-2xx upstream response is reduced to
  (\<^verbatim>\<open>UpstreamFailure\<close>), how it is classified, how its text is scrubbed before it is kept, and what
  each error means to the retry loop (\<^verbatim>\<open>UpstreamError\<close>).
\<close>

section \<open>Data\<close>

datatype failure_class = Permanent | Transient | Unknown | Exhausted

record upstream_failure =
  uf_status :: nat
  uf_class :: failure_class
  uf_context_length_exceeded :: bool
  uf_request_id :: "string option"
  uf_cf_ray :: "string option"
  uf_retry_after :: "duration option"
  uf_resets_in :: "duration option"
  uf_detail :: "string option"

datatype upstream_error =
    Credentials string
  | Status upstream_failure
  | Transport string
  | CompactMalformed
  | TooLarge
  | Timeout
  | Cancelled
  | Downstream string

record upstream_config =
  first_frame_timeout :: "duration option"
  overall_timeout :: duration
  max_response_bytes :: nat
  max_attempts_cfg :: nat
  unknown_max_attempts :: nat
  retry_delay :: duration
  max_retry_delay :: duration
  max_retry_elapsed :: duration

definition default_config :: upstream_config where
  "default_config =
     \<lparr>first_frame_timeout = None, overall_timeout = from_secs 3600,
      max_response_bytes = 64 * 1024 * 1024, max_attempts_cfg = 4, unknown_max_attempts = 2,
      retry_delay = from_millis 500, max_retry_delay = from_secs 8,
      max_retry_elapsed = from_secs 30\<rparr>"

section \<open>Classification\<close>

definition permanent_signatures :: "string list" where
  "permanent_signatures =
    [''requires a newer version'', ''unsupported_value'', ''unsupported_parameter'',
     ''unsupported_country_region_territory'', ''invalid_request_error'', ''unknown provider'',
     ''model_not_found'', ''does not exist'', ''invalid_api_key'']"

definition exhausted_signatures :: "string list" where
  "exhausted_signatures =
    [''insufficient_quota'', ''usage_limit_reached'', ''quota_exceeded'', ''out of credits'',
     ''credit balance'', ''billing_hard_limit_reached'', ''free-models-per-day'', ''daily limit'',
     ''daily quota'', ''requires more credits'']"

definition transient_signatures :: "string list" where
  "transient_signatures =
    [''bad gateway'', ''gateway timeout'', ''service unavailable'', ''temporarily unavailable'',
     ''overloaded'', ''try again'', ''circuit_open'', ''circuit open'', ''cloudflare'',
     ''internal server error'', ''server_error'', ''timeout'']"

definition non_retryable_statuses :: "nat list" where
  "non_retryable_statuses = [400, 401, 403, 404, 405, 409, 413, 422]"

definition classify :: "nat \<Rightarrow> string \<Rightarrow> failure_class" where
  "classify status body_prefix =
     (let body = to_ascii_lowercase body_prefix
      in if list_ex (str_contains body) exhausted_signatures then Exhausted
         else if list_ex (str_contains body) permanent_signatures then Permanent
         else if list_contains non_retryable_statuses status then Permanent
         else if status = 408 \<or> status = 429 then Transient
         else if status \<ge> 500 then
           (if trim body = [] \<or> list_ex (str_contains body) transient_signatures then Transient
            else Unknown)
         else Permanent)"

section \<open>What is kept of a response\<close>

definition context_length_exceeded :: "'v json_api \<Rightarrow> string \<Rightarrow> bool" where
  "context_length_exceeded J body_prefix =
     (case from_str J body_prefix of
        None \<Rightarrow> False
      | Some v \<Rightarrow>
          list_ex (\<lambda>p. pointer_str J v p = Some ''context_length_exceeded'')
            [''/error/code'', ''/code''])"

fun first_u64 :: "'v json_api \<Rightarrow> 'v \<Rightarrow> string list \<Rightarrow> duration option" where
  "first_u64 J v [] = None"
| "first_u64 J v (p # ps) =
     (case Option.bind (pointer J v p) (as_u64 J) of
        Some seconds \<Rightarrow> Some (from_secs seconds)
      | None \<Rightarrow> first_u64 J v ps)"

definition parse_resets_in :: "'v json_api \<Rightarrow> string \<Rightarrow> duration option" where
  "parse_resets_in J body_prefix =
     (case from_str J body_prefix of
        None \<Rightarrow> None
      | Some v \<Rightarrow>
          first_u64 J v
            [''/error/resets_in_seconds'', ''/resets_in_seconds'', ''/error/resets_in'',
             ''/resets_in''])"

definition is_token_char :: "char \<Rightarrow> bool" where
  "is_token_char c \<longleftrightarrow> is_ascii_alphanumeric c \<or> c = CHR ''-'' \<or> c = CHR ''_''"

definition scrub_flush :: "string \<Rightarrow> string" where
  "scrub_flush run =
     (if length run \<ge> 20 \<or> starts_with run ''sk-'' \<or> starts_with run ''org_''
      then ''[redacted]'' else run)"

fun scrub_from :: "string \<Rightarrow> string \<Rightarrow> string" where
  "scrub_from run [] = scrub_flush run"
| "scrub_from run (c # text) =
     (if is_token_char c then scrub_from (run @ [c]) text
      else scrub_flush run @ [c] @ scrub_from [] text)"

definition scrub :: "string \<Rightarrow> string" where
  "scrub text = scrub_from [] text"

text \<open>Scalars of a UTF-8 text: every byte that is not a continuation byte starts one.\<close>

definition chars_count :: "string \<Rightarrow> nat" where
  "chars_count s = length (filter (\<lambda>c. \<not> is_cont c) s)"

fun chars_take :: "nat \<Rightarrow> string \<Rightarrow> string" where
  "chars_take n [] = []"
| "chars_take n (c # s) =
     (if is_cont c then c # chars_take n s
      else (case n of 0 \<Rightarrow> [] | Suc m \<Rightarrow> c # chars_take m s))"

definition truncate_chars :: "string \<Rightarrow> nat \<Rightarrow> string" where
  "truncate_chars text limit =
     (if chars_count text \<le> limit then text else chars_take limit text @ ''...'')"

definition error_detail :: "'v json_api \<Rightarrow> string \<Rightarrow> string option" where
  "error_detail J body_prefix =
     (case from_str J body_prefix of
        None \<Rightarrow> None
      | Some v \<Rightarrow>
          let at = (\<lambda>p. case map_option trim (pointer_str J v p) of
                          Some t \<Rightarrow> if t \<noteq> [] then Some t else None
                        | None \<Rightarrow> None);
              code = or_else (at ''/error/code'') (or_else (at ''/error/type'') (at ''/code''));
              message = or_else (at ''/error/message'') (at ''/message'')
          in map_option (\<lambda>d. truncate_chars d 200)
               (case (code, message) of
                  (Some c, Some m) \<Rightarrow> Some (c @ '': '' @ scrub m)
                | (Some c, None) \<Rightarrow> Some c
                | (None, Some m) \<Rightarrow> Some (scrub m)
                | (None, None) \<Rightarrow> None))"

definition nonblank :: "string option \<Rightarrow> string option" where
  "nonblank h = (case h of Some v \<Rightarrow> if trim v \<noteq> [] then Some v else None | None \<Rightarrow> None)"

definition from_parts ::
    "'v json_api \<Rightarrow> nat \<Rightarrow> (string \<Rightarrow> string option) \<Rightarrow> string \<Rightarrow> duration \<Rightarrow> upstream_failure" where
  "from_parts J status header body_prefix max_delay =
     \<lparr>uf_status = status,
      uf_class = classify status body_prefix,
      uf_context_length_exceeded = context_length_exceeded J body_prefix,
      uf_request_id = nonblank (header ''x-request-id''),
      uf_cf_ray = nonblank (header ''cf-ray''),
      uf_retry_after =
        map_option (\<lambda>secs. min (from_secs secs) max_delay)
          (Option.bind (header ''retry-after'') (\<lambda>v. parse_u64 (trim v))),
      uf_resets_in = parse_resets_in J body_prefix,
      uf_detail = error_detail J body_prefix\<rparr>"

text \<open>
  \<^verbatim>\<open>capture_failure\<close> reads a bounded prefix of the body, decodes it lossily, and forwards exactly three
  response headers.
\<close>

definition error_body_prefix_limit :: nat where
  "error_body_prefix_limit = 8 * 1024"

definition capture_failure ::
    "'v json_api \<Rightarrow> nat \<Rightarrow> (string \<Rightarrow> string option) \<Rightarrow> string \<Rightarrow> duration \<Rightarrow> upstream_failure" where
  "capture_failure J status response_header body max_delay =
     from_parts J status
       (\<lambda>name.
          if name = ''x-request-id'' then response_header ''x-request-id''
          else if name = ''cf-ray'' then response_header ''cf-ray''
          else if name = ''retry-after'' then response_header ''retry-after''
          else None)
       (from_utf8_lossy (take error_body_prefix_limit body)) max_delay"

text \<open>The \<^verbatim>\<open>Display\<close> of an error: the only field of a status failure it shows is the status.\<close>

fun error_display :: "upstream_error \<Rightarrow> string" where
  "error_display (Credentials what) = ''upstream credentials unavailable: '' @ what"
| "error_display (Status failure) = ''upstream returned status '' @ show_nat (uf_status failure)"
| "error_display (Transport what) = ''upstream transport failure: '' @ what"
| "error_display CompactMalformed = ''upstream compact response was malformed''"
| "error_display TooLarge = ''upstream response exceeded the size budget''"
| "error_display Timeout = ''upstream request timed out''"
| "error_display Cancelled = ''upstream request cancelled''"
| "error_display (Downstream what) = ''downstream sink failed: '' @ what"

section \<open>What an error means to the retry loop\<close>

definition failure_max_attempts :: "upstream_failure \<Rightarrow> upstream_config \<Rightarrow> nat" where
  "failure_max_attempts f cfg =
     (case uf_class f of
        Permanent \<Rightarrow> 1
      | Exhausted \<Rightarrow> 1
      | Transient \<Rightarrow> max (max_attempts_cfg cfg) 1
      | Unknown \<Rightarrow> max (unknown_max_attempts cfg) 1)"

fun is_retryable :: "upstream_error \<Rightarrow> bool" where
  "is_retryable (Transport _) = True"
| "is_retryable Timeout = True"
| "is_retryable (Status f) = (\<not> (uf_class f = Permanent \<or> uf_class f = Exhausted))"
| "is_retryable _ = False"

fun max_attempts :: "upstream_error \<Rightarrow> upstream_config \<Rightarrow> nat" where
  "max_attempts (Transport _) cfg = max (max_attempts_cfg cfg) 1"
| "max_attempts Timeout cfg = max (max_attempts_cfg cfg) 1"
| "max_attempts (Status f) cfg = failure_max_attempts f cfg"
| "max_attempts _ cfg = 1"

fun retry_hint :: "upstream_error \<Rightarrow> duration option" where
  "retry_hint (Status f) = uf_retry_after f"
| "retry_hint _ = None"

fun is_context_length_error :: "upstream_error \<Rightarrow> bool" where
  "is_context_length_error (Status f) = uf_context_length_exceeded f"
| "is_context_length_error _ = False"

section \<open>Lemmas\<close>

lemma max_attempts_pos: "0 < max_attempts e cfg"
  by (cases e) (auto simp: failure_max_attempts_def split: failure_class.splits)

lemma max_attempts_bound:
  "max_attempts e cfg \<le> max 1 (max (max_attempts_cfg cfg) (unknown_max_attempts cfg))"
  by (cases e) (auto simp: failure_max_attempts_def split: failure_class.splits)

lemma classify_retryable_status:
  "classify status body \<in> {Transient, Unknown} \<Longrightarrow>
    (status = 408 \<or> status = 429 \<or> 500 \<le> status) \<and> status \<notin> set non_retryable_statuses"
  by (auto simp: classify_def Let_def split: if_splits)

lemma classify_lowercase: "classify status (to_ascii_lowercase body) = classify status body"
  by (simp add: classify_def)

text \<open>The maximal runs of token characters of a text.\<close>

fun token_runs_from :: "string \<Rightarrow> string \<Rightarrow> string list" where
  "token_runs_from run [] = [run]"
| "token_runs_from run (c # s) =
     (if is_token_char c then token_runs_from (run @ [c]) s else run # token_runs_from [] s)"

definition token_runs :: "string \<Rightarrow> string list" where
  "token_runs s = token_runs_from [] s"

definition run_clean :: "string \<Rightarrow> bool" where
  "run_clean r \<longleftrightarrow> length r < 20 \<and> \<not> prefix ''sk-'' r \<and> \<not> prefix ''org_'' r"

lemma run_clean_prefix: "run_clean r \<Longrightarrow> prefix p r \<Longrightarrow> run_clean p"
  unfolding run_clean_def
  by (meson le_less_trans prefix_length_le prefix_order.trans)

lemma token_runs_from_token:
  "list_all is_token_char r \<Longrightarrow> token_runs_from run (r @ s) = token_runs_from (run @ r) s"
  by (induction r arbitrary: run) auto

lemma redacted_chars:
  "\<not> is_token_char (CHR ''['')" "\<not> is_token_char (CHR '']'')" "\<not> is_token_char (CHR ''.'')"
  "list_all is_token_char ''redacted''"
  by (simp_all add: is_token_char_def rust_eval)

lemma token_runs_redacted:
  "token_runs_from run (''[redacted]'' @ s) = [run, ''redacted''] @ token_runs_from [] s"
  using redacted_chars by simp

lemma run_clean_redacted [simp]: "run_clean []" "run_clean ''redacted''"
  by (simp_all add: run_clean_def)

lemma scrub_flush_runs:
  assumes "list_all is_token_char run" "\<not> is_token_char c"
  shows "\<exists>rs. list_all run_clean rs \<and>
    token_runs_from [] (scrub_flush run @ c # s) = rs @ token_runs_from [] s"
proof (cases "length run \<ge> 20 \<or> starts_with run ''sk-'' \<or> starts_with run ''org_''")
  case True
  have "token_runs_from [] (scrub_flush run @ c # s) =
      [[], ''redacted'', []] @ token_runs_from [] s"
    using True assms(2) token_runs_redacted [of "[]" "c # s"] by (simp add: scrub_flush_def)
  then show ?thesis by (intro exI [of _ "[[], ''redacted'', []]"]) simp
next
  case False
  then have "token_runs_from [] (scrub_flush run @ c # s) = [run] @ token_runs_from [] s"
    using assms token_runs_from_token [of run "[]" "c # s"] by (simp add: scrub_flush_def)
  moreover have "run_clean run" using False by (auto simp: run_clean_def starts_with_def)
  ultimately show ?thesis by (intro exI [of _ "[run]"]) simp
qed

lemma scrub_flush_runs_end:
  "list_all is_token_char run \<Longrightarrow> list_all run_clean (token_runs_from [] (scrub_flush run))"
proof (cases "length run \<ge> 20 \<or> starts_with run ''sk-'' \<or> starts_with run ''org_''")
  case True
  then show ?thesis
    using token_runs_redacted [of "[]" "[]"] by (simp add: scrub_flush_def)
next
  case False
  moreover assume "list_all is_token_char run"
  ultimately show ?thesis
    using token_runs_from_token [of run "[]" "[]"]
    by (auto simp: scrub_flush_def run_clean_def starts_with_def)
qed

lemma scrub_from_clean:
  "list_all is_token_char run \<Longrightarrow> list_all run_clean (token_runs_from [] (scrub_from run msg))"
proof (induction msg arbitrary: run)
  case Nil
  then show ?case by (simp add: scrub_flush_runs_end)
next
  case (Cons c msg)
  show ?case
  proof (cases "is_token_char c")
    case True
    with Cons show ?thesis by simp
  next
    case False
    with scrub_flush_runs [OF Cons.prems False, of "scrub_from [] msg"] Cons.IH [of "[]"]
    show ?thesis by auto
  qed
qed

lemma token_runs_from_head: "\<exists>r rs. token_runs_from run s = r # rs \<and> prefix run r"
proof (induction s arbitrary: run)
  case Nil
  then show ?case by simp
next
  case (Cons c s)
  from Cons.IH [of "run @ [c]"] show ?case by (auto dest: append_prefixD)
qed

lemma token_runs_from_take:
  "list_all run_clean (token_runs_from run s) \<Longrightarrow>
    list_all run_clean (token_runs_from run (chars_take n s @ ''...''))"
proof (induction s arbitrary: n run)
  case Nil
  then show ?case using redacted_chars by simp
next
  case (Cons c s)
  have "run_clean run"
    using Cons.prems token_runs_from_head [of run "c # s"] run_clean_prefix by fastforce
  then have dots: "list_all run_clean (token_runs_from run ''...'')"
    using redacted_chars by simp
  show ?case
    using Cons dots by (auto split: nat.splits if_splits)
qed

section \<open>Properties\<close>

text \<open>
  What is kept of an upstream error message never carries a token-shaped run: after
  \<^verbatim>\<open>scrub\<close>, and still after the truncation to 200 characters that \<^verbatim>\<open>error_detail\<close> applies, every
  maximal run of letters, digits, hyphens and underscores is shorter than 20 and starts neither with
  \<^verbatim>\<open>sk-\<close> nor with \<^verbatim>\<open>org_\<close>.
\<close>

theorem scrub_redacts_tokens:
  "list_all run_clean (token_runs (scrub text)) \<and>
   list_all run_clean (token_runs (truncate_chars (scrub text) limit))"
proof -
  have clean: "list_all run_clean (token_runs_from [] (scrub text))"
    unfolding scrub_def by (rule scrub_from_clean) simp
  then show ?thesis
    by (simp add: token_runs_def truncate_chars_def token_runs_from_take)
qed

end
