(* ===== verification/Upstream_Retry.thy ===== *)
theory Upstream_Retry
  imports Upstream_Failure
begin

text \<open>
  \<^verbatim>\<open>codex_upstream.rs\<close>, the control side: the backoff policy, the sliced cancellable sleep, the retry
  loop \<^verbatim>\<open>UpstreamClient::stream_with_commit\<close> and the read loop of one \<^verbatim>\<open>attempt\<close>. What the network,
  the clock, the cancel flag and the sink do is an environment record, indexed by the attempt or the
  read it answers; the shared \<^verbatim>\<open>delivered\<close> flag is what the environment reports after an attempt.
  Floating-point multiplication of a duration is a parameter (\<open>float_ops\<close>).
\<close>

section \<open>Backoff\<close>

record 'f float_ops =
  mul_f64 :: "duration \<Rightarrow> 'f \<Rightarrow> duration"
  half :: 'f
  clamp01 :: "'f \<Rightarrow> 'f"

definition duration_max :: duration where
  "duration_max = from_secs (2 ^ 64 - 1) + 999999999"

definition saturating_mul :: "duration \<Rightarrow> nat \<Rightarrow> duration" where
  "saturating_mul d n = min (d * n) duration_max"

definition backoff_delay :: "'f float_ops \<Rightarrow> nat \<Rightarrow> upstream_config \<Rightarrow> 'f \<Rightarrow> duration" where
  "backoff_delay F attempt cfg jitter =
     (let exponent = min (attempt - 1) 16;
          base = min (saturating_mul (retry_delay cfg) (2 ^ exponent)) (max_retry_delay cfg);
          span = mul_f64 F base (half F);
          clamped = clamp01 F jitter
      in base - mul_f64 F span clamped)"

text \<open>The un-jittered window of an attempt.\<close>

definition backoff_base :: "nat \<Rightarrow> upstream_config \<Rightarrow> duration" where
  "backoff_base attempt cfg =
     min (saturating_mul (retry_delay cfg) (2 ^ min (attempt - 1) 16)) (max_retry_delay cfg)"

section \<open>The sliced sleep\<close>

definition sleep_slice :: duration where
  "sleep_slice = from_millis 25"

text \<open>
  \<^verbatim>\<open>wait_or_cancel\<close>: \<open>cancel k\<close> is what the flag reads at the \<open>k\<close>-th poll. The result is whether it
  was cancelled and how long it slept.
\<close>

function wait_or_cancel :: "duration \<Rightarrow> (nat \<Rightarrow> bool) \<Rightarrow> duration \<Rightarrow> nat \<Rightarrow> bool \<times> duration" where
  "wait_or_cancel amount cancel waited k =
     (if waited < amount then
        (if cancel k then (True, waited)
         else wait_or_cancel amount cancel (waited + min sleep_slice (amount - waited)) (Suc k))
      else (cancel k, waited))"
  by pat_completeness auto
termination
  by (relation "measure (\<lambda>(amount, cancel, waited, k). amount - waited)")
    (auto simp: sleep_slice_def from_millis_def)

declare wait_or_cancel.simps [simp del]

section \<open>The retry loop\<close>

record 'f stream_env =
  resolve_result :: "(upstream_error, unit) result"
  cancel_at_top :: "nat \<Rightarrow> bool"
  attempt_result :: "nat \<Rightarrow> (upstream_error, nat) result"
  delivered_after :: "nat \<Rightarrow> bool"
  now_after :: "nat \<Rightarrow> instant"
  jitter_fraction :: "nat \<Rightarrow> 'f"
  cancel_poll :: "nat \<Rightarrow> nat \<Rightarrow> bool"

record stream_outcome =
  so_attempts :: nat
  so_bytes :: nat

text \<open>What a run of the loop did: its result, the attempts made, the backoffs granted, the observer calls.\<close>

record stream_trace =
  st_result :: "(upstream_error, stream_outcome) result"
  st_attempts :: nat
  st_backoffs :: "duration list"
  st_observed :: "(nat \<times> nat \<times> duration option) list"

definition prepend_backoff ::
    "duration \<Rightarrow> nat \<times> nat \<times> duration option \<Rightarrow> stream_trace \<Rightarrow> stream_trace" where
  "prepend_backoff b obs t =
     t\<lparr>st_backoffs := b # st_backoffs t, st_observed := obs # st_observed t\<rparr>"

definition retry_backoff :: "'f float_ops \<Rightarrow> upstream_config \<Rightarrow> 'f stream_env \<Rightarrow> upstream_error \<Rightarrow> nat \<Rightarrow> duration" where
  "retry_backoff F cfg env err attempt =
     (case retry_hint err of
        Some hint \<Rightarrow> min hint (max_retry_delay cfg)
      | None \<Rightarrow> backoff_delay F attempt cfg (jitter_fraction env attempt))"

definition retry_allowed :: "upstream_config \<Rightarrow> instant \<Rightarrow> 'f stream_env \<Rightarrow> upstream_error \<Rightarrow> nat \<Rightarrow> bool" where
  "retry_allowed cfg deadline env err attempt \<longleftrightarrow>
     \<not> delivered_after env attempt \<and> is_retryable err \<and> attempt < max_attempts err cfg \<and>
     now_after env attempt < deadline"

lemma retry_allowed_budget:
  "retry_allowed cfg deadline env err attempt \<Longrightarrow>
    attempt < max 1 (max (max_attempts_cfg cfg) (unknown_max_attempts cfg))"
  using max_attempts_bound [of err cfg] by (simp add: retry_allowed_def)

function stream_loop ::
    "'f float_ops \<Rightarrow> upstream_config \<Rightarrow> instant \<Rightarrow> 'f stream_env \<Rightarrow> nat \<Rightarrow> duration \<Rightarrow> stream_trace" where
  "stream_loop F cfg deadline env tried slept =
     (let attempt = Suc tried
      in if cancel_at_top env attempt then
           \<lparr>st_result = Inl Cancelled, st_attempts = tried, st_backoffs = [], st_observed = []\<rparr>
         else
           (case attempt_result env attempt of
              Inr bytes \<Rightarrow>
                \<lparr>st_result = Inr \<lparr>so_attempts = attempt, so_bytes = bytes\<rparr>, st_attempts = attempt,
                 st_backoffs = [], st_observed = []\<rparr>
            | Inl err \<Rightarrow>
                let budget = max_attempts err cfg;
                    backoff = retry_backoff F cfg env err attempt;
                    give_up = \<lparr>st_result = Inl err, st_attempts = attempt, st_backoffs = [],
                               st_observed = [(attempt, budget, None)]\<rparr>
                in if \<not> retry_allowed cfg deadline env err attempt then give_up
                   else if slept + backoff > max_retry_elapsed cfg then give_up
                   else if fst (wait_or_cancel backoff (cancel_poll env attempt) 0 0) then
                     \<lparr>st_result = Inl Cancelled, st_attempts = attempt, st_backoffs = [backoff],
                      st_observed = [(attempt, budget, Some backoff)]\<rparr>
                   else
                     prepend_backoff backoff (attempt, budget, Some backoff)
                       (stream_loop F cfg deadline env attempt (slept + backoff))))"
  by pat_completeness auto
termination
  by (relation "measure (\<lambda>(F, cfg, deadline, env, tried, slept).
        max 1 (max (max_attempts_cfg cfg) (unknown_max_attempts cfg)) - tried)")
    (auto dest!: retry_allowed_budget)

declare stream_loop.simps [simp del]

definition stream_with_commit :: "'f float_ops \<Rightarrow> upstream_config \<Rightarrow> instant \<Rightarrow> 'f stream_env \<Rightarrow> stream_trace" where
  "stream_with_commit F cfg start env =
     (case resolve_result env of
        Inl err \<Rightarrow> \<lparr>st_result = Inl err, st_attempts = 0, st_backoffs = [], st_observed = []\<rparr>
      | Inr _ \<Rightarrow> stream_loop F cfg (start + overall_timeout cfg) env 0 0)"

section \<open>The read loop of one attempt\<close>

datatype read_outcome = ReadBytes string | ReadTimedOut | ReadFailed

record read_step =
  rs_cancelled :: bool
  rs_now :: instant
  rs_delivered :: bool
  rs_read :: read_outcome
  rs_now_after :: instant
  rs_sink :: "(upstream_error, unit) result"

definition past :: "instant option \<Rightarrow> instant \<Rightarrow> bool" where
  "past at now = (case at of Some t \<Rightarrow> t \<le> now | None \<Rightarrow> False)"

text \<open>
  The result and the chunks the sink was given. The list of steps is what the environment supplies;
  when it ends, the loop is still waiting for its next read (\<open>None\<close>).
\<close>

fun read_loop ::
    "upstream_config \<Rightarrow> instant \<Rightarrow> instant option \<Rightarrow> nat \<Rightarrow> read_step list \<Rightarrow>
      (upstream_error, nat) result option \<times> string list" where
  "read_loop cfg deadline ffd amount [] = (None, [])"
| "read_loop cfg deadline ffd amount (r # rs) =
     (if rs_cancelled r then (Some (Inl Cancelled), [])
      else if deadline \<le> rs_now r \<or> (\<not> rs_delivered r \<and> past ffd (rs_now r)) then
        (Some (Inl Timeout), [])
      else
        (case rs_read r of
           ReadTimedOut \<Rightarrow>
             (Some (Inl (if \<not> rs_delivered r \<and> past ffd (rs_now_after r) then Timeout
                         else Transport ''read timed out'')), [])
         | ReadFailed \<Rightarrow> (Some (Inl (Transport ''read failed'')), [])
         | ReadBytes bytes \<Rightarrow>
             if bytes = [] then (Some (Inr amount), [])
             else
               let amount' = amount + length bytes
               in if amount' > max_response_bytes cfg then (Some (Inl TooLarge), [])
                  else
                    (case rs_sink r of
                       Inl err \<Rightarrow> (Some (Inl err), [bytes])
                     | Inr _ \<Rightarrow>
                         let (res, chunks) = read_loop cfg deadline ffd amount' rs
                         in (res, bytes # chunks))))"

text \<open>
  The whole attempt: the answer of the HTTP library to the request, then the read loop. A transport
  error counts as a timeout only when it wrapped one and the first-frame budget is spent.
\<close>

datatype send_outcome = SendOk | SendStatus upstream_failure | SendTransport bool

definition perform_attempt ::
    "upstream_config \<Rightarrow> instant \<Rightarrow> instant \<Rightarrow> instant \<Rightarrow> send_outcome \<Rightarrow> read_step list \<Rightarrow>
      (upstream_error, nat) result option \<times> string list" where
  "perform_attempt cfg deadline started answered sent steps =
     (let attempt_deadline = map_option (\<lambda>timeout. started + timeout) (first_frame_timeout cfg)
      in case sent of
           SendStatus failure \<Rightarrow> (Some (Inl (Status failure)), [])
         | SendTransport timed_out \<Rightarrow>
             (Some (Inl (if past attempt_deadline answered \<and> timed_out then Timeout
                         else Transport ''connection failed'')), [])
         | SendOk \<Rightarrow> read_loop cfg deadline attempt_deadline 0 steps)"

section \<open>Lemmas\<close>

lemma backoff_delay_base:
  "backoff_delay F attempt cfg j =
     (let b = backoff_base attempt cfg in b - mul_f64 F (mul_f64 F b (half F)) (clamp01 F j))"
  by (simp add: backoff_delay_def backoff_base_def Let_def)

lemma backoff_delay_ceiling: "backoff_delay F attempt cfg j \<le> max_retry_delay cfg"
  by (simp add: backoff_delay_base backoff_base_def Let_def)

lemma retry_backoff_ceiling: "retry_backoff F cfg env err attempt \<le> max_retry_delay cfg"
  by (auto simp: retry_backoff_def backoff_delay_ceiling split: option.splits)

lemma wait_or_cancel_bound:
  "waited \<le> amount \<Longrightarrow> snd (wait_or_cancel amount cancel waited k) \<le> amount"
proof (induction amount cancel waited k rule: wait_or_cancel.induct)
  case (1 amount cancel waited k)
  then show ?case by (subst wait_or_cancel.simps) auto
qed

lemma wait_or_cancel_complete:
  "waited \<le> amount \<Longrightarrow> \<not> fst (wait_or_cancel amount cancel waited k) \<Longrightarrow>
    snd (wait_or_cancel amount cancel waited k) = amount"
proof (induction amount cancel waited k rule: wait_or_cancel.induct)
  case (1 amount cancel waited k)
  then show ?case
    by (subst wait_or_cancel.simps, subst (asm) (2) wait_or_cancel.simps) (auto split: if_splits)
qed

lemma prepend_backoff_simps [simp]:
  "st_result (prepend_backoff b obs t) = st_result t"
  "st_attempts (prepend_backoff b obs t) = st_attempts t"
  "st_backoffs (prepend_backoff b obs t) = b # st_backoffs t"
  "st_observed (prepend_backoff b obs t) = obs # st_observed t"
  by (simp_all add: prepend_backoff_def)

text \<open>
  The invariant of a run that starts after \<open>tried\<close> attempts and \<open>slept\<close> time asleep.
\<close>

definition run_ok ::
    "upstream_config \<Rightarrow> instant \<Rightarrow> 'f stream_env \<Rightarrow> nat \<Rightarrow> duration \<Rightarrow> stream_trace \<Rightarrow> bool" where
  "run_ok cfg deadline env tried slept t \<longleftrightarrow>
     st_attempts t \<le> max (Suc tried) (max 1 (max (max_attempts_cfg cfg) (unknown_max_attempts cfg))) \<and>
     (\<forall>k \<in> {tried<..<st_attempts t}.
        \<exists>err. attempt_result env k = Inl err \<and> retry_allowed cfg deadline env err k) \<and>
     list_all (\<lambda>b. b \<le> max_retry_delay cfg) (st_backoffs t) \<and>
     (st_backoffs t \<noteq> [] \<longrightarrow> slept + sum_list (st_backoffs t) \<le> max_retry_elapsed cfg) \<and>
     tried \<le> st_attempts t \<and>
     (case st_result t of
        Inl _ \<Rightarrow> True
      | Inr out \<Rightarrow> so_attempts out = st_attempts t \<and>
          attempt_result env (st_attempts t) = Inr (so_bytes out))"

text \<open>One unfolding of the loop on each of its ways.\<close>

lemma stream_loop_retry:
  assumes "\<not> cancel_at_top env (Suc tried)" "attempt_result env (Suc tried) = Inl err"
    and "retry_allowed cfg deadline env err (Suc tried)"
    and "b = retry_backoff F cfg env err (Suc tried)" "slept + b \<le> max_retry_elapsed cfg"
    and "\<not> fst (wait_or_cancel b (cancel_poll env (Suc tried)) 0 0)"
  shows "stream_loop F cfg deadline env tried slept =
    prepend_backoff b (Suc tried, max_attempts err cfg, Some b)
      (stream_loop F cfg deadline env (Suc tried) (slept + b))"
  using assms by (simp add: stream_loop.simps [of F cfg deadline env tried slept] Let_def)

lemma stream_loop_done:
  assumes "\<not> cancel_at_top env (Suc tried)" "attempt_result env (Suc tried) = Inr bytes"
  shows "stream_loop F cfg deadline env tried slept =
    \<lparr>st_result = Inr \<lparr>so_attempts = Suc tried, so_bytes = bytes\<rparr>, st_attempts = Suc tried,
     st_backoffs = [], st_observed = []\<rparr>"
  using assms by (simp add: stream_loop.simps [of F cfg deadline env tried slept] Let_def)

lemma stream_loop_ok: "run_ok cfg deadline env tried slept (stream_loop F cfg deadline env tried slept)"
proof (induction F cfg deadline env tried slept rule: stream_loop.induct)
  case (1 F cfg deadline env tried slept)
  let ?a = "Suc tried"
  show ?case
  proof (cases "cancel_at_top env ?a \<or> (\<exists>n. attempt_result env ?a = Inr n)")
    case True
    then show ?thesis
      by (auto simp: stream_loop.simps [of F cfg deadline env tried slept] run_ok_def)
  next
    case False
    then obtain err where err: "attempt_result env ?a = Inl err" and top: "\<not> cancel_at_top env ?a"
      by (metis sum.exhaust)
    let ?b = "retry_backoff F cfg env err ?a"
    show ?thesis
    proof (cases "retry_allowed cfg deadline env err ?a \<and> \<not> slept + ?b > max_retry_elapsed cfg")
      case no_retry: False
      then show ?thesis using err top
        by (auto simp: stream_loop.simps [of F cfg deadline env tried slept] run_ok_def Let_def)
    next
      case retry: True
      show ?thesis
      proof (cases "fst (wait_or_cancel ?b (cancel_poll env ?a) 0 0)")
        case True
        with retry err top retry_backoff_ceiling [of F cfg env err ?a] show ?thesis
          by (auto simp: stream_loop.simps [of F cfg deadline env tried slept] run_ok_def Let_def)
      next
        case False
        let ?t = "stream_loop F cfg deadline env ?a (slept + ?b)"
        have eq: "stream_loop F cfg deadline env tried slept =
            prepend_backoff ?b (?a, max_attempts err cfg, Some ?b) ?t"
          using False retry err top by (intro stream_loop_retry) auto
        have IH: "run_ok cfg deadline env ?a (slept + ?b) ?t"
          using "1.IH" [OF refl top err refl refl refl] retry False by simp
        have attempts: "\<exists>err. attempt_result env k = Inl err \<and> retry_allowed cfg deadline env err k"
          if "k \<in> {tried<..<st_attempts ?t}" for k
          using IH that err retry by (cases "k = ?a") (auto simp: run_ok_def)
        have slept_ok: "slept + sum_list (?b # st_backoffs ?t) \<le> max_retry_elapsed cfg"
          using IH retry by (cases "st_backoffs ?t = []") (auto simp: run_ok_def)
        have "max (Suc ?a) (max 1 (max (max_attempts_cfg cfg) (unknown_max_attempts cfg))) =
            max 1 (max (max_attempts_cfg cfg) (unknown_max_attempts cfg))"
          using retry retry_allowed_budget [of cfg deadline env err ?a] by auto
        then have "st_attempts ?t \<le> max ?a (max 1 (max (max_attempts_cfg cfg) (unknown_max_attempts cfg)))"
          using IH by (simp add: run_ok_def)
        then show ?thesis
          using IH attempts slept_ok retry_backoff_ceiling [of F cfg env err ?a]
          by (auto simp: eq run_ok_def split: sum.splits)
      qed
    qed
  qed
qed

lemma read_loop_bytes:
  "amount \<le> max_response_bytes cfg \<Longrightarrow> read_loop cfg deadline ffd amount steps = (res, chunks) \<Longrightarrow>
    amount + length (concat chunks) \<le> max_response_bytes cfg \<and>
    (\<forall>n. res = Some (Inr n) \<longrightarrow> n = amount + length (concat chunks))"
proof (induction steps arbitrary: amount res chunks)
  case Nil
  then show ?case by simp
next
  case (Cons r rs)
  show ?case
  proof (cases "rs_cancelled r \<or> deadline \<le> rs_now r \<or> (\<not> rs_delivered r \<and> past ffd (rs_now r))")
    case True
    with Cons.prems show ?thesis by (auto split: if_splits)
  next
    case alive: False
    show ?thesis
    proof (cases "rs_read r")
      case (ReadBytes bytes)
      show ?thesis
      proof (cases "bytes = [] \<or> max_response_bytes cfg < amount + length bytes \<or> isl (rs_sink r)")
        case True
        then consider "bytes = []"
          | "bytes \<noteq> []" "max_response_bytes cfg < amount + length bytes"
          | err where "bytes \<noteq> []" "\<not> max_response_bytes cfg < amount + length bytes"
              "rs_sink r = Inl err"
          by (auto simp: isl_def)
        then show ?thesis
        proof cases
          case 1
          with alive ReadBytes Cons.prems show ?thesis by auto
        next
          case 2
          with alive ReadBytes Cons.prems show ?thesis by auto
        next
          case 3
          then have "read_loop cfg deadline ffd amount (r # rs) = (Some (Inl err), [bytes])"
            using alive ReadBytes by simp
          then have "res = Some (Inl err)" "chunks = [bytes]" using Cons.prems(2) by simp_all
          with 3 show ?thesis by simp
        qed
      next
        case False
        then obtain u where u: "rs_sink r = Inr u" by (cases "rs_sink r") auto
        obtain res' chunks' where
          rest: "read_loop cfg deadline ffd (amount + length bytes) rs = (res', chunks')"
          by fastforce
        have within: "amount + length bytes \<le> max_response_bytes cfg" using False by simp
        have "read_loop cfg deadline ffd amount (r # rs) = (res', bytes # chunks')"
          using alive ReadBytes False u rest by simp
        then have "res = res'" "chunks = bytes # chunks'" using Cons.prems(2) by simp_all
        with Cons.IH [OF within rest] show ?thesis by (simp add: add.assoc)
      qed
    qed (use alive Cons.prems in auto)
  qed
qed

lemma stream_with_commit_ok:
  "run_ok cfg (start + overall_timeout cfg) env 0 0 (stream_with_commit F cfg start env)"
  using stream_loop_ok [of cfg "start + overall_timeout cfg" env 0 0 F]
  by (auto simp: stream_with_commit_def run_ok_def split: sum.splits)

section \<open>Properties\<close>

text \<open>
  C12. The retry boundary: once an attempt has reached the sink, or has failed in a way no retry can
  help (a permanent or exhausted classification, bad credentials, a cancelled or refused delivery),
  no further attempt is made. Every attempt after the first follows one that failed before any
  downstream-visible byte, retryably, within its own budget and before the deadline.
\<close>

theorem retry_only_before_commit:
  assumes "0 < k" "k < st_attempts (stream_with_commit F cfg start env)"
  shows "\<not> delivered_after env k \<and>
    (\<exists>err. attempt_result env k = Inl err \<and> is_retryable err \<and> k < max_attempts err cfg \<and>
      now_after env k < start + overall_timeout cfg)"
proof -
  have "k \<in> {0<..<st_attempts (stream_with_commit F cfg start env)}" using assms by simp
  then show ?thesis
    using stream_with_commit_ok [of cfg start env F] by (auto simp: run_ok_def retry_allowed_def)
qed

text \<open>
  Bounds of the retry loop: at most the larger of the two configured budgets (and at least one)
  attempts, no single backoff above the ceiling even when it comes from a server hint, and no more
  than the configured time asleep in total; and a success reported is the success of the last
  attempt made.
\<close>

theorem retry_loop_bounds:
  "let t = stream_with_commit F cfg start env in
     st_attempts t \<le> max 1 (max (max_attempts_cfg cfg) (unknown_max_attempts cfg)) \<and>
     list_all (\<lambda>b. b \<le> max_retry_delay cfg) (st_backoffs t) \<and>
     sum_list (st_backoffs t) \<le> max_retry_elapsed cfg \<and>
     (case st_result t of
        Inl _ \<Rightarrow> True
      | Inr out \<Rightarrow> so_attempts out = st_attempts t \<and>
          attempt_result env (st_attempts t) = Inr (so_bytes out))"
  using stream_with_commit_ok [of cfg start env F]
  by (cases "st_backoffs (stream_with_commit F cfg start env) = []")
    (auto simp: run_ok_def Let_def split: sum.splits)

text \<open>
  The jittered backoff stays in the upper half of its exponential window and under the ceiling,
  for every float multiplication that halves with rounding and never enlarges a duration.
\<close>

theorem backoff_in_window:
  assumes "\<And>d. mul_f64 F d (half F) \<le> (d + 1) div 2"
    and "\<And>d j. mul_f64 F d (clamp01 F j) \<le> d"
  shows "backoff_base attempt cfg div 2 \<le> backoff_delay F attempt cfg jitter \<and>
    backoff_delay F attempt cfg jitter \<le> backoff_base attempt cfg \<and>
    backoff_delay F attempt cfg jitter \<le> max_retry_delay cfg"
proof -
  let ?b = "backoff_base attempt cfg"
  have "mul_f64 F (mul_f64 F ?b (half F)) (clamp01 F jitter) \<le> (?b + 1) div 2"
    using assms order_trans by blast
  then show ?thesis
    using backoff_delay_ceiling [of F attempt cfg jitter] by (auto simp: backoff_delay_base Let_def)
qed

text \<open>
  One attempt never hands the sink more than the configured byte budget; it delivers nothing when
  the request itself was refused; and the byte count it reports on success is exactly what the sink
  was given.
\<close>

theorem attempt_read_budget:
  assumes "perform_attempt cfg deadline started answered sent steps = (res, chunks)"
  shows "length (concat chunks) \<le> max_response_bytes cfg \<and>
    (sent \<noteq> SendOk \<longrightarrow> chunks = [] \<and> (\<exists>err. res = Some (Inl err))) \<and>
    (\<forall>n. res = Some (Inr n) \<longrightarrow> n = length (concat chunks))"
proof (cases sent)
  case SendOk
  with assms show ?thesis
    using read_loop_bytes [of 0 cfg deadline "map_option (\<lambda>t. started + t) (first_frame_timeout cfg)"
        steps res chunks]
    by (simp add: perform_attempt_def Let_def)
qed (use assms in \<open>auto simp: perform_attempt_def Let_def\<close>)

section \<open>Witnesses\<close>

definition percent_ops :: "nat float_ops" where
  "percent_ops = \<lparr>mul_f64 = (\<lambda>d p. d * p div 100), half = 50, clamp01 = (\<lambda>p. min p 100)\<rparr>"

definition flaky_env :: "nat stream_env" where
  "flaky_env =
     \<lparr>resolve_result = Inr (), cancel_at_top = (\<lambda>_. False),
      attempt_result = (\<lambda>k. if k < 3 then Inl (Transport ''connection failed'') else Inr 42),
      delivered_after = (\<lambda>_. False), now_after = (\<lambda>k. k), jitter_fraction = (\<lambda>_. 30),
      cancel_poll = (\<lambda>_ _. False)\<rparr>"

lemma wait_uncancelled: "\<not> fst (wait_or_cancel amount (\<lambda>_. False) waited k)"
proof (induction amount "\<lambda>_::nat. False" waited k rule: wait_or_cancel.induct)
  case (1 amount waited k)
  then show ?case by (subst wait_or_cancel.simps) simp
qed

lemma flaky_retry:
  assumes "tried < 2" "slept + backoff_delay percent_ops (Suc tried) default_config 30 \<le> from_secs 30"
  shows "stream_loop percent_ops default_config (from_secs 3600) flaky_env tried slept =
    prepend_backoff (backoff_delay percent_ops (Suc tried) default_config 30)
      (Suc tried, 4, Some (backoff_delay percent_ops (Suc tried) default_config 30))
      (stream_loop percent_ops default_config (from_secs 3600) flaky_env (Suc tried)
        (slept + backoff_delay percent_ops (Suc tried) default_config 30))"
  using assms stream_loop_retry [of flaky_env tried "Transport ''connection failed''" default_config
      "from_secs 3600" "backoff_delay percent_ops (Suc tried) default_config 30" percent_ops slept]
  by (simp add: flaky_env_def default_config_def retry_allowed_def retry_backoff_def
      wait_uncancelled from_secs_def)

lemma flaky_backoffs:
  "backoff_delay percent_ops (Suc 0) default_config 30 = 425000000"
  "backoff_delay percent_ops (Suc (Suc 0)) default_config 30 = 850000000"
  by (simp_all add: backoff_delay_def saturating_mul_def duration_max_def default_config_def
      percent_ops_def from_secs_def from_millis_def)

lemma flaky_run:
  "st_attempts (stream_with_commit percent_ops default_config 0 flaky_env) = 3"
proof -
  have "attempt_result flaky_env (Suc (Suc (Suc 0))) = Inr 42"
    "\<not> cancel_at_top flaky_env (Suc (Suc (Suc 0)))"
    by (simp_all add: flaky_env_def)
  note last = stream_loop_done [OF this(2,1)]
  have resolved: "resolve_result flaky_env = Inr ()" by (simp add: flaky_env_def)
  have deadline: "0 + overall_timeout default_config = from_secs 3600"
    by (simp add: default_config_def)
  show ?thesis
    unfolding stream_with_commit_def deadline resolved
    by (simp add: flaky_retry flaky_backoffs from_secs_def [of 30] last)
qed

theorem retry_only_before_commit_witness:
  "\<not> delivered_after flaky_env 2 \<and>
    (\<exists>err. attempt_result flaky_env 2 = Inl err \<and> is_retryable err)"
  using retry_only_before_commit [of 2 percent_ops default_config 0 flaky_env]
  by (auto simp: flaky_run)

theorem backoff_in_window_witness:
  "backoff_base 3 default_config div 2 \<le> backoff_delay percent_ops 3 default_config 30"
proof -
  have "mul_f64 percent_ops d (half percent_ops) \<le> (d + 1) div 2" for d
    by (simp add: percent_ops_def)
  moreover have "mul_f64 percent_ops d (clamp01 percent_ops j) \<le> d" for d j
    by (simp add: percent_ops_def) (metis div_le_mono div_mult_self_is_m min.cobounded2
        mult_le_mono2 nat_zero_less_power_iff zero_less_numeral)
  ultimately show ?thesis by (rule backoff_in_window [THEN conjunct1])
qed

definition demo_read :: read_step where
  "demo_read =
     \<lparr>rs_cancelled = False, rs_now = 0, rs_delivered = False, rs_read = ReadBytes ''abc'',
      rs_now_after = 0, rs_sink = Inr ()\<rparr>"

theorem attempt_read_budget_witness:
  "length (concat (snd (perform_attempt default_config 10 0 0 SendOk
      [demo_read, demo_read\<lparr>rs_read := ReadBytes []\<rparr>]))) = 3 \<and> (3::nat) \<le> max_response_bytes default_config"
proof -
  have run: "perform_attempt default_config 10 0 0 SendOk
      [demo_read, demo_read\<lparr>rs_read := ReadBytes []\<rparr>] = (Some (Inr 3), [''abc''])"
    by (simp add: perform_attempt_def demo_read_def default_config_def past_def)
  from attempt_read_budget [OF run] run show ?thesis by simp
qed

end
