(* ===== verification/Route_Health.thy ===== *)
theory Route_Health
  imports Upstream_Failure "HOL-Library.Multiset"
begin

text \<open>
  \<^verbatim>\<open>route_health.rs\<close>: what an upstream failure says about the route that produced it, and the ledger
  that folds these verdicts into each route's availability. The ledger's hash map is a partial map;
  where the code lists its keys, the order is an argument. \<open>health_ledger\<close> is the interface the
  failover ladder and the gateway rely on; it is interpreted here on the ledger of the code.
\<close>

section \<open>Routes\<close>

datatype conversation_route = ClaudeRoute | CodexRoute | DeepSeekRoute | OpenRouterRoute

fun route_name :: "conversation_route \<Rightarrow> string" where
  "route_name ClaudeRoute = ''claude''"
| "route_name CodexRoute = ''codex''"
| "route_name DeepSeekRoute = ''deepseek''"
| "route_name OpenRouterRoute = ''openrouter''"

definition all_routes :: "conversation_route list" where
  "all_routes = [ClaudeRoute, CodexRoute, DeepSeekRoute, OpenRouterRoute]"

lemma route_name_inject [simp]: "route_name a = route_name b \<longleftrightarrow> a = b"
  by (cases a; cases b) simp_all

lemma all_routes_complete [simp]: "r \<in> set all_routes"
  by (cases r) (simp_all add: all_routes_def)

text \<open>Routes are listed by name, so they are ordered by it.\<close>

instantiation conversation_route :: linorder
begin

definition less_eq_conversation_route :: "conversation_route \<Rightarrow> conversation_route \<Rightarrow> bool" where
  "less_eq_conversation_route a b \<longleftrightarrow> route_name a \<le> route_name b"

definition less_conversation_route :: "conversation_route \<Rightarrow> conversation_route \<Rightarrow> bool" where
  "less_conversation_route a b \<longleftrightarrow> route_name a < route_name b"

instance
proof
  fix a b c :: conversation_route
  show "a < b \<longleftrightarrow> a \<le> b \<and> \<not> b \<le> a"
    by (simp add: less_eq_conversation_route_def less_conversation_route_def less_le_not_le)
  show "a \<le> a" by (simp add: less_eq_conversation_route_def)
  show "a \<le> b \<Longrightarrow> b \<le> c \<Longrightarrow> a \<le> c" by (simp add: less_eq_conversation_route_def)
  show "a \<le> b \<Longrightarrow> b \<le> a \<Longrightarrow> a = b"
    using antisym route_name_inject by (auto simp: less_eq_conversation_route_def)
  show "a \<le> b \<or> b \<le> a" by (auto simp: less_eq_conversation_route_def)
qed

end

section \<open>Verdicts\<close>

datatype route_verdict =
    Healthy
  | Throttled duration
  | VExhausted duration
  | Drained
  | Unauthenticated
  | RequestFatal

definition default_exhausted_cooldown :: duration where
  "default_exhausted_cooldown = from_secs (15 * 60)"

definition default_throttle_cooldown :: duration where
  "default_throttle_cooldown = from_secs 20"

definition max_cooldown :: duration where
  "max_cooldown = from_secs (60 * 60)"

definition throttle_escalation_threshold :: nat where
  "throttle_escalation_threshold = 3"

fun fails_over :: "route_verdict \<Rightarrow> bool" where
  "fails_over (VExhausted _) = True"
| "fails_over Drained = True"
| "fails_over Unauthenticated = True"
| "fails_over _ = False"

fun verdict_reason :: "route_verdict \<Rightarrow> string" where
  "verdict_reason Healthy = ''healthy''"
| "verdict_reason (Throttled _) = ''throttled''"
| "verdict_reason (VExhausted _) = ''exhausted''"
| "verdict_reason Drained = ''drained''"
| "verdict_reason Unauthenticated = ''unauthenticated''"
| "verdict_reason RequestFatal = ''request-fatal''"

definition clamp_cooldown :: "duration \<Rightarrow> duration" where
  "clamp_cooldown value = (if value < from_secs 1 then from_secs 1
     else if max_cooldown < value then max_cooldown else value)"

definition from_failure :: "upstream_failure \<Rightarrow> route_verdict" where
  "from_failure f =
     (if uf_status f = 401 \<or> uf_status f = 403 then Unauthenticated
      else if uf_status f = 402 then Drained
      else if uf_class f = Exhausted then
        VExhausted (clamp_cooldown
          (unwrap_or (or_else (uf_resets_in f) (uf_retry_after f)) default_exhausted_cooldown))
      else if uf_status f = 429 then
        Throttled (clamp_cooldown
          (unwrap_or (or_else (uf_retry_after f) (uf_resets_in f)) default_throttle_cooldown))
      else
        (case uf_class f of
           Transient \<Rightarrow> Healthy
         | Unknown \<Rightarrow> Healthy
         | Permanent \<Rightarrow> RequestFatal
         | Exhausted \<Rightarrow> VExhausted default_exhausted_cooldown))"

section \<open>The ledger\<close>

datatype route_state = Available | Cooling duration string | Down string

fun state_available :: "route_state \<Rightarrow> bool" where
  "state_available Available = True"
| "state_available _ = False"

fun state_reason :: "route_state \<Rightarrow> string" where
  "state_reason Available = ''available''"
| "state_reason (Cooling _ reason) = reason"
| "state_reason (Down reason) = reason"

record entry =
  e_until :: "instant option"
  e_down :: bool
  e_reason :: string
  e_throttles :: nat

definition default_entry :: entry where
  "default_entry =
     \<lparr>e_until = None, e_down = False, e_reason = ''available'', e_throttles = 0\<rparr>"

type_synonym route_ledger = "conversation_route \<rightharpoonup> entry"

definition route_state_of :: "route_ledger \<Rightarrow> conversation_route \<Rightarrow> instant \<Rightarrow> route_state" where
  "route_state_of l route now =
     (case l route of
        None \<Rightarrow> Available
      | Some e \<Rightarrow>
          if e_down e then Down (e_reason e)
          else
            (case e_until e of
               Some t \<Rightarrow> if t > now then Cooling (t - now) (e_reason e) else Available
             | None \<Rightarrow> Available))"

definition is_available :: "route_ledger \<Rightarrow> conversation_route \<Rightarrow> instant \<Rightarrow> bool" where
  "is_available l route now = state_available (route_state_of l route now)"

definition update_entry :: "entry \<Rightarrow> route_verdict \<Rightarrow> instant \<Rightarrow> entry" where
  "update_entry e v now =
     (case v of
        RequestFatal \<Rightarrow> e
      | Healthy \<Rightarrow> default_entry
      | Throttled cooldown \<Rightarrow>
          let n = min (e_throttles e + 1) (2 ^ 32 - 1);
              e = e\<lparr>e_throttles := n\<rparr>
          in if n \<ge> throttle_escalation_threshold then
               e\<lparr>e_until := Some (now + default_exhausted_cooldown), e_reason := ''exhausted''\<rparr>
             else e\<lparr>e_until := Some (now + cooldown), e_reason := ''throttled''\<rparr>
      | VExhausted cooldown \<Rightarrow>
          e\<lparr>e_throttles := 0, e_until := Some (now + cooldown), e_reason := ''exhausted''\<rparr>
      | _ \<Rightarrow> e\<lparr>e_throttles := 0, e_down := True, e_reason := verdict_reason v\<rparr>)"

definition record_verdict ::
    "route_ledger \<Rightarrow> conversation_route \<Rightarrow> route_verdict \<Rightarrow> instant \<Rightarrow> route_ledger \<times> route_state" where
  "record_verdict l route v now =
     (let l' = l(route \<mapsto> update_entry (unwrap_or (l route) default_entry) v now)
      in (l', route_state_of l' route now))"

definition record_success :: "route_ledger \<Rightarrow> conversation_route \<Rightarrow> route_ledger" where
  "record_success l route = l(route \<mapsto> default_entry)"

definition clear_route :: "route_ledger \<Rightarrow> conversation_route \<Rightarrow> route_ledger" where
  "clear_route l route = l(route := None)"

text \<open>\<open>keys\<close> is the order in which the hash map happens to list its keys.\<close>

definition snapshot ::
    "route_ledger \<Rightarrow> conversation_route list \<Rightarrow> instant \<Rightarrow> (conversation_route \<times> route_state) list" where
  "snapshot l keys now =
     sort_key (\<lambda>(route, _). route_name route) (map (\<lambda>route. (route, route_state_of l route now)) keys)"

section \<open>The interface of a ledger\<close>

text \<open>
  What the ladder and the gateway need of a health ledger: a recorded failing verdict withholds its
  route for at least a known time, nothing recorded for one route changes what is known of another,
  and a success makes a route usable again.
\<close>

definition verdict_ok :: "route_verdict \<Rightarrow> bool" where
  "verdict_ok v = (case v of
     VExhausted cooldown \<Rightarrow> from_secs 1 \<le> cooldown \<and> cooldown \<le> max_cooldown
   | Throttled cooldown \<Rightarrow> from_secs 1 \<le> cooldown \<and> cooldown \<le> max_cooldown
   | _ \<Rightarrow> True)"

locale health_ledger =
  fixes usable :: "'l \<Rightarrow> 'r \<Rightarrow> instant \<Rightarrow> bool"
    and note_failure :: "'l \<Rightarrow> 'r \<Rightarrow> route_verdict \<Rightarrow> instant \<Rightarrow> 'l"
    and note_success :: "'l \<Rightarrow> 'r \<Rightarrow> 'l"
    and hold :: duration
  assumes withholds: "fails_over v \<Longrightarrow> verdict_ok v \<Longrightarrow> t < now + hold \<Longrightarrow>
      \<not> usable (note_failure l r v now) r t"
    and failure_frame: "r' \<noteq> r \<Longrightarrow> usable (note_failure l r v now) r' t = usable l r' t"
    and success_usable: "usable (note_success l r) r t"
    and success_frame: "r' \<noteq> r \<Longrightarrow> usable (note_success l r) r' t = usable l r' t"
begin

text \<open>The routes withheld while a list of declines is recorded, all within the hold time.\<close>

fun note_failures :: "'l \<Rightarrow> ('r \<times> route_verdict \<times> instant) list \<Rightarrow> 'l" where
  "note_failures l [] = l"
| "note_failures l ((r, v, now) # ds) = note_failures (note_failure l r v now) ds"

lemma note_failures_snoc:
  "note_failures l (ds @ [(r, v, now)]) = note_failure (note_failures l ds) r v now"
  by (induction l ds rule: note_failures.induct) auto

lemma still_withheld:
  "\<not> usable l r t \<Longrightarrow> list_all (\<lambda>(r', v, now). r' = r \<longrightarrow> fails_over v \<and> verdict_ok v \<and> t < now + hold) ds \<Longrightarrow>
    \<not> usable (note_failures l ds) r t"
proof (induction ds arbitrary: l)
  case Nil
  then show ?case by simp
next
  case (Cons d ds)
  obtain r' v now where d: "d = (r', v, now)" by (cases d) auto
  have "\<not> usable (note_failure l r' v now) r t"
  proof (cases "r' = r")
    case True
    with Cons.prems d show ?thesis using withholds by auto
  next
    case False
    with Cons.prems show ?thesis using failure_frame by metis
  qed
  with Cons d show ?case by auto
qed

lemma all_withheld:
  "list_all (\<lambda>(r, v, now). fails_over v \<and> verdict_ok v \<and> t < now + hold) ds \<Longrightarrow>
    r \<in> fst ` set ds \<Longrightarrow> \<not> usable (note_failures l ds) r t"
proof (induction ds arbitrary: l)
  case Nil
  then show ?case by simp
next
  case (Cons d ds)
  obtain r' v now where d: "d = (r', v, now)" by (cases d) auto
  show ?case
  proof (cases "r \<in> fst ` set ds")
    case True
    with Cons d show ?thesis by simp
  next
    case False
    with Cons.prems(2) d have "r' = r" by auto
    with Cons.prems(1) d have "\<not> usable (note_failure l r v now) r t" using withholds by simp
    moreover have "list_all (\<lambda>(r', v, now). r' = r \<longrightarrow> fails_over v \<and> verdict_ok v \<and> t < now + hold) ds"
      using Cons.prems(1) by (auto simp: list_all_iff)
    ultimately show ?thesis using d \<open>r' = r\<close> still_withheld by simp
  qed
qed

end

section \<open>Lemmas\<close>

lemma clamp_cooldown_bounds:
  "from_secs 1 \<le> clamp_cooldown d" "clamp_cooldown d \<le> max_cooldown"
  by (simp_all add: clamp_cooldown_def max_cooldown_def from_secs_def)

lemma from_failure_ok: "verdict_ok (from_failure f)"
  using clamp_cooldown_bounds
  by (auto simp: verdict_ok_def from_failure_def default_exhausted_cooldown_def max_cooldown_def
      from_secs_def split: failure_class.splits)

lemma record_verdict_fst [simp]:
  "fst (record_verdict l r v now) = l(r \<mapsto> update_entry (unwrap_or (l r) default_entry) v now)"
  by (simp add: record_verdict_def Let_def)

lemma is_available_update:
  "r' \<noteq> r \<Longrightarrow> is_available (fst (record_verdict l r v now)) r' t = is_available l r' t"
  by (simp add: is_available_def route_state_of_def)

lemma record_success_available: "is_available (record_success l r) r' t \<longleftrightarrow> r' = r \<or> is_available l r' t"
  by (auto simp: is_available_def route_state_of_def record_success_def default_entry_def)

lemma failing_verdict_withholds:
  "fails_over v \<Longrightarrow> verdict_ok v \<Longrightarrow> t < now + from_secs 1 \<Longrightarrow>
    \<not> is_available (fst (record_verdict l r v now)) r t"
  by (cases v) (auto simp: is_available_def route_state_of_def update_entry_def verdict_ok_def Let_def)

interpretation ledger: health_ledger is_available
  "\<lambda>l r v now. fst (record_verdict l r v now)" record_success "from_secs 1"
proof
  show "fails_over v \<Longrightarrow> verdict_ok v \<Longrightarrow> t < now + from_secs 1 \<Longrightarrow>
      \<not> is_available (fst (record_verdict l r v now)) r t" for v t now l r
    by (rule failing_verdict_withholds)
qed (simp_all add: is_available_update record_success_available del: record_verdict_fst)

text \<open>The down flag survives every verdict but a healthy one.\<close>

lemma update_entry_down: "v \<noteq> Healthy \<Longrightarrow> e_down e \<Longrightarrow> e_down (update_entry e v now)"
  by (cases v) (auto simp: update_entry_def Let_def)

lemma snapshot_sort:
  "distinct keys \<Longrightarrow>
    snapshot l keys now = map (\<lambda>r. (r, route_state_of l r now)) (sorted_list_of_set (set keys))"
  unfolding snapshot_def
proof (rule sort_key_inj_key_eq)
  assume d: "distinct keys"
  let ?row = "\<lambda>r. (r, route_state_of l r now)"
  have "mset (sorted_list_of_set (set keys)) = mset keys"
    using d by (simp add: sorted_list_of_set_sort_remdups distinct_remdups_id)
  then show "mset (map ?row keys) = mset (map ?row (sorted_list_of_set (set keys)))" by simp
  show "inj_on (\<lambda>(route, _). route_name route) (set (map ?row keys))"
    by (auto simp: inj_on_def)
  have "sorted_wrt (\<lambda>a b. route_name a \<le> route_name b) (sorted_list_of_set (set keys))"
    using sorted_sorted_list_of_set [of "set keys"] unfolding less_eq_conversation_route_def .
  then show "sorted (map (\<lambda>(route, _). route_name route) (map ?row (sorted_list_of_set (set keys))))"
    by (simp add: sorted_map comp_def)
qed

section \<open>Properties\<close>

text \<open>
  Verdicts and the retry loop agree: a failure whose verdict moves traffic to another route is
  never one the retry loop would try again; and every cooldown a verdict carries lies between one second and one hour.
\<close>

theorem failing_over_is_not_retryable:
  assumes "f = from_parts J status header body max_delay" "fails_over (from_failure f)"
  shows "\<not> is_retryable (Status f) \<and> verdict_ok (from_failure f)"
proof -
  have class_f: "uf_class f = classify status body" "uf_status f = status"
    using assms(1) by (simp_all add: from_parts_def)
  have "classify status body \<in> {Permanent, Exhausted}"
  proof (rule ccontr)
    assume neg: "classify status body \<notin> {Permanent, Exhausted}"
    then have tr: "classify status body \<in> {Transient, Unknown}"
      by (cases "classify status body") simp_all
    from classify_retryable_status [OF tr]
    have "status \<notin> {401, 402, 403}" by (auto simp: non_retryable_statuses_def)
    with assms(2) tr class_f show False
      by (auto simp: from_failure_def split: if_splits)
  qed
  then show ?thesis using class_f by (auto simp: from_failure_ok)
qed

theorem failing_over_is_not_retryable_witness:
  "\<not> is_retryable (Status (from_parts (demo_json []) 429 (\<lambda>_. None) ''insufficient_quota'' 0))"
proof -
  let ?f = "from_parts (demo_json []) 429 (\<lambda>_. None) ''insufficient_quota'' 0"
  have "classify 429 ''insufficient_quota'' = Exhausted"
    by (simp add: classify_def exhausted_signatures_def to_ascii_lowercase_def rust_eval)
  then have "fails_over (from_failure ?f)" by (simp add: from_failure_def from_parts_def)
  from failing_over_is_not_retryable [OF refl this] show ?thesis by simp
qed

fun throttle_run :: "route_ledger \<Rightarrow> conversation_route \<Rightarrow> (duration \<times> instant) list \<Rightarrow> route_ledger" where
  "throttle_run l r [] = l"
| "throttle_run l r ((c, now) # ts) = throttle_run (fst (record_verdict l r (Throttled c) now)) r ts"

lemma throttle_run_snoc:
  "throttle_run l r (ts @ [(c, now)]) = fst (record_verdict (throttle_run l r ts) r (Throttled c) now)"
  by (induction ts arbitrary: l) auto

lemma throttle_run_entry:
  assumes "l r = None" "length ts < 2 ^ 32 - 1"
  shows "case throttle_run l r ts r of
      None \<Rightarrow> ts = []
    | Some e \<Rightarrow> e_throttles e = length ts \<and> \<not> e_down e"
  using assms(2)
proof (induction ts rule: rev_induct)
  case Nil
  then show ?case by (simp add: assms(1))
next
  case (snoc t ts)
  obtain c now where t: "t = (c, now)" by (cases t) auto
  from snoc have IH: "case throttle_run l r ts r of None \<Rightarrow> ts = []
      | Some e \<Rightarrow> e_throttles e = length ts \<and> \<not> e_down e" by simp
  show ?case
    using IH snoc.prems
    by (cases "throttle_run l r ts r")
      (auto simp: t throttle_run_snoc update_entry_def Let_def default_entry_def)
qed

text \<open>
  Escalation: from any health in which a route is not down, the third consecutive throttle turns
  its cooldown into the exhausted one, and no count of throttles short of it does.
\<close>

theorem throttles_escalate:
  assumes "l r = None" "length ts < 2 ^ 32 - 2" "from_secs 1 \<le> c"
  shows "route_state_of (throttle_run l r (ts @ [(c, now)])) r now =
    (if length ts + 1 < 3 then Cooling c ''throttled''
     else Cooling default_exhausted_cooldown ''exhausted'')"
proof -
  have len: "length ts < 2 ^ 32 - 1" using assms(2) by simp
  have pos: "0 < c" using assms(3) by (simp add: from_secs_def)
  have entry: "case throttle_run l r ts r of None \<Rightarrow> ts = []
      | Some e \<Rightarrow> e_throttles e = length ts \<and> \<not> e_down e"
    using throttle_run_entry [of l r ts] assms(1) len by blast
  have "0 < default_exhausted_cooldown" by (simp add: default_exhausted_cooldown_def from_secs_def)
  with entry pos show ?thesis
    using assms(2)
    by (cases "throttle_run l r ts r")
      (auto simp: throttle_run_snoc update_entry_def Let_def default_entry_def
        route_state_of_def throttle_escalation_threshold_def)
qed

theorem throttles_escalate_witness:
  "route_state_of (throttle_run Map.empty ClaudeRoute
      ([(from_secs 5, 0), (from_secs 5, 7)] @ [(from_secs 5, 9)])) ClaudeRoute 9 =
    Cooling default_exhausted_cooldown ''exhausted''"
  using throttles_escalate [of Map.empty ClaudeRoute "[(from_secs 5, 0), (from_secs 5, 7)]"
      "from_secs 5" 9]
  by (simp add: from_secs_def)

fun verdict_run ::
    "route_ledger \<Rightarrow> (conversation_route \<times> route_verdict \<times> instant) list \<Rightarrow> route_ledger" where
  "verdict_run l [] = l"
| "verdict_run l ((r, v, now) # vs) = verdict_run (fst (record_verdict l r v now)) vs"

text \<open>
  A clock-less failure needs an explicit act: while a route is down, no failing verdict, no
  throttle, no request-fatal failure and no amount of time makes it available again.
\<close>

theorem down_is_sticky:
  assumes "l r = Some e" "e_down e"
    and "list_all (\<lambda>(r', v, _). r' = r \<longrightarrow> v \<noteq> Healthy) vs"
  shows "\<exists>reason. route_state_of (verdict_run l vs) r now = Down reason"
  using assms
proof (induction vs arbitrary: l e)
  case Nil
  then show ?case by (simp add: route_state_of_def)
next
  case (Cons x vs)
  obtain r' v t where x: "x = (r', v, t)" by (cases x) auto
  let ?l = "fst (record_verdict l r' v t)"
  have "\<exists>e'. ?l r = Some e' \<and> e_down e'"
    using Cons.prems x by (auto intro: update_entry_down)
  then obtain e' where "?l r = Some e'" "e_down e'" by blast
  then have "\<exists>reason. route_state_of (verdict_run ?l vs) r now = Down reason"
    using Cons.prems(3) x by (intro Cons.IH) simp_all
  with x show ?case by simp
qed

theorem down_is_sticky_witness:
  "\<exists>reason. route_state_of (verdict_run
      (fst (record_verdict Map.empty CodexRoute Drained 0))
      [(CodexRoute, Throttled 5, 6), (ClaudeRoute, Healthy, 8), (CodexRoute, RequestFatal, 9)])
      CodexRoute 100 = Down reason"
  by (rule down_is_sticky [of _ _ "default_entry\<lparr>e_down := True, e_reason := ''drained''\<rparr>"])
    (simp_all add: update_entry_def default_entry_def)

text \<open>
  The listing of the ledger does not depend on the order in which the hash map yields its keys,
  is strictly sorted by route name, and shows exactly the known routes with their present state.
\<close>

theorem snapshot_deterministic:
  assumes "distinct keys" "set keys = dom l" "distinct keys'" "set keys' = dom l"
  shows "snapshot l keys now = snapshot l keys' now \<and>
    sorted_wrt (<) (map fst (snapshot l keys now)) \<and>
    set (snapshot l keys now) = {(r, s). l r \<noteq> None \<and> s = route_state_of l r now}"
proof -
  have "finite (dom l)" using assms(2) by (metis finite_set)
  then have "set (sorted_list_of_set (dom l)) = {r. l r \<noteq> None}" by (simp add: dom_def)
  then show ?thesis
    using assms snapshot_sort [OF assms(1)] snapshot_sort [OF assms(3)] by (simp add: comp_def) auto
qed

theorem snapshot_deterministic_witness:
  "snapshot [CodexRoute \<mapsto> default_entry, ClaudeRoute \<mapsto> default_entry] [CodexRoute, ClaudeRoute] 0 =
   snapshot [CodexRoute \<mapsto> default_entry, ClaudeRoute \<mapsto> default_entry] [ClaudeRoute, CodexRoute] 0"
  by (rule snapshot_deterministic [THEN conjunct1]) auto

end
