(* ===== verification/Launch_Target.thy ===== *)
theory Launch_Target
  imports Rust_Text
begin

text \<open>
  \<^verbatim>\<open>backend.rs\<close>: the providers, the harness executables, and how a launch resolves which of each it
  uses. A provider and a harness are chosen independently, each by the precedence command line, global
  setting, built-in default, and an unsupported pair is an error, never a silent fallback. The
  process environment and the platform are arguments.
\<close>

section \<open>Data\<close>

datatype model_provider = Claude | Codex | DeepSeek | Kimi | OpenRouter

datatype routing_mode = Direct | Unified

datatype backend = ClaudeBackend | CodexBackend | DeepSeekBackend

datatype harness_selection = DefaultHarness | ClaudeHarness | CodexHarness | DeepSeekHarness

datatype preference_source = FromCli | FromGlobalSetting | FromProviderSetting | FromBuiltInDefault

datatype launch_target_error =
    ClaudeViaCodexUnsupported
  | DeepSeekViaCodexUnsupported
  | KimiViaCodexUnsupported
  | OpenRouterViaCodexUnsupported
  | UnifiedViaCodexUnsupported
  | UnifiedViaDeepSeekUnsupported

datatype launch_mode = Subprocess | Pty

record launch_target =
  lt_routing_mode :: routing_mode
  lt_model_provider :: model_provider
  lt_requested_harness :: harness_selection
  lt_effective_harness :: backend
  lt_provider_source :: preference_source
  lt_harness_source :: preference_source

section \<open>Names\<close>

definition all_providers :: "model_provider list" where
  "all_providers = [Claude, Codex, DeepSeek, Kimi, OpenRouter]"

fun provider_name :: "model_provider \<Rightarrow> string" where
  "provider_name Claude = ''claude''"
| "provider_name Codex = ''codex''"
| "provider_name DeepSeek = ''deepseek''"
| "provider_name Kimi = ''kimi''"
| "provider_name OpenRouter = ''openrouter''"

definition provider_from_settings :: "string \<Rightarrow> model_provider option" where
  "provider_from_settings s =
     (let lowered = to_ascii_lowercase s in List.find (\<lambda>p. provider_name p = lowered) all_providers)"

fun native_harness :: "model_provider \<Rightarrow> backend" where
  "native_harness Codex = CodexBackend"
| "native_harness _ = ClaudeBackend"

fun wire_prefixes :: "model_provider \<Rightarrow> string list" where
  "wire_prefixes Claude = [''claude-'']"
| "wire_prefixes Codex = [''gpt-'', ''codex-'']"
| "wire_prefixes DeepSeek = [''deepseek-'']"
| "wire_prefixes Kimi = [''kimi-'']"
| "wire_prefixes OpenRouter = []"

fun routing_mode_name :: "routing_mode \<Rightarrow> string" where
  "routing_mode_name Direct = ''direct''"
| "routing_mode_name Unified = ''unified''"

fun harness_name :: "harness_selection \<Rightarrow> string" where
  "harness_name DefaultHarness = ''default''"
| "harness_name ClaudeHarness = ''claude''"
| "harness_name CodexHarness = ''codex''"
| "harness_name DeepSeekHarness = ''deepseek''"

definition harness_from_settings :: "string \<Rightarrow> harness_selection option" where
  "harness_from_settings s =
     (let v = to_ascii_lowercase s
      in if v = ''default'' then Some DefaultHarness
         else if v = ''claude'' then Some ClaudeHarness
         else if v = ''codex'' then Some CodexHarness
         else if v = ''deepseek'' \<or> v = ''dsh'' then Some DeepSeekHarness
         else None)"

fun harness_for_backend :: "backend \<Rightarrow> harness_selection" where
  "harness_for_backend ClaudeBackend = ClaudeHarness"
| "harness_for_backend CodexBackend = CodexHarness"
| "harness_for_backend DeepSeekBackend = DeepSeekHarness"

fun executable_name :: "backend \<Rightarrow> string" where
  "executable_name ClaudeBackend = ''claude''"
| "executable_name CodexBackend = ''codex''"
| "executable_name DeepSeekBackend = ''dsh''"

definition backend_from_settings :: "string \<Rightarrow> backend option" where
  "backend_from_settings s =
     (if eq_ignore_ascii_case s ''claude'' then Some ClaudeBackend
      else if eq_ignore_ascii_case s ''codex'' then Some CodexBackend
      else if eq_ignore_ascii_case s ''deepseek'' \<or> eq_ignore_ascii_case s ''dsh'' then
        Some DeepSeekBackend
      else None)"

fun backend_provider :: "backend \<Rightarrow> model_provider" where
  "backend_provider ClaudeBackend = Claude"
| "backend_provider CodexBackend = Codex"
| "backend_provider DeepSeekBackend = DeepSeek"

section \<open>Resolution\<close>

fun resolve_harness :: "harness_selection \<Rightarrow> model_provider \<Rightarrow> backend" where
  "resolve_harness DefaultHarness p = native_harness p"
| "resolve_harness ClaudeHarness p = ClaudeBackend"
| "resolve_harness CodexHarness p = CodexBackend"
| "resolve_harness DeepSeekHarness p = DeepSeekBackend"

definition resolve_backend_with_default :: "bool \<Rightarrow> bool \<Rightarrow> backend option \<Rightarrow> backend" where
  "resolve_backend_with_default claude codex default_backend =
     (if codex then CodexBackend else if claude then ClaudeBackend
      else unwrap_or default_backend ClaudeBackend)"

definition pick :: "'a option \<Rightarrow> 'a option \<Rightarrow> 'a \<Rightarrow> 'a \<times> preference_source" where
  "pick cli global builtin =
     (case cli of
        Some x \<Rightarrow> (x, FromCli)
      | None \<Rightarrow>
          (case global of Some x \<Rightarrow> (x, FromGlobalSetting) | None \<Rightarrow> (builtin, FromBuiltInDefault)))"

fun via_codex_error :: "model_provider \<Rightarrow> launch_target_error option" where
  "via_codex_error Claude = Some ClaudeViaCodexUnsupported"
| "via_codex_error DeepSeek = Some DeepSeekViaCodexUnsupported"
| "via_codex_error Kimi = Some KimiViaCodexUnsupported"
| "via_codex_error OpenRouter = Some OpenRouterViaCodexUnsupported"
| "via_codex_error Codex = None"

definition resolve_routed_launch_target ::
    "routing_mode \<Rightarrow> model_provider option \<Rightarrow> harness_selection option \<Rightarrow> model_provider option \<Rightarrow>
      harness_selection option \<Rightarrow> (launch_target_error, launch_target) result" where
  "resolve_routed_launch_target mode cli_provider cli_harness global_provider global_harness =
     (if mode = Unified then
        (let requested = unwrap_or cli_harness DefaultHarness
         in if requested = CodexHarness then Inl UnifiedViaCodexUnsupported
            else if requested = DeepSeekHarness then Inl UnifiedViaDeepSeekUnsupported
            else
              Inr \<lparr>lt_routing_mode = mode, lt_model_provider = unwrap_or cli_provider Claude,
                   lt_requested_harness = requested, lt_effective_harness = ClaudeBackend,
                   lt_provider_source = (if cli_provider \<noteq> None then FromCli else FromBuiltInDefault),
                   lt_harness_source = (if cli_harness \<noteq> None then FromCli else FromBuiltInDefault)\<rparr>)
      else
        (let (provider, provider_source) = pick cli_provider global_provider Claude;
             (requested, harness_source) = pick cli_harness global_harness DefaultHarness;
             effective = resolve_harness requested provider;
             target = \<lparr>lt_routing_mode = mode, lt_model_provider = provider,
                       lt_requested_harness = requested, lt_effective_harness = effective,
                       lt_provider_source = provider_source, lt_harness_source = harness_source\<rparr>
         in if effective = CodexBackend then
              (case via_codex_error provider of Some e \<Rightarrow> Inl e | None \<Rightarrow> Inr target)
            else Inr target))"

definition resolve_launch_target_with_provider ::
    "model_provider option \<Rightarrow> harness_selection option \<Rightarrow> model_provider option \<Rightarrow>
      harness_selection option \<Rightarrow> (launch_target_error, launch_target) result" where
  "resolve_launch_target_with_provider = resolve_routed_launch_target Direct"

definition resolve_launch_target ::
    "bool \<Rightarrow> bool \<Rightarrow> bool \<Rightarrow> harness_selection option \<Rightarrow> model_provider option \<Rightarrow>
      harness_selection option \<Rightarrow> (launch_target_error, launch_target) result" where
  "resolve_launch_target claude codex deepseek cli_harness global_provider global_harness =
     resolve_launch_target_with_provider
       (if deepseek then Some DeepSeek else if codex then Some Codex
        else if claude then Some Claude else None)
       cli_harness global_provider global_harness"

definition saved_harness_override_notice :: "launch_target \<Rightarrow> bool \<Rightarrow> bool \<Rightarrow> string option" where
  "saved_harness_override_notice target stderr_is_terminal structured_output =
     (if structured_output \<or> \<not> stderr_is_terminal \<or> lt_harness_source target \<noteq> FromGlobalSetting \<or>
         lt_requested_harness target = DefaultHarness
      then None
      else
        Some ([CHR 0x1B] @ ''[32m[clud] Harness override: '' @
          (case lt_effective_harness target of
             ClaudeBackend \<Rightarrow> ''Claude'' | CodexBackend \<Rightarrow> ''Codex'' | DeepSeekBackend \<Rightarrow> ''DeepSeek'') @
          '' (global setting)'' @ [CHR 0x1B] @ ''[0m''))"

definition pty_default_enabled :: "string option \<Rightarrow> bool" where
  "pty_default_enabled env =
     (case env of
        None \<Rightarrow> False
      | Some v \<Rightarrow>
          let v = trim v
          in v \<noteq> [] \<and> v \<noteq> ''0'' \<and> \<not> eq_ignore_ascii_case v ''false'' \<and>
             \<not> eq_ignore_ascii_case v ''off'')"

text \<open>The platform test of the source is the argument \<open>on_windows\<close>.\<close>

definition resolve_launch_mode_with_pty_default ::
    "bool \<Rightarrow> bool \<Rightarrow> bool \<Rightarrow> backend \<Rightarrow> bool \<Rightarrow> bool \<Rightarrow> bool \<Rightarrow> bool \<Rightarrow> launch_mode" where
  "resolve_launch_mode_with_pty_default on_windows pty subprocess b codex_uses_exec is_loop
      parent_has_tty pty_default =
     (if pty then Pty
      else if subprocess then Subprocess
      else
        (case b of
           ClaudeBackend \<Rightarrow>
             if pty_default then Pty else if is_loop \<and> \<not> on_windows then Pty else Subprocess
         | CodexBackend \<Rightarrow>
             if codex_uses_exec then Subprocess else if parent_has_tty then Subprocess else Pty
         | DeepSeekBackend \<Rightarrow> Subprocess))"

definition resolve_launch_mode ::
    "bool \<Rightarrow> string option \<Rightarrow> bool \<Rightarrow> bool \<Rightarrow> backend \<Rightarrow> bool \<Rightarrow> bool \<Rightarrow> bool \<Rightarrow> launch_mode" where
  "resolve_launch_mode on_windows env pty subprocess b codex_uses_exec is_loop parent_has_tty =
     resolve_launch_mode_with_pty_default on_windows pty subprocess b codex_uses_exec is_loop
       parent_has_tty (pty_default_enabled env)"

section \<open>Lemmas\<close>

lemma all_providers_complete [simp]: "p \<in> set all_providers"
  by (cases p) (simp_all add: all_providers_def)

lemma provider_name_inject [simp]: "provider_name p = provider_name q \<longleftrightarrow> p = q"
  by (cases p; cases q) simp_all

lemma find_provider: "List.find (\<lambda>q. q = p) all_providers = Some p"
  by (cases p) (simp_all add: all_providers_def)

lemma provider_from_settings_iff:
  "provider_from_settings s = Some p \<longleftrightarrow> to_ascii_lowercase s = provider_name p"
proof
  assume "provider_from_settings s = Some p"
  then show "to_ascii_lowercase s = provider_name p"
    by (auto simp: provider_from_settings_def Let_def dest: find_SomeD)
next
  assume "to_ascii_lowercase s = provider_name p"
  then show "provider_from_settings s = Some p"
    by (simp add: provider_from_settings_def find_provider)
qed

lemma pick_source:
  "pick cli global b = (x, FromCli) \<Longrightarrow> cli = Some x"
  "pick cli global b = (x, FromGlobalSetting) \<Longrightarrow> cli = None \<and> global = Some x"
  "pick cli global b = (x, FromBuiltInDefault) \<Longrightarrow> cli = None \<and> global = None \<and> x = b"
  by (auto simp: pick_def split: option.splits)

lemma resolve_harness_codex:
  "resolve_harness h p = CodexBackend \<longleftrightarrow> h = CodexHarness \<or> (h = DefaultHarness \<and> p = Codex)"
  by (cases h; cases p) simp_all

lemma via_codex_error_None [simp]: "via_codex_error p = None \<longleftrightarrow> p = Codex"
  by (cases p) simp_all

section \<open>Properties\<close>

text \<open>
  Launch targets: a direct launch is refused exactly when the requested harness is Codex while
  the resolved provider is not Codex; otherwise each of provider and harness is taken from the command
  line, else the global setting, else the default, independently of the other, the recorded source
  says which, and the Codex executable runs only the Codex provider.
\<close>

theorem direct_launch_target:
  "let p = fst (pick cp gp Claude); h = fst (pick ch gh DefaultHarness)
   in (if h = CodexHarness \<and> p \<noteq> Codex
       then \<exists>e. resolve_routed_launch_target Direct cp ch gp gh = Inl e \<and> via_codex_error p = Some e
       else \<exists>t. resolve_routed_launch_target Direct cp ch gp gh = Inr t \<and>
         (lt_model_provider t, lt_provider_source t) = pick cp gp Claude \<and>
         (lt_requested_harness t, lt_harness_source t) = pick ch gh DefaultHarness \<and>
         lt_effective_harness t = resolve_harness h p \<and>
         \<not> (lt_effective_harness t = CodexBackend \<and> lt_model_provider t \<noteq> Codex))"
proof -
  obtain p ps where p: "pick cp gp Claude = (p, ps)" by fastforce
  obtain h hs where h: "pick ch gh DefaultHarness = (h, hs)" by fastforce
  show ?thesis
    by (cases "h = CodexHarness \<and> p \<noteq> Codex")
      (auto simp: p h resolve_routed_launch_target_def Let_def resolve_harness_codex
        split: option.splits)
qed

text \<open>
  Unified launches ignore every saved setting: the outcome depends on the command line only, the
  effective harness is always Claude's, and a Codex or DeepSeek harness on the command line is an error.
\<close>

theorem unified_launch_target:
  "resolve_routed_launch_target Unified cp ch gp gh = resolve_routed_launch_target Unified cp ch gp' gh' \<and>
   (case resolve_routed_launch_target Unified cp ch gp gh of
      Inl e \<Rightarrow> (e = UnifiedViaCodexUnsupported \<and> ch = Some CodexHarness) \<or>
        (e = UnifiedViaDeepSeekUnsupported \<and> ch = Some DeepSeekHarness)
    | Inr t \<Rightarrow> lt_effective_harness t = ClaudeBackend \<and>
        ch \<notin> {Some CodexHarness, Some DeepSeekHarness} \<and>
        lt_model_provider t = unwrap_or cp Claude)"
  by (cases ch) (auto simp: resolve_routed_launch_target_def Let_def)

end
