(* ===== verification/Provider_Catalog.thy ===== *)
theory Provider_Catalog
  imports Launch_Target
begin

text \<open>
  \<^verbatim>\<open>provider_catalog.rs\<close>: the registry of models, the lookups among its id namespaces (command line,
  wire, gateway discovery, legacy aliases), and the normalisation of a launch's model, effort and
  context options into one selection. Texts of static slices are lists; an effort is its enum.
\<close>

section \<open>Efforts\<close>

datatype effort_level = NoEffort | Low | Medium | High | XHigh | Max

fun effort_name :: "effort_level \<Rightarrow> string" where
  "effort_name NoEffort = ''none''"
| "effort_name Low = ''low''"
| "effort_name Medium = ''medium''"
| "effort_name High = ''high''"
| "effort_name XHigh = ''xhigh''"
| "effort_name Max = ''max''"

definition all_efforts :: "effort_level list" where
  "all_efforts = [NoEffort, Low, Medium, High, XHigh, Max]"

definition anthropic_efforts :: "effort_level list" where
  "anthropic_efforts = [Low, Medium, High, XHigh, Max]"

definition kimi_efforts :: "effort_level list" where
  "kimi_efforts = [Low, High, Max]"

definition parse_effort :: "string \<Rightarrow> effort_level option" where
  "parse_effort value =
     (let value = to_ascii_lowercase (trim value) in List.find (\<lambda>e. effort_name e = value) all_efforts)"

definition auto_context :: "string list" where
  "auto_context = [''auto'']"

definition auto_or_1m_context :: "string list" where
  "auto_or_1m_context = [''auto'', ''1m'']"

section \<open>The registry\<close>

record catalog_model =
  cli_id :: string
  cm_provider :: model_provider
  wire_id :: string
  discovery_id :: "string option"
  display_name :: string
  legacy_aliases :: "string list"
  supported_efforts :: "effort_level list"
  supported_contexts :: "string list"
  default_effort :: "effort_level option"
  default_context :: "string option"
  provider_default :: bool
  max_context_tokens :: "nat option"
  compact_window :: "nat option"

definition models :: "catalog_model list" where
  "models =
   [
    \<lparr>cli_id = ''codex-sol'', cm_provider = Codex, wire_id = ''gpt-5.6-sol'',
      discovery_id = Some ''clud-claude-codex-sol'', display_name = ''Codex Sol (OpenAI)'',
      legacy_aliases = [''sol''], supported_efforts = all_efforts,
      supported_contexts = auto_context, default_effort = Some Low, default_context = None,
      provider_default = False, max_context_tokens = Some 1050000, compact_window = None\<rparr>,
    \<lparr>cli_id = ''codex-terra'', cm_provider = Codex, wire_id = ''gpt-5.6-terra'',
      discovery_id = Some ''clud-claude-codex-terra'', display_name = ''Codex Terra (OpenAI)'',
      legacy_aliases = [''terra''], supported_efforts = all_efforts,
      supported_contexts = auto_context, default_effort = Some Medium, default_context = None,
      provider_default = True, max_context_tokens = Some 1050000, compact_window = None\<rparr>,
    \<lparr>cli_id = ''codex-luna'', cm_provider = Codex, wire_id = ''gpt-5.6-luna'',
      discovery_id = Some ''clud-claude-codex-luna'', display_name = ''Codex Luna (OpenAI)'',
      legacy_aliases = [''luna''], supported_efforts = all_efforts,
      supported_contexts = auto_context, default_effort = Some Medium, default_context = None,
      provider_default = False, max_context_tokens = Some 1050000, compact_window = None\<rparr>,
    \<lparr>cli_id = ''deepseek-v4-pro'', cm_provider = DeepSeek, wire_id = ''deepseek-v4-pro[1m]'',
      discovery_id = Some ''clud-claude-deepseek-v4-pro-0813'', display_name = ''DeepSeek V4 Pro 0813'',
      legacy_aliases = [''deepseek-v4-pro[1m]'', ''clud-claude-deepseek-v4-pro''], supported_efforts = anthropic_efforts,
      supported_contexts = auto_or_1m_context, default_effort = Some Max, default_context = Some ''1m'',
      provider_default = True, max_context_tokens = None, compact_window = Some 786432\<rparr>,
    \<lparr>cli_id = ''deepseek-v4-flash'', cm_provider = DeepSeek, wire_id = ''deepseek-v4-flash'',
      discovery_id = Some ''clud-claude-deepseek-v4-flash'', display_name = ''DeepSeek V4 Flash'',
      legacy_aliases = [], supported_efforts = anthropic_efforts,
      supported_contexts = auto_context, default_effort = None, default_context = None,
      provider_default = False, max_context_tokens = None, compact_window = None\<rparr>,
    \<lparr>cli_id = ''kimi-k3'', cm_provider = Kimi, wire_id = ''kimi-k3[1m]'',
      discovery_id = Some ''clud-claude-kimi-k3'', display_name = ''Kimi K3'',
      legacy_aliases = [''kimi-k3[1m]''], supported_efforts = kimi_efforts,
      supported_contexts = auto_or_1m_context, default_effort = Some Max, default_context = Some ''1m'',
      provider_default = True, max_context_tokens = None, compact_window = Some 1048576\<rparr>,
    \<lparr>cli_id = ''openrouter-claude-sonnet'', cm_provider = OpenRouter, wire_id = ''~anthropic/claude-sonnet-latest'',
      discovery_id = Some ''clud-claude-openrouter-sonnet'', display_name = ''Claude Sonnet via OpenRouter'',
      legacy_aliases = [], supported_efforts = anthropic_efforts,
      supported_contexts = auto_context, default_effort = Some Max, default_context = None,
      provider_default = True, max_context_tokens = None, compact_window = None\<rparr>,
    \<lparr>cli_id = ''claude-opus'', cm_provider = Claude, wire_id = ''opus'',
      discovery_id = None, display_name = ''Claude Opus'',
      legacy_aliases = [''opus''], supported_efforts = anthropic_efforts,
      supported_contexts = auto_context, default_effort = None, default_context = None,
      provider_default = False, max_context_tokens = None, compact_window = None\<rparr>,
    \<lparr>cli_id = ''claude-sonnet'', cm_provider = Claude, wire_id = ''sonnet'',
      discovery_id = None, display_name = ''Claude Sonnet'',
      legacy_aliases = [''sonnet''], supported_efforts = anthropic_efforts,
      supported_contexts = auto_context, default_effort = None, default_context = None,
      provider_default = False, max_context_tokens = None, compact_window = None\<rparr>,
    \<lparr>cli_id = ''claude-haiku'', cm_provider = Claude, wire_id = ''haiku'',
      discovery_id = None, display_name = ''Claude Haiku'',
      legacy_aliases = [''haiku''], supported_efforts = anthropic_efforts,
      supported_contexts = auto_context, default_effort = None, default_context = None,
      provider_default = False, max_context_tokens = None, compact_window = None\<rparr>
   ]"

section \<open>Lookups\<close>

definition opt_any :: "('a \<Rightarrow> bool) \<Rightarrow> 'a option \<Rightarrow> bool" where
  "opt_any p x = (case x of None \<Rightarrow> False | Some y \<Rightarrow> p y)"

definition row_matches :: "string \<Rightarrow> catalog_model \<Rightarrow> bool" where
  "row_matches value m \<longleftrightarrow>
     eq_ignore_ascii_case (cli_id m) value \<or> eq_ignore_ascii_case (wire_id m) value \<or>
     opt_any (\<lambda>i. eq_ignore_ascii_case i value) (discovery_id m) \<or>
     list_ex (\<lambda>a. eq_ignore_ascii_case a value) (legacy_aliases m)"

definition catalog_match :: "string \<Rightarrow> catalog_model option" where
  "catalog_match value = List.find (row_matches value) models"

definition model_by_cli_id :: "string \<Rightarrow> catalog_model option" where
  "model_by_cli_id value = List.find (\<lambda>m. cli_id m = value) models"

definition model_by_wire_id :: "string \<Rightarrow> catalog_model option" where
  "model_by_wire_id value = List.find (\<lambda>m. wire_id m = value) models"

definition model_by_discovery_id :: "string \<Rightarrow> catalog_model option" where
  "model_by_discovery_id value =
     List.find (\<lambda>m. opt_any (\<lambda>i. eq_ignore_ascii_case i value) (discovery_id m) \<or>
       list_ex (\<lambda>a. starts_with a ''clud-claude-'' \<and> eq_ignore_ascii_case a value) (legacy_aliases m))
       models"

definition opt_filter :: "('a \<Rightarrow> bool) \<Rightarrow> 'a option \<Rightarrow> 'a option" where
  "opt_filter p x = (case x of None \<Rightarrow> None | Some y \<Rightarrow> if p y then Some y else None)"

definition non_claude_model_by_any_id :: "string \<Rightarrow> catalog_model option" where
  "non_claude_model_by_any_id value =
     opt_filter (\<lambda>m. cm_provider m \<noteq> Claude \<and> cm_provider m \<noteq> OpenRouter) (catalog_match value)"

definition models_for_provider :: "model_provider \<Rightarrow> catalog_model list" where
  "models_for_provider p = filter (\<lambda>m. cm_provider m = p) models"

definition reviewed_default_model :: "model_provider \<Rightarrow> catalog_model option" where
  "reviewed_default_model p = List.find provider_default (models_for_provider p)"

definition common_context_tokens :: "model_provider \<Rightarrow> nat option" where
  "common_context_tokens p =
     (case models_for_provider p of
        [] \<Rightarrow> None
      | m # ms \<Rightarrow>
          (case max_context_tokens m of
             None \<Rightarrow> None
           | Some n \<Rightarrow> if list_all (\<lambda>m'. max_context_tokens m' = Some n) ms then Some n else None))"

section \<open>Suffixes and inference\<close>

definition split_effort_suffix :: "string \<Rightarrow> string \<times> string option" where
  "split_effort_suffix raw =
     (case rsplit_once CHR ''@'' raw of
        None \<Rightarrow> (raw, None)
      | Some (model, effort) \<Rightarrow> (trim model, Some (trim effort)))"

definition split_context_suffix :: "string \<Rightarrow> string \<times> string option" where
  "split_context_suffix raw =
     (case strip_suffix raw ''[1m]'' of
        None \<Rightarrow> (raw, None)
      | Some model \<Rightarrow> (model, Some ''1m''))"

definition inferred_provider_from_wire :: "string \<Rightarrow> model_provider option" where
  "inferred_provider_from_wire value =
     (let lower = to_ascii_lowercase value
      in List.find (\<lambda>p. list_ex (starts_with lower) (wire_prefixes p)) all_providers)"

fun provider_efforts :: "model_provider \<Rightarrow> effort_level list" where
  "provider_efforts Codex = all_efforts"
| "provider_efforts Claude = anthropic_efforts"
| "provider_efforts DeepSeek = anthropic_efforts"
| "provider_efforts OpenRouter = anthropic_efforts"
| "provider_efforts Kimi = kimi_efforts"

fun provider_contexts :: "model_provider \<Rightarrow> string list" where
  "provider_contexts Claude = auto_context"
| "provider_contexts Codex = auto_context"
| "provider_contexts OpenRouter = auto_context"
| "provider_contexts DeepSeek = auto_or_1m_context"
| "provider_contexts Kimi = auto_or_1m_context"

definition provider_inferred_from_catalog :: "catalog_model \<Rightarrow> string \<Rightarrow> model_provider option" where
  "provider_inferred_from_catalog m input =
     (if cm_provider m = OpenRouter \<and> eq_ignore_ascii_case (wire_id m) input \<and>
         \<not> eq_ignore_ascii_case (cli_id m) input
      then None else Some (cm_provider m))"

definition infer_provider :: "string \<Rightarrow> model_provider option" where
  "infer_provider model =
     (let (without_effort, _) = split_effort_suffix (trim model);
          (base, _) = split_context_suffix without_effort
      in or_else (Option.bind (catalog_match base) (\<lambda>m. provider_inferred_from_catalog m base))
           (inferred_provider_from_wire base))"

section \<open>Selections\<close>

datatype selection_source = SrcCli | SrcLegacyModelSuffix | SrcProviderSetting | SrcCatalogDefault

record selection =
  sel_provider :: model_provider
  sel_model :: "string option"
  sel_wire_model :: "string option"
  sel_effort :: "effort_level option"
  sel_context :: "string option"
  sel_model_source :: "selection_source option"
  sel_effort_source :: "selection_source option"
  sel_context_source :: "selection_source option"

datatype selection_error =
    UnknownModel string
  | ProviderConflict model_provider string model_provider
  | InvalidEffort string
  | InvalidContextWindow string
  | UnsupportedEffort string string
  | UnsupportedContextWindow string string
  | ContextRequiresModel model_provider string
  | ConflictingEffort string string
  | ConflictingContextWindow string string

fun selection_error_text :: "selection_error \<Rightarrow> string" where
  "selection_error_text (UnknownModel m) = ''unknown model '' @ [CHR 0x27] @ m @ [CHR 0x27]"
| "selection_error_text (ProviderConflict p m mp) =
     ''model '' @ [CHR 0x27] @ m @ [CHR 0x27] @ '' belongs to provider '' @ [CHR 0x27] @
     provider_name mp @ [CHR 0x27] @ '', but the explicit provider is '' @ [CHR 0x27] @
     provider_name p @ [CHR 0x27]"
| "selection_error_text (InvalidEffort e) =
     ''invalid reasoning effort '' @ [CHR 0x27] @ e @ [CHR 0x27]"
| "selection_error_text (InvalidContextWindow v) =
     ''invalid context window '' @ [CHR 0x27] @ v @ [CHR 0x27] @ ''; expected auto or 1m''"
| "selection_error_text (UnsupportedEffort m e) =
     ''model '' @ [CHR 0x27] @ m @ [CHR 0x27] @ '' does not support effort '' @ [CHR 0x27] @ e @
     [CHR 0x27]"
| "selection_error_text (UnsupportedContextWindow m c) =
     ''model '' @ [CHR 0x27] @ m @ [CHR 0x27] @ '' does not support context window '' @ [CHR 0x27] @
     c @ [CHR 0x27]"
| "selection_error_text (ContextRequiresModel p c) =
     ''provider '' @ [CHR 0x27] @ provider_name p @ [CHR 0x27] @
     '' requires --model when --context-window is '' @ [CHR 0x27] @ c @ [CHR 0x27]"
| "selection_error_text (ConflictingEffort l e) =
     ''model suffix selected effort '' @ [CHR 0x27] @ l @ [CHR 0x27] @
     '', but --effort selected '' @ [CHR 0x27] @ e @ [CHR 0x27]"
| "selection_error_text (ConflictingContextWindow l e) =
     ''model suffix selected context window '' @ [CHR 0x27] @ l @ [CHR 0x27] @
     '', but --context-window selected '' @ [CHR 0x27] @ e @ [CHR 0x27]"

definition validate_capabilities ::
    "string \<Rightarrow> effort_level list \<Rightarrow> string list \<Rightarrow> effort_level option \<Rightarrow> string option \<Rightarrow>
      (selection_error, unit) result" where
  "validate_capabilities label efforts contexts effort context =
     (if opt_any (\<lambda>e. \<not> list_contains efforts e) effort then
        Inl (UnsupportedEffort label (effort_name (the effort)))
      else if opt_any (\<lambda>c. \<not> list_contains contexts c) context then
        Inl (UnsupportedContextWindow label (the context))
      else Inr ())"

text \<open>\<^verbatim>\<open>option.map(f).transpose()?\<close>: nothing, or the value, or the error.\<close>

definition try_opt :: "('a \<Rightarrow> ('e, 'b) result) \<Rightarrow> 'a option \<Rightarrow> ('e, 'b option) result" where
  "try_opt f x = (case x of None \<Rightarrow> Inr None | Some y \<Rightarrow> rbind (f y) (\<lambda>z. Inr (Some z)))"

definition read_effort :: "string \<Rightarrow> (selection_error, effort_level) result" where
  "read_effort v = ok_or (parse_effort v) (InvalidEffort v)"

definition read_context :: "string \<Rightarrow> (selection_error, string) result" where
  "read_context v =
     (let v = to_ascii_lowercase (trim v)
      in if v = ''auto'' \<or> v = ''1m'' then Inr v else Inl (InvalidContextWindow v))"

definition conflict :: "('a \<Rightarrow> 'a \<Rightarrow> 'e) \<Rightarrow> 'a option \<Rightarrow> 'a option \<Rightarrow> ('e, unit) result" where
  "conflict err a b =
     (case (a, b) of (Some x, Some y) \<Rightarrow> if x \<noteq> y then Inl (err x y) else Inr () | _ \<Rightarrow> Inr ())"

text \<open>The wire id carries a \<^verbatim>\<open>[1m]\<close> suffix exactly as the chosen context window says.\<close>

definition apply_context :: "string list \<Rightarrow> string option \<Rightarrow> string \<Rightarrow> string" where
  "apply_context contexts context wire =
     (if list_contains contexts ''1m'' then
        (if context = Some ''auto'' then unwrap_or (strip_suffix wire ''[1m]'') wire
         else if context = Some ''1m'' \<and> \<not> ends_with wire ''[1m]'' then wire @ ''[1m]''
         else wire)
      else wire)"

definition source_of :: "'a option \<Rightarrow> 'b option \<Rightarrow> selection_source option" where
  "source_of explicit legacy =
     (if explicit \<noteq> None then Some SrcCli
      else if legacy \<noteq> None then Some SrcLegacyModelSuffix else None)"

text \<open>The branch of \<^verbatim>\<open>resolve\<close> for a launch that names no model.\<close>

definition resolve_modelless ::
    "model_provider option \<Rightarrow> effort_level option \<Rightarrow> string option \<Rightarrow> string option \<Rightarrow>
      (selection_error, selection option) result" where
  "resolve_modelless requested effort context context_window =
     (case requested of
        None \<Rightarrow> Inr None
      | Some p \<Rightarrow>
          if effort = None \<and> context = None then Inr None
          else
            rbind (validate_capabilities (provider_name p) (provider_efforts p) (provider_contexts p)
                effort context)
              (\<lambda>_. if context = Some ''auto'' \<and>
                    list_ex (\<lambda>m. list_contains (supported_contexts m) ''1m'') (models_for_provider p)
                  then Inl (ContextRequiresModel p ''auto'')
                  else
                    Inr (Some
                      \<lparr>sel_provider = p, sel_model = None, sel_wire_model = None, sel_effort = effort,
                       sel_context = context, sel_model_source = None,
                       sel_effort_source = map_option (\<lambda>_. SrcCli) effort,
                       sel_context_source = map_option (\<lambda>_. SrcCli) context_window\<rparr>)))"

text \<open>The provider of a named model, or why there is none.\<close>

definition select_provider ::
    "model_provider option \<Rightarrow> catalog_model option \<Rightarrow> string \<Rightarrow> string \<Rightarrow>
      (selection_error, model_provider) result" where
  "select_provider requested catalog raw base =
     (let inferred = or_else (Option.bind catalog (\<lambda>m. provider_inferred_from_catalog m base))
            (inferred_provider_from_wire base)
      in if opt_any (\<lambda>p. opt_any (\<lambda>mp. p \<noteq> mp) inferred) requested then
           Inl (ProviderConflict (the requested) raw (the inferred))
         else if catalog = None \<and> inferred = None \<and> requested = Some Codex \<and>
             CHR ''-'' \<notin> set base \<and> CHR ''.'' \<notin> set base then
           Inl (UnknownModel base)
         else ok_or (or_else inferred requested) (UnknownModel base))"

definition find_catalog :: "string \<Rightarrow> string \<Rightarrow> catalog_model option" where
  "find_catalog base without_effort = or_else (catalog_match base) (catalog_match without_effort)"

definition resolve_named ::
    "model_provider option \<Rightarrow> string \<Rightarrow> effort_level option \<Rightarrow> string option \<Rightarrow> string option \<Rightarrow>
      (selection_error, selection) result" where
  "resolve_named requested raw explicit_effort explicit_context context_window =
     (let (without_effort, effort_raw) = split_effort_suffix raw
      in rbind (try_opt read_effort effort_raw)
        (\<lambda>legacy_effort.
          let (base, legacy_context) = split_context_suffix without_effort;
              catalog = find_catalog base without_effort
          in rbind (select_provider requested catalog raw base)
            (\<lambda>p.
              rbind (conflict (\<lambda>l e. ConflictingEffort (effort_name l) (effort_name e))
                  legacy_effort explicit_effort)
                (\<lambda>_. rbind (conflict ConflictingContextWindow legacy_context explicit_context)
                  (\<lambda>_.
                    let effort = or_else explicit_effort legacy_effort;
                        context = or_else explicit_context legacy_context;
                        (label, efforts, contexts, wire) =
                          (case catalog of
                             None \<Rightarrow> (base, provider_efforts p, provider_contexts p, base)
                           | Some m \<Rightarrow> (cli_id m, supported_efforts m, supported_contexts m, wire_id m))
                    in rbind (validate_capabilities label efforts contexts effort context)
                      (\<lambda>_. Inr
                        \<lparr>sel_provider = p, sel_model = Some label,
                         sel_wire_model = Some (apply_context contexts context wire),
                         sel_effort = effort, sel_context = context, sel_model_source = Some SrcCli,
                         sel_effort_source = source_of explicit_effort legacy_effort,
                         sel_context_source = source_of context_window legacy_context\<rparr>))))))"

definition resolve ::
    "model_provider option \<Rightarrow> string option \<Rightarrow> string option \<Rightarrow> string option \<Rightarrow>
      (selection_error, selection option) result" where
  "resolve requested model effort context_window =
     rbind (try_opt read_effort effort)
       (\<lambda>explicit_effort.
         rbind (try_opt read_context context_window)
           (\<lambda>explicit_context.
             case map_option trim model of
               None \<Rightarrow> resolve_modelless requested explicit_effort explicit_context context_window
             | Some raw \<Rightarrow>
                 rbind (resolve_named requested raw explicit_effort explicit_context context_window)
                   (\<lambda>sel. Inr (Some sel))))"

record selection_defaults =
  sd_model :: "string option"
  sd_effort :: "effort_level option"
  sd_context :: "string option"

text \<open>The reviewed defaults of the selected row (or else of the provider's row) fill what is open.\<close>

definition fill_defaults :: "catalog_model option \<Rightarrow> selection \<Rightarrow> selection" where
  "fill_defaults catalog_default sel =
     (let row = or_else (Option.bind (sel_model sel) model_by_cli_id) catalog_default;
          sel = (case (sel_effort sel, Option.bind row default_effort) of
                   (None, Some e) \<Rightarrow>
                     sel\<lparr>sel_effort := Some e, sel_effort_source := Some SrcCatalogDefault\<rparr>
                 | _ \<Rightarrow> sel)
      in (case (sel_context sel, Option.bind row default_context) of
            (None, Some c) \<Rightarrow>
              sel\<lparr>sel_context := Some c, sel_context_source := Some SrcCatalogDefault\<rparr>
          | _ \<Rightarrow> sel))"

definition resolve_for_launch ::
    "model_provider \<Rightarrow> string option \<Rightarrow> string option \<Rightarrow> string option \<Rightarrow>
      selection_defaults option \<Rightarrow> bool \<Rightarrow> (selection_error, selection option) result" where
  "resolve_for_launch p cli_model cli_effort cli_context saved use_default =
     (let catalog_default = (if use_default then reviewed_default_model p else None);
          saved = unwrap_or saved \<lparr>sd_model = None, sd_effort = None, sd_context = None\<rparr>;
          (model, model_source) =
            (case cli_model of
               Some m \<Rightarrow> (Some m, Some SrcCli)
             | None \<Rightarrow>
                 (case sd_model saved of
                    Some m \<Rightarrow> (Some m, Some SrcProviderSetting)
                  | None \<Rightarrow>
                      (case catalog_default of
                         Some m \<Rightarrow> (Some (cli_id m), Some SrcCatalogDefault)
                       | None \<Rightarrow> (None, None))));
          cli_has_effort = opt_any (\<lambda>m. snd (split_effort_suffix m) \<noteq> None) cli_model;
          cli_has_context =
            opt_any (\<lambda>m. snd (split_context_suffix (fst (split_effort_suffix m))) \<noteq> None) cli_model;
          saved_effort = (if cli_effort = None \<and> \<not> cli_has_effort then sd_effort saved else None);
          saved_context = (if cli_context = None \<and> \<not> cli_has_context then sd_context saved else None);
          effort_text = or_else cli_effort (map_option effort_name saved_effort);
          context_text = or_else cli_context saved_context
      in rbind (resolve (Some p) model effort_text context_text)
        (\<lambda>selection.
          case selection of
            None \<Rightarrow> Inr None
          | Some sel \<Rightarrow>
              let sel = sel\<lparr>sel_model_source := model_source\<rparr>;
                  sel = (if saved_effort \<noteq> None
                         then sel\<lparr>sel_effort_source := Some SrcProviderSetting\<rparr> else sel);
                  sel = (if saved_context \<noteq> None
                         then sel\<lparr>sel_context_source := Some SrcProviderSetting\<rparr> else sel)
              in Inr (Some (if use_default then fill_defaults catalog_default sel else sel))))"

section \<open>Lemmas\<close>

lemma opt_any_simps [simp]: "opt_any q None = False" "opt_any q (Some x) = q x"
  by (simp_all add: opt_any_def)

lemma try_opt_simps [simp]:
  "try_opt f None = Inr None" "try_opt f (Some y) = rbind (f y) (\<lambda>z. Inr (Some z))"
  by (simp_all add: try_opt_def)

lemma conflict_simps [simp]: "conflict err None b = Inr ()" "conflict err a None = Inr ()"
  by (simp_all add: conflict_def split: option.splits)

lemma validate_capabilities_ok:
  "validate_capabilities label efforts contexts effort context = Inr u \<longleftrightarrow>
    (\<forall>e. effort = Some e \<longrightarrow> e \<in> set efforts) \<and> (\<forall>c. context = Some c \<longrightarrow> c \<in> set contexts)"
  by (cases effort; cases "context") (auto simp: validate_capabilities_def)

text \<open>Every id a row answers to.\<close>

definition row_ids :: "catalog_model \<Rightarrow> string list" where
  "row_ids m = cli_id m # wire_id m #
     (case discovery_id m of None \<Rightarrow> [] | Some i \<Rightarrow> [i]) @ legacy_aliases m"

text \<open>The registry writes its ids in lower case, so a match is membership of the lowered text.\<close>

lemma ids_lower: "list_all (\<lambda>m. list_all (\<lambda>i. to_ascii_lowercase i = i) (row_ids m)) models"
  by (simp add: models_def row_ids_def rust_eval)

lemma row_matches_lower:
  "m \<in> set models \<Longrightarrow> row_matches v m \<longleftrightarrow> to_ascii_lowercase v \<in> set (row_ids m)"
proof -
  assume "m \<in> set models"
  then have low: "to_ascii_lowercase i = i" if "i \<in> set (row_ids m)" for i
    using ids_lower that by (simp add: list_all_iff)
  have "row_matches v m \<longleftrightarrow> (\<exists>i \<in> set (row_ids m). to_ascii_lowercase i = to_ascii_lowercase v)"
    by (auto simp: row_matches_def row_ids_def eq_ignore_ascii_case_def list_ex_iff opt_any_def
        split: option.splits)
  with low show ?thesis by (metis (no_types, lifting))
qed

lemma find_cong_set: "(\<And>x. x \<in> set xs \<Longrightarrow> p x = q x) \<Longrightarrow> List.find p xs = List.find q xs"
  by (induction xs) auto

lemma catalog_match_eq:
  "catalog_match v = List.find (\<lambda>m. to_ascii_lowercase v \<in> set (row_ids m)) models"
  unfolding catalog_match_def by (rule find_cong_set) (rule row_matches_lower)

lemma catalog_match_lower:
  "to_ascii_lowercase v = to_ascii_lowercase w \<Longrightarrow> catalog_match v = catalog_match w"
  by (simp add: catalog_match_eq)

lemma rows_by_lower_id:
  "list_all (\<lambda>m. list_all (\<lambda>i. List.find (\<lambda>m'. i \<in> set (row_ids m')) models = Some m) (row_ids m)) models"
  by (simp add: models_def row_ids_def)

lemma rows_by_id: "list_all (\<lambda>m. list_all (\<lambda>i. catalog_match i = Some m) (row_ids m)) models"
  using rows_by_lower_id ids_lower by (auto simp: list_all_iff catalog_match_eq)

lemma rows_by_cli_id: "list_all (\<lambda>m. model_by_cli_id (cli_id m) = Some m) models"
  by (simp add: models_def model_by_cli_id_def)

lemma model_by_cli_id_row: "m \<in> set models \<Longrightarrow> model_by_cli_id (cli_id m) = Some m"
  using rows_by_cli_id by (simp add: list_all_iff)

lemma catalog_match_row: "catalog_match v = Some m \<Longrightarrow> m \<in> set models \<and> row_matches v m"
  unfolding catalog_match_def by (rule find_SomeD)

lemma catalog_match_cli: "catalog_match v = None \<Longrightarrow> model_by_cli_id v = None"
  by (auto simp: catalog_match_def model_by_cli_id_def find_None_ball row_matches_def
      eq_ignore_ascii_case_def)

lemma find_catalog_row: "find_catalog b w = Some m \<Longrightarrow> m \<in> set models"
  by (auto simp: find_catalog_def or_else_def split: option.splits dest: catalog_match_row)

lemma find_catalog_None: "find_catalog b w = None \<Longrightarrow> model_by_cli_id b = None"
  by (auto simp: find_catalog_def or_else_def split: option.splits dest: catalog_match_cli)

lemma select_provider_requested:
  "select_provider requested catalog raw base = Inr p \<Longrightarrow> requested = Some q \<Longrightarrow> p = q"
  by (auto simp: select_provider_def Let_def or_else_def opt_any_def ok_or_def
      split: if_splits option.splits)

lemma select_provider_row:
  "select_provider requested (Some m) raw base = Inr p \<Longrightarrow> cm_provider m \<noteq> OpenRouter \<Longrightarrow>
    p = cm_provider m"
  by (auto simp: select_provider_def Let_def provider_inferred_from_catalog_def ok_or_def
      split: if_splits)

lemma select_provider_raw:
  "select_provider requested catalog raw base = Inr p \<Longrightarrow>
    select_provider requested catalog raw' base = Inr p"
  by (auto simp: select_provider_def Let_def split: if_splits)

lemma resolve_modelless_ok:
  "resolve_modelless requested effort context cw = Inr (Some sel) \<Longrightarrow>
    requested = Some (sel_provider sel) \<and> sel_model sel = None \<and> sel_effort sel = effort \<and>
    sel_context sel = context \<and>
    (\<forall>e. effort = Some e \<longrightarrow> e \<in> set (provider_efforts (sel_provider sel))) \<and>
    (\<forall>c. context = Some c \<longrightarrow> c \<in> set (provider_contexts (sel_provider sel)))"
  by (auto simp: resolve_modelless_def rbind_Inr_iff validate_capabilities_ok
      split: option.splits if_splits)

text \<open>What a successful selection of a named model satisfies.\<close>

definition named_ok :: "selection \<Rightarrow> string \<Rightarrow> bool" where
  "named_ok sel label \<longleftrightarrow>
     sel_model sel = Some label \<and>
     (case model_by_cli_id label of
        Some m \<Rightarrow>
          (cm_provider m = sel_provider sel \<or> cm_provider m = OpenRouter) \<and>
          (\<forall>e. sel_effort sel = Some e \<longrightarrow> e \<in> set (supported_efforts m)) \<and>
          (\<forall>c. sel_context sel = Some c \<longrightarrow> c \<in> set (supported_contexts m)) \<and>
          sel_wire_model sel = Some (apply_context (supported_contexts m) (sel_context sel) (wire_id m))
      | None \<Rightarrow>
          (\<forall>e. sel_effort sel = Some e \<longrightarrow> e \<in> set (provider_efforts (sel_provider sel))) \<and>
          (\<forall>c. sel_context sel = Some c \<longrightarrow> c \<in> set (provider_contexts (sel_provider sel))) \<and>
          sel_wire_model sel =
            Some (apply_context (provider_contexts (sel_provider sel)) (sel_context sel) label))"

lemma resolve_named_ok:
  assumes "resolve_named requested raw ee ec cw = Inr sel"
  shows "(\<forall>p. requested = Some p \<longrightarrow> sel_provider sel = p) \<and> (\<exists>label. named_ok sel label)"
proof -
  obtain we er where we: "split_effort_suffix raw = (we, er)" by fastforce
  obtain base lc where base: "split_context_suffix we = (base, lc)" by fastforce
  let ?cat = "find_catalog base we"
  obtain le where le: "try_opt read_effort er = Inr le"
    using assms by (auto simp: resolve_named_def we rbind_Inr_iff)
  obtain p where p: "select_provider requested ?cat raw base = Inr p"
    using assms by (auto simp: resolve_named_def we le base Let_def rbind_Inr_iff)
  have prov: "\<forall>q. requested = Some q \<longrightarrow> p = q"
    using select_provider_requested [OF p] by blast
  show ?thesis
  proof (cases ?cat)
    case None
    then have p0: "select_provider requested None raw base = Inr p" using p by simp
    have "named_ok sel base" "sel_provider sel = p"
      using assms None p0 find_catalog_None [OF None]
      by (auto simp: resolve_named_def we le base Let_def rbind_Inr_iff validate_capabilities_ok
          named_ok_def)
    with prov show ?thesis by blast
  next
    case (Some m)
    have "cm_provider m = p \<or> cm_provider m = OpenRouter"
      using select_provider_row [of requested m raw base p] p Some by auto
    moreover have "select_provider requested (Some m) raw base = Inr p" using p Some by simp
    ultimately have "named_ok sel (cli_id m)" "sel_provider sel = p"
      using assms Some model_by_cli_id_row [OF find_catalog_row [OF Some]]
      by (auto simp: resolve_named_def we le base Let_def rbind_Inr_iff
          validate_capabilities_ok named_ok_def)
    with prov show ?thesis by blast
  qed
qed

text \<open>Evaluation of closed selections.\<close>

lemma trimmed_ids: "trimmed ''kimi-k3''" "trimmed ''max''" "trimmed ''auto''" "trimmed ''terra''"
  by (simp_all add: trimmed_def ws_seqs_def suffix_to_prefix)

lemma kimi_evaluates:
  "case resolve None (Some ''kimi-k3'') (Some ''max'') (Some ''auto'') of
     Inr (Some sel) \<Rightarrow> sel_model sel = Some ''kimi-k3'' | _ \<Rightarrow> False"
  by (simp add: resolve_def read_effort_def read_context_def parse_effort_def trimmed_ids
      all_efforts_def resolve_named_def split_effort_suffix_def split_context_suffix_def
      strip_suffix_def suffix_to_prefix find_catalog_def catalog_match_eq models_def row_ids_def
      select_provider_def provider_inferred_from_catalog_def validate_capabilities_def
      kimi_efforts_def auto_or_1m_context_def rust_eval)

lemma terra_evaluates:
  "case resolve None (Some ''terra'') (Some ''max'') None of Inr (Some sel) \<Rightarrow> True | _ \<Rightarrow> False"
  by (simp add: resolve_def read_effort_def read_context_def parse_effort_def trimmed_ids
      all_efforts_def resolve_named_def split_effort_suffix_def split_context_suffix_def
      strip_suffix_def suffix_to_prefix find_catalog_def catalog_match_eq models_def row_ids_def
      select_provider_def provider_inferred_from_catalog_def validate_capabilities_def rust_eval)

section \<open>Properties\<close>

text \<open>
  Every id of the registry, in any letter case, names one row: looking up a row's command-line,
  wire, discovery or alias id finds that row and no other.
\<close>

theorem catalog_ids_unambiguous:
  assumes "m \<in> set models" "i \<in> set (row_ids m)" "eq_ignore_ascii_case i v"
  shows "catalog_match v = Some m"
proof -
  have "catalog_match i = Some m" using rows_by_id assms(1,2) by (simp add: list_all_iff)
  with assms(3) show ?thesis
    using catalog_match_lower [of i v] by (simp add: eq_ignore_ascii_case_def)
qed

theorem catalog_ids_unambiguous_witness:
  "map_option cli_id (catalog_match ''CLUD-Claude-DeepSeek-v4-Pro'') = Some ''deepseek-v4-pro''"
proof -
  let ?m = "models ! 3"
  have "?m \<in> set models" by (rule nth_mem) (simp add: models_def)
  moreover have "''clud-claude-deepseek-v4-pro'' \<in> set (row_ids ?m)"
    by (simp add: row_ids_def models_def)
  moreover have "eq_ignore_ascii_case ''clud-claude-deepseek-v4-pro'' ''CLUD-Claude-DeepSeek-v4-Pro''"
    by code_simp
  ultimately have "catalog_match ''CLUD-Claude-DeepSeek-v4-Pro'' = Some ?m"
    by (rule catalog_ids_unambiguous)
  then show ?thesis by (simp add: models_def)
qed

text \<open>
  A selection that resolves is consistent: it is for the requested provider, its effort and
  context window are among those its registry row (or, for an unregistered model, its provider)
  supports, its wire id is the row's with the context suffix adjusted, and its row belongs to its
  provider unless it is OpenRouter's.
\<close>

theorem resolve_sound:
  assumes "resolve requested model effort context = Inr (Some sel)"
  shows "(\<forall>p. requested = Some p \<longrightarrow> sel_provider sel = p) \<and>
    (case sel_model sel of
       Some label \<Rightarrow> named_ok sel label
     | None \<Rightarrow> model = None \<and>
         (\<forall>e. sel_effort sel = Some e \<longrightarrow> e \<in> set (provider_efforts (sel_provider sel))) \<and>
         (\<forall>c. sel_context sel = Some c \<longrightarrow> c \<in> set (provider_contexts (sel_provider sel))))"
proof -
  obtain ee ec where "try_opt read_effort effort = Inr ee" "try_opt read_context context = Inr ec"
    using assms by (auto simp: resolve_def rbind_Inr_iff)
  note parsed = this
  show ?thesis
  proof (cases model)
    case None
    with assms parsed show ?thesis
      using resolve_modelless_ok [of requested ee ec "context" sel] by (auto simp: resolve_def)
  next
    case (Some raw)
    with assms parsed have "resolve_named requested (trim raw) ee ec context = Inr sel"
      by (auto simp: resolve_def rbind_Inr_iff)
    from resolve_named_ok [OF this] show ?thesis by (auto simp: named_ok_def)
  qed
qed

theorem resolve_sound_witness:
  "\<exists>sel. resolve None (Some ''kimi-k3'') (Some ''max'') (Some ''auto'') = Inr (Some sel) \<and>
    named_ok sel ''kimi-k3''"
proof -
  obtain sel where "resolve None (Some ''kimi-k3'') (Some ''max'') (Some ''auto'') = Inr (Some sel)"
    "sel_model sel = Some ''kimi-k3''"
    using kimi_evaluates by (auto split: sum.splits option.splits)
  with resolve_sound [of None "Some ''kimi-k3''" "Some ''max''" "Some ''auto''" sel] show ?thesis
    by auto
qed

definition succeeded :: "(selection_error, selection option) result \<Rightarrow> selection option" where
  "succeeded r = (case r of Inr (Some s) \<Rightarrow> Some (s\<lparr>sel_effort_source := None\<rparr>) | _ \<Rightarrow> None)"

lemma prefix_before: "prefix w (m @ c # x) \<Longrightarrow> c \<notin> set w \<Longrightarrow> prefix w m"
  by (induction m arbitrary: w) (auto simp: prefix_Cons)

lemma suffix_after: "suffix w (m @ c # x) \<Longrightarrow> c \<notin> set w \<Longrightarrow> suffix w x"
  using prefix_before [of "rev w" "rev x" c "rev m"] by (simp add: suffix_to_prefix)

lemma trimmed_join: "trimmed m \<Longrightarrow> trimmed x \<Longrightarrow> trimmed (m @ CHR ''@'' # x)"
proof -
  assume tm: "trimmed m" and tx: "trimmed x"
  have "CHR ''@'' \<notin> set w" if "w \<in> set ws_seqs" for w using that by (auto simp: ws_seqs_def)
  with tm tx show ?thesis
    unfolding trimmed_def list_all_iff using prefix_before suffix_after by metis
qed

lemma resolve_named_source:
  assumes "CHR ''@'' \<notin> set m" "trimmed m" "trimmed x" "CHR ''@'' \<notin> set x" "parse_effort x = Some e"
  shows "(case resolve_named requested (m @ CHR ''@'' # x) None ec cw of
      Inr s \<Rightarrow> Some (s\<lparr>sel_effort_source := None\<rparr>) | Inl _ \<Rightarrow> None) =
    (case resolve_named requested m (Some e) ec cw of
      Inr s \<Rightarrow> Some (s\<lparr>sel_effort_source := None\<rparr>) | Inl _ \<Rightarrow> None)"
proof -
  have s1: "split_effort_suffix (m @ CHR ''@'' # x) = (m, Some x)"
    using assms by (simp add: split_effort_suffix_def rsplit_once_append)
  have s2: "split_effort_suffix m = (m, None)"
    using assms(1) by (simp add: split_effort_suffix_def rsplit_once_None_iff [THEN iffD2])
  have r: "read_effort x = Inr e" by (simp add: read_effort_def assms(5))
  obtain base lc where base: "split_context_suffix m = (base, lc)" by fastforce
  let ?sel = "\<lambda>raw. select_provider requested (find_catalog base m) raw base"
  show ?thesis
  proof (cases "?sel m")
    case (Inl err)
    then have "\<exists>err'. ?sel (m @ CHR ''@'' # x) = Inl err'"
      using select_provider_raw [of requested "find_catalog base m" "m @ CHR ''@'' # x" base _ m]
      by (cases "?sel (m @ CHR ''@'' # x)") auto
    with Inl show ?thesis by (auto simp: resolve_named_def s1 s2 r base Let_def)
  next
    case (Inr p)
    note Inr' = select_provider_raw [OF Inr, of "m @ CHR ''@'' # x"]
    show ?thesis
    proof (cases "find_catalog base m")
      case None
      with Inr Inr' show ?thesis
        by (auto simp: resolve_named_def s1 s2 r base Let_def rbind_def split: sum.splits)
    next
      case (Some row)
      with Inr Inr' show ?thesis
        by (auto simp: resolve_named_def s1 s2 r base Let_def rbind_def split: sum.splits)
    qed
  qed
qed

text \<open>
  The compatibility spelling \<^verbatim>\<open>model@effort\<close> selects exactly what \<^verbatim>\<open>--model model --effort effort\<close>
  does: the two succeed on the same inputs with the same selection, up to the recorded source.
\<close>

theorem suffix_is_the_option:
  assumes "trimmed m" "CHR ''@'' \<notin> set m" "trimmed x" "CHR ''@'' \<notin> set x"
  shows "succeeded (resolve requested (Some (m @ CHR ''@'' # x)) None cw) =
    succeeded (resolve requested (Some m) (Some x) cw)"
proof (cases "try_opt read_context cw")
  case (Inl err)
  then show ?thesis by (auto simp: resolve_def succeeded_def rbind_def split: sum.splits)
next
  case (Inr ec)
  show ?thesis
  proof (cases "parse_effort x")
    case None
    then have "read_effort x = Inl (InvalidEffort x)" by (simp add: read_effort_def)
    moreover have "split_effort_suffix (m @ CHR ''@'' # x) = (m, Some x)"
      using assms by (simp add: split_effort_suffix_def rsplit_once_append)
    ultimately show ?thesis
      using Inr trimmed_join [OF assms(1,3)]
      by (simp add: resolve_def succeeded_def resolve_named_def)
  next
    case (Some e)
    then have "read_effort x = Inr e" by (simp add: read_effort_def)
    with Inr trimmed_join [OF assms(1,3)] assms(1)
      resolve_named_source [OF assms(2,1,3,4) Some, of requested ec cw]
    show ?thesis by (auto simp: resolve_def succeeded_def rbind_def split: sum.splits)
  qed
qed

theorem suffix_is_the_option_witness:
  "succeeded (resolve None (Some (''terra'' @ CHR ''@'' # ''max'')) None None) =
    succeeded (resolve None (Some ''terra'') (Some ''max'') None) \<and>
   succeeded (resolve None (Some ''terra'') (Some ''max'') None) \<noteq> None"
proof -
  have "CHR ''@'' \<notin> set ''terra''" "CHR ''@'' \<notin> set ''max''" by simp_all
  note suffix_is_the_option [OF trimmed_ids(4) this(1) trimmed_ids(2) this(2), of None None]
  moreover have "succeeded (resolve None (Some ''terra'') (Some ''max'') None) \<noteq> None"
    using terra_evaluates by (auto simp: succeeded_def split: sum.splits option.splits)
  ultimately show ?thesis by simp
qed

lemmas closed_resolution =
  resolve_def read_effort_def read_context_def parse_effort_def all_efforts_def resolve_named_def
  split_effort_suffix_def split_context_suffix_def strip_suffix_def suffix_to_prefix
  find_catalog_def catalog_match_eq models_def row_ids_def select_provider_def
  provider_inferred_from_catalog_def validate_capabilities_def auto_context_def
  auto_or_1m_context_def source_of_def apply_context_def inferred_provider_from_wire_def
  all_providers_def starts_with_def eq_ignore_ascii_case_def rust_eval

lemma trimmed_defaults:
  "trimmed ''~anthropic/claude-sonnet-latest''" "trimmed ''openrouter-claude-sonnet''"
  "trimmed ''codex-terra''" "trimmed ''deepseek-v4-pro''"
  by (simp_all add: trimmed_def ws_seqs_def suffix_to_prefix)

text \<open>
  The one spelling that crosses providers: OpenRouter's wire id is accepted under every explicit
  provider and then selects OpenRouter's row for it, a selection whose own model id the same provider
  refuses when it is resolved again.
\<close>

theorem openrouter_wire_crosses_providers:
  "resolve (Some p) (Some ''~anthropic/claude-sonnet-latest'') None None =
     Inr (Some \<lparr>sel_provider = p, sel_model = Some ''openrouter-claude-sonnet'',
       sel_wire_model = Some ''~anthropic/claude-sonnet-latest'', sel_effort = None,
       sel_context = None, sel_model_source = Some SrcCli, sel_effort_source = None,
       sel_context_source = None\<rparr>) \<and>
   (p = OpenRouter) = (resolve (Some p) (Some ''openrouter-claude-sonnet'') None None \<noteq>
     Inl (ProviderConflict p ''openrouter-claude-sonnet'' OpenRouter))"
  by (cases p) (simp_all add: closed_resolution trimmed_defaults)

text \<open>
  A launch that names nothing gets its provider's reviewed row: its ids, its default effort and
  its default context window, all of them supported by the row; only Claude has none, and there the
  harness's own default stays in charge.
\<close>

theorem launch_defaults_resolve:
  "case reviewed_default_model p of
     None \<Rightarrow> p = Claude \<and> resolve_for_launch p None None None None True = Inr None
   | Some m \<Rightarrow>
       resolve_for_launch p None None None None True =
         Inr (Some \<lparr>sel_provider = p, sel_model = Some (cli_id m), sel_wire_model = Some (wire_id m),
           sel_effort = default_effort m, sel_context = default_context m,
           sel_model_source = Some SrcCatalogDefault,
           sel_effort_source = map_option (\<lambda>_. SrcCatalogDefault) (default_effort m),
           sel_context_source = map_option (\<lambda>_. SrcCatalogDefault) (default_context m)\<rparr>) \<and>
       set_option (default_effort m) \<subseteq> set (supported_efforts m) \<and>
       set_option (default_context m) \<subseteq> set (supported_contexts m)"
  by (cases p) (simp_all add: resolve_for_launch_def reviewed_default_model_def
      models_for_provider_def fill_defaults_def model_by_cli_id_def closed_resolution
      trimmed_defaults trimmed_ids resolve_modelless_def kimi_efforts_def anthropic_efforts_def)

end
