(* ===== verification/Failover.thy ===== *)
theory Failover
  imports Route_Health Provider_Catalog
begin

text \<open>
  \<^verbatim>\<open>failover.rs\<close>: the ladder of fallback routes, how it is parsed, and which rung is taken next. The
  ladder asks the health ledger one question, whether a route is usable; the lemmas on descents are
  proved in the ledger's interface.
\<close>

section \<open>Data\<close>

datatype cost_owner = Subscription | Metered

fun cost_name :: "cost_owner \<Rightarrow> string" where
  "cost_name Subscription = ''subscription''"
| "cost_name Metered = ''metered''"

fun cost_for_provider :: "model_provider \<Rightarrow> cost_owner" where
  "cost_for_provider Claude = Subscription"
| "cost_for_provider Codex = Subscription"
| "cost_for_provider DeepSeek = Metered"
| "cost_for_provider Kimi = Metered"
| "cost_for_provider OpenRouter = Metered"

record failover_rung =
  rung_spec :: string
  rung_wire_id :: string
  rung_provider :: model_provider
  rung_route :: conversation_route
  rung_cost :: cost_owner

definition rung_label :: "failover_rung \<Rightarrow> string" where
  "rung_label r = rung_spec r @ '' ('' @ cost_name (rung_cost r) @ '')''"

datatype ladder_error = Unroutable string string | EmptyRung

fun ladder_error_text :: "ladder_error \<Rightarrow> string" where
  "ladder_error_text (Unroutable spec provider) =
     ''`'' @ spec @ ''` resolves to '' @ provider @
     '', which the unified gateway does not route yet''"
| "ladder_error_text EmptyRung = ''a failover rung cannot be empty''"

fun route_for :: "model_provider \<Rightarrow> conversation_route option" where
  "route_for Claude = Some ClaudeRoute"
| "route_for Codex = Some CodexRoute"
| "route_for DeepSeek = Some DeepSeekRoute"
| "route_for OpenRouter = Some OpenRouterRoute"
| "route_for Kimi = None"

record failover_ladder =
  fl_rungs :: "failover_rung list"
  fl_allow_metered :: bool

section \<open>Parsing\<close>

definition claude_rung :: "string \<Rightarrow> failover_rung" where
  "claude_rung name =
     \<lparr>rung_spec = name, rung_wire_id = name, rung_provider = Claude, rung_route = ClaudeRoute,
      rung_cost = Subscription\<rparr>"

definition make_rung :: "string \<Rightarrow> (ladder_error, failover_rung) result" where
  "make_rung name =
     (case or_else (model_by_cli_id name) (model_by_wire_id name) of
        Some m \<Rightarrow>
          if cm_provider m \<noteq> Claude then
            (case route_for (cm_provider m) of
               None \<Rightarrow> Inl (Unroutable name (provider_name (cm_provider m)))
             | Some route \<Rightarrow>
                 Inr \<lparr>rung_spec = name, rung_wire_id = wire_id m, rung_provider = cm_provider m,
                      rung_route = route, rung_cost = cost_for_provider (cm_provider m)\<rparr>)
          else Inr (claude_rung name)
      | None \<Rightarrow> Inr (claude_rung name))"

fun parse_pieces :: "bool \<Rightarrow> failover_rung list \<Rightarrow> string list \<Rightarrow> (ladder_error, failover_rung list) result" where
  "parse_pieces blank rungs [] = Inr rungs"
| "parse_pieces blank rungs (raw # raws) =
     (let name = trim raw
      in if name = [] then (if blank then Inr rungs else Inl EmptyRung)
         else rbind (make_rung name) (\<lambda>r. parse_pieces blank (rungs @ [r]) raws))"

definition parse_ladder :: "string \<Rightarrow> bool \<Rightarrow> (ladder_error, failover_ladder) result" where
  "parse_ladder spec allow_metered =
     rbind (parse_pieces (trim spec = []) [] (split_on CHR '','' spec))
       (\<lambda>rungs. Inr \<lparr>fl_rungs = rungs, fl_allow_metered = allow_metered\<rparr>)"

section \<open>Descending\<close>

definition rung_start :: "failover_ladder \<Rightarrow> string option \<Rightarrow> nat" where
  "rung_start ladder after =
     (case after of
        Some spec \<Rightarrow>
          (case position (\<lambda>r. rung_spec r = spec) (fl_rungs ladder) of
             Some i \<Rightarrow> i + 1
           | None \<Rightarrow> 0)
      | None \<Rightarrow> 0)"

definition rung_allowed :: "failover_ladder \<Rightarrow> (conversation_route \<Rightarrow> bool) \<Rightarrow> failover_rung \<Rightarrow> bool" where
  "rung_allowed ladder usable r \<longleftrightarrow>
     (fl_allow_metered ladder \<or> rung_cost r = Subscription) \<and> usable (rung_route r)"

definition next_rung_when ::
    "failover_ladder \<Rightarrow> string option \<Rightarrow> (conversation_route \<Rightarrow> bool) \<Rightarrow> failover_rung option" where
  "next_rung_when ladder after usable =
     List.find (rung_allowed ladder usable)
       (drop (min (rung_start ladder after) (length (fl_rungs ladder))) (fl_rungs ladder))"

definition next_available ::
    "failover_ladder \<Rightarrow> string option \<Rightarrow> route_ledger \<Rightarrow> instant \<Rightarrow> failover_rung option" where
  "next_available ladder after l now = next_rung_when ladder after (\<lambda>r. is_available l r now)"

definition withheld_for_consent :: "failover_ladder \<Rightarrow> failover_rung list" where
  "withheld_for_consent ladder =
     (if fl_allow_metered ladder then [] else filter (\<lambda>r. rung_cost r = Metered) (fl_rungs ladder))"

section \<open>Lemmas\<close>

lemma find_drop:
  "List.find p (drop k xs) = Some x \<Longrightarrow>
    \<exists>i. k \<le> i \<and> i < length xs \<and> xs ! i = x \<and> p x \<and> (\<forall>j. k \<le> j \<longrightarrow> j < i \<longrightarrow> \<not> p (xs ! j))"
proof -
  assume "List.find p (drop k xs) = Some x"
  then obtain i where i: "i < length (drop k xs)" "p (drop k xs ! i)" "x = drop k xs ! i"
    "\<forall>j<i. \<not> p (drop k xs ! j)" by (auto simp: find_Some_iff)
  show ?thesis
  proof (intro exI conjI allI impI)
    show "k \<le> k + i" "k + i < length xs" "xs ! (k + i) = x" "p x" using i by auto
    show "\<not> p (xs ! j)" if "k \<le> j" "j < k + i" for j
      using i(4) [rule_format, of "j - k"] i(1) that by simp
  qed
qed

lemma next_rung_when_at:
  "next_rung_when ladder after usable = Some r \<Longrightarrow>
    \<exists>i. rung_start ladder after \<le> i \<and> i < length (fl_rungs ladder) \<and> fl_rungs ladder ! i = r \<and>
      rung_allowed ladder usable r \<and>
      (\<forall>j. rung_start ladder after \<le> j \<longrightarrow> j < i \<longrightarrow> \<not> rung_allowed ladder usable (fl_rungs ladder ! j))"
  unfolding next_rung_when_def
  by (drule find_drop) (metis leD le_less_trans min_def order_refl)

lemma rung_start_distinct:
  assumes "distinct (map rung_spec (fl_rungs ladder))" "i < length (fl_rungs ladder)"
  shows "rung_start ladder (Some (rung_spec (fl_rungs ladder ! i))) = Suc i"
  using position_nth_distinct [OF assms] by (simp add: rung_start_def)

text \<open>What every rung the parser makes satisfies.\<close>

definition rung_ok :: "failover_rung \<Rightarrow> bool" where
  "rung_ok r \<longleftrightarrow>
     route_for (rung_provider r) = Some (rung_route r) \<and>
     rung_cost r = cost_for_provider (rung_provider r) \<and> trimmed (rung_spec r) \<and> rung_spec r \<noteq> [] \<and>
     (case or_else (model_by_cli_id (rung_spec r)) (model_by_wire_id (rung_spec r)) of
        Some m \<Rightarrow> rung_provider r = cm_provider m \<and>
          rung_wire_id r = (if cm_provider m = Claude then rung_spec r else wire_id m)
      | None \<Rightarrow> rung_provider r = Claude \<and> rung_wire_id r = rung_spec r)"

lemma make_rung_ok:
  "make_rung name = Inr r \<Longrightarrow> trimmed name \<Longrightarrow> name \<noteq> [] \<Longrightarrow> rung_ok r \<and> rung_spec r = name"
  by (auto simp: make_rung_def rung_ok_def claude_rung_def split: option.splits if_splits)

lemma parse_pieces_ok:
  "parse_pieces blank rungs raws = Inr rs \<Longrightarrow> \<not> blank \<Longrightarrow>
    \<exists>new. rs = rungs @ new \<and> list_all rung_ok new \<and> map rung_spec new = map trim raws"
proof (induction raws arbitrary: rungs)
  case Nil
  then show ?case by simp
next
  case (Cons raw raws)
  then obtain r where r: "trim raw \<noteq> []" "make_rung (trim raw) = Inr r"
    "parse_pieces blank (rungs @ [r]) raws = Inr rs"
    by (auto simp: Let_def rbind_Inr_iff split: if_splits)
  from Cons.IH [OF r(3) Cons.prems(2)] obtain new where
    new: "rs = (rungs @ [r]) @ new" "list_all rung_ok new" "map rung_spec new = map trim raws" by blast
  with make_rung_ok [OF r(2) trimmed_trim r(1)] show ?case by (intro exI [of _ "r # new"]) simp
qed

lemma split_on_absent: "c \<notin> set s \<Longrightarrow> split_on c s = [s]"
  by (induction s) (auto split: list.splits)

lemma strip_seqs_chars: "set s \<subseteq> set (strip_seqs ws s) \<union> (\<Union>w \<in> set ws. set w)"
proof (induction ws s rule: strip_seqs.induct)
  case (1 ws s)
  show ?case
  proof (cases "List.find (\<lambda>w. w \<noteq> [] \<and> prefix w s) ws")
    case None
    then show ?thesis by (simp add: strip_seqs.simps [of ws s])
  next
    case (Some w)
    then obtain rest where s: "s = w @ rest" "w \<in> set ws"
      by (auto simp: prefix_def dest!: find_SomeD)
    then have "set w \<subseteq> (\<Union>w \<in> set ws. set w)" by blast
    moreover have "set rest \<subseteq> set (strip_seqs ws rest) \<union> (\<Union>w \<in> set ws. set w)"
      using 1 [OF Some] s by simp
    moreover have "strip_seqs ws s = strip_seqs ws rest"
      by (subst strip_seqs.simps) (use Some s in simp)
    ultimately show ?thesis using s(1) by auto
  qed
qed

lemma blank_has_no_comma: "trim s = [] \<Longrightarrow> CHR '','' \<notin> set s"
proof
  assume blank: "trim s = []" and comma: "CHR '','' \<in> set s"
  have ws: "CHR '','' \<notin> (\<Union>w \<in> set ws_seqs. set w)" "CHR '','' \<notin> (\<Union>w \<in> set (map rev ws_seqs). set w)"
    by (auto simp: ws_seqs_def)
  have "CHR '','' \<in> set (trim_start s)"
    using comma strip_seqs_chars [of s ws_seqs] ws(1) by (auto simp: trim_start_def)
  then have "CHR '','' \<in> set (trim s)"
    using strip_seqs_chars [of "rev (trim_start s)" "map rev ws_seqs"] ws(2)
    by (auto simp: trim_def trim_end_def)
  with blank show False by simp
qed

section \<open>Descents over any ledger\<close>

text \<open>
  In the interface of a ledger: after failing verdicts recorded within the hold time, the next rung
  runs on a route none of them names.
\<close>

context health_ledger
begin

lemma next_rung_fresh:
  assumes "next_rung_when ladder after (\<lambda>r. usable (note_failures l ds) (f r) t) = Some rung"
    and "list_all (\<lambda>(r, v, now). fails_over v \<and> verdict_ok v \<and> t < now + hold) ds"
  shows "f (rung_route rung) \<notin> fst ` set ds"
proof
  assume "f (rung_route rung) \<in> fst ` set ds"
  with assms(2) have "\<not> usable (note_failures l ds) (f (rung_route rung)) t" by (rule all_withheld)
  with next_rung_when_at [OF assms(1)] show False by (auto simp: rung_allowed_def)
qed

end

section \<open>Properties\<close>

text \<open>
  A ladder that parses lists exactly the comma-separated names, in order, each resolved to the
  provider, wire id, route and cost owner its registry row says, or passed on verbatim to Claude; a
  blank text is the empty ladder.
\<close>

theorem parse_ladder_rungs:
  assumes "parse_ladder spec allow = Inr ladder"
  shows "fl_allow_metered ladder = allow \<and>
    (if trim spec = [] then fl_rungs ladder = []
     else
       map rung_spec (fl_rungs ladder) = map trim (split_on CHR '','' spec) \<and>
       list_all rung_ok (fl_rungs ladder))"
proof -
  obtain rungs where rungs: "parse_pieces (trim spec = []) [] (split_on CHR '','' spec) = Inr rungs"
    "ladder = \<lparr>fl_rungs = rungs, fl_allow_metered = allow\<rparr>"
    using assms by (auto simp: parse_ladder_def rbind_Inr_iff)
  show ?thesis
    using rungs parse_pieces_ok [OF rungs(1)] split_on_absent [OF blank_has_no_comma, of spec] by auto
qed

lemma demo_ladder_parses:
  "parse_ladder ''claude-x,codex-terra'' False =
    Inr \<lparr>fl_rungs = [claude_rung ''claude-x'',
      \<lparr>rung_spec = ''codex-terra'', rung_wire_id = ''gpt-5.6-terra'', rung_provider = Codex,
       rung_route = CodexRoute, rung_cost = Subscription\<rparr>], fl_allow_metered = False\<rparr>"
proof -
  have "trimmed ''claude-x,codex-terra''" "trimmed ''claude-x''" "trimmed ''codex-terra''"
    by (simp_all add: trimmed_def ws_seqs_def suffix_to_prefix)
  then show ?thesis
    by (simp add: parse_ladder_def make_rung_def model_by_cli_id_def model_by_wire_id_def models_def)
qed

theorem parse_ladder_rungs_witness:
  "map trim (split_on CHR '','' ''claude-x,codex-terra'') = [''claude-x'', ''codex-terra'']"
proof -
  have "trimmed ''claude-x,codex-terra''"
    by (simp add: trimmed_def ws_seqs_def suffix_to_prefix)
  with parse_ladder_rungs [OF demo_ladder_parses] show ?thesis by (simp add: claude_rung_def)
qed

text \<open>
  The rung taken is the first one strictly below the rung just tried (or from the top) whose
  route the ledger has available and whose cost is consented to; none is taken only when no rung below
  qualifies. A metered rung is never taken without consent, and those withheld are exactly the metered.
\<close>

theorem next_available_first:
  assumes "distinct (map rung_spec (fl_rungs ladder))"
    and "after = None \<and> k = 0 \<or> (\<exists>i < length (fl_rungs ladder). after = Some (rung_spec (fl_rungs ladder ! i)) \<and> k = Suc i)"
  shows "case next_available ladder after l now of
      Some r \<Rightarrow>
        (\<exists>i. k \<le> i \<and> i < length (fl_rungs ladder) \<and> fl_rungs ladder ! i = r \<and>
          is_available l (rung_route r) now \<and> r \<notin> set (withheld_for_consent ladder) \<and>
          (\<forall>j. k \<le> j \<longrightarrow> j < i \<longrightarrow> \<not> is_available l (rung_route (fl_rungs ladder ! j)) now \<or>
            fl_rungs ladder ! j \<in> set (withheld_for_consent ladder)))
    | None \<Rightarrow>
        (\<forall>j. k \<le> j \<longrightarrow> j < length (fl_rungs ladder) \<longrightarrow>
          \<not> is_available l (rung_route (fl_rungs ladder ! j)) now \<or>
          fl_rungs ladder ! j \<in> set (withheld_for_consent ladder))"
proof -
  let ?rs = "fl_rungs ladder" and ?usable = "\<lambda>r. is_available l r now"
  have start: "rung_start ladder after = k"
    using assms(2) rung_start_distinct [OF assms(1)] by (auto simp: rung_start_def)
  have k: "k \<le> length ?rs" using assms(2) by auto
  have allowed: "rung_allowed ladder ?usable r \<longleftrightarrow>
      is_available l (rung_route r) now \<and> r \<notin> set (withheld_for_consent ladder)" if "r \<in> set ?rs" for r
    using that by (cases "rung_cost r") (auto simp: rung_allowed_def withheld_for_consent_def)
  show ?thesis
  proof (cases "next_available ladder after l now")
    case None
    then have "\<forall>r \<in> set (drop k ?rs). \<not> rung_allowed ladder ?usable r"
      using k by (simp add: next_available_def next_rung_when_def start find_None_ball min_def)
    moreover have "?rs ! j \<in> set (drop k ?rs)" if "k \<le> j" "j < length ?rs" for j
      using that nth_mem [of "j - k" "drop k ?rs"] by simp
    ultimately have "\<not> rung_allowed ladder ?usable (?rs ! j)" if "k \<le> j" "j < length ?rs" for j
      using that by blast
    then show ?thesis using None allowed [OF nth_mem] by simp
  next
    case (Some r)
    from next_rung_when_at [OF Some [unfolded next_available_def]] show ?thesis
      unfolding Some start using allowed by (auto simp: nth_mem)
  qed
qed

theorem next_available_first_witness:
  "\<exists>r. next_available \<lparr>fl_rungs = [claude_rung ''a'', claude_rung ''b''], fl_allow_metered = False\<rparr>
      (Some ''a'') Map.empty 0 = Some r \<and> rung_spec r = ''b''"
proof -
  let ?L = "\<lparr>fl_rungs = [claude_rung ''a'', claude_rung ''b''], fl_allow_metered = False\<rparr>"
  have d: "distinct (map rung_spec (fl_rungs ?L))" by (simp add: claude_rung_def)
  have i: "Some ''a'' = None \<and> (1::nat) = 0 \<or>
      (\<exists>i < length (fl_rungs ?L). Some ''a'' = Some (rung_spec (fl_rungs ?L ! i)) \<and> 1 = Suc i)"
    by (auto simp: claude_rung_def)
  have "is_available Map.empty ClaudeRoute 0" by (simp add: is_available_def route_state_of_def)
  with next_available_first [OF d i, of Map.empty 0] show ?thesis
    by (cases "next_available ?L (Some ''a'') Map.empty 0")
      (auto simp: claude_rung_def withheld_for_consent_def less_Suc_eq numeral_2_eq_2)
qed

end
