(* ===== verification/Codex_Model.thy ===== *)
theory Codex_Model
  imports Provider_Catalog
begin

text \<open>
  \<^verbatim>\<open>codex_model.rs\<close>: the compatibility selector \<^verbatim>\<open><model>[@<effort>]\<close> of the Codex bridge, over the
  Codex rows of the registry.
\<close>

section \<open>The Codex view of the registry\<close>

definition codex_models :: "catalog_model list" where
  "codex_models = filter (\<lambda>m. cm_provider m = Codex) models"

definition model_by_id :: "string \<Rightarrow> catalog_model option" where
  "model_by_id i = List.find (\<lambda>m. wire_id m = i) codex_models"

definition model_by_alias :: "string \<Rightarrow> catalog_model option" where
  "model_by_alias alias =
     (let alias = to_ascii_lowercase (trim alias)
      in List.find (\<lambda>m. cli_id m = alias \<or> wire_id m = alias \<or>
           list_ex (\<lambda>c. c = alias) (legacy_aliases m)) codex_models)"

definition alias_catalog :: string where
  "alias_catalog =
     join_with '', '' (List.map_filter (\<lambda>m. case legacy_aliases m of [] \<Rightarrow> None | a # _ \<Rightarrow> Some a)
       codex_models)"

definition effort_catalog :: string where
  "effort_catalog = join_with '', '' (map effort_name all_efforts)"

section \<open>Selections\<close>

record model_spec =
  spec_model :: string
  spec_effort :: "effort_level option"

datatype spec_error = EmptyModel | UnknownAlias string | UnknownEffort string

definition looks_like_full_id :: "string \<Rightarrow> bool" where
  "looks_like_full_id v \<longleftrightarrow> CHR ''-'' \<in> set v \<or> CHR ''.'' \<in> set v"

definition parse_spec :: "string \<Rightarrow> (spec_error, model_spec) result" where
  "parse_spec raw =
     (let raw = trim raw
      in if raw = [] then Inl EmptyModel
         else
           let (model_part, effort_part) =
             (case rsplit_once CHR ''@'' raw of
                Some (model, effort) \<Rightarrow> (trim model, Some (trim effort))
              | None \<Rightarrow> (raw, None))
           in if model_part = [] then Inl EmptyModel
              else
                rbind (try_opt (\<lambda>v. ok_or (parse_effort v) (UnknownEffort v)) effort_part)
                  (\<lambda>effort.
                    rbind
                      (case model_by_alias model_part of
                         Some m \<Rightarrow> Inr (wire_id m)
                       | None \<Rightarrow>
                           if looks_like_full_id model_part then Inr model_part
                           else Inl (UnknownAlias model_part))
                      (\<lambda>model. Inr \<lparr>spec_model = model, spec_effort = effort\<rparr>)))"

definition effective_effort :: "model_spec \<Rightarrow> effort_level" where
  "effective_effort s =
     unwrap_or (spec_effort s)
       (unwrap_or (Option.bind (model_by_id (spec_model s)) default_effort) Medium)"

definition display_spec :: "model_spec \<Rightarrow> string" where
  "display_spec s =
     (case spec_effort s of
        Some e \<Rightarrow> spec_model s @ ''@'' @ effort_name e
      | None \<Rightarrow> spec_model s)"

fun spec_error_text :: "spec_error \<Rightarrow> string" where
  "spec_error_text EmptyModel = ''model selection is empty''"
| "spec_error_text (UnknownAlias given) =
     ''unknown Codex model '' @ [CHR 0x27] @ given @ [CHR 0x27, CHR 0x20, CHR 0xE2, CHR 0x80, CHR 0x94] @
     '' valid short names are '' @ alias_catalog @
     '' (or pass a full model id such as gpt-5.6-terra)''"
| "spec_error_text (UnknownEffort given) =
     ''unknown reasoning effort '' @ [CHR 0x27] @ given @
     [CHR 0x27, CHR 0x20, CHR 0xE2, CHR 0x80, CHR 0x94] @ '' valid efforts are '' @ effort_catalog"

section \<open>Lemmas\<close>

lemma effort_names:
  "trimmed (effort_name e)" "CHR ''@'' \<notin> set (effort_name e)" "parse_effort (effort_name e) = Some e"
proof -
  show t: "trimmed (effort_name e)"
    by (cases e) (simp_all add: trimmed_def ws_seqs_def suffix_to_prefix)
  show "CHR ''@'' \<notin> set (effort_name e)" by (cases e) simp_all
  show "parse_effort (effort_name e) = Some e"
    unfolding parse_effort_def trim_trimmed [OF t] by (cases e) (simp_all add: all_efforts_def rust_eval)
qed

lemma wire_ids_stable:
  "list_all (\<lambda>m. trimmed (wire_id m) \<and> wire_id m \<noteq> [] \<and> CHR ''@'' \<notin> set (wire_id m) \<and>
    to_ascii_lowercase (wire_id m) = wire_id m \<and>
    List.find (\<lambda>m'. cli_id m' = wire_id m \<or> wire_id m' = wire_id m \<or>
      list_ex (\<lambda>c. c = wire_id m) (legacy_aliases m')) codex_models = Some m) codex_models"
  by (simp add: codex_models_def models_def trimmed_def ws_seqs_def suffix_to_prefix rust_eval)

lemma model_by_alias_row: "model_by_alias v = Some m \<Longrightarrow> m \<in> set codex_models"
  by (auto simp: model_by_alias_def Let_def dest: find_SomeD)

lemma model_by_alias_wire: "m \<in> set codex_models \<Longrightarrow> model_by_alias (wire_id m) = Some m"
  using wire_ids_stable by (simp add: model_by_alias_def Let_def list_all_iff)

text \<open>What the parser can produce, and that it is a fixed point of printing and parsing.\<close>

definition spec_ok :: "model_spec \<Rightarrow> bool" where
  "spec_ok s \<longleftrightarrow> trimmed (spec_model s) \<and> spec_model s \<noteq> [] \<and>
     (spec_effort s = None \<longrightarrow> CHR ''@'' \<notin> set (spec_model s)) \<and>
     (case model_by_alias (spec_model s) of
        Some m \<Rightarrow> wire_id m = spec_model s
      | None \<Rightarrow> looks_like_full_id (spec_model s))"

lemma parse_spec_ok: "parse_spec raw = Inr s \<Longrightarrow> spec_ok s"
proof -
  assume ok: "parse_spec raw = Inr s"
  define r where "r = trim raw"
  obtain mp ep where parts: "(case rsplit_once CHR ''@'' r of
      Some (model, effort) \<Rightarrow> (trim model, Some (trim effort)) | None \<Rightarrow> (r, None)) = (mp, ep)"
    by fastforce
  have mp: "trimmed mp" "ep = None \<Longrightarrow> CHR ''@'' \<notin> set mp"
    using parts by (auto simp: r_def trimmed_trim rsplit_once_None_iff split: option.splits)
  from ok parts have "mp \<noteq> []"
    by (auto simp: parse_spec_def r_def [symmetric] Let_def split: if_splits)
  from ok parts have eff: "spec_effort s = None \<longleftrightarrow> ep = None"
    by (cases ep) (auto simp: parse_spec_def r_def [symmetric] Let_def rbind_Inr_iff split: if_splits)
  from ok parts have model: "(case model_by_alias mp of Some m \<Rightarrow> Inr (wire_id m)
      | None \<Rightarrow> if looks_like_full_id mp then Inr mp else Inl (UnknownAlias mp)) = Inr (spec_model s)"
    by (auto simp: parse_spec_def r_def [symmetric] Let_def rbind_Inr_iff split: if_splits)
  show "spec_ok s"
  proof (cases "model_by_alias mp")
    case None
    with model mp \<open>mp \<noteq> []\<close> eff show ?thesis by (auto simp: spec_ok_def split: if_splits)
  next
    case (Some m)
    with model have m: "m \<in> set codex_models" "spec_model s = wire_id m"
      by (auto dest: model_by_alias_row)
    then show ?thesis
      using wire_ids_stable model_by_alias_wire [OF m(1)] by (simp add: spec_ok_def list_all_iff)
  qed
qed

section \<open>Properties\<close>

text \<open>
  Round trip: the spelling a parsed selection is displayed with parses back to the same
  selection, aliases expanded once and for all.
\<close>

theorem display_parse_roundtrip:
  assumes "parse_spec raw = Inr s"
  shows "parse_spec (display_spec s) = Inr s"
proof -
  note ok = parse_spec_ok [OF assms, unfolded spec_ok_def]
  have model: "(case model_by_alias (spec_model s) of Some m \<Rightarrow> Inr (wire_id m)
      | None \<Rightarrow> if looks_like_full_id (spec_model s) then Inr (spec_model s)
          else Inl (UnknownAlias (spec_model s))) = Inr (spec_model s)"
    using ok by (auto split: option.splits)
  show ?thesis
  proof (cases "spec_effort s")
    case None
    with ok have "rsplit_once CHR ''@'' (spec_model s) = None" by (simp add: rsplit_once_None_iff)
    with None ok model show ?thesis by (simp add: display_spec_def parse_spec_def)
  next
    case (Some e)
    have "rsplit_once CHR ''@'' (spec_model s @ CHR ''@'' # effort_name e) =
        Some (spec_model s, effort_name e)"
      by (rule rsplit_once_append) (rule effort_names)
    with Some ok model effort_names [of e] trimmed_join [of "spec_model s" "effort_name e"]
    show ?thesis by (simp add: display_spec_def parse_spec_def)
  qed
qed

lemma terra_max_evaluates:
  "parse_spec ''Terra@MAX'' = Inr \<lparr>spec_model = ''gpt-5.6-terra'', spec_effort = Some Max\<rparr>"
proof -
  have "trimmed ''Terra@MAX''" "trimmed ''Terra''" "trimmed ''MAX''"
    by (simp_all add: trimmed_def ws_seqs_def suffix_to_prefix)
  then show ?thesis
    by (simp add: parse_spec_def parse_effort_def all_efforts_def model_by_alias_def
        codex_models_def models_def Let_def rust_eval)
qed

theorem display_parse_roundtrip_witness:
  "parse_spec (display_spec \<lparr>spec_model = ''gpt-5.6-terra'', spec_effort = Some Max\<rparr>) =
    Inr \<lparr>spec_model = ''gpt-5.6-terra'', spec_effort = Some Max\<rparr>"
  by (rule display_parse_roundtrip [OF terra_max_evaluates])

end
