(* ===== verification/Gateway.thy ===== *)
theory Gateway
  imports Failover Codex_Model
begin

text \<open>
  \<^verbatim>\<open>codex_bridge.rs\<close>, the unified gateway: which provider a request's model selects, the proxying of one
  attempt with its pre-commit probe, and the descent of the failover ladder until something has been
  written to the client. Upstream exchanges, the clock and whether the conversation store admits the
  request are an environment, indexed by the attempt they answer. A response body is the list of the
  reads it arrives in. Failures of the client's own socket, lock poisoning and shutdown in mid-body are
  left out, as is the Codex pipeline behind \<^verbatim>\<open>serve_messages\<close>, which is one outcome here.
\<close>

section \<open>Configuration and selection\<close>

record gateway =
  gw_ladder :: failover_ladder
  gw_ledger :: route_ledger
  gw_deepseek :: "string option"
  gw_openrouter :: "string option"
  gw_codex_available :: bool

fun catalog_row_served :: "gateway \<Rightarrow> model_provider \<Rightarrow> bool" where
  "catalog_row_served g Codex = gw_codex_available g"
| "catalog_row_served g DeepSeek = (gw_deepseek g \<noteq> None)"
| "catalog_row_served g Kimi = False"
| "catalog_row_served g OpenRouter = (gw_openrouter g \<noteq> None)"
| "catalog_row_served g Claude = False"

definition unified_catalog_ids :: "gateway \<Rightarrow> string list" where
  "unified_catalog_ids g =
     List.map_filter discovery_id (filter (\<lambda>m. catalog_row_served g (cm_provider m)) models)"

text \<open>The registry row a request's model names, and the effort suffix it carries.\<close>

definition select_catalog :: "string \<Rightarrow> catalog_model option \<times> string option" where
  "select_catalog model =
     (case model_by_discovery_id model of
        Some m \<Rightarrow> (Some m, None)
      | None \<Rightarrow>
          let suffixed =
            (case rsplit_once CHR ''@'' model of
               None \<Rightarrow> None
             | Some (base, effort) \<Rightarrow>
                 Option.bind
                   (or_else (model_by_discovery_id base)
                     (opt_filter (\<lambda>m. cm_provider m = Codex) (non_claude_model_by_any_id base)))
                   (\<lambda>m. if cm_provider m = Codex then Some (m, effort) else None))
          in (case suffixed of
                Some (m, effort) \<Rightarrow> (Some m, Some effort)
              | None \<Rightarrow> (non_claude_model_by_any_id model, None)))"

record gateway_attempt =
  at_provider :: model_provider
  at_route :: conversation_route
  at_model :: "string option"
  at_spec :: "string option"

fun attempt_route :: "model_provider \<Rightarrow> conversation_route" where
  "attempt_route Codex = CodexRoute"
| "attempt_route DeepSeek = DeepSeekRoute"
| "attempt_route OpenRouter = OpenRouterRoute"
| "attempt_route _ = ClaudeRoute"

definition initial_attempt :: "string \<Rightarrow> gateway_attempt" where
  "initial_attempt model =
     (case select_catalog model of
        (None, _) \<Rightarrow>
          \<lparr>at_provider = Claude, at_route = ClaudeRoute, at_model = None, at_spec = None\<rparr>
      | (Some m, eff) \<Rightarrow>
          \<lparr>at_provider = cm_provider m, at_route = attempt_route (cm_provider m),
           at_model = Some (case eff of None \<Rightarrow> wire_id m | Some e \<Rightarrow> wire_id m @ ''@'' @ e),
           at_spec = None\<rparr>)"

definition rung_attempt :: "failover_rung \<Rightarrow> gateway_attempt" where
  "rung_attempt r =
     \<lparr>at_provider = rung_provider r, at_route = rung_route r, at_model = Some (rung_wire_id r),
      at_spec = Some (rung_spec r)\<rparr>"

section \<open>One proxied attempt\<close>

datatype upstream_reply =
    UpTransportError
  | UpResponse nat "string \<Rightarrow> string option" "string list"

datatype client_reply =
    InvalidRequest
  | UnknownGatewayModel "string list"
  | ProviderNotConfigured
  | HistoryRefused
  | UpstreamUnavailable
  | Relayed nat string
  | CodexPipeline
  | CountUnsupported

datatype proxy_outcome = Committed client_reply | Declined route_verdict

definition failure_prefix_bytes :: nat where
  "failure_prefix_bytes = 8 * 1024"

definition may_be_route_terminal :: "nat \<Rightarrow> bool" where
  "may_be_route_terminal status \<longleftrightarrow> status = 401 \<or> status = 402 \<or> status = 403 \<or> status = 429"

text \<open>The bounded read of the probe: what it consumed, and the reads it left.\<close>

fun read_prefix :: "string \<Rightarrow> string list \<Rightarrow> string \<times> string list" where
  "read_prefix got [] = (got, [])"
| "read_prefix got (r # rs) =
     (if length got < failure_prefix_bytes then
        (if r = [] then (got, []) else read_prefix (got @ r) rs)
      else (got, r # rs))"

definition probe_header :: "(string \<Rightarrow> string option) \<Rightarrow> string \<Rightarrow> string option" where
  "probe_header header name =
     map_option snd
       (List.find (\<lambda>(h, _). eq_ignore_ascii_case h name)
         (List.map_filter (\<lambda>n. map_option (Pair n) (header n))
           [''retry-after'', ''x-request-id'', ''cf-ray'']))"

text \<open>The body is relayed read by read until the first empty one.\<close>

definition relay_body :: "string list \<Rightarrow> string" where
  "relay_body reads = concat (takeWhile (\<lambda>r. r \<noteq> []) reads)"

definition serve_anthropic_proxy :: "'v json_api \<Rightarrow> bool \<Rightarrow> upstream_reply \<Rightarrow> proxy_outcome" where
  "serve_anthropic_proxy J probe reply =
     (case reply of
        UpTransportError \<Rightarrow> Committed UpstreamUnavailable
      | UpResponse status header reads \<Rightarrow>
          if probe \<and> may_be_route_terminal status then
            let (got, rest) = read_prefix [] reads;
                failure = from_parts J status (probe_header header) (from_utf8_lossy got) max_cooldown;
                verdict = from_failure failure
            in if fails_over verdict then Declined verdict
               else Committed (Relayed status (got @ relay_body rest))
          else Committed (Relayed status (relay_body reads)))"

text \<open>Which request headers travel upstream, and with which credential.\<close>

definition gateway_token_header :: string where
  "gateway_token_header = ''X-Clud-Gateway-Token''"

definition header_forwarded :: "bool \<Rightarrow> string \<Rightarrow> bool" where
  "header_forwarded injected name \<longleftrightarrow>
     (let same = eq_ignore_ascii_case name;
          forwarded = same ''authorization'' \<or> same ''x-api-key'' \<or> same ''anthropic-version'' \<or>
            starts_with (to_ascii_lowercase name) ''anthropic-'' \<or> same ''accept'';
          hop_by_hop = same ''host'' \<or> same ''connection'' \<or> same ''content-length'' \<or> same gateway_token_header;
          caller_credential = same ''authorization'' \<or> same ''x-api-key''
      in forwarded \<and> \<not> hop_by_hop \<and> (\<not> injected \<or> \<not> caller_credential))"

definition upstream_headers ::
    "string option \<Rightarrow> (string \<times> string) list \<Rightarrow> (string \<times> string) list" where
  "upstream_headers injected headers =
     [(''Content-Type'', ''application/json'')] @
     filter (\<lambda>(name, _). header_forwarded (injected \<noteq> None) name) headers @
     (case injected of None \<Rightarrow> [] | Some key \<Rightarrow> [(''Authorization'', ''Bearer '' @ key)])"

section \<open>The descent\<close>

record gateway_env =
  ge_history_ok :: "nat \<Rightarrow> bool"
  ge_upstream :: "nat \<Rightarrow> upstream_reply"
  ge_probe_time :: "nat \<Rightarrow> instant"
  ge_record_time :: "nat \<Rightarrow> instant"
  ge_next_time :: "nat \<Rightarrow> instant"

definition serve_unified_proxy :: "'v json_api \<Rightarrow> gateway_env \<Rightarrow> nat \<Rightarrow> bool \<Rightarrow> proxy_outcome" where
  "serve_unified_proxy J env k probe =
     (if ge_history_ok env k then serve_anthropic_proxy J probe (ge_upstream env k)
      else Committed HistoryRefused)"

definition perform :: "'v json_api \<Rightarrow> gateway_env \<Rightarrow> gateway \<Rightarrow> nat \<Rightarrow> model_provider \<Rightarrow> bool \<Rightarrow> proxy_outcome" where
  "perform J env g k provider probe =
     (case provider of
        Claude \<Rightarrow> serve_unified_proxy J env k probe
      | DeepSeek \<Rightarrow>
          if gw_deepseek g \<noteq> None then serve_unified_proxy J env k probe
          else Committed ProviderNotConfigured
      | OpenRouter \<Rightarrow>
          if gw_openrouter g \<noteq> None then serve_unified_proxy J env k probe
          else Committed ProviderNotConfigured
      | Codex \<Rightarrow>
          if gw_codex_available g then Committed CodexPipeline else Committed ProviderNotConfigured
      | Kimi \<Rightarrow> Committed ProviderNotConfigured)"

definition finish_without_failover :: "'v json_api \<Rightarrow> gateway_env \<Rightarrow> nat \<Rightarrow> client_reply option" where
  "finish_without_failover J env k =
     (case serve_unified_proxy J env k False of Committed r \<Rightarrow> Some r | Declined _ \<Rightarrow> None)"

text \<open>
  One request: the attempts made, each with the verdict it was declined with, and what the client got.
  The fuel is the number of attempts allowed; \<open>None\<close> means the loop is still running.
\<close>

record descent =
  d_gateway :: gateway
  d_declined :: "(gateway_attempt \<times> route_verdict) list"
  d_last :: gateway_attempt
  d_reply :: "client_reply option"

fun descend ::
    "'v json_api \<Rightarrow> gateway_env \<Rightarrow> nat \<Rightarrow> nat \<Rightarrow> gateway \<Rightarrow> gateway_attempt \<Rightarrow> descent option" where
  "descend J env 0 k g a = None"
| "descend J env (Suc fuel) k g a =
     (let fallback = next_available (gw_ladder g) (at_spec a) (gw_ledger g) (ge_probe_time env k)
      in case perform J env g k (at_provider a) (fallback \<noteq> None) of
           Committed reply \<Rightarrow>
             Some \<lparr>d_gateway = g\<lparr>gw_ledger := record_success (gw_ledger g) (at_route a)\<rparr>,
                   d_declined = [], d_last = a, d_reply = Some reply\<rparr>
         | Declined verdict \<Rightarrow>
             let g = g\<lparr>gw_ledger :=
                   fst (record_verdict (gw_ledger g) (at_route a) verdict (ge_record_time env k))\<rparr>
             in (case next_available (gw_ladder g) (at_spec a) (gw_ledger g) (ge_next_time env k) of
                   None \<Rightarrow>
                     Some \<lparr>d_gateway = g, d_declined = [(a, verdict)], d_last = a,
                           d_reply = finish_without_failover J env (Suc k)\<rparr>
                 | Some rung \<Rightarrow>
                     map_option (\<lambda>d. d\<lparr>d_declined := (a, verdict) # d_declined d\<rparr>)
                       (descend J env fuel (Suc k) g (rung_attempt rung))))"

text \<open>
  A request, from its JSON body on: \<open>model\<close> is the text of its model field, \<open>None\<close> for a body that does
  not parse or has none.
\<close>

definition serve_unified_messages ::
    "'v json_api \<Rightarrow> gateway_env \<Rightarrow> nat \<Rightarrow> gateway \<Rightarrow> string option \<Rightarrow> descent option" where
  "serve_unified_messages J env fuel g model =
     (case model of
        None \<Rightarrow>
          Some \<lparr>d_gateway = g, d_declined = [], d_last = initial_attempt [], d_reply = Some InvalidRequest\<rparr>
      | Some m \<Rightarrow>
          if starts_with m ''clud-claude-'' \<and> fst (select_catalog m) = None then
            Some \<lparr>d_gateway = g, d_declined = [], d_last = initial_attempt m,
                  d_reply = Some (UnknownGatewayModel (unified_catalog_ids g))\<rparr>
          else descend J env fuel 0 g (initial_attempt m))"

definition serve_unified_count_tokens ::
    "'v json_api \<Rightarrow> gateway_env \<Rightarrow> string option \<Rightarrow> proxy_outcome" where
  "serve_unified_count_tokens J env model =
     (case model of
        None \<Rightarrow> Committed InvalidRequest
      | Some m \<Rightarrow>
          let catalog = or_else (model_by_discovery_id m) (non_claude_model_by_any_id m)
          in if starts_with m ''clud-claude-'' \<and> catalog = None then Committed InvalidRequest
             else if catalog \<noteq> None then Committed CountUnsupported
             else serve_unified_proxy J env 0 False)"

text \<open>The Codex-only discovery bridge rewrites a discovery id to its wire id, keeping the effort.\<close>

definition codex_discovery_model :: "string \<Rightarrow> string list + string" where
  "codex_discovery_model model =
     (let (base, effort) =
        (case rsplit_once CHR ''@'' model of
           None \<Rightarrow> (model, None)
         | Some (base, effort) \<Rightarrow> (base, Some effort));
          discovered = opt_filter (\<lambda>m. cm_provider m = Codex) (model_by_discovery_id base)
      in if starts_with base ''clud-claude-'' \<and> discovered = None then
           Inl (List.map_filter discovery_id (models_for_provider Codex))
         else
           (case discovered of
              Some m \<Rightarrow> Inr (case effort of None \<Rightarrow> wire_id m | Some e \<Rightarrow> wire_id m @ ''@'' @ e)
            | None \<Rightarrow> Inr model))"

section \<open>Lemmas\<close>

lemma read_prefix_body:
  "read_prefix got reads = (p, rest) \<Longrightarrow> p @ relay_body rest = got @ relay_body reads"
proof (induction got reads rule: read_prefix.induct)
  case (1 got)
  then show ?case by simp
next
  case (2 got r rs)
  show ?case
  proof (cases "length got < failure_prefix_bytes \<and> r \<noteq> []")
    case True
    then have "p @ relay_body rest = (got @ r) @ relay_body rs" using 2 by simp
    with True show ?thesis by (simp add: relay_body_def)
  next
    case False
    with 2(2) show ?thesis by (auto simp: relay_body_def split: if_splits)
  qed
qed

lemma unprobed_commits: "\<exists>reply. serve_anthropic_proxy J False up = Committed reply"
  by (cases up) (simp_all add: serve_anthropic_proxy_def)

lemma finish_replies: "\<exists>reply. finish_without_failover J env k = Some reply"
  using unprobed_commits [of J "ge_upstream env k"]
  by (auto simp: finish_without_failover_def serve_unified_proxy_def)

lemma proxy_declined:
  "serve_anthropic_proxy J probe up = Declined v \<Longrightarrow> probe \<and> fails_over v \<and> verdict_ok v"
  by (auto simp: serve_anthropic_proxy_def Let_def from_failure_ok
      split: upstream_reply.splits if_splits prod.splits)

lemma perform_declined:
  "perform J env g k p probe = Declined v \<Longrightarrow> probe \<and> fails_over v \<and> verdict_ok v"
  by (auto simp: perform_def serve_unified_proxy_def split: model_provider.splits if_splits
      dest: proxy_declined)

text \<open>Where in the ladder an attempt stands: 0 before the first rung, else one past its rung.\<close>

definition ladder_place :: "failover_ladder \<Rightarrow> gateway_attempt \<Rightarrow> nat" where
  "ladder_place ladder a = rung_start ladder (at_spec a)"

lemma next_place:
  assumes "distinct (map rung_spec (fl_rungs ladder))"
    and "next_available ladder (at_spec a) l now = Some rung"
  shows "ladder_place ladder a < ladder_place ladder (rung_attempt rung) \<and>
    ladder_place ladder (rung_attempt rung) \<le> length (fl_rungs ladder)"
proof -
  from next_rung_when_at [OF assms(2) [unfolded next_available_def]] obtain i where
    i: "rung_start ladder (at_spec a) \<le> i" "i < length (fl_rungs ladder)" "fl_rungs ladder ! i = rung"
    by blast
  with rung_start_distinct [OF assms(1) i(2)] show ?thesis
    by (simp add: ladder_place_def rung_attempt_def)
qed

lemma descend_gateway:
  "descend J env fuel k g a = Some d \<Longrightarrow> gw_ladder (d_gateway d) = gw_ladder g"
  by (induction J env fuel k g a arbitrary: d rule: descend.induct)
    (auto simp: Let_def split: proxy_outcome.splits option.splits)

section \<open>Properties\<close>

lemma descend_enough_fuel:
  "distinct (map rung_spec (fl_rungs (gw_ladder g))) \<Longrightarrow>
    length (fl_rungs (gw_ladder g)) < fuel + ladder_place (gw_ladder g) a \<Longrightarrow>
    \<exists>d reply. descend J env fuel k g a = Some d \<and> d_reply d = Some reply \<and>
      length (d_declined d) \<le> fuel"
proof (induction J env fuel k g a rule: descend.induct)
  case (1 J env k g a)
  have "rung_start (gw_ladder g) (at_spec a) \<le> length (fl_rungs (gw_ladder g))"
    by (auto simp: rung_start_def Suc_le_eq split: option.splits dest: position_SomeD)
  with 1 show ?case by (simp add: ladder_place_def)
next
  case (2 J env fuel k g a)
  let ?fb = "next_available (gw_ladder g) (at_spec a) (gw_ledger g) (ge_probe_time env k)"
  show ?case
  proof (cases "perform J env g k (at_provider a) (?fb \<noteq> None)")
    case (Committed reply)
    then show ?thesis by (simp add: Let_def)
  next
    case (Declined v)
    let ?g = "g\<lparr>gw_ledger := fst (record_verdict (gw_ledger g) (at_route a) v (ge_record_time env k))\<rparr>"
    show ?thesis
    proof (cases "next_available (gw_ladder ?g) (at_spec a) (gw_ledger ?g) (ge_next_time env k)")
      case None
      with Declined finish_replies [of J env "Suc k"] show ?thesis by (auto simp: Let_def)
    next
      case (Some rung)
      have place: "ladder_place (gw_ladder g) a < ladder_place (gw_ladder g) (rung_attempt rung)"
        using next_place [OF 2(2), of a _ _ rung] Some by auto
      then have "length (fl_rungs (gw_ladder ?g)) < fuel + ladder_place (gw_ladder ?g) (rung_attempt rung)"
        using "2.prems"(2) by simp
      with "2.IH" [OF refl Declined refl Some] "2.prems"(1) obtain d reply where
        "descend J env fuel (Suc k) ?g (rung_attempt rung) = Some d" "d_reply d = Some reply"
        "length (d_declined d) \<le> fuel" by auto
      with Declined Some show ?thesis by (simp add: Let_def)
    qed
  qed
qed

text \<open>
  The descent ends: with distinct rung names, one attempt more than the ladder has rungs is
  enough for the request to be answered, and exactly one reply reaches the client.
\<close>

theorem descent_terminates:
  assumes "distinct (map rung_spec (fl_rungs (gw_ladder g)))"
  shows "\<exists>d reply. serve_unified_messages J env (length (fl_rungs (gw_ladder g)) + 1) g model = Some d \<and>
    d_reply d = Some reply \<and> length (d_declined d) \<le> length (fl_rungs (gw_ladder g)) + 1"
proof (cases model)
  case None
  then show ?thesis by (simp add: serve_unified_messages_def)
next
  case (Some m)
  show ?thesis
    using Some descend_enough_fuel [OF assms, of "length (fl_rungs (gw_ladder g)) + 1"
        "initial_attempt m" J env 0]
    by (auto simp: serve_unified_messages_def)
qed

definition demo_gateway :: gateway where
  "demo_gateway =
     \<lparr>gw_ladder = \<lparr>fl_rungs = [claude_rung ''a'', claude_rung ''b''], fl_allow_metered = False\<rparr>,
      gw_ledger = Map.empty, gw_deepseek = None, gw_openrouter = None, gw_codex_available = False\<rparr>"

definition throttled_env :: gateway_env where
  "throttled_env =
     \<lparr>ge_history_ok = (\<lambda>_. True), ge_upstream = (\<lambda>_. UpResponse 402 (\<lambda>_. None) []),
      ge_probe_time = (\<lambda>_. 0), ge_record_time = (\<lambda>_. 0), ge_next_time = (\<lambda>_. 0)\<rparr>"

theorem descent_terminates_witness:
  "\<exists>d. serve_unified_messages (demo_json []) throttled_env 3 demo_gateway (Some ''claude-x'') = Some d"
  using descent_terminates [of demo_gateway "demo_json []" throttled_env "Some ''claude-x''"]
  by (auto simp: demo_gateway_def claude_rung_def numeral_3_eq_3)

lemma routes_bound: "distinct (rs :: conversation_route list) \<Longrightarrow> length rs \<le> 4"
proof -
  assume "distinct rs"
  then have "length rs = card (set rs)" by (simp add: distinct_card)
  also have "\<dots> \<le> card (set all_routes)" by (intro card_mono) auto
  also have "\<dots> \<le> 4" using card_length [of all_routes] by (simp add: all_routes_def)
  finally show ?thesis .
qed

lemma descend_fresh:
  assumes "\<And>i j. ge_next_time env j < ge_record_time env i + from_secs 1"
  shows "gw_ledger g = ledger.note_failures l0 ds \<Longrightarrow>
    list_all (\<lambda>(r, v, now). fails_over v \<and> verdict_ok v \<and> (\<exists>i. now = ge_record_time env i)) ds \<Longrightarrow>
    distinct (at_route a # map fst ds) \<Longrightarrow> 4 \<le> fuel + length ds \<Longrightarrow>
    \<exists>d. descend J env fuel k g a = Some d \<and>
      distinct (map fst ds @ map (\<lambda>(a, _). at_route a) (d_declined d))"
proof (induction fuel arbitrary: k g a ds)
  case 0
  then show ?case using routes_bound [OF 0(3)] by simp
next
  case (Suc fuel)
  let ?fb = "next_available (gw_ladder g) (at_spec a) (gw_ledger g) (ge_probe_time env k)"
  show ?case
  proof (cases "perform J env g k (at_provider a) (?fb \<noteq> None)")
    case (Committed reply)
    with Suc.prems(3) show ?thesis by (simp add: Let_def)
  next
    case (Declined v)
    let ?now = "ge_record_time env k"
    let ?l = "fst (record_verdict (gw_ledger g) (at_route a) v ?now)"
    let ?g = "g\<lparr>gw_ledger := ?l\<rparr>"
    let ?ds = "ds @ [(at_route a, v, ?now)]"
    have v: "fails_over v" "verdict_ok v" using perform_declined [OF Declined] by auto
    have l: "?l = ledger.note_failures l0 ?ds"
      using Suc.prems(1) by (simp only: ledger.note_failures_snoc)
    have noted: "list_all (\<lambda>(r, v, now). fails_over v \<and> verdict_ok v \<and> (\<exists>i. now = ge_record_time env i)) ?ds"
      using Suc.prems(2) v by auto
    show ?thesis
    proof (cases "next_available (gw_ladder g) (at_spec a) ?l (ge_next_time env k)")
      case None
      with Declined Suc.prems(3) show ?thesis
        by (simp add: Let_def del: record_verdict_fst)
    next
      case (Some rung)
      have "list_all (\<lambda>(r, v, now). fails_over v \<and> verdict_ok v \<and> ge_next_time env k < now + from_secs 1) ?ds"
        using noted assms by (auto simp: list_all_iff)
      then have "rung_route rung \<notin> fst ` set ?ds"
        using ledger.next_rung_fresh [of "gw_ladder g" "at_spec a" l0 ?ds id] Some
        by (simp add: next_available_def l del: record_verdict_fst)
      then have fresh: "distinct (at_route (rung_attempt rung) # map fst ?ds)"
        using Suc.prems(3) by (auto simp: rung_attempt_def)
      have ledger_g: "gw_ledger ?g = ledger.note_failures l0 ?ds"
        using l by (simp del: record_verdict_fst)
      have enough: "4 \<le> fuel + length ?ds" using Suc.prems(4) by simp
      have "\<exists>d. descend J env fuel (Suc k) ?g (rung_attempt rung) = Some d \<and>
          distinct (map fst ?ds @ map (\<lambda>(a, _). at_route a) (d_declined d))"
        by (rule Suc.IH [OF ledger_g noted fresh enough])
      with Declined Some show ?thesis by (auto simp: Let_def simp del: record_verdict_fst)
    qed
  qed
qed



definition attempts_of :: "descent \<Rightarrow> gateway_attempt set" where
  "attempts_of d = insert (d_last d) (fst ` set (d_declined d))"

lemma descend_consent:
  "descend J env fuel k g a = Some d \<Longrightarrow> b \<in> attempts_of d \<Longrightarrow>
    b = a \<or> (\<exists>r \<in> set (fl_rungs (gw_ladder g)). b = rung_attempt r \<and>
      (fl_allow_metered (gw_ladder g) \<or> rung_cost r = Subscription))"
proof (induction J env fuel k g a arbitrary: d rule: descend.induct)
  case (1 J env k g a)
  then show ?case by simp
next
  case (2 J env fuel k g a)
  let ?fb = "next_available (gw_ladder g) (at_spec a) (gw_ledger g) (ge_probe_time env k)"
  show ?case
  proof (cases "perform J env g k (at_provider a) (?fb \<noteq> None)")
    case (Committed reply)
    with "2.prems" show ?thesis by (auto simp: Let_def attempts_of_def)
  next
    case (Declined v)
    let ?g = "g\<lparr>gw_ledger := fst (record_verdict (gw_ledger g) (at_route a) v (ge_record_time env k))\<rparr>"
    show ?thesis
    proof (cases "next_available (gw_ladder ?g) (at_spec a) (gw_ledger ?g) (ge_next_time env k)")
      case None
      with Declined "2.prems" show ?thesis by (auto simp: Let_def attempts_of_def)
    next
      case (Some rung)
      with Declined "2.prems"(1) obtain d' where d':
        "descend J env fuel (Suc k) ?g (rung_attempt rung) = Some d'"
        "d = d'\<lparr>d_declined := (a, v) # d_declined d'\<rparr>" by (auto simp: Let_def)
      have rung: "rung \<in> set (fl_rungs (gw_ladder g)) \<and>
          (fl_allow_metered (gw_ladder g) \<or> rung_cost rung = Subscription)"
        using next_rung_when_at [OF Some [unfolded next_available_def]]
        by (auto simp: rung_allowed_def)
      from "2.prems"(2) d'(2) have "b = a \<or> b \<in> attempts_of d'" by (auto simp: attempts_of_def)
      with "2.IH" [OF refl Declined refl Some d'(1)] rung show ?thesis by auto
    qed
  qed
qed

text \<open>
  C18. Automatic recovery is no automatic charge: every attempt of a request after its first is a rung
  of the ladder, and a metered rung only with recorded consent.
\<close>

theorem metered_only_with_consent:
  assumes "descend J env fuel k g a = Some d" "b \<in> attempts_of d" "b \<noteq> a"
  shows "\<exists>r \<in> set (fl_rungs (gw_ladder g)). b = rung_attempt r \<and>
    (fl_allow_metered (gw_ladder g) \<or> rung_cost r = Subscription)"
  using descend_consent [OF assms(1,2)] assms(3) by blast

definition mixed_gateway :: gateway where
  "mixed_gateway =
     demo_gateway\<lparr>gw_ladder := \<lparr>fl_rungs =
        [\<lparr>rung_spec = ''deepseek-v4-pro'', rung_wire_id = ''deepseek-v4-pro[1m]'',
          rung_provider = DeepSeek, rung_route = DeepSeekRoute, rung_cost = Metered\<rparr>,
         \<lparr>rung_spec = ''codex-terra'', rung_wire_id = ''gpt-5.6-terra'', rung_provider = Codex,
          rung_route = CodexRoute, rung_cost = Subscription\<rparr>], fl_allow_metered = False\<rparr>,
      gw_codex_available := True\<rparr>"

definition claude_attempt :: gateway_attempt where
  "claude_attempt = \<lparr>at_provider = Claude, at_route = ClaudeRoute, at_model = None, at_spec = None\<rparr>"

lemmas closed_descent =
  mixed_gateway_def demo_gateway_def claude_attempt_def throttled_env_def next_available_def
  next_rung_when_def rung_start_def rung_allowed_def is_available_def route_state_of_def perform_def
  serve_unified_proxy_def serve_anthropic_proxy_def may_be_route_terminal_def from_failure_def
  from_parts_def update_entry_def default_entry_def rung_attempt_def record_success_def

lemma mixed_descent:
  "\<exists>d. descend (demo_json []) throttled_env (Suc (Suc 0)) 0 mixed_gateway claude_attempt = Some d \<and>
    at_provider (d_last d) = Codex \<and> d_reply d = Some CodexPipeline"
  by (simp add: closed_descent Let_def)

theorem metered_only_with_consent_witness:
  "\<exists>d. descend (demo_json []) throttled_env (Suc (Suc 0)) 0 mixed_gateway claude_attempt = Some d \<and>
    (\<exists>r \<in> set (fl_rungs (gw_ladder mixed_gateway)). d_last d = rung_attempt r \<and> rung_cost r = Subscription)"
proof -
  obtain d where d: "descend (demo_json []) throttled_env (Suc (Suc 0)) 0 mixed_gateway claude_attempt = Some d"
    "at_provider (d_last d) = Codex" using mixed_descent by blast
  then have "d_last d \<noteq> claude_attempt" by (auto simp: claude_attempt_def)
  with metered_only_with_consent [OF d(1), of "d_last d"] d show ?thesis
    by (auto simp: attempts_of_def mixed_gateway_def)
qed

text \<open>
  C19. The probe is invisible to the client: an attempt that is answered although it was probed is
  answered with the same status and the same bytes as without the probe; and an attempt is declined
  only before anything was written, on one of four statuses, with a verdict that fails over.
\<close>

theorem probe_is_transparent:
  "case serve_anthropic_proxy J True up of
     Committed reply \<Rightarrow> serve_anthropic_proxy J False up = Committed reply
   | Declined v \<Rightarrow> fails_over v \<and> verdict_ok v \<and>
       (\<exists>status header reads. up = UpResponse status header reads \<and> may_be_route_terminal status)"
proof (cases up)
  case UpTransportError
  then show ?thesis by (simp add: serve_anthropic_proxy_def)
next
  case (UpResponse status header reads)
  obtain got rest where "read_prefix [] reads = (got, rest)" by fastforce
  with UpResponse read_prefix_body [of "[]" reads got rest] show ?thesis
    by (simp add: serve_anthropic_proxy_def Let_def from_failure_ok)
qed

definition credential_header :: "string \<times> string \<Rightarrow> bool" where
  "credential_header h \<longleftrightarrow>
     eq_ignore_ascii_case (fst h) ''authorization'' \<or> eq_ignore_ascii_case (fst h) ''x-api-key''"

lemma header_names:
  "eq_ignore_ascii_case ''Authorization'' ''authorization''"
  "\<not> eq_ignore_ascii_case ''Content-Type'' ''authorization''"
  "\<not> eq_ignore_ascii_case ''Content-Type'' ''x-api-key''"
  "\<not> eq_ignore_ascii_case ''Content-Type'' gateway_token_header"
  "\<not> eq_ignore_ascii_case ''Authorization'' gateway_token_header"
  by (simp_all add: eq_ignore_ascii_case_def gateway_token_header_def rust_eval)

text \<open>
  C20. Credential isolation: when the gateway injects a provider's key, the only credential header sent
  upstream is that key, whatever the caller sent; and the gateway's own token never travels upstream.
\<close>

theorem injected_key_is_the_only_credential:
  "filter credential_header (upstream_headers (Some key) headers) = [(''Authorization'', ''Bearer '' @ key)] \<and>
   filter (\<lambda>h. eq_ignore_ascii_case (fst h) gateway_token_header) (upstream_headers injected headers) = []"
proof
  have "filter credential_header (filter (\<lambda>(name, _). header_forwarded True name) headers) = []"
    by (auto simp: filter_empty_conv credential_header_def header_forwarded_def Let_def)
  then show "filter credential_header (upstream_headers (Some key) headers) =
      [(''Authorization'', ''Bearer '' @ key)]"
    using header_names by (simp add: upstream_headers_def credential_header_def)
  show "filter (\<lambda>h. eq_ignore_ascii_case (fst h) gateway_token_header)
      (upstream_headers injected headers) = []"
    using header_names
    by (auto simp: upstream_headers_def filter_empty_conv header_forwarded_def Let_def
        split: option.splits)
qed

text \<open>
  What the code records as a success: any answered attempt clears its route's health, a relayed
  rejection of the credential or an empty balance included. So a route the ledger had down is
  available again after the next unprobed request on it, with no change of credential.
\<close>

theorem relayed_failure_clears_health:
  assumes "next_available (gw_ladder g) (at_spec a) (gw_ledger g) (ge_probe_time env k) = None"
    and "at_provider a = Claude" "ge_history_ok env k" "ge_upstream env k = UpResponse status header reads"
  shows "\<exists>d. descend J env (Suc fuel) k g a = Some d \<and>
    d_reply d = Some (Relayed status (relay_body reads)) \<and>
    is_available (gw_ledger (d_gateway d)) (at_route a) now"
  using assms
  by (simp add: perform_def serve_unified_proxy_def serve_anthropic_proxy_def
      ledger.success_usable)

definition downed_gateway :: gateway where
  "downed_gateway =
     \<lparr>gw_ladder = \<lparr>fl_rungs = [], fl_allow_metered = False\<rparr>,
      gw_ledger = [ClaudeRoute \<mapsto> default_entry\<lparr>e_down := True, e_reason := ''drained''\<rparr>],
      gw_deepseek = None, gw_openrouter = None, gw_codex_available = False\<rparr>"

theorem relayed_failure_clears_health_witness:
  "\<not> is_available (gw_ledger downed_gateway) ClaudeRoute 5 \<and>
   (\<exists>d. descend (demo_json []) throttled_env 1 0 downed_gateway claude_attempt = Some d \<and>
     d_reply d = Some (Relayed 402 []) \<and> is_available (gw_ledger (d_gateway d)) ClaudeRoute 5)"
proof
  show "\<not> is_available (gw_ledger downed_gateway) ClaudeRoute 5"
    by (simp add: downed_gateway_def is_available_def route_state_of_def)
  have "next_available (gw_ladder downed_gateway) (at_spec claude_attempt) (gw_ledger downed_gateway)
      (ge_probe_time throttled_env 0) = None"
    by (simp add: downed_gateway_def next_available_def next_rung_when_def)
  moreover have "at_provider claude_attempt = Claude" by (simp add: claude_attempt_def)
  moreover have "ge_history_ok throttled_env 0"
    "ge_upstream throttled_env 0 = UpResponse 402 (\<lambda>_. None) []"
    by (simp_all add: throttled_env_def)
  ultimately have "\<exists>d. descend (demo_json []) throttled_env (Suc 0) 0 downed_gateway claude_attempt = Some d \<and>
      d_reply d = Some (Relayed 402 (relay_body [])) \<and>
      is_available (gw_ledger (d_gateway d)) (at_route claude_attempt) 5"
    by (rule relayed_failure_clears_health)
  then show "\<exists>d. descend (demo_json []) throttled_env 1 0 downed_gateway claude_attempt = Some d \<and>
     d_reply d = Some (Relayed 402 []) \<and> is_available (gw_ledger (d_gateway d)) ClaudeRoute 5"
    by (simp add: claude_attempt_def relay_body_def)
qed

text \<open>
  A rung is taken without asking whether its provider is configured: if the next rung's provider
  has no key here, the request is answered with a configuration error in place of the declined reply,
  although rungs below might serve.
\<close>

theorem unconfigured_rung_ends_descent:
  assumes "perform J env g k (at_provider a) True = Declined v"
    and "next_available (gw_ladder g) (at_spec a) (gw_ledger g) (ge_probe_time env k) \<noteq> None"
    and "next_available (gw_ladder g) (at_spec a)
      (fst (record_verdict (gw_ledger g) (at_route a) v (ge_record_time env k))) (ge_next_time env k) = Some rung"
    and "rung_provider rung = DeepSeek \<and> gw_deepseek g = None \<or>
      rung_provider rung = OpenRouter \<and> gw_openrouter g = None"
  shows "\<exists>d. descend J env (Suc (Suc fuel)) k g a = Some d \<and> d_reply d = Some ProviderNotConfigured \<and>
    d_declined d = [(a, v)]"
proof -
  let ?g = "g\<lparr>gw_ledger := fst (record_verdict (gw_ledger g) (at_route a) v (ge_record_time env k))\<rparr>"
  have "perform J env ?g (Suc k) (at_provider (rung_attempt rung)) probe = Committed ProviderNotConfigured"
    for probe using assms(4) by (auto simp: perform_def rung_attempt_def)
  then have "\<exists>d. descend J env (Suc fuel) (Suc k) ?g (rung_attempt rung) = Some d \<and>
      d_reply d = Some ProviderNotConfigured \<and> d_declined d = []"
    by (simp add: Let_def del: record_verdict_fst)
  then obtain d where d: "descend J env (Suc fuel) (Suc k) ?g (rung_attempt rung) = Some d"
    "d_reply d = Some ProviderNotConfigured" "d_declined d = []" by blast
  have "next_available (gw_ladder ?g) (at_spec a) (gw_ledger ?g) (ge_next_time env k) = Some rung"
    using assms(3) by simp
  with assms(1,2) d show ?thesis
    by (subst descend.simps) (simp add: Let_def del: record_verdict_fst descend.simps)
qed

theorem unconfigured_rung_ends_descent_witness:
  "\<exists>d. descend (demo_json []) throttled_env (Suc (Suc 0)) 0
      (mixed_gateway\<lparr>gw_ladder := (gw_ladder mixed_gateway)\<lparr>fl_allow_metered := True\<rparr>\<rparr>) claude_attempt = Some d \<and>
    d_reply d = Some ProviderNotConfigured"
proof -
  let ?g = "mixed_gateway\<lparr>gw_ladder := (gw_ladder mixed_gateway)\<lparr>fl_allow_metered := True\<rparr>\<rparr>"
  let ?rung = "hd (fl_rungs (gw_ladder ?g))"
  have "perform (demo_json []) throttled_env ?g 0 (at_provider claude_attempt) True = Declined Drained"
    "next_available (gw_ladder ?g) (at_spec claude_attempt) (gw_ledger ?g) (ge_probe_time throttled_env 0) \<noteq> None"
    "next_available (gw_ladder ?g) (at_spec claude_attempt)
      (fst (record_verdict (gw_ledger ?g) (at_route claude_attempt) Drained (ge_record_time throttled_env 0)))
      (ge_next_time throttled_env 0) = Some ?rung"
    "rung_provider ?rung = DeepSeek \<and> gw_deepseek ?g = None \<or>
      rung_provider ?rung = OpenRouter \<and> gw_openrouter ?g = None"
    by (simp_all add: closed_descent Let_def)
  from unconfigured_rung_ends_descent [OF this] show ?thesis by blast
qed

end
