(* ===== verification/Continuation.thy ===== *)
theory Continuation
  imports Json_Api "HOL-Library.AList"
begin

text \<open>
  \<^verbatim>\<open>codex_pipeline.rs\<close>, how the input of a turn is assembled: the canonical transcript, the tool outputs
  recovered from the client's replay, the pending input, the repair of outputs whose call is gone, and
  the validator that refuses what the Responses API would refuse. Items are opaque JSON values read
  through \<open>'v json_api\<close>; \<open>user_text t\<close> is the user message the repair builds around a text, and
  \<open>render v\<close> is \<^verbatim>\<open>Value::to_string\<close>. A \<^verbatim>\<open>HashMap\<close> of counters is an association list.
\<close>

section \<open>Items\<close>

definition response_item_kind :: "'v json_api \<Rightarrow> 'v \<Rightarrow> string" where
  "response_item_kind J item =
     (case get_str J item ''type'' of
        None \<Rightarrow> ''other''
      | Some k \<Rightarrow>
          if list_contains [''message'', ''function_call'', ''function_call_output'', ''reasoning'',
              ''compaction''] k then k else ''other'')"

definition is_developer_item :: "'v json_api \<Rightarrow> 'v \<Rightarrow> bool" where
  "is_developer_item J item \<longleftrightarrow>
     get_str J item ''type'' = Some ''message'' \<and> get_str J item ''role'' = Some ''developer''"

definition call_id :: "'v json_api \<Rightarrow> 'v \<Rightarrow> string option" where
  "call_id J item = get_str J item ''call_id''"

abbreviation is_call :: "'v json_api \<Rightarrow> 'v \<Rightarrow> bool" where
  "is_call J item \<equiv> response_item_kind J item = ''function_call''"

abbreviation is_output :: "'v json_api \<Rightarrow> 'v \<Rightarrow> bool" where
  "is_output J item \<equiv> response_item_kind J item = ''function_call_output''"

section \<open>Counters of unresolved calls\<close>

type_synonym counters = "(string \<times> nat) list"

definition bump :: "string \<Rightarrow> counters \<Rightarrow> counters" where
  "bump i m = AList.update i (unwrap_or (map_of m i) 0 + 1) m"

definition settle :: "string \<Rightarrow> counters \<Rightarrow> counters option" where
  "settle i m =
     (case map_of m i of
        None \<Rightarrow> None
      | Some n \<Rightarrow> Some (if n - 1 = 0 then AList.delete i m else AList.update i (n - 1) m))"

definition consume_matching_output :: "'v json_api \<Rightarrow> counters \<Rightarrow> 'v \<Rightarrow> counters \<times> bool" where
  "consume_matching_output J m item =
     (if \<not> is_output J item then (m, False)
      else
        (case Option.bind (call_id J item) (\<lambda>i. settle i m) of
           None \<Rightarrow> (m, False)
         | Some m' \<Rightarrow> (m', True)))"

definition tally_item :: "'v json_api \<Rightarrow> counters \<Rightarrow> 'v \<Rightarrow> counters" where
  "tally_item J m item =
     (if is_call J item then (case call_id J item of None \<Rightarrow> m | Some i \<Rightarrow> bump i m)
      else if is_output J item then fst (consume_matching_output J m item)
      else m)"

fun recover_loop :: "'v json_api \<Rightarrow> counters \<Rightarrow> 'v list \<Rightarrow> 'v list" where
  "recover_loop J m [] = []"
| "recover_loop J m (item # items) =
     (let (m', hit) = consume_matching_output J m item;
          rest = (if m' = [] then [] else recover_loop J m' items)
      in if hit then item # rest else rest)"

definition recover_pending_outputs :: "'v json_api \<Rightarrow> 'v list \<Rightarrow> 'v list \<Rightarrow> 'v list \<Rightarrow> 'v list" where
  "recover_pending_outputs J history translated pending =
     recover_loop J
       (foldl (\<lambda>m item. fst (consume_matching_output J m item)) (foldl (tally_item J) [] history) pending)
       translated"

section \<open>Repair\<close>

definition function_call_output_text :: "'v json_api \<Rightarrow> ('v \<Rightarrow> string) \<Rightarrow> 'v \<Rightarrow> string" where
  "function_call_output_text J render item =
     (case get_field J item ''output'' of
        None \<Rightarrow> []
      | Some v \<Rightarrow> (case as_str J v of Some s \<Rightarrow> s | None \<Rightarrow> render v))"

definition orphan_text :: "'v json_api \<Rightarrow> ('v \<Rightarrow> string) \<Rightarrow> 'v \<Rightarrow> string" where
  "orphan_text J render item =
     ''[tool result for call '' @ unwrap_or (call_id J item) ''unknown'' @
     ''; the call itself was elided by history compaction]: '' @ function_call_output_text J render item"

definition known_calls :: "'v json_api \<Rightarrow> 'v list \<Rightarrow> string list" where
  "known_calls J items = List.map_filter (call_id J) (filter (is_call J) items)"

definition is_orphan :: "'v json_api \<Rightarrow> string list \<Rightarrow> 'v \<Rightarrow> bool" where
  "is_orphan J known item \<longleftrightarrow>
     is_output J item \<and> (case call_id J item of None \<Rightarrow> True | Some i \<Rightarrow> \<not> list_contains known i)"

definition repair_orphaned_outputs ::
    "'v json_api \<Rightarrow> ('v \<Rightarrow> string) \<Rightarrow> (string \<Rightarrow> 'v) \<Rightarrow> 'v list \<Rightarrow> 'v list \<Rightarrow> 'v list \<times> nat" where
  "repair_orphaned_outputs J render user_text pending ctxt =
     (let known = known_calls J (ctxt @ pending)
      in (map (\<lambda>item. if is_orphan J known item then user_text (orphan_text J render item) else item) pending,
          length (filter (is_orphan J known) pending)))"

section \<open>The validator\<close>

record continuation_failure =
  cf_input_count :: nat
  cf_input_kinds :: "(string \<times> nat) list"
  cf_calls :: nat
  cf_outputs :: nat
  cf_unmatched :: nat
  cf_orphaned :: nat
  cf_source :: string

record validator_state =
  vs_unresolved :: counters
  vs_unidentified :: nat
  vs_orphaned :: nat

definition validate_step :: "'v json_api \<Rightarrow> validator_state \<Rightarrow> 'v \<Rightarrow> validator_state" where
  "validate_step J s item =
     (if is_call J item then
        (case call_id J item of
           Some i \<Rightarrow> s\<lparr>vs_unresolved := bump i (vs_unresolved s)\<rparr>
         | None \<Rightarrow> s\<lparr>vs_unidentified := vs_unidentified s + 1\<rparr>)
      else if is_output J item then
        (case Option.bind (call_id J item) (\<lambda>i. settle i (vs_unresolved s)) of
           Some m \<Rightarrow> s\<lparr>vs_unresolved := m\<rparr>
         | None \<Rightarrow> s\<lparr>vs_orphaned := vs_orphaned s + 1\<rparr>)
      else s)"

definition validate_scan :: "'v json_api \<Rightarrow> 'v list \<Rightarrow> validator_state" where
  "validate_scan J items =
     foldl (validate_step J) \<lparr>vs_unresolved = [], vs_unidentified = 0, vs_orphaned = 0\<rparr> items"

text \<open>The kinds in the order of a \<^verbatim>\<open>BTreeMap\<close>, those that occur.\<close>

definition input_kinds :: "'v json_api \<Rightarrow> 'v list \<Rightarrow> (string \<times> nat) list" where
  "input_kinds J items =
     filter (\<lambda>(_, n). n > 0)
       (map (\<lambda>k. (k, length (filter (\<lambda>item. response_item_kind J item = k) items)))
         [''compaction'', ''function_call'', ''function_call_output'', ''message'', ''other'', ''reasoning''])"

definition validate_continuation_input ::
    "'v json_api \<Rightarrow> 'v list \<Rightarrow> 'v list \<Rightarrow> (continuation_failure, unit) result" where
  "validate_continuation_input J items translated =
     (let s = validate_scan J items;
          unmatched = sum_list (map snd (vs_unresolved s)) + vs_unidentified s
      in if unmatched = 0 \<and> vs_orphaned s = 0 then Inr ()
         else
           Inl \<lparr>cf_input_count = length items, cf_input_kinds = input_kinds J items,
                cf_calls = length (filter (is_call J) items),
                cf_outputs = length (filter (is_output J) items),
                cf_unmatched = unmatched, cf_orphaned = vs_orphaned s,
                cf_source =
                  (if vs_unidentified s = 0 \<and>
                      list_ex (\<lambda>missing. list_ex (\<lambda>item. is_output J item \<and> call_id J item = Some missing)
                        translated) (map fst (vs_unresolved s))
                   then ''pending_input_extraction'' else ''canonical_history'')\<rparr>)"

definition validate_canonical_history :: "'v json_api \<Rightarrow> 'v list \<Rightarrow> (continuation_failure, unit) result" where
  "validate_canonical_history J history = validate_continuation_input J history []"

section \<open>Assembling a turn\<close>

definition history_aware_input ::
    "'v json_api \<Rightarrow> ('v \<Rightarrow> string) \<Rightarrow> (string \<Rightarrow> 'v) \<Rightarrow> 'v list \<Rightarrow> 'v list \<Rightarrow> 'v list \<Rightarrow>
      'v list \<times> 'v list \<times> nat" where
  "history_aware_input J render user_text history translated pending =
     (if history = [] then
        let input = fst (repair_orphaned_outputs J render user_text translated [])
        in (input, input, 0)
      else
        let recovered = recover_pending_outputs J history translated pending;
            turn_input = filter (is_developer_item J) translated @ recovered @ pending;
            upstream_input = filter (\<lambda>item. \<not> is_developer_item J item) history;
            turn_input = fst (repair_orphaned_outputs J render user_text turn_input upstream_input);
            upstream_input = upstream_input @ turn_input;
            upstream_input = fst (repair_orphaned_outputs J render user_text upstream_input [])
        in (upstream_input, turn_input, length recovered))"

section \<open>Counters\<close>

definition cnt :: "counters \<Rightarrow> string \<Rightarrow> nat" where
  "cnt m i = unwrap_or (map_of m i) 0"

definition counters_ok :: "counters \<Rightarrow> bool" where
  "counters_ok m \<longleftrightarrow> distinct (map fst m) \<and> (\<forall>i n. map_of m i = Some n \<longrightarrow> 0 < n)"

lemma counters_ok_Nil [simp]: "counters_ok []"
  by (simp add: counters_ok_def)

lemma cnt_Nil [simp]: "cnt [] i = 0"
  by (simp add: cnt_def)

lemma bump_ok: "counters_ok m \<Longrightarrow> counters_ok (bump i m)"
  by (auto simp: counters_ok_def bump_def distinct_update update_conv')

lemma cnt_bump: "cnt (bump i m) j = (if j = i then Suc (cnt m i) else cnt m j)"
  by (simp add: cnt_def bump_def update_conv')

lemma settle_None_iff: "counters_ok m \<Longrightarrow> settle i m = None \<longleftrightarrow> cnt m i = 0"
  by (auto simp: settle_def cnt_def counters_ok_def split: option.splits)

lemma settle_ok: "counters_ok m \<Longrightarrow> settle i m = Some m' \<Longrightarrow> counters_ok m'"
  by (auto simp: counters_ok_def settle_def distinct_update distinct_delete update_conv' delete_conv'
      split: option.splits if_splits)

lemma cnt_settle:
  "settle i m = Some m' \<Longrightarrow> cnt m' j = (if j = i then cnt m i - 1 else cnt m j)"
  by (auto simp: settle_def cnt_def update_conv' delete_conv' split: option.splits if_splits)

lemma counters_empty_iff: "counters_ok m \<Longrightarrow> m = [] \<longleftrightarrow> (\<forall>i. cnt m i = 0)"
proof
  assume ok: "counters_ok m" and zero: "\<forall>i. cnt m i = 0"
  show "m = []"
  proof (cases m)
    case (Cons kn rest)
    obtain k n where kn: "kn = (k, n)" by fastforce
    then have k: "map_of m k = Some n" using Cons by simp
    then have "0 < n" using ok by (auto simp: counters_ok_def)
    moreover have "cnt m k = n" using k by (simp add: cnt_def)
    ultimately show ?thesis using zero by auto
  qed simp
qed (simp add: cnt_def)

lemma counters_sum_zero: "counters_ok m \<Longrightarrow> sum_list (map snd m) = 0 \<longleftrightarrow> m = []"
proof (cases m)
  case (Cons kn rest)
  assume "counters_ok m"
  with Cons have "0 < snd kn" by (cases kn) (auto simp: counters_ok_def dest: spec [of _ "fst kn"])
  with Cons show ?thesis by simp
qed simp

section \<open>Calls and outputs of a transcript\<close>

definition calls_of :: "'v json_api \<Rightarrow> string \<Rightarrow> 'v list \<Rightarrow> nat" where
  "calls_of J i items = length (filter (\<lambda>x. is_call J x \<and> call_id J x = Some i) items)"

definition outputs_of :: "'v json_api \<Rightarrow> string \<Rightarrow> 'v list \<Rightarrow> nat" where
  "outputs_of J i items = length (filter (\<lambda>x. is_output J x \<and> call_id J x = Some i) items)"

text \<open>
  What the Responses API asks of an input: every output names a call that stands before it and is not
  yet answered; and in the end every call is named and answered.
\<close>

definition paired :: "'v json_api \<Rightarrow> 'v list \<Rightarrow> bool" where
  "paired J items \<longleftrightarrow>
     (\<forall>x \<in> set items. is_output J x \<longrightarrow> call_id J x \<noteq> None) \<and>
     (\<forall>n i. outputs_of J i (take n items) \<le> calls_of J i (take n items))"

definition answered :: "'v json_api \<Rightarrow> 'v list \<Rightarrow> bool" where
  "answered J items \<longleftrightarrow>
     (\<forall>x \<in> set items. is_call J x \<longrightarrow> call_id J x \<noteq> None) \<and>
     (\<forall>i. calls_of J i items = outputs_of J i items)"

lemma calls_of_simps [simp]:
  "calls_of J i [] = 0" "calls_of J i (xs @ ys) = calls_of J i xs + calls_of J i ys"
  "calls_of J i (x # xs) = (if is_call J x \<and> call_id J x = Some i then 1 else 0) + calls_of J i xs"
  by (simp_all add: calls_of_def)

lemma outputs_of_simps [simp]:
  "outputs_of J i [] = 0" "outputs_of J i (xs @ ys) = outputs_of J i xs + outputs_of J i ys"
  "outputs_of J i (x # xs) = (if is_output J x \<and> call_id J x = Some i then 1 else 0) + outputs_of J i xs"
  by (simp_all add: outputs_of_def)

lemma paired_Nil [simp]: "paired J []"
  by (simp add: paired_def)

lemma paired_snoc:
  "paired J (xs @ [x]) \<longleftrightarrow>
    paired J xs \<and> (is_output J x \<longrightarrow> (\<exists>i. call_id J x = Some i \<and> outputs_of J i xs < calls_of J i xs))"
    (is "?l \<longleftrightarrow> ?r")
proof
  assume l: ?l
  have pre: "outputs_of J i (take n xs) \<le> calls_of J i (take n xs)" for n i
  proof (cases "n \<le> length xs")
    case True
    with l show ?thesis by (auto simp: paired_def dest!: spec [of _ n])
  next
    case False
    with l show ?thesis by (auto simp: paired_def dest!: spec [of _ "length xs"])
  qed
  have all: "outputs_of J i (xs @ [x]) \<le> calls_of J i (xs @ [x])" for i
    using l by (auto simp: paired_def simp del: outputs_of_simps calls_of_simps
        dest!: spec [of _ "Suc (length xs)"])
  from l pre have "paired J xs" by (simp add: paired_def)
  moreover have "\<exists>i. call_id J x = Some i \<and> outputs_of J i xs < calls_of J i xs" if "is_output J x"
  proof -
    from l that obtain i where i: "call_id J x = Some i" by (auto simp: paired_def)
    with all [of i] that show ?thesis by auto
  qed
  ultimately show ?r by simp
next
  assume r: ?r
  have "outputs_of J i (take n (xs @ [x])) \<le> calls_of J i (take n (xs @ [x]))" for n i
  proof (cases "n \<le> length xs")
    case True
    with r show ?thesis by (simp add: paired_def)
  next
    case False
    have "outputs_of J i xs \<le> calls_of J i xs"
      using r by (auto simp: paired_def dest!: spec [of _ "length xs"])
    moreover have "take n (xs @ [x]) = xs @ [x]" using False by simp
    ultimately show ?thesis using r by auto
  qed
  with r show ?l by (auto simp: paired_def)
qed

lemma paired_le: "paired J xs \<Longrightarrow> outputs_of J i xs \<le> calls_of J i xs"
  by (auto simp: paired_def dest!: spec [of _ "length xs"])

text \<open>The validator's state is the difference of the two counts, as long as nothing is orphaned.\<close>

lemma validate_scan_snoc: "validate_scan J (xs @ [x]) = validate_step J (validate_scan J xs) x"
  by (simp add: validate_scan_def)

lemma validate_scan_inv:
  "counters_ok (vs_unresolved (validate_scan J xs)) \<and>
   (vs_orphaned (validate_scan J xs) = 0 \<longleftrightarrow> paired J xs) \<and>
   (vs_unidentified (validate_scan J xs) = 0 \<longleftrightarrow> (\<forall>x \<in> set xs. is_call J x \<longrightarrow> call_id J x \<noteq> None)) \<and>
   (paired J xs \<longrightarrow> (\<forall>i. cnt (vs_unresolved (validate_scan J xs)) i = calls_of J i xs - outputs_of J i xs))"
proof (induction xs rule: rev_induct)
  case Nil
  then show ?case by (simp add: validate_scan_def)
next
  case (snoc x xs)
  let ?s = "validate_scan J xs"
  have ok: "counters_ok (vs_unresolved ?s)" using snoc by simp
  consider (call) "is_call J x" | (out) "is_output J x" | (none) "\<not> is_call J x" "\<not> is_output J x" by blast
  then show ?case
  proof cases
    case call
    then show ?thesis
      using snoc by (cases "call_id J x")
        (auto simp: validate_scan_snoc validate_step_def paired_snoc bump_ok cnt_bump Suc_diff_le paired_le)
  next
    case out
    show ?thesis
    proof (cases "Option.bind (call_id J x) (\<lambda>i. settle i (vs_unresolved ?s))")
      case None
      then have "\<not> paired J (xs @ [x])"
        using snoc out settle_None_iff [OF ok] by (auto simp: paired_snoc Option.bind_eq_None_conv)
      with None out snoc show ?thesis by (auto simp: validate_scan_snoc validate_step_def)
    next
      case (Some m)
      then obtain i where i: "call_id J x = Some i" "settle i (vs_unresolved ?s) = Some m"
        by (auto simp: Option.bind_eq_Some_conv)
      then have "cnt (vs_unresolved ?s) i \<noteq> 0" using settle_None_iff [OF ok, of i] by auto
      with snoc i out Some cnt_settle [OF i(2)] settle_ok [OF ok i(2)] show ?thesis
        by (auto simp: validate_scan_snoc validate_step_def paired_snoc)
    qed
  next
    case none
    with snoc show ?thesis by (auto simp: validate_scan_snoc validate_step_def paired_snoc)
  qed
qed

section \<open>Recovery\<close>

lemma consume_cases [consumes 1, case_names hit miss]:
  assumes "counters_ok m"
  obtains (hit) i m' where "consume_matching_output J m x = (m', True)" "is_output J x"
      "call_id J x = Some i" "0 < cnt m i" "counters_ok m'"
      "\<And>j. cnt m' j = (if j = i then cnt m i - 1 else cnt m j)"
  | (miss) "consume_matching_output J m x = (m, False)"
      "\<And>i. is_output J x \<Longrightarrow> call_id J x = Some i \<Longrightarrow> cnt m i = 0"
proof (cases "is_output J x \<and> (\<exists>i m'. call_id J x = Some i \<and> settle i m = Some m')")
  case True
  then obtain i m' where i: "is_output J x" "call_id J x = Some i" "settle i m = Some m'" by blast
  have "cnt m i \<noteq> 0" using i(3) settle_None_iff [OF assms, of i] by auto
  with i hit [OF _ i(1,2)] cnt_settle [OF i(3)] settle_ok [OF assms i(3)] show thesis
    by (simp add: consume_matching_output_def)
next
  case False
  then have "consume_matching_output J m x = (m, False)"
    by (cases "call_id J x") (auto simp: consume_matching_output_def split: option.splits)
  moreover have "cnt m i = 0" if "is_output J x" "call_id J x = Some i" for i
    using False that settle_None_iff [OF assms, of i] by (cases "settle i m") auto
  ultimately show thesis by (rule miss)
qed

lemma recover_loop_outputs:
  "counters_ok m \<Longrightarrow>
    outputs_of J i (recover_loop J m items) = min (cnt m i) (outputs_of J i items) \<and>
    (\<forall>x \<in> set (recover_loop J m items). is_output J x \<and> (\<exists>j. call_id J x = Some j \<and> 0 < cnt m j))"
proof (induction items arbitrary: m)
  case Nil
  then show ?case by simp
next
  case (Cons x items)
  from Cons.prems show ?case
  proof (cases rule: consume_cases [where J = J and x = x])
    case (hit k m')
    let ?rest = "if m' = [] then [] else recover_loop J m' items"
    have rest: "outputs_of J i ?rest = min (cnt m' i) (outputs_of J i items)"
      "\<forall>y \<in> set ?rest. is_output J y \<and> (\<exists>j. call_id J y = Some j \<and> 0 < cnt m' j)"
      using Cons.IH [OF hit(5)] by auto
    have run: "recover_loop J m (x # items) = x # ?rest" using hit(1) by (simp add: Let_def)
    have "outputs_of J i (x # ?rest) = min (cnt m i) (outputs_of J i (x # items))"
      using rest(1) hit(2,3,4) hit(6) [of i] by auto
    moreover have "\<forall>y \<in> set (x # ?rest). is_output J y \<and> (\<exists>j. call_id J y = Some j \<and> 0 < cnt m j)"
    proof
      fix y
      assume "y \<in> set (x # ?rest)"
      then consider "y = x" | "y \<in> set ?rest" by auto
      then show "is_output J y \<and> (\<exists>j. call_id J y = Some j \<and> 0 < cnt m j)"
      proof cases
        case 1
        with hit(2,3,4) show ?thesis by auto
      next
        case 2
        with rest(2) obtain j where "is_output J y" "call_id J y = Some j" "0 < cnt m' j" by blast
        with hit(4) hit(6) [of j] show ?thesis by (auto split: if_splits)
      qed
    qed
    ultimately show ?thesis unfolding run by (rule conjI)
  next
    case miss
    have "recover_loop J m (x # items) = (if m = [] then [] else recover_loop J m items)"
      using miss(1) by simp
    then show ?thesis using Cons.IH [OF Cons.prems] miss(2) [of i] by auto
  qed
qed

lemma tally_is_scan: "foldl (tally_item J) [] xs = vs_unresolved (validate_scan J xs)"
proof (induction xs rule: rev_induct)
  case Nil
  then show ?case by (simp add: validate_scan_def)
next
  case (snoc x xs)
  then show ?case
    by (auto simp: validate_scan_snoc validate_step_def tally_item_def consume_matching_output_def
        split: option.splits)
qed

lemma consume_all:
  "counters_ok m \<Longrightarrow>
    counters_ok (foldl (\<lambda>m x. fst (consume_matching_output J m x)) m xs) \<and>
    cnt (foldl (\<lambda>m x. fst (consume_matching_output J m x)) m xs) i = cnt m i - outputs_of J i xs"
proof (induction xs arbitrary: m)
  case Nil
  then show ?case by simp
next
  case (Cons x xs)
  from Cons.prems show ?case
  proof (cases rule: consume_cases [where J = J and x = x])
    case (hit k m')
    with Cons.IH [OF hit(5)] hit(6) [of i] show ?thesis by auto
  next
    case miss
    with Cons.IH [OF Cons.prems] miss(2) [of i] show ?thesis by auto
  qed
qed

text \<open>What recovery adds: of each call's missing outputs as many as the replay still has.\<close>

lemma recovered_outputs:
  assumes "paired J history"
  shows "outputs_of J i (recover_pending_outputs J history translated pending) =
      min (calls_of J i history - outputs_of J i history - outputs_of J i pending) (outputs_of J i translated)"
    and "x \<in> set (recover_pending_outputs J history translated pending) \<Longrightarrow>
      is_output J x \<and> (\<exists>j. call_id J x = Some j \<and> 0 < calls_of J j history)"
proof -
  let ?m = "vs_unresolved (validate_scan J history)"
  let ?m' = "foldl (\<lambda>m x. fst (consume_matching_output J m x)) ?m pending"
  have m: "counters_ok ?m" "cnt ?m j = calls_of J j history - outputs_of J j history" for j
    using validate_scan_inv [of J history] assms by auto
  have ok': "counters_ok ?m'" using consume_all [OF m(1)] by blast
  have cnt': "cnt ?m' j = calls_of J j history - outputs_of J j history - outputs_of J j pending" for j
    using consume_all [OF m(1), of J pending j] m(2) [of j] by simp
  have rec: "recover_pending_outputs J history translated pending = recover_loop J ?m' translated"
    by (simp add: recover_pending_outputs_def tally_is_scan)
  show "outputs_of J i (recover_pending_outputs J history translated pending) =
      min (calls_of J i history - outputs_of J i history - outputs_of J i pending) (outputs_of J i translated)"
    using recover_loop_outputs [OF ok', of J i translated] cnt' by (simp add: rec)
  show "x \<in> set (recover_pending_outputs J history translated pending) \<Longrightarrow>
      is_output J x \<and> (\<exists>j. call_id J x = Some j \<and> 0 < calls_of J j history)"
    using recover_loop_outputs [OF ok', of J i translated] cnt' by (fastforce simp: rec)
qed

section \<open>Repair\<close>

lemma known_calls_iff: "i \<in> set (known_calls J items) \<longleftrightarrow> 0 < calls_of J i items"
  by (auto simp: known_calls_def calls_of_def List.map_filter_def filter_empty_conv intro!: image_eqI)

lemma repair_noop:
  "(\<And>x. x \<in> set pending \<Longrightarrow> is_output J x \<Longrightarrow>
      \<exists>i. call_id J x = Some i \<and> 0 < calls_of J i (ctxt @ pending)) \<Longrightarrow>
    fst (repair_orphaned_outputs J render user_text pending ctxt) = pending"
proof -
  assume known: "\<And>x. x \<in> set pending \<Longrightarrow> is_output J x \<Longrightarrow>
      \<exists>i. call_id J x = Some i \<and> 0 < calls_of J i (ctxt @ pending)"
  have "\<not> is_orphan J (known_calls J (ctxt @ pending)) x" if "x \<in> set pending" for x
    using known [OF that]
    by (auto simp: is_orphan_def list_contains_def known_calls_iff simp del: calls_of_simps split: option.splits)
  then show ?thesis by (simp add: repair_orphaned_outputs_def map_idI)
qed

definition user_text_ok :: "'v json_api \<Rightarrow> (string \<Rightarrow> 'v) \<Rightarrow> bool" where
  "user_text_ok J user_text \<longleftrightarrow> (\<forall>t. get_str J (user_text t) ''type'' = Some ''message'')"

lemma user_text_kind: "user_text_ok J u \<Longrightarrow> response_item_kind J (u t) = ''message''"
  by (simp add: user_text_ok_def response_item_kind_def list_contains_def)

lemma repair_calls:
  "user_text_ok J u \<Longrightarrow> calls_of J i (fst (repair_orphaned_outputs J render u pending ctxt)) = calls_of J i pending"
proof -
  assume u: "user_text_ok J u"
  have "calls_of J i (map (\<lambda>x. if is_orphan J known x then u (orphan_text J render x) else x) pending) =
      calls_of J i pending" for known
    by (induction pending) (auto simp: user_text_kind [OF u] is_orphan_def)
  then show ?thesis by (simp add: repair_orphaned_outputs_def Let_def)
qed

lemma repair_known:
  assumes u: "user_text_ok J u"
    and x: "x \<in> set (fst (repair_orphaned_outputs J render u pending []))" "is_output J x"
  shows "\<exists>i. call_id J x = Some i \<and> 0 < calls_of J i (fst (repair_orphaned_outputs J render u pending []))"
proof -
  obtain y where y: "y \<in> set pending"
    "x = (if is_orphan J (known_calls J pending) y then u (orphan_text J render y) else y)"
    using x(1) by (auto simp: repair_orphaned_outputs_def Let_def)
  with x(2) have "\<not> is_orphan J (known_calls J pending) y" "x = y"
    by (auto simp: user_text_kind [OF u])
  with x(2) obtain i where "call_id J x = Some i" "i \<in> set (known_calls J pending)"
    by (auto simp: is_orphan_def list_contains_def split: option.splits)
  then show ?thesis by (simp add: repair_calls [OF u] known_calls_iff)
qed

section \<open>The assembled input\<close>

lemma developer_neutral: "is_developer_item J x \<Longrightarrow> \<not> is_call J x \<and> \<not> is_output J x"
  by (simp add: is_developer_item_def response_item_kind_def list_contains_def)

lemma counts_without_developer [simp]:
  "calls_of J i (filter (\<lambda>x. \<not> is_developer_item J x) xs) = calls_of J i xs"
  "outputs_of J i (filter (\<lambda>x. \<not> is_developer_item J x) xs) = outputs_of J i xs"
  "calls_of J i (filter (is_developer_item J) xs) = 0"
  "outputs_of J i (filter (is_developer_item J) xs) = 0"
  by (induction xs) (auto simp: developer_neutral)

lemma paired_without_developer:
  "paired J xs \<Longrightarrow> paired J (filter (\<lambda>x. \<not> is_developer_item J x) xs)"
  by (induction xs rule: rev_induct) (auto simp: paired_snoc)

lemma paired_append_outputs:
  "paired J xs \<Longrightarrow> \<forall>y \<in> set ys. \<not> is_call J y \<and> (is_output J y \<longrightarrow> call_id J y \<noteq> None) \<Longrightarrow>
    (\<And>i. outputs_of J i xs + outputs_of J i ys \<le> calls_of J i xs) \<Longrightarrow> paired J (xs @ ys)"
proof (induction ys rule: rev_induct)
  case Nil
  then show ?case by simp
next
  case (snoc y ys)
  have none: "calls_of J i ys = 0" for i
    using snoc.prems(2) by (auto simp: calls_of_def filter_empty_conv)
  have "paired J (xs @ ys)"
  proof (rule snoc.IH)
    show "paired J xs" by (rule snoc.prems(1))
    show "\<forall>y \<in> set ys. \<not> is_call J y \<and> (is_output J y \<longrightarrow> call_id J y \<noteq> None)" using snoc.prems(2) by simp
    show "outputs_of J i xs + outputs_of J i ys \<le> calls_of J i xs" for i
      using snoc.prems(3) [of i] by (simp split: if_splits)
  qed
  moreover have "\<exists>i. call_id J y = Some i \<and> outputs_of J i (xs @ ys) < calls_of J i (xs @ ys)"
    if y: "is_output J y"
  proof -
    from snoc.prems(2) y obtain i where i: "call_id J y = Some i" by auto
    with snoc.prems(3) [of i] y none [of i] show ?thesis by auto
  qed
  ultimately have "paired J ((xs @ ys) @ [y])" by (simp only: paired_snoc) simp
  then show ?case by simp
qed

lemma paired_outputs_known: "paired J xs \<Longrightarrow> x \<in> set xs \<Longrightarrow> is_output J x \<Longrightarrow>
    \<exists>i. call_id J x = Some i \<and> 0 < calls_of J i xs"
proof -
  assume p: "paired J xs" and x: "x \<in> set xs" "is_output J x"
  then obtain i where i: "call_id J x = Some i" by (auto simp: paired_def)
  with x have "0 < outputs_of J i xs" by (auto simp: outputs_of_def filter_empty_conv)
  with p i paired_le [of J xs i] show ?thesis by auto
qed

text \<open>Where every output of the turn names a call of the transcript, nothing is repaired.\<close>

lemma assembled_unrepaired:
  assumes "history \<noteq> []" "paired J history"
    and "\<And>x. x \<in> set pending \<Longrightarrow> is_output J x \<Longrightarrow> \<exists>i. call_id J x = Some i \<and> 0 < calls_of J i history"
  shows "fst (history_aware_input J render u history translated pending) =
    filter (\<lambda>x. \<not> is_developer_item J x) history @ filter (is_developer_item J) translated @
    recover_pending_outputs J history translated pending @ pending"
proof -
  let ?h = "filter (\<lambda>x. \<not> is_developer_item J x) history"
  let ?t = "filter (is_developer_item J) translated @ recover_pending_outputs J history translated pending @ pending"
  have known: "\<exists>i. call_id J x = Some i \<and> 0 < calls_of J i ?h" if "x \<in> set ?t" "is_output J x" for x
    using that assms(3) recovered_outputs(2) [OF assms(2)] developer_neutral [of J x] by auto
  have t: "fst (repair_orphaned_outputs J render u ?t ?h) = ?t"
    by (rule repair_noop) (use known in fastforce)
  have "fst (repair_orphaned_outputs J render u (?h @ ?t) []) = ?h @ ?t"
  proof (rule repair_noop)
    fix x
    assume "x \<in> set (?h @ ?t)" "is_output J x"
    then show "\<exists>i. call_id J x = Some i \<and> 0 < calls_of J i ([] @ ?h @ ?t)"
      using known [of x] paired_outputs_known [OF assms(2), of x] by auto
  qed
  with t assms(1) show ?thesis by (simp add: history_aware_input_def Let_def)
qed

text \<open>The validator and the pairing rule.\<close>

lemma validator_accepts:
  "validate_continuation_input J items translated = Inr () \<longleftrightarrow> paired J items \<and> answered J items"
proof -
  let ?s = "validate_scan J items"
  note inv = validate_scan_inv [of J items]
  have sum: "sum_list (map snd (vs_unresolved ?s)) = 0 \<longleftrightarrow> (\<forall>i. cnt (vs_unresolved ?s) i = 0)"
    using counters_sum_zero [of "vs_unresolved ?s"] counters_empty_iff [of "vs_unresolved ?s"] inv by blast
  have "(\<forall>i. cnt (vs_unresolved ?s) i = 0) \<longleftrightarrow> (\<forall>i. calls_of J i items = outputs_of J i items)"
    if p: "paired J items"
  proof -
    have "cnt (vs_unresolved ?s) i = 0 \<longleftrightarrow> calls_of J i items = outputs_of J i items" for i
      using inv p paired_le [OF p, of i] by simp
    then show ?thesis by simp
  qed
  then show ?thesis
    using inv sum
    by (auto simp: validate_continuation_input_def answered_def Let_def simp del: sum_list_eq_0_iff)
qed

section \<open>Properties\<close>

text \<open>
  C15. The validator accepts an input exactly when the Responses API's pairing rule holds of it: every
  output names a call that stands before it and is not yet answered, and every call is named and
  answered.
\<close>

theorem validator_accepts_iff_paired:
  "validate_continuation_input J items translated = Inr () \<longleftrightarrow> paired J items \<and> answered J items"
  by (rule validator_accepts)

text \<open>
  C14. No turn reaches the upstream with an output that no call answers to: whatever the transcript, the
  client's replay and the pending input are, every tool output of the assembled input names a call of
  the same input; the others went out as user messages.
\<close>

theorem assembled_outputs_have_calls:
  assumes "user_text_ok J user_text"
    and "x \<in> set (fst (history_aware_input J render user_text history translated pending))"
    and "is_output J x"
  shows "\<exists>i. call_id J x = Some i \<and>
    0 < calls_of J i (fst (history_aware_input J render user_text history translated pending))"
proof (cases "history = []")
  case True
  with assms(2) have "x \<in> set (fst (repair_orphaned_outputs J render user_text translated []))"
    by (simp add: history_aware_input_def Let_def)
  with True repair_known [OF assms(1) this assms(3)] show ?thesis
    by (simp add: history_aware_input_def Let_def)
next
  case False
  then obtain ys where ys: "fst (history_aware_input J render user_text history translated pending) =
      fst (repair_orphaned_outputs J render user_text ys [])"
    by (simp add: history_aware_input_def Let_def)
  with assms(2) repair_known [OF assms(1) _ assms(3), of render ys] show ?thesis by simp
qed

text \<open>
  A turn that failed after its tool ran is continued: if the transcript is well paired, the pending
  input answers only calls still open, and the client's replay still holds the missing outputs, then
  the assembled input is accepted.
\<close>

theorem interrupted_turn_is_continued:
  assumes "history \<noteq> []" "paired J history" "\<forall>x \<in> set history. is_call J x \<longrightarrow> call_id J x \<noteq> None"
    and "\<forall>x \<in> set pending. \<not> is_call J x \<and> (is_output J x \<longrightarrow> call_id J x \<noteq> None)"
    and "\<And>i. outputs_of J i history + outputs_of J i pending \<le> calls_of J i history"
    and "\<And>i. calls_of J i history - outputs_of J i history - outputs_of J i pending \<le> outputs_of J i translated"
  shows "validate_continuation_input J
    (fst (history_aware_input J render user_text history translated pending)) translated = Inr ()"
proof -
  let ?rec = "recover_pending_outputs J history translated pending"
  let ?h = "filter (\<lambda>x. \<not> is_developer_item J x) history"
  let ?t = "filter (is_developer_item J) translated @ ?rec @ pending"
  have rec: "outputs_of J i ?rec = calls_of J i history - outputs_of J i history - outputs_of J i pending" for i
    using recovered_outputs(1) [OF assms(2), of i translated pending] assms(6) [of i] by simp
  have in_rec: "is_output J x \<and> call_id J x \<noteq> None" if "x \<in> set ?rec" for x
    using recovered_outputs(2) [OF assms(2) that] by auto
  have tail: "\<forall>x \<in> set ?t. \<not> is_call J x \<and> (is_output J x \<longrightarrow> call_id J x \<noteq> None)"
    using assms(4) in_rec developer_neutral by fastforce
  then have none: "calls_of J i ?t = 0" for i by (auto simp: calls_of_def filter_empty_conv)
  have up: "fst (history_aware_input J render user_text history translated pending) = ?h @ ?t"
  proof (rule assembled_unrepaired [OF assms(1,2)])
    fix x
    assume x: "x \<in> set pending" "is_output J x"
    with assms(4) obtain i where i: "call_id J x = Some i" by auto
    with x have "0 < outputs_of J i pending" by (auto simp: outputs_of_def filter_empty_conv)
    with i assms(5) [of i] show "\<exists>i. call_id J x = Some i \<and> 0 < calls_of J i history" by auto
  qed
  have "paired J (?h @ ?t)"
  proof (rule paired_append_outputs [OF paired_without_developer [OF assms(2)] tail])
    show "outputs_of J i ?h + outputs_of J i ?t \<le> calls_of J i ?h" for i
      using assms(5) [of i] rec [of i] by simp
  qed
  moreover have "answered J (?h @ ?t)"
    unfolding answered_def
  proof (intro conjI allI ballI impI)
    fix x
    assume "x \<in> set (?h @ ?t)" "is_call J x"
    with assms(3) tail show "call_id J x \<noteq> None" by auto
  next
    fix i
    show "calls_of J i (?h @ ?t) = outputs_of J i (?h @ ?t)"
      using none [of i] rec [of i] assms(5) [of i] by simp
  qed
  ultimately show ?thesis unfolding up validator_accepts by blast
qed

text \<open>
  A request the client sends again after its turn was recorded is refused, and stays refused: when
  the transcript already holds the call and its output, the repair lets the repeated output stand (its
  call is known), and the validator counts it as orphaned.
\<close>

theorem repeated_output_is_refused:
  assumes "history \<noteq> []" "paired J history" "answered J history"
    and "is_output J out" "call_id J out = Some c" "0 < calls_of J c history"
  shows "\<exists>f. validate_continuation_input J
      (fst (history_aware_input J render user_text history translated [out])) translated = Inl f \<and>
    cf_orphaned f = 1 \<and> cf_unmatched f = 0"
proof -
  let ?h = "filter (\<lambda>x. \<not> is_developer_item J x) history"
  let ?d = "filter (is_developer_item J) translated"
  let ?rec = "recover_pending_outputs J history translated [out]"
  have "?rec = []"
  proof (rule ccontr)
    assume "?rec \<noteq> []"
    then obtain x where x: "x \<in> set ?rec" by (cases ?rec) auto
    with recovered_outputs(2) [OF assms(2) x] obtain i where "is_output J x" "call_id J x = Some i" by blast
    with x have "0 < outputs_of J i ?rec" by (auto simp: outputs_of_def filter_empty_conv)
    with recovered_outputs(1) [OF assms(2), of i translated "[out]"] assms(3) show False
      by (simp add: answered_def)
  qed
  then have up: "fst (history_aware_input J render user_text history translated [out]) = (?h @ ?d) @ [out]"
    using assembled_unrepaired [OF assms(1,2), of "[out]" render user_text translated] assms(4-6) by simp
  have neutral: "\<forall>y \<in> set ?d. \<not> is_call J y \<and> (is_output J y \<longrightarrow> call_id J y \<noteq> None)"
    using developer_neutral by fastforce
  have p: "paired J (?h @ ?d)"
    by (rule paired_append_outputs [OF paired_without_developer [OF assms(2)] neutral])
      (use assms(3) in \<open>simp add: answered_def\<close>)
  have id: "\<forall>x \<in> set (?h @ ?d). is_call J x \<longrightarrow> call_id J x \<noteq> None"
    using assms(3) neutral by (auto simp: answered_def)
  let ?s = "validate_scan J (?h @ ?d)"
  note inv = validate_scan_inv [of J "?h @ ?d"]
  have zero: "cnt (vs_unresolved ?s) i = 0" for i
    using inv p assms(3) by (simp add: answered_def)
  then have empty: "vs_unresolved ?s = []" using counters_empty_iff inv by blast
  have "settle c (vs_unresolved ?s) = None" using empty by (simp add: settle_def)
  then have scan: "validate_scan J ((?h @ ?d) @ [out]) = ?s\<lparr>vs_orphaned := 1\<rparr>"
    using assms(4,5) inv p by (simp only: validate_scan_snoc) (simp add: validate_step_def)
  have unidentified: "vs_unidentified ?s = 0" using inv id by blast
  show ?thesis
    unfolding up validate_continuation_input_def scan Let_def by (simp add: empty unidentified)
qed

section \<open>Witnesses\<close>

definition demo_item :: "string \<Rightarrow> string \<Rightarrow> json_value" where
  "demo_item kind i = JObj [(''type'', JStr kind), (''call_id'', JStr i), (''output'', JStr ''done'')]"

definition demo_text :: "string \<Rightarrow> json_value" where
  "demo_text t = JObj [(''type'', JStr ''message''), (''role'', JStr ''user''), (''text'', JStr t)]"

lemma demo_items [simp]:
  "response_item_kind (demo_json []) (demo_item k i) =
    (if list_contains [''message'', ''function_call'', ''function_call_output'', ''reasoning'',
      ''compaction''] k then k else ''other'')"
  "call_id (demo_json []) (demo_item k i) = Some i"
  "get_str (demo_json []) (demo_text t) ''type'' = Some ''message''"
  "is_developer_item (demo_json []) (demo_item k i) = False"
  by (simp_all add: response_item_kind_def call_id_def get_str_def demo_item_def demo_text_def
      is_developer_item_def)

abbreviation demo_call :: json_value where "demo_call \<equiv> demo_item ''function_call'' ''c''"
abbreviation demo_output :: json_value where "demo_output \<equiv> demo_item ''function_call_output'' ''c''"

lemma demo_kinds [simp]: "is_call (demo_json []) demo_call" "is_output (demo_json []) demo_output"
    "\<not> is_output (demo_json []) demo_call" "\<not> is_call (demo_json []) demo_output"
  by (simp_all add: list_contains_def)

lemma demo_paired: "paired (demo_json []) [demo_call]" "paired (demo_json []) [demo_call, demo_output]"
proof -
  show one: "paired (demo_json []) [demo_call]"
    using paired_snoc [of "demo_json []" "[]" demo_call] by simp
  then show "paired (demo_json []) [demo_call, demo_output]"
    using paired_snoc [of "demo_json []" "[demo_call]" demo_output] by simp
qed

theorem assembled_outputs_have_calls_witness:
  "0 < calls_of (demo_json []) ''c''
    (fst (history_aware_input (demo_json []) (\<lambda>_. []) demo_text [demo_call] [] [demo_output]))"
proof -
  have "user_text_ok (demo_json []) demo_text" by (simp add: user_text_ok_def)
  moreover have "demo_output \<in> set (fst (history_aware_input (demo_json []) (\<lambda>_. []) demo_text [demo_call] [] [demo_output]))"
    using assembled_unrepaired [of "[demo_call]" "demo_json []" "[demo_output]" "\<lambda>_. []" demo_text "[]"]
      demo_paired by simp
  ultimately show ?thesis using assembled_outputs_have_calls [of "demo_json []" demo_text demo_output] by fastforce
qed

theorem interrupted_turn_is_continued_witness:
  "validate_continuation_input (demo_json [])
    (fst (history_aware_input (demo_json []) (\<lambda>_. []) demo_text [demo_call] [demo_output] [])) [demo_output] = Inr ()"
  by (rule interrupted_turn_is_continued) (simp_all add: demo_paired)

theorem repeated_output_is_refused_witness:
  "validate_continuation_input (demo_json [])
    (fst (history_aware_input (demo_json []) (\<lambda>_. []) demo_text [demo_call, demo_output] [] [demo_output])) [] \<noteq> Inr ()"
proof -
  have "answered (demo_json []) [demo_call, demo_output]" by (simp add: answered_def)
  from repeated_output_is_refused [OF _ demo_paired(2) this, of demo_output "''c''" "\<lambda>_. []" demo_text "[]"]
  show ?thesis by auto
qed

end
