(* ===== verification/Pipeline_Error.thy ===== *)
theory Pipeline_Error
  imports Continuation Sse_Translator Upstream_Failure
begin

text \<open>
  \<^verbatim>\<open>codex_pipeline.rs\<close>, the failures of a turn: what status and what text the client gets for each, and
  which of them concern the user's account. An in-band diagnostic carries the classified failure; the
  shape of the request beside it is a log record and left out.
\<close>

datatype compaction_error = MissingPendingInput | EmptyOutput | MalformedOutput | UnsupportedOutput

record provider_failure =
  pf_kind :: string
  pf_message :: string
  pf_diagnostic :: "in_band_failure option"

datatype pipeline_error =
    PTranslate string
  | PCompaction compaction_error
  | PUpstream upstream_error
  | PContinuation continuation_failure
  | PProvider provider_failure

definition client_closed_request :: nat where
  "client_closed_request = 499"

definition translate_error_text :: "string \<Rightarrow> string" where
  "translate_error_text what = ''invalid Messages request: '' @ what"

fun pipeline_context_length :: "pipeline_error \<Rightarrow> bool" where
  "pipeline_context_length (PUpstream e) = is_context_length_error e"
| "pipeline_context_length (PProvider f) =
     (case pf_diagnostic f of None \<Rightarrow> False | Some d \<Rightarrow> ib_code d = Some ''context_length_exceeded'')"
| "pipeline_context_length _ = False"

fun http_status :: "pipeline_error \<Rightarrow> nat" where
  "http_status (PTranslate _) = 400"
| "http_status (PContinuation _) = 400"
| "http_status (PCompaction _) = 502"
| "http_status (PUpstream (Credentials _)) = 401"
| "http_status (PUpstream (Status f)) =
     (if list_contains [400, 401, 403, 404, 413, 422, 429] (uf_status f) then uf_status f else 502)"
| "http_status (PProvider f) =
     (if pf_kind f = ''billing_error'' \<or> pf_kind f = ''rate_limit_error'' then 429
      else if pf_kind f = ''invalid_request_error'' then 400
      else if pf_kind f = ''authentication_error'' then 401
      else 502)"
| "http_status (PUpstream CompactMalformed) = 502"
| "http_status (PUpstream Timeout) = 504"
| "http_status (PUpstream TooLarge) = 413"
| "http_status (PUpstream Cancelled) = client_closed_request"
| "http_status (PUpstream (Downstream _)) = client_closed_request"
| "http_status (PUpstream (Transport _)) = 502"

fun error_failure :: "upstream_error \<Rightarrow> upstream_failure option" where
  "error_failure (Status f) = Some f"
| "error_failure _ = None"

fun pipeline_failure_class :: "pipeline_error \<Rightarrow> failure_class option" where
  "pipeline_failure_class (PUpstream e) = map_option uf_class (error_failure e)"
| "pipeline_failure_class (PProvider f) = (if pf_kind f = ''billing_error'' then Some Exhausted else None)"
| "pipeline_failure_class _ = None"

definition reset_hint :: "upstream_failure \<Rightarrow> duration option" where
  "reset_hint f = or_else (uf_retry_after f) (uf_resets_in f)"

fun retry_after_seconds :: "pipeline_error \<Rightarrow> nat option" where
  "retry_after_seconds (PUpstream e) =
     map_option (\<lambda>d. d div from_secs 1) (Option.bind (error_failure e) reset_hint)"
| "retry_after_seconds _ = None"

definition is_terminal_account_failure :: "pipeline_error \<Rightarrow> bool" where
  "is_terminal_account_failure e \<longleftrightarrow>
     pipeline_failure_class e = Some Exhausted \<or>
     (case e of
        PUpstream (Credentials _) \<Rightarrow> True
      | PProvider f \<Rightarrow> pf_kind f = ''authentication_error''
      | _ \<Rightarrow> False)"

definition humanize :: "duration \<Rightarrow> string" where
  "humanize d =
     (let total = d div from_secs 1;
          days = total div 86400; hours = (total mod 86400) div 3600; minutes = (total mod 3600) div 60
      in if days = 0 \<and> hours = 0 \<and> minutes = 0 then show_nat total @ ''s''
         else if days = 0 \<and> hours = 0 then show_nat minutes @ ''m''
         else if days = 0 then show_nat hours @ ''h '' @ show_nat minutes @ ''m''
         else show_nat days @ ''d '' @ show_nat hours @ ''h'')"

definition quota_exhausted_message :: string where
  "quota_exhausted_message =
     ''upstream account quota exhausted -- check your plan usage, or switch providers with --claude''"

definition credentials_expired :: string where
  "credentials_expired = ''the Codex login has expired -- run `codex login`''"

definition clud_credentials_expired :: string where
  "clud_credentials_expired =
     ''the Codex login has expired -- run `clud auth login codex`''"

definition status_message :: "upstream_failure \<Rightarrow> string" where
  "status_message f =
     (if uf_class f = Exhausted then quota_exhausted_message
      else if uf_status f = 429 then ''upstream rate limited this request''
      else ''upstream provider returned status '' @ show_nat (uf_status f)) @
     (case reset_hint f of None \<Rightarrow> [] | Some d \<Rightarrow> ''; retry in '' @ humanize d) @
     (case uf_request_id f of None \<Rightarrow> [] | Some i \<Rightarrow> '' (request-id '' @ i @ '')'')"

fun client_message :: "pipeline_error \<Rightarrow> string" where
  "client_message (PTranslate what) = translate_error_text what"
| "client_message (PContinuation f) =
     ''invalid tool continuation: '' @ show_nat (cf_unmatched f) @ '' function call(s) have no tool output''"
| "client_message (PCompaction _) =
     ''upstream compaction response could not safely recover the transcript''"
| "client_message (PProvider f) = pf_message f"
| "client_message (PUpstream (Credentials what)) =
     (if what = clud_credentials_expired \<or> what = credentials_expired then what
      else ''the Codex bridge has no upstream credentials'')"
| "client_message (PUpstream (Status f)) = status_message f"
| "client_message (PUpstream CompactMalformed) =
     ''upstream compaction response could not safely recover the transcript''"
| "client_message (PUpstream Timeout) = ''upstream request timed out''"
| "client_message (PUpstream (Transport _)) = ''upstream unreachable''"
| "client_message (PUpstream TooLarge) = ''upstream response exceeded the size budget''"
| "client_message (PUpstream Cancelled) = ''request cancelled''"
| "client_message (PUpstream (Downstream _)) = ''downstream client disconnected''"

end
