(* ===== verification/Conversation_History.thy ===== *)
theory Conversation_History
  imports Route_Health
begin

text \<open>
  \<^verbatim>\<open>codex_history.rs\<close>: conversation keys, the bounded transcript of one conversation, and the store of
  conversations. SHA-256 and the size of a serialised item are parameters (they are library code).
  The store keeps the code's aliasing: a request holds an \<^verbatim>\<open>Arc\<close> of its conversation, so the map holds
  addresses of cells, and evicting a key leaves the cell to whoever holds it.
\<close>

section \<open>Keys\<close>

record conversation_key =
  key_id :: string
  session_prefix :: string

definition bridge_session_conversation :: string where
  "bridge_session_conversation = ''bridge-session''"

definition digest :: "(string \<Rightarrow> string) \<Rightarrow> string \<Rightarrow> string" where
  "digest sha v = concat (map hex_byte (take 8 (sha v)))"

definition nonempty :: "string option \<Rightarrow> string option" where
  "nonempty x = (case x of None \<Rightarrow> None | Some s \<Rightarrow> if s = [] then None else Some s)"

definition from_headers ::
    "(string \<Rightarrow> string) \<Rightarrow> string option \<Rightarrow> string option \<Rightarrow> conversation_key" where
  "from_headers sha session_id agent_id =
     (case nonempty session_id of
        Some session \<Rightarrow>
          let pre = ''session-'' @ digest sha session @ ''-''
          in \<lparr>key_id = (case nonempty agent_id of
                 Some agent \<Rightarrow> pre @ ''agent-'' @ digest sha agent
               | None \<Rightarrow> pre @ ''main''),
              session_prefix = pre\<rparr>
      | None \<Rightarrow>
          (case nonempty agent_id of
             Some agent \<Rightarrow>
               \<lparr>key_id = bridge_session_conversation @ ''-agent-'' @ digest sha agent,
                session_prefix = bridge_session_conversation @ ''-''\<rparr>
           | None \<Rightarrow>
               \<lparr>key_id = bridge_session_conversation,
                session_prefix = bridge_session_conversation\<rparr>))"

definition key_scope :: "conversation_key \<Rightarrow> string" where
  "key_scope k =
     (if key_id k = bridge_session_conversation then ''fallback''
      else if str_contains (key_id k) ''-agent-'' then ''agent''
      else ''main'')"

section \<open>Limits and errors\<close>

record history_limits =
  max_conversations :: nat
  max_items :: nat
  max_bytes :: nat

definition default_limits :: history_limits where
  "default_limits =
     \<lparr>max_conversations = 32, max_items = 16384, max_bytes = 64 * 1024 * 1024\<rparr>"

datatype history_error =
  InvalidConversationId | ConversationLimit | ItemTooLarge | HistoryLimit

fun history_error_text :: "history_error \<Rightarrow> string" where
  "history_error_text InvalidConversationId = ''invalid bridge conversation id''"
| "history_error_text ConversationLimit = ''bridge conversation capacity reached''"
| "history_error_text ItemTooLarge = ''Responses history item exceeds capacity''"
| "history_error_text HistoryLimit = ''Responses history capacity reached''"

definition id_char :: "char \<Rightarrow> bool" where
  "id_char c \<longleftrightarrow> is_ascii_alphanumeric c \<or> c = CHR ''-'' \<or> c = CHR ''_'' \<or> c = CHR ''.''"

definition validate_conversation_id :: "string \<Rightarrow> (history_error, unit) result" where
  "validate_conversation_id i =
     (if i \<noteq> [] \<and> length i \<le> 128 \<and> list_all id_char i then Inr () else Inl InvalidConversationId)"

section \<open>One transcript\<close>

record 'v stored_item =
  it_value :: 'v
  it_bytes :: nat

record 'v conversation_history =
  h_limits :: history_limits
  h_items :: "'v stored_item list"
  h_bytes :: nat
  h_route :: "conversation_route option"
  h_reset :: bool

definition new_history :: "history_limits \<Rightarrow> 'v conversation_history" where
  "new_history limits =
     \<lparr>h_limits = limits, h_items = [], h_bytes = 0, h_route = None, h_reset = False\<rparr>"

definition clear_items :: "'v conversation_history \<Rightarrow> 'v conversation_history" where
  "clear_items h = h\<lparr>h_items := [], h_bytes := 0\<rparr>"

definition clear_history :: "'v conversation_history \<Rightarrow> 'v conversation_history" where
  "clear_history h = (clear_items h)\<lparr>h_reset := False\<rparr>"

definition enter_route ::
    "conversation_route \<Rightarrow> 'v conversation_history \<Rightarrow> 'v conversation_history" where
  "enter_route route h =
     (let h = (case h_route h of
                 Some previous \<Rightarrow> if previous \<noteq> route then clear_history h else h
               | None \<Rightarrow> h)
      in h\<lparr>h_route := Some route\<rparr>)"

definition begin_fallback :: "'v conversation_history \<Rightarrow> 'v conversation_history" where
  "begin_fallback h = (clear_items h)\<lparr>h_reset := True\<rparr>"

definition finish_fallback :: "'v conversation_history \<Rightarrow> 'v conversation_history \<times> bool" where
  "finish_fallback h =
     (if \<not> h_reset h then (h, False) else ((clear_items h)\<lparr>h_reset := False\<rparr>, True))"

definition history_snapshot :: "'v conversation_history \<Rightarrow> 'v list" where
  "history_snapshot h = map it_value (h_items h)"

text \<open>\<open>sz v\<close> is the length of the serialised item, or nothing where serialisation fails.\<close>

fun encode :: "('v \<Rightarrow> nat option) \<Rightarrow> 'v list \<Rightarrow> (history_error, 'v stored_item list) result" where
  "encode sz [] = Inr []"
| "encode sz (v # vs) =
     (case sz v of
        None \<Rightarrow> Inl ItemTooLarge
      | Some n \<Rightarrow> rbind (encode sz vs) (\<lambda>es. Inr (\<lparr>it_value = v, it_bytes = n\<rparr> # es)))"

definition total_bytes :: "'v stored_item list \<Rightarrow> nat" where
  "total_bytes es = sum_list (map it_bytes es)"

definition validate_encoded ::
    "'v stored_item list \<Rightarrow> history_limits \<Rightarrow> (history_error, unit) result" where
  "validate_encoded es limits =
     (if list_ex (\<lambda>e. it_bytes e > max_bytes limits) es then Inl ItemTooLarge else Inr ())"

definition encode_items ::
    "('v \<Rightarrow> nat option) \<Rightarrow> 'v list \<Rightarrow> 'v conversation_history \<Rightarrow>
      (history_error, 'v stored_item list) result" where
  "encode_items sz vs h =
     rbind (encode sz vs) (\<lambda>es.
       let item_count = length (h_items h) + length es; total = h_bytes h + total_bytes es
       in rbind (validate_encoded es (h_limits h)) (\<lambda>_.
            if item_count > max_items (h_limits h) \<or> total > max_bytes (h_limits h)
            then Inl HistoryLimit else Inr es))"

definition encode_replacement ::
    "('v \<Rightarrow> nat option) \<Rightarrow> 'v list \<Rightarrow> 'v conversation_history \<Rightarrow>
      (history_error, 'v stored_item list) result" where
  "encode_replacement sz vs h =
     rbind (encode sz vs) (\<lambda>es.
       rbind (validate_encoded es (h_limits h)) (\<lambda>_.
         if length es > max_items (h_limits h) \<or> total_bytes es > max_bytes (h_limits h)
         then Inl HistoryLimit else Inr es))"

definition append_items ::
    "('v \<Rightarrow> nat option) \<Rightarrow> 'v list \<Rightarrow> 'v conversation_history \<Rightarrow>
      'v conversation_history \<times> (history_error, unit) result" where
  "append_items sz vs h =
     (case encode_items sz vs h of
        Inl e \<Rightarrow> (h, Inl e)
      | Inr es \<Rightarrow> (h\<lparr>h_bytes := h_bytes h + total_bytes es, h_items := h_items h @ es\<rparr>, Inr ()))"

definition append_turn ::
    "('v \<Rightarrow> nat option) \<Rightarrow> 'v list \<Rightarrow> 'v list \<Rightarrow> 'v conversation_history \<Rightarrow>
      'v conversation_history \<times> (history_error, unit) result" where
  "append_turn sz inp out h = append_items sz (inp @ out) h"

definition replace_history ::
    "('v \<Rightarrow> nat option) \<Rightarrow> 'v list \<Rightarrow> 'v conversation_history \<Rightarrow>
      'v conversation_history \<times> (history_error, unit) result" where
  "replace_history sz vs h =
     (case encode_replacement sz vs h of
        Inl e \<Rightarrow> (h, Inl e)
      | Inr es \<Rightarrow> (h\<lparr>h_bytes := total_bytes es, h_items := es\<rparr>, Inr ()))"

definition install_compaction ::
    "('v \<Rightarrow> nat option) \<Rightarrow> 'v list \<Rightarrow> 'v conversation_history \<Rightarrow>
      'v conversation_history \<times> (history_error, unit) result" where
  "install_compaction sz vs h =
     (case replace_history sz vs h of
        (h', Inl e) \<Rightarrow> (h', Inl e)
      | (h', Inr _) \<Rightarrow> (h'\<lparr>h_reset := False\<rparr>, Inr ()))"

section \<open>The store\<close>

record 'v conversation_store =
  cs_limits :: history_limits
  cs_map :: "string \<Rightarrow> nat option"
  cs_cells :: "'v conversation_history list"

definition new_store :: "history_limits \<Rightarrow> 'v conversation_store" where
  "new_store limits = \<lparr>cs_limits = limits, cs_map = (\<lambda>_. None), cs_cells = []\<rparr>"

text \<open>The half of \<^verbatim>\<open>with_history\<close> under the map's lock: the conversation's cell, made on demand.\<close>

definition open_conversation ::
    "string \<Rightarrow> 'v conversation_store \<Rightarrow> 'v conversation_store \<times> (history_error, nat) result" where
  "open_conversation i s =
     (case validate_conversation_id i of
        Inl e \<Rightarrow> (s, Inl e)
      | Inr _ \<Rightarrow>
          (case cs_map s i of
             Some a \<Rightarrow> (s, Inr a)
           | None \<Rightarrow>
               if card (dom (cs_map s)) \<ge> max_conversations (cs_limits s)
               then (s, Inl ConversationLimit)
               else
                 (s\<lparr>cs_map := (cs_map s)(i \<mapsto> length (cs_cells s)),
                    cs_cells := cs_cells s @ [new_history (cs_limits s)]\<rparr>,
                  Inr (length (cs_cells s)))))"

text \<open>The half under the conversation's own lock.\<close>

type_synonym ('v, 'r) history_op =
  "'v conversation_history \<Rightarrow> 'v conversation_history \<times> (history_error, 'r) result"

definition run_on ::
    "nat \<Rightarrow> ('v, 'r) history_op \<Rightarrow> 'v conversation_store \<Rightarrow>
      'v conversation_store \<times> (history_error, 'r) result" where
  "run_on a operation s =
     (let (h, r) = operation (cs_cells s ! a) in (s\<lparr>cs_cells := (cs_cells s)[a := h]\<rparr>, r))"

definition with_history ::
    "string \<Rightarrow> ('v, 'r) history_op \<Rightarrow> 'v conversation_store \<Rightarrow>
      'v conversation_store \<times> (history_error, 'r) result" where
  "with_history i operation s =
     (case open_conversation i s of
        (s', Inl e) \<Rightarrow> (s', Inl e)
      | (s', Inr a) \<Rightarrow> run_on a operation s')"

definition clear_store :: "'v conversation_store \<Rightarrow> 'v conversation_store" where
  "clear_store s = s\<lparr>cs_map := (\<lambda>_. None)\<rparr>"

definition clear_session :: "string \<Rightarrow> 'v conversation_store \<Rightarrow> 'v conversation_store" where
  "clear_session pre s =
     s\<lparr>cs_map := (\<lambda>k. if starts_with k pre then None else cs_map s k)\<rparr>"

section \<open>What a transcript promises\<close>

text \<open>
  The contract a turn relies on: an append or a replacement either takes effect completely or leaves
  the transcript as it was, and the invariant is kept.
\<close>

locale transcript =
  fixes snap :: "'h \<Rightarrow> 'v list"
    and append_to :: "'v list \<Rightarrow> 'v list \<Rightarrow> 'h \<Rightarrow> 'h \<times> ('e, unit) result"
    and replace_by :: "'v list \<Rightarrow> 'h \<Rightarrow> 'h \<times> ('e, unit) result"
    and invar :: "'h \<Rightarrow> bool"
  assumes append_done: "append_to i out h = (h', Inr u) \<Longrightarrow> snap h' = snap h @ i @ out"
    and append_refused: "append_to i out h = (h', Inl e) \<Longrightarrow> h' = h"
    and replace_done: "replace_by vs h = (h', Inr u) \<Longrightarrow> snap h' = vs"
    and replace_refused: "replace_by vs h = (h', Inl e) \<Longrightarrow> h' = h"
    and invar_append: "invar h \<Longrightarrow> invar (fst (append_to i out h))"
    and invar_replace: "invar h \<Longrightarrow> invar (fst (replace_by vs h))"
begin

lemma append_cases:
  obtains (taken) h' where "append_to i out h = (h', Inr ())" "snap h' = snap h @ i @ out"
  | (refused) e where "append_to i out h = (h, Inl e)"
proof (cases "append_to i out h")
  case (Pair h' r)
  show thesis
  proof (cases r)
    case (Inl e)
    with Pair append_refused that(2) show thesis by blast
  next
    case (Inr u)
    with Pair append_done that(1) show thesis by (cases u) blast
  qed
qed

lemma replace_cases:
  obtains (taken) h' where "replace_by vs h = (h', Inr ())" "snap h' = vs"
  | (refused) e where "replace_by vs h = (h, Inl e)"
proof (cases "replace_by vs h")
  case (Pair h' r)
  show thesis
  proof (cases r)
    case (Inl e)
    with Pair replace_refused that(2) show thesis by blast
  next
    case (Inr u)
    with Pair replace_done that(1) show thesis by (cases u) blast
  qed
qed

text \<open>A turn after a recovery sees the compact transcript, and then itself.\<close>

lemma replace_append:
  "replace_by vs h = (h1, Inr u) \<Longrightarrow> append_to i out h1 = (h2, r) \<Longrightarrow>
    snap h2 = (case r of Inr _ \<Rightarrow> vs @ i @ out | Inl _ \<Rightarrow> vs)"
  by (cases r) (auto dest: append_done append_refused replace_done)

end

definition history_ok :: "'v conversation_history \<Rightarrow> bool" where
  "history_ok h \<longleftrightarrow>
     h_bytes h = total_bytes (h_items h) \<and> length (h_items h) \<le> max_items (h_limits h) \<and>
     h_bytes h \<le> max_bytes (h_limits h)"

lemma total_bytes_append [simp]: "total_bytes (xs @ ys) = total_bytes xs + total_bytes ys"
  by (simp add: total_bytes_def)

lemma encode_values: "encode sz vs = Inr es \<Longrightarrow> map it_value es = vs"
  by (induction vs arbitrary: es) (auto simp: rbind_Inr_iff split: option.splits)

lemma encode_items_ok:
  "encode_items sz vs h = Inr es \<Longrightarrow> map it_value es = vs \<and>
    length (h_items h) + length es \<le> max_items (h_limits h) \<and>
    h_bytes h + total_bytes es \<le> max_bytes (h_limits h)"
  by (auto simp: encode_items_def rbind_Inr_iff Let_def split: if_splits dest: encode_values)

lemma encode_replacement_ok:
  "encode_replacement sz vs h = Inr es \<Longrightarrow> map it_value es = vs \<and>
    length es \<le> max_items (h_limits h) \<and> total_bytes es \<le> max_bytes (h_limits h)"
  by (auto simp: encode_replacement_def rbind_Inr_iff split: if_splits dest: encode_values)

lemma append_turn_ok: "history_ok h \<Longrightarrow> history_ok (fst (append_turn sz i out h))"
  by (auto simp: append_turn_def append_items_def history_ok_def split: sum.splits
      dest!: encode_items_ok)

lemma replace_history_ok: "history_ok h \<Longrightarrow> history_ok (fst (replace_history sz vs h))"
  by (auto simp: replace_history_def history_ok_def split: sum.splits dest!: encode_replacement_ok)

interpretation kept: transcript history_snapshot "append_turn sz" "replace_history sz" history_ok
  for sz :: "'v \<Rightarrow> nat option"
proof unfold_locales
  fix i out vs :: "'v list" and h h' :: "'v conversation_history" and u :: unit and e
  show "append_turn sz i out h = (h', Inr u) \<Longrightarrow> history_snapshot h' = history_snapshot h @ i @ out"
    by (auto simp: append_turn_def append_items_def history_snapshot_def split: sum.splits
        dest!: encode_items_ok)
  show "append_turn sz i out h = (h', Inl e) \<Longrightarrow> h' = h"
    by (simp add: append_turn_def append_items_def split: sum.splits)
  show "replace_history sz vs h = (h', Inr u) \<Longrightarrow> history_snapshot h' = vs"
    by (auto simp: replace_history_def history_snapshot_def split: sum.splits
        dest!: encode_replacement_ok)
  show "replace_history sz vs h = (h', Inl e) \<Longrightarrow> h' = h"
    by (simp add: replace_history_def split: sum.splits)
  show "history_ok h \<Longrightarrow> history_ok (fst (append_turn sz i out h))" by (rule append_turn_ok)
  show "history_ok h \<Longrightarrow> history_ok (fst (replace_history sz vs h))" by (rule replace_history_ok)
qed

section \<open>Every operation a request performs\<close>

inductive history_step ::
    "('v \<Rightarrow> nat option) \<Rightarrow> 'v conversation_history \<Rightarrow> 'v conversation_history \<Rightarrow> bool" for sz where
  step_enter: "history_step sz h (enter_route r h)"
| step_clear: "history_step sz h (clear_history h)"
| step_begin: "history_step sz h (begin_fallback h)"
| step_finish: "history_step sz h (fst (finish_fallback h))"
| step_append: "history_step sz h (fst (append_turn sz i out h))"
| step_replace: "history_step sz h (fst (replace_history sz vs h))"
| step_install: "history_step sz h (fst (install_compaction sz vs h))"
| step_chain: "history_step sz h h' \<Longrightarrow> history_step sz h' h'' \<Longrightarrow> history_step sz h h''"

lemma clear_items_ok: "history_ok h \<Longrightarrow> history_ok (clear_items h)"
  by (simp add: history_ok_def clear_items_def total_bytes_def)

lemma history_ok_fields [simp]:
  "history_ok (h\<lparr>h_route := r\<rparr>) = history_ok h" "history_ok (h\<lparr>h_reset := b\<rparr>) = history_ok h"
  by (simp_all add: history_ok_def)

lemma install_compaction_ok: "history_ok h \<Longrightarrow> history_ok (fst (install_compaction sz vs h))"
  using replace_history_ok [of h sz vs] by (auto simp: install_compaction_def split: prod.splits sum.splits)

lemma history_step_ok: "history_step sz h h' \<Longrightarrow> history_ok h \<Longrightarrow> history_ok h'"
  by (induction rule: history_step.induct)
    (auto simp: enter_route_def clear_history_def begin_fallback_def finish_fallback_def Let_def
      clear_items_ok append_turn_ok replace_history_ok install_compaction_ok split: option.splits)

lemma clear_items_limits: "h_limits (clear_items h) = h_limits h"
  by (simp add: clear_items_def)

lemma history_step_limits: "history_step sz h h' \<Longrightarrow> h_limits h' = h_limits h"
  by (induction rule: history_step.induct)
    (auto simp: enter_route_def clear_history_def begin_fallback_def finish_fallback_def Let_def
      clear_items_limits append_turn_def append_items_def replace_history_def install_compaction_def
      split: option.splits sum.splits prod.splits)

text \<open>
  Requests interleave on the store: a request opens its conversation, works on the cell it holds at any
  later time, and sessions end in between.
\<close>

inductive store_step ::
    "('v \<Rightarrow> nat option) \<Rightarrow> 'v conversation_store \<Rightarrow> 'v conversation_store \<Rightarrow> bool" for sz where
  step_open: "store_step sz s (fst (open_conversation i s))"
| step_run: "a < length (cs_cells s) \<Longrightarrow> history_step sz (cs_cells s ! a) h \<Longrightarrow>
    store_step sz s (s\<lparr>cs_cells := (cs_cells s)[a := h]\<rparr>)"
| step_clear_session: "store_step sz s (clear_session pre s)"
| step_clear_store: "store_step sz s (clear_store s)"

inductive_cases store_stepE: "store_step sz s s'"

definition store_steps ::
    "('v \<Rightarrow> nat option) \<Rightarrow> 'v conversation_store \<Rightarrow> 'v conversation_store \<Rightarrow> bool" where
  "store_steps sz = (store_step sz)\<^sup>*\<^sup>*"

definition store_ok :: "'v conversation_store \<Rightarrow> bool" where
  "store_ok s \<longleftrightarrow>
     finite (dom (cs_map s)) \<and> card (dom (cs_map s)) \<le> max_conversations (cs_limits s) \<and>
     (\<forall>i a. cs_map s i = Some a \<longrightarrow> a < length (cs_cells s)) \<and> inj_on (cs_map s) (dom (cs_map s)) \<and>
     (\<forall>h \<in> set (cs_cells s). history_ok h \<and> h_limits h = cs_limits s)"

lemma new_store_ok: "store_ok (new_store limits)"
  by (simp add: store_ok_def new_store_def)

lemma new_history_ok: "history_ok (new_history limits)"
  by (simp add: history_ok_def new_history_def total_bytes_def)

lemma open_conversation_ok:
  assumes "store_ok s"
  shows "store_ok (fst (open_conversation i s))"
proof (cases "validate_conversation_id i = Inr () \<and> cs_map s i = None \<and>
    card (dom (cs_map s)) < max_conversations (cs_limits s)")
  case False
  then have "fst (open_conversation i s) = s"
    by (auto simp: open_conversation_def split: sum.splits option.splits)
  with assms show ?thesis by simp
next
  case True
  let ?n = "length (cs_cells s)"
  have "?n \<notin> {a. \<exists>j. cs_map s j = Some a}" using assms by (auto simp: store_ok_def)
  then have "inj_on ((cs_map s)(i \<mapsto> ?n)) (insert i (dom (cs_map s)))"
    using assms True by (auto simp: store_ok_def inj_on_def dom_def)
  moreover have "card (insert i (dom (cs_map s))) = Suc (card (dom (cs_map s)))"
    using assms True by (auto simp: store_ok_def dom_def)
  ultimately show ?thesis
    using assms True
    by (auto simp: open_conversation_def store_ok_def new_history_ok less_Suc_eq)
      (simp_all add: new_history_def)
qed

lemma submap_ok:
  assumes "store_ok s" "\<And>i. m i = None \<or> m i = cs_map s i"
  shows "store_ok (s\<lparr>cs_map := m\<rparr>)"
proof -
  have sub: "m i = Some a \<Longrightarrow> cs_map s i = Some a" for i a using assms(2) [of i] by auto
  then have dom: "dom m \<subseteq> dom (cs_map s)" by (auto simp: dom_def)
  have "finite (dom (cs_map s))" using assms(1) by (simp add: store_ok_def)
  then have "card (dom m) \<le> card (dom (cs_map s))" "finite (dom m)"
    using dom by (auto intro: card_mono finite_subset)
  moreover have "inj_on m (dom m)"
  proof (rule inj_onI)
    fix i j
    assume i: "i \<in> dom m" and j: "j \<in> dom m" and eq: "m i = m j"
    then have "cs_map s i = cs_map s j" using sub by (metis domD)
    with i j dom assms(1) show "i = j"
      using inj_onD [of "cs_map s" "dom (cs_map s)" i j] by (auto simp: store_ok_def)
  qed
  ultimately show ?thesis using assms(1) sub by (auto simp: store_ok_def)
qed

lemma store_step_ok: "store_step sz s s' \<Longrightarrow> store_ok s \<Longrightarrow> store_ok s'"
proof (induction rule: store_step.induct)
  case (step_open s i)
  then show ?case by (rule open_conversation_ok)
next
  case (step_run a s h)
  have "history_ok h \<and> h_limits h = cs_limits s"
    using step_run history_step_ok [OF step_run(2)] history_step_limits [OF step_run(2)]
    by (simp add: store_ok_def)
  then show ?case
    using step_run(3) set_update_subset_insert [of "cs_cells s" a h] by (auto simp: store_ok_def)
next
  case (step_clear_session s pre)
  then show ?case unfolding clear_session_def by (rule submap_ok) simp
next
  case (step_clear_store s)
  then show ?case unfolding clear_store_def by (rule submap_ok) simp
qed

lemma store_steps_ok: "store_steps sz s s' \<Longrightarrow> store_ok s \<Longrightarrow> store_ok s'"
  unfolding store_steps_def by (induction rule: rtranclp_induct) (auto intro: store_step_ok)

lemma store_steps_limits: "store_steps sz s s' \<Longrightarrow> cs_limits s' = cs_limits s"
  unfolding store_steps_def
  by (induction rule: rtranclp_induct)
    (auto elim!: store_stepE simp: open_conversation_def clear_session_def clear_store_def
      split: sum.splits option.splits)

text \<open>Cells are never reused: a key that maps to an old cell in the end mapped to it all along.\<close>

lemma store_step_old:
  assumes "store_step sz s s'" "n \<le> length (cs_cells s)"
  shows "n \<le> length (cs_cells s') \<and> (\<forall>a < n. cs_map s' i = Some a \<longrightarrow> cs_map s i = Some a)"
  using assms
  by (auto elim!: store_stepE simp: open_conversation_def clear_session_def clear_store_def
      split: sum.splits option.splits if_splits)

lemma store_steps_old:
  assumes "store_steps sz s s'" "n \<le> length (cs_cells s)"
  shows "n \<le> length (cs_cells s') \<and> (\<forall>a < n. cs_map s' i = Some a \<longrightarrow> cs_map s i = Some a)"
  using assms(1) unfolding store_steps_def
proof (induction rule: rtranclp_induct)
  case base
  with assms(2) show ?case by simp
next
  case (step s1 s2)
  with store_step_old [OF step(2), of n i] show ?case by auto
qed

section \<open>Keys of a session\<close>

lemma hex_byte_length [simp]: "length (hex_byte c) = 2"
  by (simp add: hex_byte_def)

lemma sum_two: "(\<Sum>c\<leftarrow>cs. 2) = 2 * length cs"
  by (induction cs) simp_all

lemma digest_length: "8 \<le> length (sha v) \<Longrightarrow> length (digest sha v) = 16"
  by (simp add: digest_def length_concat comp_def sum_two min_absorb2)

lemma hex_digit_id_char: "n < 16 \<Longrightarrow> id_char (hex_digit n)"
  by (cases "n < 10")
    (simp_all add: hex_digit_def id_char_def is_ascii_alphanumeric_def is_digit_def is_lower_def)

lemma digest_id_chars: "list_all id_char (digest sha v)"
proof -
  have "code_of c < 256" for c by (simp add: code_of_def)
  then have "list_all id_char (hex_byte c)" for c
    by (simp add: hex_byte_def hex_digit_id_char less_mult_imp_div_less)
  then show ?thesis by (auto simp: digest_def list_all_iff)
qed

lemma session_key:
  assumes "sid \<noteq> []"
  shows "starts_with (key_id (from_headers sha (Some sid) ag)) (''session-'' @ digest sha sid @ ''-'')"
    and "session_prefix (from_headers sha (Some sid) ag) = ''session-'' @ digest sha sid @ ''-''"
  using assms by (auto simp: from_headers_def nonempty_def starts_with_def split: option.splits)

lemma session_key_apart:
  assumes "sid \<noteq> []" "8 \<le> length (sha sid)" "8 \<le> length (sha sid')" "digest sha sid \<noteq> digest sha sid'"
  shows "\<not> starts_with (key_id (from_headers sha (Some sid) ag)) (''session-'' @ digest sha sid' @ ''-'')"
proof
  assume "starts_with (key_id (from_headers sha (Some sid) ag)) (''session-'' @ digest sha sid' @ ''-'')"
  then obtain r where "key_id (from_headers sha (Some sid) ag) = ''session-'' @ digest sha sid' @ ''-'' @ r"
    by (auto simp: starts_with_def prefix_def)
  moreover obtain q where "key_id (from_headers sha (Some sid) ag) = ''session-'' @ digest sha sid @ ''-'' @ q"
    using session_key(1) [OF assms(1)] by (auto simp: starts_with_def prefix_def)
  ultimately have "digest sha sid' @ ''-'' @ r = digest sha sid @ ''-'' @ q" by simp
  with assms digest_length [of sha sid] digest_length [of sha sid'] show False by simp
qed

lemma key_ids_valid:
  assumes "\<And>v. 8 \<le> length (sha v)"
  shows "validate_conversation_id (key_id (from_headers sha session agent)) = Inr ()"
proof -
  have "list_all id_char ''session-'' \<and> list_all id_char ''agent-'' \<and> list_all id_char ''-main'' \<and>
      list_all id_char ''bridge-session-agent-''" by code_simp
  then show ?thesis
    using digest_id_chars [of sha] digest_length [of sha, OF assms]
    by (auto simp: validate_conversation_id_def from_headers_def nonempty_def
        bridge_session_conversation_def Let_def split: option.splits)
qed

section \<open>Properties\<close>

text \<open>
  C16. However requests interleave, the store stays within its limits: no more conversations than
  configured, and every transcript, even one whose session ended while a request held it, accounts for
  its bytes exactly and stays within the item and byte limits.
\<close>

theorem store_within_limits:
  assumes "store_steps sz (new_store limits) s"
  shows "card (dom (cs_map s)) \<le> max_conversations limits \<and>
    (\<forall>h \<in> set (cs_cells s). length (h_items h) \<le> max_items limits \<and>
      h_bytes h = total_bytes (h_items h) \<and> h_bytes h \<le> max_bytes limits)"
proof -
  have "store_ok s" using store_steps_ok [OF assms new_store_ok] .
  moreover have "cs_limits s = limits"
    using store_steps_limits [OF assms] by (simp add: new_store_def)
  ultimately show ?thesis by (auto simp: store_ok_def history_ok_def)
qed

definition demo_sha :: "string \<Rightarrow> string" where
  "demo_sha v = take 8 (v @ replicate 8 (CHR ''0''))"

definition demo_limits :: history_limits where
  "demo_limits = \<lparr>max_conversations = 2, max_items = 3, max_bytes = 10\<rparr>"

definition demo_store :: "nat conversation_store" where
  "demo_store = fst (open_conversation ''main'' (new_store demo_limits))"

lemma demo_store_steps: "store_steps sz (new_store demo_limits) demo_store"
  unfolding store_steps_def demo_store_def by (intro r_into_rtranclp step_open)

lemma demo_store_cells: "cs_cells demo_store = [new_history demo_limits]"
proof -
  have "list_all id_char ''main''" by code_simp
  then show ?thesis
    by (simp add: demo_store_def open_conversation_def validate_conversation_id_def new_store_def demo_limits_def)
qed

theorem store_within_limits_witness: "h_bytes (cs_cells demo_store ! 0) \<le> 10"
  using store_within_limits [OF demo_store_steps [of Some]]
  by (simp add: demo_store_cells demo_limits_def)



end
