(* ===== verification/Turn_Pipeline.thy ===== *)
theory Turn_Pipeline
  imports Pipeline_Error Conversation_History Sse_Protocol
begin

text \<open>
  \<^verbatim>\<open>codex_pipeline.rs\<close>, one turn: the pump that decodes, translates and forwards what the upstream
  sends, the frames withheld until something visible came, the attempt, the one recovery by compaction,
  and the commit of the turn to the transcript. The upstream client is an environment: the attempts it
  makes (\<open>Upstream_Retry\<close> models when), each with its reads and its end; the client's writer is a
  function of what it was sent so far. Request translation and the compaction call are parameters.
\<close>

section \<open>Forwarding\<close>

type_synonym sink = "aframe list \<Rightarrow> aframe \<Rightarrow> upstream_error option"

record 'v attempt =
  at_decoder :: frame_decoder
  at_translator :: translator
  at_items :: "'v list"
  at_completed :: bool
  at_visible :: bool
  at_deferred :: "aframe list"
  at_delivered :: bool
  at_sent :: "aframe list"

definition new_attempt :: "string \<Rightarrow> string \<Rightarrow> (string \<Rightarrow> string option) \<Rightarrow> aframe list \<Rightarrow> 'v attempt" where
  "new_attempt model mid names sent =
     \<lparr>at_decoder = new_decoder, at_translator = new_translator model mid names, at_items = [],
      at_completed = False, at_visible = False, at_deferred = [], at_delivered = False, at_sent = sent\<rparr>"

fun frame_visible :: "aframe \<Rightarrow> bool" where
  "frame_visible (BlockStart _ _) = True"
| "frame_visible (BlockDelta _ _) = True"
| "frame_visible _ = False"

fun deliver :: "sink \<Rightarrow> aframe list \<Rightarrow> aframe list \<Rightarrow> aframe list \<times> upstream_error option" where
  "deliver snk [] sent = (sent, None)"
| "deliver snk (f # fs) sent =
     (case snk sent f of
        Some e \<Rightarrow> (sent @ [f], Some e)
      | None \<Rightarrow> deliver snk fs (sent @ [f]))"

text \<open>Sending commits before the writer is called.\<close>

definition send_frames ::
    "sink \<Rightarrow> aframe list \<Rightarrow> 'v attempt \<Rightarrow> 'v attempt \<times> upstream_error option" where
  "send_frames snk fs a =
     (let (sent, err) = deliver snk fs (at_sent a)
      in (a\<lparr>at_delivered := at_delivered a \<or> fs \<noteq> [], at_sent := sent\<rparr>, err))"

definition forward ::
    "sink \<Rightarrow> aframe list \<Rightarrow> 'v attempt \<Rightarrow> 'v attempt \<times> upstream_error option" where
  "forward snk frames a =
     (let (a, err) =
        (if list_ex frame_visible frames \<and> \<not> at_visible a
         then send_frames snk (at_deferred a) (a\<lparr>at_visible := True, at_deferred := []\<rparr>)
         else (a, None))
      in case err of
           Some e \<Rightarrow> (a, Some e)
         | None \<Rightarrow>
             if at_visible a then send_frames snk frames a
             else (a\<lparr>at_deferred := at_deferred a @ frames\<rparr>, None))"

section \<open>The pump\<close>

definition response_terminated :: "'v json_api \<Rightarrow> sse_frame \<Rightarrow> bool" where
  "response_terminated J frame \<longleftrightarrow>
     (case Option.bind (from_str J (data frame)) (\<lambda>v. get_str J v ''type'') of
        None \<Rightarrow> False
      | Some k \<Rightarrow> k = ''response.completed'' \<or> k = ''response.incomplete'')"

definition capture_output_item :: "'v json_api \<Rightarrow> sse_frame \<Rightarrow> 'v list \<Rightarrow> 'v list" where
  "capture_output_item J frame items =
     (case from_str J (data frame) of
        None \<Rightarrow> items
      | Some v \<Rightarrow>
          if get_str J v ''type'' = Some ''response.output_item.done''
          then (case get_field J v ''item'' of None \<Rightarrow> items | Some item \<Rightarrow> items @ [item])
          else items)"

definition pump_frame ::
    "'v json_api \<Rightarrow> sink \<Rightarrow> sse_frame \<Rightarrow> 'v attempt \<Rightarrow> 'v attempt \<times> upstream_error option" where
  "pump_frame J snk frame a =
     (let (tr, frames) = push_frame J frame (at_translator a)
      in forward snk frames
           (a\<lparr>at_completed := at_completed a \<or> response_terminated J frame,
              at_items := capture_output_item J frame (at_items a), at_translator := tr\<rparr>))"

fun pump_frames ::
    "'v json_api \<Rightarrow> sink \<Rightarrow> sse_frame list \<Rightarrow> 'v attempt \<Rightarrow> 'v attempt \<times> upstream_error option" where
  "pump_frames J snk [] a = (a, None)"
| "pump_frames J snk (f # fs) a =
     (case pump_frame J snk f a of
        (a', Some e) \<Rightarrow> (a', Some e)
      | (a', None) \<Rightarrow> pump_frames J snk fs a')"

definition pump ::
    "'v json_api \<Rightarrow> sink \<Rightarrow> string \<Rightarrow> 'v attempt \<Rightarrow> 'v attempt \<times> upstream_error option" where
  "pump J snk chunk a =
     (let (d, frames) = push (at_decoder a) chunk in pump_frames J snk frames (a\<lparr>at_decoder := d\<rparr>))"

section \<open>The upstream client\<close>

text \<open>
  What the client does with one request: the reads of each attempt and how it ends when the pump does
  not stop it (\<open>None\<close> is success), whether its budget ends there; and the error when it makes no
  further attempt (no credentials, cancelled).
\<close>

record client_attempt =
  ca_reads :: "string list"
  ca_end :: "upstream_error option"
  ca_gives_up :: bool

record client =
  cl_attempts :: "client_attempt list"
  cl_refusal :: upstream_error

fun run_reads ::
    "'v json_api \<Rightarrow> sink \<Rightarrow> string list \<Rightarrow> 'v attempt \<Rightarrow> 'v attempt \<times> upstream_error option" where
  "run_reads J snk [] a = (a, None)"
| "run_reads J snk (c # cs) a =
     (case pump J snk c a of
        (a', Some e) \<Rightarrow> (a', Some e)
      | (a', None) \<Rightarrow> run_reads J snk cs a')"

fun run_client ::
    "'v json_api \<Rightarrow> sink \<Rightarrow> client_attempt list \<Rightarrow> upstream_error \<Rightarrow> 'v attempt \<Rightarrow>
      'v attempt \<times> upstream_error option" where
  "run_client J snk [] refusal a = (a, Some refusal)"
| "run_client J snk (c # cs) refusal a =
     (let (a', err) = run_reads J snk (ca_reads c) a
      in case or_else err (ca_end c) of
           None \<Rightarrow> (a', None)
         | Some e \<Rightarrow>
             if at_delivered a' \<or> \<not> is_retryable e \<or> ca_gives_up c then (a', Some e)
             else run_client J snk cs refusal a')"

section \<open>One attempt of the pipeline\<close>

record 'v attempt_outcome =
  ao_terminal_account_failure :: bool
  ao_in_band_failure :: "in_band_failure option"
  ao_in_band_provider_failure :: bool
  ao_output_items :: "'v list"
  ao_visible :: bool
  ao_deferred_frames :: "aframe list"
  ao_pre_output_failure :: "upstream_error option"

definition outcome_of :: "'v attempt \<Rightarrow> 'v attempt_outcome" where
  "outcome_of a =
     \<lparr>ao_terminal_account_failure = tr_terminal_account_failure (at_translator a),
      ao_in_band_failure = tr_in_band_failure (at_translator a),
      ao_in_band_provider_failure = tr_in_band_provider_failure (at_translator a),
      ao_output_items = at_items a, ao_visible = at_visible a, ao_deferred_frames = at_deferred a,
      ao_pre_output_failure = None\<rparr>"

text \<open>A translator operation whose frames are forwarded.\<close>

definition forward_op :: "sink \<Rightarrow> op \<Rightarrow> 'v attempt \<Rightarrow> 'v attempt \<times> upstream_error option" where
  "forward_op snk m a =
     (let (tr, frames) = m (at_translator a) in forward snk frames (a\<lparr>at_translator := tr\<rparr>))"

definition stream_failed ::
    "'v json_api \<Rightarrow> sink \<Rightarrow> upstream_error \<Rightarrow> 'v attempt \<Rightarrow>
      'v attempt \<times> (pipeline_error, 'v attempt_outcome) result" where
  "stream_failed J snk e a =
     (if \<not> at_delivered a \<and> is_context_length_error e then
        (a, Inr ((outcome_of a)
           \<lparr>ao_terminal_account_failure := False, ao_in_band_failure := None,
            ao_in_band_provider_failure := False, ao_pre_output_failure := Some e\<rparr>))
      else if \<not> tr_finished (at_translator a) then
        (case forward_op snk (fail_opaque J) a of
           (a', Some e') \<Rightarrow> (a', Inl (PUpstream e'))
         | (a', None) \<Rightarrow> (a', Inl (PUpstream e)))
      else (a, Inl (PUpstream e)))"

definition stream_ended ::
    "'v json_api \<Rightarrow> sink \<Rightarrow> 'v attempt \<Rightarrow> 'v attempt \<times> (pipeline_error, 'v attempt_outcome) result" where
  "stream_ended J snk a =
     (let in_band = tr_in_band_provider_failure (at_translator a)
      in if \<not> at_completed a \<and> \<not> in_band then
           (case (if \<not> tr_finished (at_translator a) then forward_op snk (fail_opaque J) a else (a, None)) of
              (a', Some e') \<Rightarrow> (a', Inl (PUpstream e'))
            | (a', None) \<Rightarrow>
                (a', Inl (PUpstream (Transport ''stream ended before a terminal response event''))))
         else (a, Inr (outcome_of a)))"

definition stream_attempt ::
    "'v json_api \<Rightarrow> sink \<Rightarrow> client \<Rightarrow> string \<Rightarrow> string \<Rightarrow> (string \<Rightarrow> string option) \<Rightarrow> aframe list \<Rightarrow>
      'v attempt \<times> (pipeline_error, 'v attempt_outcome) result" where
  "stream_attempt J snk cl model mid names sent =
     (case run_client J snk (cl_attempts cl) (cl_refusal cl) (new_attempt model mid names sent) of
        (a, Some e) \<Rightarrow> stream_failed J snk e a
      | (a, None) \<Rightarrow>
          let (d, frames) = finish (at_decoder a)
          in (case pump_frames J snk frames (a\<lparr>at_decoder := d\<rparr>) of
                (a1, Some e) \<Rightarrow> (a1, Inl (PUpstream e))
              | (a1, None) \<Rightarrow>
                  (case (if at_completed a1 then forward_op snk finish_turn a1 else (a1, None)) of
                     (a2, Some e) \<Rightarrow> (a2, Inl (PUpstream e))
                   | (a2, None) \<Rightarrow> stream_ended J snk a2)))"

section \<open>A turn\<close>

record 'v prepared =
  pr_model :: string
  pr_tool_names :: "string \<Rightarrow> string option"
  pr_translated :: "'v list"
  pr_pending :: "'v list"

record 'v turn_env =
  te_prepared :: "(pipeline_error, 'v prepared) result"
  te_client :: "nat \<Rightarrow> 'v list \<Rightarrow> client"
  te_compact :: "'v list \<Rightarrow> (pipeline_error, 'v list) result"
  te_size :: "'v \<Rightarrow> nat option"
  te_render :: "'v \<Rightarrow> string"
  te_user_text :: "string \<Rightarrow> 'v"

record 'v stream_summary =
  ss_terminal_account_failure :: bool
  ss_in_band_failure :: "in_band_failure option"
  ss_orphaned_outputs_repaired :: nat
  ss_pending_outputs_recovered :: nat
  ss_output_items :: "'v list"
  ss_history_append_rejected :: bool

definition history_failure :: "history_error \<Rightarrow> pipeline_error" where
  "history_failure e = PTranslate (history_error_text e)"

definition record_successful_turn ::
    "('v \<Rightarrow> nat option) \<Rightarrow> 'v list \<Rightarrow> 'v list \<Rightarrow> 'v conversation_history \<Rightarrow>
      'v conversation_history \<times> (pipeline_error, bool) result" where
  "record_successful_turn sz pending items h =
     (case append_turn sz pending items h of
        (h', Inr _) \<Rightarrow> (h', Inr False)
      | (h', Inl e) \<Rightarrow>
          (h', if e = HistoryLimit \<or> e = ItemTooLarge then Inr True else Inl (history_failure e)))"

text \<open>
  The end of a turn, the same after a first attempt and after a recovery: withheld frames go out, an
  in-band failure commits nothing, a success commits the turn.
\<close>

definition conclude_turn ::
    "('v \<Rightarrow> nat option) \<Rightarrow> sink \<Rightarrow> nat \<Rightarrow> nat \<Rightarrow> 'v list \<Rightarrow> 'v attempt_outcome \<Rightarrow> aframe list \<Rightarrow>
      'v conversation_history option \<Rightarrow>
      aframe list \<times> 'v conversation_history option \<times> (pipeline_error, 'v stream_summary) result" where
  "conclude_turn sz snk repaired recovered turn_input out sent history =
     (case ao_pre_output_failure out of
        Some e \<Rightarrow> (sent, history, Inl (PUpstream e))
      | None \<Rightarrow>
          (case deliver snk (ao_deferred_frames out) sent of
             (sent', Some e) \<Rightarrow> (sent', history, Inl (PUpstream e))
           | (sent', None) \<Rightarrow>
               let summary = \<lparr>ss_terminal_account_failure = ao_terminal_account_failure out,
                 ss_in_band_failure = ao_in_band_failure out, ss_orphaned_outputs_repaired = repaired,
                 ss_pending_outputs_recovered = recovered, ss_output_items = ao_output_items out,
                 ss_history_append_rejected = False\<rparr>
               in if ao_in_band_provider_failure out then
                    (sent', history, Inr (summary\<lparr>ss_output_items := []\<rparr>))
                  else
                    (case history of
                       None \<Rightarrow> (sent', None, Inr summary)
                     | Some h \<Rightarrow>
                         (case record_successful_turn sz turn_input (ao_output_items out) h of
                            (h', Inl e) \<Rightarrow> (sent', Some h', Inl e)
                          | (h', Inr rejected) \<Rightarrow>
                              (sent', Some h', Inr (summary\<lparr>ss_history_append_rejected := rejected\<rparr>))))))"

definition should_recover :: "'v attempt_outcome \<Rightarrow> 'v conversation_history option \<Rightarrow> bool" where
  "should_recover out history \<longleftrightarrow>
     \<not> ao_visible out \<and>
     ((case ao_pre_output_failure out of None \<Rightarrow> False | Some e \<Rightarrow> is_context_length_error e) \<or>
      Option.bind (ao_in_band_failure out) ib_code = Some ''context_length_exceeded'') \<and>
     (case history of None \<Rightarrow> False | Some h \<Rightarrow> history_snapshot h \<noteq> [])"

definition assemble_turn ::
    "'v json_api \<Rightarrow> 'v turn_env \<Rightarrow> 'v prepared \<Rightarrow> 'v conversation_history option \<Rightarrow>
      (pipeline_error, 'v list \<times> 'v list \<times> nat) result" where
  "assemble_turn J env pr history =
     (case history of
        None \<Rightarrow> Inr (pr_translated pr, pr_translated pr, 0)
      | Some h \<Rightarrow>
          let assembled = history_aware_input J (te_render env) (te_user_text env) (history_snapshot h)
                (pr_translated pr) (pr_pending pr)
          in (case validate_continuation_input J (fst assembled) (pr_translated pr) of
                Inl f \<Rightarrow> Inl (PContinuation f)
              | Inr _ \<Rightarrow> Inr assembled))"

text \<open>The one recovery: compact the transcript, replace it, repair the turn against it, try again.\<close>

definition recover_turn ::
    "'v json_api \<Rightarrow> sink \<Rightarrow> 'v turn_env \<Rightarrow> string \<Rightarrow> 'v prepared \<Rightarrow> 'v list \<Rightarrow> nat \<Rightarrow> aframe list \<Rightarrow>
      'v conversation_history \<Rightarrow>
      aframe list \<times> 'v conversation_history option \<times> (pipeline_error, 'v stream_summary) result" where
  "recover_turn J snk env mid pr turn_input recovered sent h =
     (case te_compact env (history_snapshot h) of
        Inl e \<Rightarrow> (sent, Some h, Inl e)
      | Inr compact \<Rightarrow>
          (case replace_history (te_size env) compact h of
             (h', Inl e) \<Rightarrow> (sent, Some h', Inl (history_failure e))
           | (h', Inr _) \<Rightarrow>
               let (turn_input', repaired) =
                     repair_orphaned_outputs J (te_render env) (te_user_text env) turn_input compact;
                   input = compact @ turn_input'
               in (case validate_continuation_input J input [] of
                     Inl f \<Rightarrow> (sent, Some h', Inl (PContinuation f))
                   | Inr _ \<Rightarrow>
                       (case stream_attempt J snk (te_client env 2 input) (pr_model pr) mid
                            (pr_tool_names pr) sent of
                          (a, Inl e) \<Rightarrow> (at_sent a, Some h', Inl e)
                        | (a, Inr out) \<Rightarrow>
                            conclude_turn (te_size env) snk repaired recovered turn_input' out
                              (at_sent a) (Some h')))))"

definition stream_inner ::
    "'v json_api \<Rightarrow> sink \<Rightarrow> 'v turn_env \<Rightarrow> string \<Rightarrow> 'v conversation_history option \<Rightarrow>
      aframe list \<times> 'v conversation_history option \<times> (pipeline_error, 'v stream_summary) result" where
  "stream_inner J snk env mid history =
     (case te_prepared env of
        Inl e \<Rightarrow> ([], history, Inl e)
      | Inr pr \<Rightarrow>
          (case assemble_turn J env pr history of
             Inl e \<Rightarrow> ([], history, Inl e)
           | Inr (upstream_input, turn_input, recovered) \<Rightarrow>
               (case stream_attempt J snk (te_client env 1 upstream_input) (pr_model pr) mid
                    (pr_tool_names pr) [] of
                  (a, Inl e) \<Rightarrow> (at_sent a, history, Inl e)
                | (a, Inr first) \<Rightarrow>
                    (case if should_recover first history then history else None of
                       Some h \<Rightarrow> recover_turn J snk env mid pr turn_input recovered (at_sent a) h
                     | None \<Rightarrow>
                         conclude_turn (te_size env) snk 0 recovered turn_input first (at_sent a) history))))"

definition clear_after_commit ::
    "'v stream_summary \<Rightarrow> 'v conversation_history \<Rightarrow> 'v conversation_history" where
  "clear_after_commit s h = (if ss_history_append_rejected s then clear_history h else h)"

section \<open>In-band failures end the turn\<close>

text \<open>No operation but \<open>fail_turn\<close> declares a provider failure, and that one finishes the turn.\<close>

interpretation band: event_law "\<lambda>st. tr_in_band_provider_failure st = b" "\<lambda>_. True" for b
  by unfold_locales (simp_all add: list_all_iff)

definition band_ok :: "translator \<Rightarrow> bool" where
  "band_ok st \<longleftrightarrow> (tr_in_band_provider_failure st \<longrightarrow> tr_finished st)"

definition keeps_band :: "op \<Rightarrow> bool" where
  "keeps_band m \<longleftrightarrow> (\<forall>st. \<not> tr_finished st \<longrightarrow> band_ok st \<longrightarrow> band_ok (fst (m st)))"

lemma law_keeps:
  "(\<And>b. obeys (\<lambda>st. tr_in_band_provider_failure st = b) (\<lambda>_. True) m) \<Longrightarrow> keeps_band m"
  by (auto simp: obeys_def keeps_band_def band_ok_def)

lemma fail_keeps: "keeps_band (fail_turn J v)"
  by (auto simp: keeps_band_def band_ok_def fail_turn_def Let_def run_ops_Cons simp del: run_ops.simps(2))

lemma keeps_band_if: "keeps_band a \<Longrightarrow> keeps_band b \<Longrightarrow> keeps_band (if c then a else b)"
  by simp

lemma dispatch_keeps_band: "keeps_band (dispatch_event J kind v)"
  unfolding dispatch_event_def
  by (intro keeps_band_if fail_keeps law_keeps band.law_blocks band.law_texts band.law_calls
      band.law_reasoning band.law_on_item_done band.law_on_completed band.law_emit)
    simp_all

lemma push_frame_band: "band_ok st \<Longrightarrow> band_ok (fst (push_frame J frame st))"
  using dispatch_keeps_band [of J] by (auto simp: push_frame_def keeps_band_def split: option.split)

lemma finish_turn_band: "band_ok st \<Longrightarrow> band_ok (fst (finish_turn st))"
  using finish_turn_finished [of st] by (simp add: band_ok_def)

section \<open>What the client has been sent\<close>

lemma safe_fail_turn: "safe (fail_turn J v)"
  unfolding safe_def
proof (intro allI impI)
  fix st p
  assume g: "good st p"
  show "\<exists>p'. p_run p (snd (fail_turn J v st)) = Some p' \<and> good (fst (fail_turn J v st)) p'"
  proof (cases "tr_finished st")
    case True
    with g show ?thesis by (simp add: fail_turn_def)
  next
    case False
    then have "live st p" using g by (simp add: live_def good_def)
    then show ?thesis by (rule ends_good [OF ends_fail_turn])
  qed
qed

lemma fail_turn_finished: "tr_finished (fst (fail_turn J v st))"
  by (auto simp: fail_turn_def Let_def run_ops_Cons simp del: run_ops.simps(2))

definition sink_ok :: "sink \<Rightarrow> bool" where
  "sink_ok snk \<longleftrightarrow> (\<forall>sent f. snk sent f = None)"

text \<open>
  Of an attempt whose writer works: everything sent and withheld is one run of the client's protocol that
  the translator's state simulates, nothing is sent before something visible came, and nothing is
  withheld after.
\<close>

definition attempt_ok :: "'v attempt \<Rightarrow> bool" where
  "attempt_ok a \<longleftrightarrow>
     (\<exists>p. p_run p_init (at_sent a @ at_deferred a) = Some p \<and> good (at_translator a) p) \<and>
     band_ok (at_translator a) \<and> (at_visible a \<longrightarrow> at_deferred a = []) \<and>
     (\<not> at_visible a \<longrightarrow> at_sent a = []) \<and> at_delivered a = at_visible a"

lemma new_attempt_ok: "names_ok names \<Longrightarrow> attempt_ok (new_attempt model mid names [])"
proof -
  have "band_ok (new_translator model mid names)" by (simp add: band_ok_def new_translator_def)
  moreover assume "names_ok names"
  ultimately show ?thesis by (simp add: attempt_ok_def new_attempt_def good_init)
qed

lemma attempt_ok_fields [simp]:
  "attempt_ok (a\<lparr>at_decoder := d\<rparr>) = attempt_ok a" "attempt_ok (a\<lparr>at_items := xs\<rparr>) = attempt_ok a"
  "attempt_ok (a\<lparr>at_completed := b\<rparr>) = attempt_ok a"
  by (simp_all add: attempt_ok_def)

lemma deliver_ok: "sink_ok snk \<Longrightarrow> deliver snk fs sent = (sent @ fs, None)"
  by (induction fs arbitrary: sent) (simp_all add: sink_ok_def)

lemma forward_ok:
  assumes "sink_ok snk" "at_visible a \<longrightarrow> at_deferred a = []" "\<not> at_visible a \<longrightarrow> at_sent a = []"
    "at_delivered a = at_visible a"
  obtains a' where "forward snk fs a = (a', None)"
    "at_sent a' @ at_deferred a' = at_sent a @ at_deferred a @ fs"
    "at_visible a' \<longrightarrow> at_deferred a' = []" "\<not> at_visible a' \<longrightarrow> at_sent a' = []"
    "at_delivered a' = at_visible a'" "at_translator a' = at_translator a"
    "at_completed a' = at_completed a"
proof (cases "list_ex frame_visible fs \<and> \<not> at_visible a")
  case True
  then have "fs \<noteq> []" by auto
  with True assms that show thesis
    by (simp add: forward_def send_frames_def deliver_ok)
next
  case False
  with assms that show thesis
    by (cases "at_visible a") (simp_all add: forward_def send_frames_def deliver_ok)
qed

text \<open>An operation that is safe for the protocol, forwarded, keeps the attempt.\<close>

lemma forward_op_ok:
  assumes "sink_ok snk" "attempt_ok a" "safe m" "band_ok (fst (m (at_translator a)))"
  obtains a' where "forward_op snk m a = (a', None)" "attempt_ok a'"
    "at_translator a' = fst (m (at_translator a))" "at_completed a' = at_completed a"
proof -
  obtain p where p: "p_run p_init (at_sent a @ at_deferred a) = Some p" "good (at_translator a) p"
    using assms(2) by (auto simp: attempt_ok_def)
  obtain p' where p': "p_run p (snd (m (at_translator a))) = Some p'" "good (fst (m (at_translator a))) p'"
    using safeD [OF assms(3) p(2)] by blast
  let ?a = "a\<lparr>at_translator := fst (m (at_translator a))\<rparr>" and ?fs = "snd (m (at_translator a))"
  from assms(2) have "at_visible ?a \<longrightarrow> at_deferred ?a = []" "\<not> at_visible ?a \<longrightarrow> at_sent ?a = []"
    "at_delivered ?a = at_visible ?a"
    by (auto simp: attempt_ok_def)
  from forward_ok [OF assms(1) this, of ?fs] obtain a' where
    a': "forward snk ?fs ?a = (a', None)"
      "at_sent a' @ at_deferred a' = at_sent ?a @ at_deferred ?a @ ?fs"
      "at_visible a' \<longrightarrow> at_deferred a' = []" "\<not> at_visible a' \<longrightarrow> at_sent a' = []"
      "at_delivered a' = at_visible a'" "at_translator a' = at_translator ?a"
      "at_completed a' = at_completed ?a" .
  have "p_run p_init (at_sent a' @ at_deferred a') = Some p'"
    using p(1) p'(1) by (simp only: a'(2) append_assoc [symmetric] p_run_append) simp
  then have "attempt_ok a'" using p'(2) a' assms(4) by (auto simp: attempt_ok_def)
  with a' that show thesis by (simp add: forward_op_def case_prod_beta)
qed

lemma pump_frame_ok:
  assumes "sink_ok snk" "attempt_ok a"
  obtains a' where "pump_frame J snk f a = (a', None)" "attempt_ok a'"
    "at_completed a' = (at_completed a \<or> response_terminated J f)"
proof -
  let ?a = "a\<lparr>at_completed := at_completed a \<or> response_terminated J f,
      at_items := capture_output_item J f (at_items a)\<rparr>"
  have ok: "attempt_ok ?a" using assms(2) by simp
  have "band_ok (at_translator ?a)" using ok by (simp add: attempt_ok_def)
  from forward_op_ok [OF assms(1) ok safe_push_frame push_frame_band [OF this], of J f] obtain a' where
    a': "forward_op snk (push_frame J f) ?a = (a', None)" "attempt_ok a'"
      "at_completed a' = at_completed ?a" by auto
  then have "pump_frame J snk f a = (a', None)"
    by (simp add: pump_frame_def forward_op_def case_prod_beta)
  with a' that show thesis by simp
qed

lemma pump_frames_ok:
  "sink_ok snk \<Longrightarrow> attempt_ok a \<Longrightarrow> \<exists>a'. pump_frames J snk fs a = (a', None) \<and> attempt_ok a'"
proof (induction fs arbitrary: a)
  case (Cons f fs)
  from pump_frame_ok [OF Cons.prems, of J f] obtain a' where
    "pump_frame J snk f a = (a', None)" "attempt_ok a'" by blast
  with Cons.IH [OF Cons.prems(1)] show ?case by simp
qed simp

lemma run_reads_ok:
  "sink_ok snk \<Longrightarrow> attempt_ok a \<Longrightarrow> \<exists>a'. run_reads J snk cs a = (a', None) \<and> attempt_ok a'"
proof (induction cs arbitrary: a)
  case (Cons c cs)
  have "attempt_ok (a\<lparr>at_decoder := fst (push (at_decoder a) c)\<rparr>)" using Cons.prems by simp
  from pump_frames_ok [OF Cons.prems(1) this] obtain a' where
    "pump J snk c a = (a', None)" "attempt_ok a'" by (auto simp: pump_def case_prod_beta)
  with Cons.IH [OF Cons.prems(1)] show ?case by simp
qed simp

lemma run_client_ok:
  "sink_ok snk \<Longrightarrow> attempt_ok a \<Longrightarrow> attempt_ok (fst (run_client J snk cs refusal a))"
proof (induction cs arbitrary: a)
  case (Cons c cs)
  from run_reads_ok [OF Cons.prems, of J "ca_reads c"] obtain a' where
    "run_reads J snk (ca_reads c) a = (a', None)" "attempt_ok a'" by blast
  with Cons.IH [OF Cons.prems(1)] show ?case by (auto split: option.splits)
qed simp

section \<open>The end of an attempt\<close>

definition attempt_finished :: "'v attempt \<Rightarrow> bool" where
  "attempt_finished a \<longleftrightarrow> attempt_ok a \<and> tr_finished (at_translator a)"

lemma good_finished: "good st p \<Longrightarrow> tr_finished st \<Longrightarrow> p_done p \<and> p_open p = []"
  unfolding good_def sim_def by (metis (no_types))

lemma attempt_finished_run:
  "attempt_finished a \<Longrightarrow>
    \<exists>p. p_run p_init (at_sent a @ at_deferred a) = Some p \<and> p_done p \<and> p_open p = []"
  by (auto simp: attempt_finished_def attempt_ok_def dest: good_finished)

lemma fail_opaque_ends:
  assumes "sink_ok snk" "attempt_ok a"
  obtains a' where "forward_op snk (fail_opaque J) a = (a', None)" "attempt_finished a'"
proof -
  have "band_ok (fst (fail_opaque J (at_translator a)))"
    by (simp add: fail_opaque_def band_ok_def fail_turn_finished)
  moreover have "safe (fail_opaque J)" unfolding fail_opaque_def by (rule safe_fail_turn)
  ultimately obtain a' where "forward_op snk (fail_opaque J) a = (a', None)" "attempt_ok a'"
    "at_translator a' = fst (fail_opaque J (at_translator a))"
    using forward_op_ok [OF assms] by metis
  then show thesis
    by (intro that [of a']) (simp_all add: attempt_finished_def fail_opaque_def fail_turn_finished)
qed

text \<open>How an attempt ends: refused, unseen by the client, or with its turn finished.\<close>

lemma stream_attempt_ends:
  assumes "sink_ok snk" "names_ok names"
    and run: "stream_attempt J snk cl model mid names [] = (a, r)"
  shows "(\<exists>e. r = Inl e \<and> attempt_finished a) \<or>
    (\<exists>out e. r = Inr out \<and> ao_pre_output_failure out = Some e \<and> \<not> ao_visible out \<and> at_sent a = []) \<or>
    (\<exists>out. r = Inr out \<and> ao_pre_output_failure out = None \<and> attempt_finished a \<and>
      ao_deferred_frames out = at_deferred a \<and> ao_visible out = at_visible a)"
proof -
  obtain a0 err where client: "run_client J snk (cl_attempts cl) (cl_refusal cl) (new_attempt model mid names []) = (a0, err)"
    by fastforce
  have ok0: "attempt_ok a0"
    using run_client_ok [OF assms(1) new_attempt_ok [OF assms(2)]] client by (metis fst_conv)
  show ?thesis
  proof (cases err)
    case (Some e)
    from fail_opaque_ends [OF assms(1) ok0, of J] obtain a' where
      a': "forward_op snk (fail_opaque J) a0 = (a', None)" "attempt_finished a'" .
    have step: "(a, r) = stream_failed J snk e a0" using run client Some by (simp add: stream_attempt_def)
    have unseen: "\<not> at_delivered a0 \<longrightarrow> \<not> at_visible a0 \<and> at_sent a0 = []"
      using ok0 by (simp add: attempt_ok_def)
    show ?thesis
    proof (cases "\<not> at_delivered a0 \<and> is_context_length_error e")
      case True
      with step unseen show ?thesis by (simp add: stream_failed_def outcome_of_def)
    next
      case False
      show ?thesis
      proof (cases "tr_finished (at_translator a0)")
        case True
        with step False ok0 show ?thesis by (simp add: stream_failed_def attempt_finished_def)
      next
        case unfinished: False
        with step False a' show ?thesis by (simp add: stream_failed_def)
      qed
    qed
  next
    case None
    obtain d fs where fin: "finish (at_decoder a0) = (d, fs)" by fastforce
    have "attempt_ok (a0\<lparr>at_decoder := d\<rparr>)" using ok0 by simp
    from pump_frames_ok [OF assms(1) this] obtain a1 where
      a1: "pump_frames J snk fs (a0\<lparr>at_decoder := d\<rparr>) = (a1, None)" "attempt_ok a1" by blast
    obtain a2 where a2: "(if at_completed a1 then forward_op snk finish_turn a1 else (a1, None)) = (a2, None)"
      "attempt_ok a2" "at_completed a2 \<longrightarrow> tr_finished (at_translator a2)"
    proof (cases "at_completed a1")
      case True
      have "band_ok (fst (finish_turn (at_translator a1)))"
        using a1(2) by (simp add: attempt_ok_def finish_turn_band)
      from forward_op_ok [OF assms(1) a1(2) safe_finish_turn this] obtain a2 where
        "forward_op snk finish_turn a1 = (a2, None)" "attempt_ok a2"
        "at_translator a2 = fst (finish_turn (at_translator a1))" .
      then show thesis using True by (intro that [of a2]) (simp_all add: finish_turn_finished)
    next
      case False
      with a1 that show thesis by simp
    qed
    have step: "(a, r) = stream_ended J snk a2"
      using run client None fin a1 a2 by (simp add: stream_attempt_def)
    show ?thesis
    proof (cases "at_completed a2 \<or> tr_in_band_provider_failure (at_translator a2)")
      case True
      then have "attempt_finished a2" using a2 by (auto simp: attempt_finished_def attempt_ok_def band_ok_def)
      moreover have "(a, r) = (a2, Inr (outcome_of a2))"
        using step True by (auto simp: stream_ended_def Let_def)
      ultimately show ?thesis by (simp add: outcome_of_def)
    next
      case False
      from fail_opaque_ends [OF assms(1) a2(2), of J] obtain a' where
        "forward_op snk (fail_opaque J) a2 = (a', None)" "attempt_finished a'" .
      with step False a2(2) show ?thesis
        by (cases "tr_finished (at_translator a2)")
          (simp_all add: stream_ended_def attempt_finished_def)
    qed
  qed
qed

section \<open>The end of a turn\<close>

definition ends_well :: "aframe list \<Rightarrow> ('e, 'r) result \<Rightarrow> bool" where
  "ends_well sent r \<longleftrightarrow>
     (sent = [] \<and> (\<exists>e. r = Inl e)) \<or> (\<exists>p. p_run p_init sent = Some p \<and> p_done p \<and> p_open p = [])"

lemma ends_well_visible:
  assumes "attempt_finished a"
  shows "ends_well (at_sent a) (Inl e)"
proof (cases "at_visible a")
  case True
  then have "at_deferred a = []" using assms by (simp add: attempt_finished_def attempt_ok_def)
  with attempt_finished_run [OF assms] show ?thesis by (simp add: ends_well_def)
next
  case False
  with assms show ?thesis by (simp add: ends_well_def attempt_finished_def attempt_ok_def)
qed

lemma conclude_ends_well:
  assumes "sink_ok snk" "stream_attempt J snk cl model mid names [] = (a, Inr out)" "names_ok names"
    and "conclude_turn sz snk repaired recovered turn_input out (at_sent a) history = (sent, history', r)"
  shows "ends_well sent r"
proof -
  consider e where "ao_pre_output_failure out = Some e" "at_sent a = []"
    | "ao_pre_output_failure out = None" "attempt_finished a" "ao_deferred_frames out = at_deferred a"
    using stream_attempt_ends [OF assms(1,3,2)] by auto
  then show ?thesis
  proof cases
    case 1
    with assms(4) show ?thesis by (auto simp: conclude_turn_def ends_well_def)
  next
    case 2
    then have "sent = at_sent a @ at_deferred a"
      using assms(4) deliver_ok [OF assms(1)]
      by (auto simp: conclude_turn_def Let_def split: if_splits option.splits prod.splits sum.splits)
    with attempt_finished_run [OF 2(2)] show ?thesis by (simp add: ends_well_def)
  qed
qed

lemma attempt_error_ends_well:
  "sink_ok snk \<Longrightarrow> names_ok names \<Longrightarrow> stream_attempt J snk cl model mid names [] = (a, Inl e) \<Longrightarrow>
    ends_well (at_sent a) (Inl e')"
  using stream_attempt_ends [of snk names J cl model mid a "Inl e"] by (auto intro: ends_well_visible)

lemma recovery_unsent:
  "sink_ok snk \<Longrightarrow> names_ok names \<Longrightarrow> stream_attempt J snk cl model mid names [] = (a, Inr out) \<Longrightarrow>
    should_recover out history \<Longrightarrow> at_sent a = []"
  using stream_attempt_ends [of snk names J cl model mid a "Inr out"]
  by (auto simp: should_recover_def attempt_finished_def attempt_ok_def)

text \<open>The transcript is untouched by all but a successful turn and the recovery.\<close>

lemma record_cases:
  assumes "record_successful_turn sz turn items h = (h', r)"
  shows "history_snapshot h' = history_snapshot h @ turn @ items \<and> r = Inr False \<or>
    h' = h \<and> r \<noteq> Inr False"
proof (cases rule: kept.append_cases [of sz turn items h])
  case (taken h'')
  with assms show ?thesis by (simp add: record_successful_turn_def)
next
  case (refused e)
  with assms show ?thesis by (auto simp: record_successful_turn_def split: if_splits)
qed

definition commits :: "'v list \<Rightarrow> 'v conversation_history \<Rightarrow> (pipeline_error, 'v stream_summary) result \<Rightarrow> bool" where
  "commits base h r \<longleftrightarrow>
     history_snapshot h = base \<or>
     (\<exists>turn s. r = Inr s \<and> \<not> ss_history_append_rejected s \<and>
        history_snapshot h = base @ turn @ ss_output_items s)"

lemma conclude_commits:
  assumes "conclude_turn sz snk repaired recovered turn_input out sent (Some h) = (sent', history', r)"
  obtains h' where "history' = Some h'" "commits (history_snapshot h) h' r"
    "history_ok h \<Longrightarrow> history_ok h'"
proof -
  obtain h1 r1 where rec: "record_successful_turn sz turn_input (ao_output_items out) h = (h1, r1)" by fastforce
  have ok: "history_ok h \<Longrightarrow> history_ok h1"
    using append_turn_ok [of h sz turn_input "ao_output_items out"] rec
    by (auto simp: record_successful_turn_def split: prod.splits sum.splits)
  have "history' = Some h \<and> commits (history_snapshot h) h r \<or>
      history' = Some h1 \<and> commits (history_snapshot h) h1 r"
    using assms record_cases [OF rec] rec
    by (auto simp: conclude_turn_def Let_def commits_def
        split: option.splits prod.splits sum.splits if_splits)
  with that ok show thesis by blast
qed

text \<open>The four ways a recovery goes.\<close>

lemma recover_turn_cases [consumes 1, case_names refused compacted failed tried]:
  assumes "recover_turn J snk env mid pr turn_input recovered sent h = (sent', history', r)"
  obtains e where "sent' = sent" "history' = Some h" "r = Inl e"
  | h1 compact e where "te_compact env (history_snapshot h) = Inr compact" "history_snapshot h1 = compact"
      "history_ok h \<Longrightarrow> history_ok h1" "sent' = sent" "history' = Some h1" "r = Inl e"
  | h1 compact e input a where "te_compact env (history_snapshot h) = Inr compact"
      "history_snapshot h1 = compact" "history_ok h \<Longrightarrow> history_ok h1"
      "stream_attempt J snk (te_client env 2 input) (pr_model pr) mid (pr_tool_names pr) sent = (a, Inl e)"
      "sent' = at_sent a" "history' = Some h1" "r = Inl e"
  | h1 compact input a out repaired turn where "te_compact env (history_snapshot h) = Inr compact"
      "history_snapshot h1 = compact" "history_ok h \<Longrightarrow> history_ok h1"
      "stream_attempt J snk (te_client env 2 input) (pr_model pr) mid (pr_tool_names pr) sent = (a, Inr out)"
      "conclude_turn (te_size env) snk repaired recovered turn out (at_sent a) (Some h1) = (sent', history', r)"
proof (cases "te_compact env (history_snapshot h)")
  case (Inl e)
  with assms that(1) show thesis by (auto simp: recover_turn_def)
next
  case (Inr compact)
  show thesis
  proof (cases rule: kept.replace_cases [of "te_size env" compact h])
    case (refused e)
    with assms Inr that(1) show thesis by (auto simp: recover_turn_def)
  next
    case (taken h1)
    have ok: "history_ok h \<Longrightarrow> history_ok h1"
      using replace_history_ok [of h "te_size env" compact] taken(1) by simp
    obtain turn repaired where rep: "repair_orphaned_outputs J (te_render env) (te_user_text env) turn_input compact =
        (turn, repaired)" by fastforce
    let ?input = "compact @ turn"
    obtain a r1 where att: "stream_attempt J snk (te_client env 2 ?input) (pr_model pr) mid (pr_tool_names pr) sent = (a, r1)"
      by fastforce
    show thesis
    proof (cases "validate_continuation_input J ?input []")
      case (Inl f)
      then have "sent' = sent \<and> history' = Some h1 \<and> r = Inl (PContinuation f)"
        using assms Inr taken(1) rep by (auto simp: recover_turn_def)
      with that(2) Inr taken(2) ok show thesis by blast
    next
      case valid: (Inr u)
      show thesis
      proof (cases r1)
        case (Inl e)
        then have "sent' = at_sent a \<and> history' = Some h1 \<and> r = Inl e"
          using assms \<open>te_compact env (history_snapshot h) = Inr compact\<close> taken(1) rep valid att
          by (auto simp: recover_turn_def)
        with that(3) Inr taken(2) ok att Inl show thesis by blast
      next
        case out: (Inr out)
        have "conclude_turn (te_size env) snk repaired recovered turn out (at_sent a) (Some h1) = (sent', history', r)"
          using assms Inr taken(1) rep valid att out by (simp add: recover_turn_def)
        with that(4) Inr taken(2) ok att out show thesis by blast
      qed
    qed
  qed
qed

lemma recover_turn_ends_well:
  assumes "sink_ok snk" "names_ok (pr_tool_names pr)"
    and "recover_turn J snk env mid pr turn_input recovered [] h = (sent, history', r)"
  shows "ends_well sent r"
  using assms(3)
proof (cases rule: recover_turn_cases)
  case (failed h1 compact e input a)
  with attempt_error_ends_well [OF assms(1,2)] show ?thesis by auto
next
  case (tried h1 compact input a out repaired turn)
  with conclude_ends_well [OF assms(1) _ assms(2)] show ?thesis by blast
qed (simp_all add: ends_well_def)

lemma recover_commits:
  assumes "recover_turn J snk env mid pr turn_input recovered sent h = (sent', history', r)" "history_ok h"
  shows "\<exists>h' base. history' = Some h' \<and> history_ok h' \<and>
    (base = history_snapshot h \<or> te_compact env (history_snapshot h) = Inr base) \<and> commits base h' r"
  using assms(1)
proof (cases rule: recover_turn_cases)
  case (tried h1 compact input a out repaired turn)
  from conclude_commits [OF tried(5)] tried(1-3) assms(2) show ?thesis by metis
qed (use assms(2) in \<open>auto simp: commits_def\<close>)

text \<open>The ways a turn goes.\<close>

lemma stream_inner_cases [consumes 1, case_names refused failed recovered concluded]:
  assumes "stream_inner J snk env mid history = (sent, history', r)"
  obtains e where "sent = []" "history' = history" "r = Inl e"
  | pr input a e where "te_prepared env = Inr pr"
      "stream_attempt J snk (te_client env 1 input) (pr_model pr) mid (pr_tool_names pr) [] = (a, Inl e)"
      "sent = at_sent a" "history' = history" "r = Inl e"
  | pr input turn n a out h where "te_prepared env = Inr pr"
      "stream_attempt J snk (te_client env 1 input) (pr_model pr) mid (pr_tool_names pr) [] = (a, Inr out)"
      "should_recover out history" "history = Some h"
      "recover_turn J snk env mid pr turn n (at_sent a) h = (sent, history', r)"
  | pr input turn n a out where "te_prepared env = Inr pr"
      "stream_attempt J snk (te_client env 1 input) (pr_model pr) mid (pr_tool_names pr) [] = (a, Inr out)"
      "conclude_turn (te_size env) snk 0 n turn out (at_sent a) history = (sent, history', r)"
proof (cases "te_prepared env")
  case (Inl e)
  with assms that(1) show thesis by (auto simp: stream_inner_def)
next
  case (Inr pr)
  show thesis
  proof (cases "assemble_turn J env pr history")
    case Inl
    with Inr assms that(1) show thesis by (auto simp: stream_inner_def)
  next
    case asm: (Inr t)
    obtain up turn n where t: "t = (up, turn, n)" by (cases t)
    obtain a r1 where att: "stream_attempt J snk (te_client env 1 up) (pr_model pr) mid (pr_tool_names pr) [] = (a, r1)"
      by fastforce
    show thesis
    proof (cases r1)
      case (Inl e)
      then have "sent = at_sent a \<and> history' = history \<and> r = Inl e"
        using assms Inr asm t att by (auto simp: stream_inner_def)
      with that(2) Inr att Inl show thesis by blast
    next
      case out: (Inr out)
      show thesis
      proof (cases "if should_recover out history then history else None")
        case None
        then have "conclude_turn (te_size env) snk 0 n turn out (at_sent a) history = (sent, history', r)"
          using assms Inr asm t att out by (simp add: stream_inner_def)
        with that(4) Inr att out show thesis by blast
      next
        case (Some h)
        then have "recover_turn J snk env mid pr turn n (at_sent a) h = (sent, history', r)"
          using assms Inr asm t att out by (simp add: stream_inner_def)
        moreover have "should_recover out history" "history = Some h" using Some by (auto split: if_splits)
        ultimately show thesis using that(3) Inr att out by blast
      qed
    qed
  qed
qed

lemma stream_inner_ends_well:
  assumes "sink_ok snk" "\<And>pr. te_prepared env = Inr pr \<Longrightarrow> names_ok (pr_tool_names pr)"
    and "stream_inner J snk env mid history = (sent, history', r)"
  shows "ends_well sent r"
  using assms(3)
proof (cases rule: stream_inner_cases)
  case (failed pr input a e)
  show ?thesis
    unfolding failed(3,5) by (rule attempt_error_ends_well [OF assms(1) assms(2) [OF failed(1)] failed(2)])
next
  case (recovered pr input turn n a out h)
  with recovery_unsent [OF assms(1) assms(2) recovered(2,3)]
    recover_turn_ends_well [OF assms(1) assms(2)] show ?thesis by auto
next
  case (concluded pr input turn n a out)
  with conclude_ends_well [OF assms(1) _ assms(2)] show ?thesis by blast
qed (simp add: ends_well_def)

section \<open>Properties\<close>

text \<open>
  Whatever the upstream does over all attempts of a turn, and whether or not the transcript had to be
  compacted in between, the client sees one well-formed stream: nothing at all, with an error to
  answer, or a run of the protocol that ends with everything closed. A failed first attempt never
  shows through, and a successful turn always ends its stream.
\<close>

theorem client_sees_one_stream:
  assumes "sink_ok snk" "\<And>pr. te_prepared env = Inr pr \<Longrightarrow> names_ok (pr_tool_names pr)"
    and "stream_inner J snk env mid history = (sent, history', r)"
  shows "(sent = [] \<and> (\<exists>e. r = Inl e)) \<or> (\<exists>p. p_run p_init sent = Some p \<and> p_done p \<and> p_open p = [])"
  using stream_inner_ends_well [OF assms] by (simp add: ends_well_def)


text \<open>
  A connection that breaks inside a frame leaves its half in the decoder, which the pipeline makes once
  for all attempts of the client.
\<close>

definition cut_attempt :: client_attempt where
  "cut_attempt = \<lparr>ca_reads = [''data: {''], ca_end = Some (Transport ''connection reset''), ca_gives_up = False\<rparr>"

definition whole_attempt :: client_attempt where
  "whole_attempt = \<lparr>ca_reads = [anthropic_frame_text ''e'' ''end''], ca_end = None, ca_gives_up = False\<rparr>"

lemma push_cut: "push new_decoder ''data: {'' = (\<lparr>buffer = ''data: {'', pending_cr = False\<rparr>, [])"
  by code_simp

lemma push_after_cut:
  "push \<lparr>buffer = ''data: {'', pending_cr = False\<rparr> (anthropic_frame_text ''e'' ''end'') =
    (new_decoder, [\<lparr>event = None, data = ''{event: e'' @ lf # ''end''\<rparr>])"
  by code_simp

lemma push_whole:
  "push new_decoder (anthropic_frame_text ''e'' ''end'') = (new_decoder, [\<lparr>event = Some ''e'', data = ''end''\<rparr>])"
  by code_simp

lemma forward_completed [simp]: "at_completed (fst (forward snk fs a)) = at_completed a"
  by (auto simp: forward_def send_frames_def case_prod_beta split: option.splits)

lemma pump_frame_completed:
  "at_completed (fst (pump_frame J snk f a)) = (at_completed a \<or> response_terminated J f)"
  by (simp add: pump_frame_def case_prod_beta)

lemma single_steps:
  "fst (pump_frames J snk [f] a) = fst (pump_frame J snk f a)"
  "fst (run_reads J snk [c] a) = fst (pump J snk c a)"
  "fst (run_client J snk [ca] refusal a) = fst (run_reads J snk (ca_reads ca) a)"
  by (auto simp: Let_def case_prod_beta split: option.splits prod.splits)

text \<open>
  The first frame of a repeated attempt is lost: after an attempt that broke inside a frame, the
  complete answer of the next one joins the half frame, no longer parses, and the turn ends as if
  nothing had been received, although the same answer in a first attempt completes it.
\<close>

theorem retry_keeps_partial_frame:
  assumes "from_str J (''{event: e'' @ lf # ''end'') = None"
  shows "run_client J snk [cut_attempt, whole_attempt] refusal (new_attempt m i n []) = (new_attempt m i n [], None) \<and>
    (at_completed (fst (run_client J snk [whole_attempt] refusal (new_attempt m i n []))) \<longleftrightarrow>
      response_terminated J \<lparr>event = Some ''e'', data = ''end''\<rparr>)"
proof -
  let ?a = "new_attempt m i n [] :: 'a attempt"
  have garbage: "pump_frame J snk \<lparr>event = None, data = ''{event: e'' @ lf # ''end''\<rparr> ?a = (?a, None)"
    using assms
    by (simp add: pump_frame_def push_frame_def new_attempt_def new_translator_def response_terminated_def
        capture_output_item_def forward_def)
  have dec: "at_decoder ?a = new_decoder" "?a\<lparr>at_decoder := new_decoder\<rparr> = ?a"
    by (simp_all add: new_attempt_def)
  have undelivered: "\<not> at_delivered (?a\<lparr>at_decoder := d\<rparr>)" for d by (simp add: new_attempt_def)
  have cut: "run_reads J snk (ca_reads cut_attempt) ?a =
      (?a\<lparr>at_decoder := \<lparr>buffer = ''data: {'', pending_cr = False\<rparr>\<rparr>, None)"
    by (simp add: cut_attempt_def pump_def dec push_cut)
  have whole: "run_reads J snk (ca_reads whole_attempt) (?a\<lparr>at_decoder := \<lparr>buffer = ''data: {'', pending_cr = False\<rparr>\<rparr>) =
      (?a, None)"
    by (simp add: whole_attempt_def pump_def push_after_cut dec garbage [unfolded append_Cons append_Nil])
  have "run_client J snk [cut_attempt, whole_attempt] refusal ?a = (?a, None)"
    using cut whole undelivered by (simp add: cut_attempt_def whole_attempt_def)
  moreover have "at_completed (fst (run_client J snk [whole_attempt] refusal ?a)) \<longleftrightarrow>
      response_terminated J \<lparr>event = Some ''e'', data = ''end''\<rparr>"
  proof -
    have "fst (run_client J snk [whole_attempt] refusal ?a) =
        fst (pump_frame J snk \<lparr>event = Some ''e'', data = ''end''\<rparr> ?a)"
      unfolding single_steps whole_attempt_def client_attempt.simps
      by (simp only: single_steps pump_def dec push_whole Let_def prod.case)
    moreover have "\<not> at_completed ?a" by (simp add: new_attempt_def)
    ultimately show ?thesis by (simp add: pump_frame_completed)
  qed
  ultimately show ?thesis by (rule conjI)
qed

section \<open>Witnesses\<close>

text \<open>
  A turn whose first attempt is told that the context is too long and whose recovery answers with text.
\<close>

definition demo_table :: "(string \<times> json_value) list" where
  "demo_table =
     [(''long'', JObj [(''type'', JStr ''response.failed''),
         (''response'', JObj [(''error'', JObj [(''code'', JStr ''context_length_exceeded'')])])]),
      (''text'', JObj [(''type'', JStr ''response.output_text.delta''), (''delta'', JStr ''hi'')]),
      (''end'', JObj [(''type'', JStr ''response.completed'')])]"

definition demo_client :: "string list \<Rightarrow> client" where
  "demo_client datas =
     \<lparr>cl_attempts = [\<lparr>ca_reads = map (anthropic_frame_text ''e'') datas, ca_end = None, ca_gives_up = True\<rparr>],
      cl_refusal = Cancelled\<rparr>"

definition demo_env :: "json_value turn_env" where
  "demo_env =
     \<lparr>te_prepared = Inr \<lparr>pr_model = ''m'', pr_tool_names = (\<lambda>_. None),
        pr_translated = [demo_text ''q''], pr_pending = [demo_text ''q'']\<rparr>,
      te_client = (\<lambda>n _. demo_client (if n = 1 then [''long''] else [''text'', ''end''])),
      te_compact = (\<lambda>_. Inr [demo_text ''summary'']),
      te_size = (\<lambda>_. Some 1), te_render = (\<lambda>_. []), te_user_text = demo_text\<rparr>"

definition demo_history :: "json_value conversation_history" where
  "demo_history = fst (append_turn (\<lambda>_. Some 1) [demo_text ''p''] [] (new_history default_limits))"

lemma demo_history_ok: "history_ok demo_history"
  unfolding demo_history_def by (rule append_turn_ok [OF new_history_ok])

lemma demo_sink: "sink_ok (\<lambda>_ _. None)"
  by (simp add: sink_ok_def)

theorem client_sees_one_stream_witness:
  "\<exists>sent h r. stream_inner (demo_json demo_table) (\<lambda>_ _. None) demo_env ''id'' (Some demo_history) = (sent, h, r) \<and>
    ((sent = [] \<and> (\<exists>e. r = Inl e)) \<or> (\<exists>p. p_run p_init sent = Some p \<and> p_done p \<and> p_open p = []))"
proof -
  have names: "te_prepared demo_env = Inr pr \<Longrightarrow> names_ok (pr_tool_names pr)" for pr
    by (auto simp: demo_env_def names_ok_def)
  obtain sent h r where
    run: "stream_inner (demo_json demo_table) (\<lambda>_ _. None) demo_env ''id'' (Some demo_history) = (sent, h, r)"
    by (metis prod_cases3)
  with client_sees_one_stream [OF demo_sink names run] show ?thesis by blast
qed


theorem retry_keeps_partial_frame_witness:
  "\<not> at_completed (fst (run_client (demo_json demo_table) (\<lambda>_ _. None) [cut_attempt, whole_attempt] Cancelled
      (new_attempt ''m'' ''id'' Map.empty []))) \<and>
   at_completed (fst (run_client (demo_json demo_table) (\<lambda>_ _. None) [whole_attempt] Cancelled
      (new_attempt ''m'' ''id'' Map.empty [])))"
proof -
  have "from_str (demo_json demo_table) (''{event: e'' @ lf # ''end'') = None" by (simp add: demo_table_def)
  moreover have "response_terminated (demo_json demo_table) \<lparr>event = Some ''e'', data = ''end''\<rparr>"
    by (simp add: response_terminated_def demo_table_def get_str_def)
  ultimately show ?thesis
    using retry_keeps_partial_frame [of "demo_json demo_table" "\<lambda>_ _. None" Cancelled "''m''" "''id''" Map.empty]
    by (simp add: new_attempt_def)
qed

end
