(* ===== verification/Message_Aggregator.thy ===== *)
theory Message_Aggregator
  imports Turn_Pipeline
begin

text \<open>
  \<^verbatim>\<open>codex_pipeline.rs\<close>, \<^verbatim>\<open>MessageAggregator\<close>: the non-streaming reply is folded from the frames of the
  stream. A frame is again a constructor of \<open>aframe\<close>, what reading its text back gives; a tool block's
  \<open>ab_input\<close> is \<open>None\<close> for the empty object.
\<close>

record 'v agg_block =
  ab_kind :: block_kind
  ab_text :: string
  ab_input :: "'v option"

record 'v aggregator =
  ag_id :: string
  ag_model :: string
  ag_blocks :: "'v agg_block list"
  ag_text :: "string list"
  ag_json :: "string list"
  ag_stop_reason :: string
  ag_input_tokens :: nat
  ag_output_tokens :: nat
  ag_errored :: bool
  ag_provider_error :: "provider_failure option"

definition new_aggregator :: "'v aggregator" where
  "new_aggregator =
     \<lparr>ag_id = [], ag_model = [], ag_blocks = [], ag_text = [], ag_json = [],
      ag_stop_reason = ''end_turn'', ag_input_tokens = 0, ag_output_tokens = 0, ag_errored = False,
      ag_provider_error = None\<rparr>"

definition start_agg_block :: "block_kind \<Rightarrow> 'v agg_block" where
  "start_agg_block k = \<lparr>ab_kind = k, ab_text = [], ab_input = None\<rparr>"

definition fold_block :: "'v json_api \<Rightarrow> string \<Rightarrow> string \<Rightarrow> 'v agg_block \<Rightarrow> 'v agg_block" where
  "fold_block J txt json b =
     (case ab_kind b of
        TextBlock \<Rightarrow> if txt \<noteq> [] then b\<lparr>ab_text := txt\<rparr> else b
      | ToolUse _ _ \<Rightarrow> if json \<noteq> [] then b\<lparr>ab_input := from_str J json\<rparr> else b
      | ThinkingBlock \<Rightarrow> b)"

definition flush_open_block :: "'v json_api \<Rightarrow> 'v aggregator \<Rightarrow> 'v aggregator" where
  "flush_open_block J a =
     (let txt = concat (ag_text a); json = concat (ag_json a); a = a\<lparr>ag_text := [], ag_json := []\<rparr>
      in if ag_blocks a = [] then a
         else a\<lparr>ag_blocks := butlast (ag_blocks a) @ [fold_block J txt json (last (ag_blocks a))]\<rparr>)"

definition agg_push :: "'v json_api \<Rightarrow> 'v aggregator \<Rightarrow> aframe \<Rightarrow> 'v aggregator" where
  "agg_push J a f =
     (case f of
        MessageStart i m \<Rightarrow> a\<lparr>ag_id := i, ag_model := m, ag_input_tokens := 0\<rparr>
      | BlockStart _ k \<Rightarrow>
          (let a = flush_open_block J a in a\<lparr>ag_blocks := ag_blocks a @ [start_agg_block k]\<rparr>)
      | BlockDelta _ d \<Rightarrow>
          (case d of
             TextDelta s \<Rightarrow> a\<lparr>ag_text := ag_text a @ [s]\<rparr>
           | InputJsonDelta s \<Rightarrow> a\<lparr>ag_json := ag_json a @ [s]\<rparr>
           | _ \<Rightarrow> a)
      | BlockStop _ \<Rightarrow> flush_open_block J a
      | MessageDelta reason inp out _ \<Rightarrow>
          a\<lparr>ag_stop_reason := reason, ag_output_tokens := out, ag_input_tokens := inp\<rparr>
      | MessageStop \<Rightarrow> a
      | ErrorFrame kind txt \<Rightarrow>
          a\<lparr>ag_errored := True,
            ag_provider_error := Some \<lparr>pf_kind = kind, pf_message = txt, pf_diagnostic = None\<rparr>\<rparr>)"

record 'v message =
  ms_id :: string
  ms_model :: string
  ms_content :: "'v agg_block list"
  ms_stop_reason :: string
  ms_input_tokens :: nat
  ms_output_tokens :: nat

definition agg_finish :: "'v json_api \<Rightarrow> 'v aggregator \<Rightarrow> 'v message" where
  "agg_finish J a =
     (let a = flush_open_block J a
      in \<lparr>ms_id = ag_id a, ms_model = ag_model a, ms_content = ag_blocks a,
          ms_stop_reason = ag_stop_reason a, ms_input_tokens = ag_input_tokens a,
          ms_output_tokens = ag_output_tokens a\<rparr>)"

record 'v completion =
  co_message :: "'v message"
  co_history_append_rejected :: bool
  co_pending_outputs_recovered :: nat

definition unclassified_failure :: provider_failure where
  "unclassified_failure =
     \<lparr>pf_kind = ''api_error'', pf_message = ''upstream stream failed'', pf_diagnostic = None\<rparr>"

definition complete_inner ::
    "'v json_api \<Rightarrow> 'v turn_env \<Rightarrow> string \<Rightarrow> 'v conversation_history option \<Rightarrow>
      'v conversation_history option \<times> (pipeline_error, 'v completion) result" where
  "complete_inner J env mid history =
     (let (sent, history', r) = stream_inner J (\<lambda>_ _. None) env mid history;
          a = foldl (agg_push J) new_aggregator sent
      in (history',
          case r of
            Inl e \<Rightarrow> Inl e
          | Inr summary \<Rightarrow>
              if ag_errored a then
                (let failure = unwrap_or (ag_provider_error a) unclassified_failure
                 in Inl (PProvider
                      (if pf_kind failure = ''invalid_request_error''
                       then failure\<lparr>pf_diagnostic := ss_in_band_failure summary\<rparr> else failure)))
              else
                Inr \<lparr>co_message = agg_finish J a,
                     co_history_append_rejected = ss_history_append_rejected summary,
                     co_pending_outputs_recovered = ss_pending_outputs_recovered summary\<rparr>))"

section \<open>The stream as reference\<close>

text \<open>What a block of the protocol amounts to: its text, or the parsed arguments; thinking is dropped.\<close>

definition block_view :: "'v json_api \<Rightarrow> block_kind \<times> string \<Rightarrow> 'v agg_block" where
  "block_view J b = fold_block J (snd b) (snd b) (start_agg_block (fst b))"

text \<open>
  Streams whose blocks come one after the other: content goes to the block started last, and nothing to
  it once any block was stopped since. The state is the number of blocks and whether the last is sealed.
\<close>

fun sequential_from :: "nat \<Rightarrow> bool \<Rightarrow> aframe list \<Rightarrow> bool" where
  "sequential_from n sealed [] \<longleftrightarrow> True"
| "sequential_from n sealed (BlockStart _ _ # fs) \<longleftrightarrow> sequential_from (Suc n) False fs"
| "sequential_from n sealed (BlockDelta i d # fs) \<longleftrightarrow>
     (delta_text d \<noteq> [] \<longrightarrow> Suc i = n \<and> \<not> sealed) \<and> sequential_from n sealed fs"
| "sequential_from n sealed (BlockStop _ # fs) \<longleftrightarrow> sequential_from n True fs"
| "sequential_from n sealed (_ # fs) \<longleftrightarrow> sequential_from n sealed fs"

abbreviation sequential :: "aframe list \<Rightarrow> bool" where
  "sequential \<equiv> sequential_from 0 False"

definition open_text :: "block_kind \<times> string \<Rightarrow> string" where
  "open_text b = (if fst b = TextBlock then snd b else [])"

definition open_json :: "block_kind \<times> string \<Rightarrow> string" where
  "open_json b = (case fst b of ToolUse _ _ \<Rightarrow> snd b | _ \<Rightarrow> [])"

definition agg_sim :: "'v json_api \<Rightarrow> 'v aggregator \<Rightarrow> protocol \<Rightarrow> bool \<Rightarrow> bool" where
  "agg_sim J a p sealed \<longleftrightarrow>
     (if sealed \<or> p_blocks p = [] then
        ag_blocks a = map (block_view J) (p_blocks p) \<and> concat (ag_text a) = [] \<and> concat (ag_json a) = []
      else
        ag_blocks a = map (block_view J) (butlast (p_blocks p)) @ [start_agg_block (fst (last (p_blocks p)))] \<and>
        concat (ag_text a) = open_text (last (p_blocks p)) \<and>
        concat (ag_json a) = open_json (last (p_blocks p)))"

lemma fold_block_nothing [simp]: "fold_block J [] [] b = b"
  by (simp add: fold_block_def split: block_kind.splits)

lemma fold_block_open: "fold_block J (open_text b) (open_json b) (start_agg_block (fst b)) = block_view J b"
  by (cases b, cases "fst b")
    (auto simp: block_view_def open_text_def open_json_def fold_block_def start_agg_block_def)

lemma flush_sim: "agg_sim J a p sealed \<Longrightarrow>
    ag_blocks (flush_open_block J a) = map (block_view J) (p_blocks p) \<and>
    ag_text (flush_open_block J a) = [] \<and> ag_json (flush_open_block J a) = []"
proof (cases "sealed \<or> p_blocks p = []")
  case True
  assume "agg_sim J a p sealed"
  with True have "ag_blocks a = map (block_view J) (p_blocks p)" "concat (ag_text a) = []" "concat (ag_json a) = []"
    by (auto simp: agg_sim_def)
  then show ?thesis
    by (cases "p_blocks p" rule: rev_cases)
      (simp_all add: flush_open_block_def Let_def del: concat_eq_Nil_conv)
next
  case False
  assume sim: "agg_sim J a p sealed"
  obtain bs b where bs: "p_blocks p = bs @ [b]" using False by (cases "p_blocks p" rule: rev_cases) auto
  with False sim show ?thesis by (simp add: agg_sim_def flush_open_block_def fold_block_open)
qed

lemma new_aggregator_sim: "agg_sim J new_aggregator p_init False"
  by (simp add: agg_sim_def new_aggregator_def p_init_def)

text \<open>Frames that touch no block.\<close>

lemma agg_sim_cong:
  "agg_sim J a p sealed \<Longrightarrow> ag_blocks a' = ag_blocks a \<Longrightarrow> ag_text a' = ag_text a \<Longrightarrow> ag_json a' = ag_json a \<Longrightarrow>
    p_blocks p' = p_blocks p \<Longrightarrow> agg_sim J a' p' sealed"
  by (simp add: agg_sim_def)

lemma agg_start_sim:
  assumes "agg_sim J a p sealed" "p_accept p (BlockStart i k) = Some p'"
  shows "agg_sim J (agg_push J a (BlockStart i k)) p' False"
proof -
  have "p_blocks p' = p_blocks p @ [(k, [])]" using assms(2) by (auto simp: p_accept_def split: if_splits)
  with flush_sim [OF assms(1)] show ?thesis
    by (auto simp: agg_sim_def agg_push_def Let_def open_text_def open_json_def split: block_kind.splits)
qed

lemma agg_stop_sim:
  assumes "agg_sim J a p sealed" "p_accept p (BlockStop i) = Some p'"
  shows "agg_sim J (agg_push J a (BlockStop i)) p' True"
proof -
  have "p_blocks p' = p_blocks p" using assms(2) by (auto simp: p_accept_def split: if_splits)
  with flush_sim [OF assms(1)] show ?thesis by (simp add: agg_sim_def agg_push_def)
qed

lemma agg_delta_sim:
  assumes "agg_sim J a p sealed" "p_accept p (BlockDelta i d) = Some p'"
    and "delta_text d \<noteq> [] \<longrightarrow> Suc i = length (p_blocks p) \<and> \<not> sealed"
  shows "agg_sim J (agg_push J a (BlockDelta i d)) p' sealed"
proof -
  have p': "p_blocks p' = (p_blocks p)[i := (fst (p_blocks p ! i), snd (p_blocks p ! i) @ delta_text d)]"
    and i: "i < length (p_blocks p)" and fits: "delta_fits (fst (p_blocks p ! i)) d"
    using assms(2) by (auto simp: p_accept_def split: if_splits)
  show ?thesis
  proof (cases "delta_text d = []")
    case True
    then have "p_blocks p' = p_blocks p" using p' by simp
    moreover have "concat (ag_text (agg_push J a (BlockDelta i d))) = concat (ag_text a)"
      "concat (ag_json (agg_push J a (BlockDelta i d))) = concat (ag_json a)"
      "ag_blocks (agg_push J a (BlockDelta i d)) = ag_blocks a"
      using True by (cases d; simp add: agg_push_def)+
    ultimately show ?thesis using assms(1) by (simp only: agg_sim_def)
  next
    case False
    with assms(3) have last: "Suc i = length (p_blocks p)" "\<not> sealed" by auto
    then obtain bs b where bs: "p_blocks p = bs @ [b]" "length bs = i"
      by (cases "p_blocks p" rule: rev_cases) auto
    with p' have "p_blocks p' = bs @ [(fst b, snd b @ delta_text d)]"
      by (auto simp: list_update_append nth_append)
    moreover have "ag_blocks a = map (block_view J) bs @ [start_agg_block (fst b)] \<and>
        concat (ag_text a) = open_text b \<and> concat (ag_json a) = open_json b"
      using assms(1) last bs(1) by (simp add: agg_sim_def del: concat_eq_Nil_conv)
    moreover have "delta_fits (fst b) d" using fits bs by (simp add: nth_append)
    ultimately show ?thesis
      using last(2) False
      by (cases d; cases "fst b")
        (simp_all add: agg_sim_def agg_push_def open_text_def open_json_def del: concat_eq_Nil_conv)
  qed
qed

lemma aggregate_run:
  "p_run p frames = Some p' \<Longrightarrow> agg_sim J a p sealed \<Longrightarrow> sequential_from (length (p_blocks p)) sealed frames \<Longrightarrow>
    \<exists>sealed'. agg_sim J (foldl (agg_push J) a frames) p' sealed'"
proof (induction frames arbitrary: p a sealed)
  case Nil
  then show ?case by auto
next
  case (Cons f fs)
  from Cons.prems(1) obtain p1 where acc: "p_accept p f = Some p1" and run: "p_run p1 fs = Some p'"
    by (auto simp: Option.bind_eq_Some_conv)
  have "\<exists>sealed1. agg_sim J (agg_push J a f) p1 sealed1 \<and> sequential_from (length (p_blocks p1)) sealed1 fs"
  proof (cases f)
    case (BlockStart i k)
    then have "length (p_blocks p1) = Suc (length (p_blocks p))"
      using acc by (auto simp: p_accept_def split: if_splits)
    with BlockStart agg_start_sim [OF Cons.prems(2)] acc Cons.prems(3) show ?thesis by auto
  next
    case (BlockDelta i d)
    then have "length (p_blocks p1) = length (p_blocks p)"
      using acc by (auto simp: p_accept_def split: if_splits)
    with BlockDelta agg_delta_sim [OF Cons.prems(2)] acc Cons.prems(3) show ?thesis by auto
  next
    case (BlockStop i)
    then have "p_blocks p1 = p_blocks p" using acc by (auto simp: p_accept_def split: if_splits)
    with BlockStop agg_stop_sim [OF Cons.prems(2)] acc Cons.prems(3) show ?thesis by auto
  qed (use acc Cons.prems in
      \<open>auto simp: p_accept_def agg_push_def split: if_splits
        intro!: exI [of _ sealed] agg_sim_cong [OF Cons.prems(2)]\<close>)
  with Cons.IH [OF run] show ?case by auto
qed

section \<open>Properties\<close>

text \<open>
  C21. The non-streaming reply is the stream's: of every stream the protocol accepts whose blocks come one
  after the other, each block of the folded message has the concatenated text of its deltas, or the
  value its joined arguments parse to (the empty object where they do not), in the order of the stream;
  the content of thinking blocks alone is dropped.
\<close>

theorem aggregated_reply_is_the_stream:
  assumes "p_run p_init frames = Some p" "sequential frames"
  shows "ms_content (agg_finish J (foldl (agg_push J) new_aggregator frames)) = map (block_view J) (p_blocks p)"
proof -
  have "sequential_from (length (p_blocks p_init)) False frames" using assms(2) by (simp add: p_init_def)
  from aggregate_run [OF assms(1) new_aggregator_sim this] obtain sealed where
    "agg_sim J (foldl (agg_push J) new_aggregator frames) p sealed" by blast
  from flush_sim [OF this] show ?thesis by (simp add: agg_finish_def Let_def)
qed

theorem aggregated_reply_is_the_stream_witness:
  "ms_content (agg_finish (demo_json []) (foldl (agg_push (demo_json [])) new_aggregator
    [MessageStart ''i'' ''m'', BlockStart 0 TextBlock, BlockDelta 0 (TextDelta ''a''),
     BlockDelta 0 (TextDelta ''b''), BlockStop 0])) =
   [\<lparr>ab_kind = TextBlock, ab_text = ''ab'', ab_input = None\<rparr>]"
proof -
  have "p_run p_init [MessageStart ''i'' ''m'', BlockStart 0 TextBlock, BlockDelta 0 (TextDelta ''a''),
     BlockDelta 0 (TextDelta ''b''), BlockStop 0] =
     Some \<lparr>p_blocks = [(TextBlock, ''ab'')], p_open = [], p_started = True, p_done = False\<rparr>"
    by (simp add: p_accept_def p_init_def)
  from aggregated_reply_is_the_stream [OF this, of "demo_json []"] show ?thesis
    by (simp add: block_view_def fold_block_def start_agg_block_def)
qed

definition call_added :: "string \<Rightarrow> json_value" where
  "call_added i =
     JObj [(''type'', JStr ''response.output_item.added''),
           (''item'', JObj [(''type'', JStr ''function_call''), (''call_id'', JStr i), (''name'', JStr i)])]"

definition call_delta :: "string \<Rightarrow> string \<Rightarrow> json_value" where
  "call_delta i s =
     JObj [(''type'', JStr ''response.function_call_arguments.delta''), (''call_id'', JStr i),
           (''delta'', JStr s)]"

definition parallel_table :: "string \<Rightarrow> string \<Rightarrow> (string \<times> json_value) list" where
  "parallel_table s t =
     [(''1'', call_added ''a''), (''2'', call_added ''b''), (''3'', call_delta ''a'' s), (''4'', call_delta ''b'' t)]"

definition opened_call :: "nat \<Rightarrow> string \<Rightarrow> string \<Rightarrow> call_state" where
  "opened_call n i s =
     \<lparr>c_index = Some n, c_call_id = Some i, c_name = Some i, c_arguments = s, c_emitted = length s,
      c_closed = False\<rparr>"

lemma call_added_step:
  assumes "tr_started st" "tr_thinking st = None" "tr_aliases st (''call:'' @ i) = None"
    "tr_tool_names st i = None" "i \<noteq> []"
  shows "on_item_added (demo_json T) (call_added i) st =
    (st\<lparr>tr_calls := tr_calls st @ [opened_call (tr_next_index st) i []],
       tr_aliases := (tr_aliases st)(''call:'' @ i \<mapsto> length (tr_calls st)),
       tr_saw_tool_call := True, tr_next_index := tr_next_index st + 1,
       tr_open_blocks := tr_open_blocks st @ [tr_next_index st]\<rparr>,
     [BlockStart (tr_next_index st) (ToolUse (sanitize_tool_id i) i)])"
proof -
  have keys: "slot_keys (demo_json T) (call_added i)
      (JObj [(''type'', JStr ''function_call''), (''call_id'', JStr i), (''name'', JStr i)]) = [''call:'' @ i]"
    using assms by (simp add: slot_keys_def call_added_def get_str_def List.map_filter_def)
  have item: "jget (call_added i) ''item'' =
      Some (JObj [(''type'', JStr ''function_call''), (''call_id'', JStr i), (''name'', JStr i)])"
    by (simp add: call_added_def)
  show ?thesis
    using assms
    by (simp add: on_item_added_def ensure_started_def finalize_thinking_def item get_str_def
        with_slot_def keys on_call_def quiet_def merge_identity_def append_arguments_def open_call_def
        start_block_def default_call_def opened_call_def Let_def)
qed

lemma call_delta_step:
  assumes "tr_started st" "tr_thinking st = None" "tr_aliases st (''call:'' @ i) = Some k"
    "k < length (tr_calls st)" "tr_calls st ! k = opened_call n i []" "i \<noteq> []" "s \<noteq> []"
  shows "on_arguments_delta (demo_json T) (call_delta i s) st =
    (st\<lparr>tr_calls := (tr_calls st)[k := opened_call n i s],
       tr_aliases := (tr_aliases st)(''call:'' @ i \<mapsto> k), tr_saw_tool_call := True\<rparr>,
     [BlockDelta n (InputJsonDelta s)])"
proof -
  have keys: "slot_keys (demo_json T) (call_delta i s) JNull = [''call:'' @ i]"
    using assms by (simp add: slot_keys_def call_delta_def get_str_def List.map_filter_def)
  have d: "jget (call_delta i s) ''delta'' = Some (JStr s)"
    by (simp add: call_delta_def)
  show ?thesis
    using assms
    by (simp add: on_arguments_delta_def ensure_started_def finalize_thinking_def get_str_def
        with_slot_def keys d on_call_def quiet_def append_arguments_def 
        flush_call_arguments_def opened_call_def Let_def)
qed


lemma parallel_call_frames:
  assumes "s \<noteq> []" "t \<noteq> []"
  shows "snd (translate (demo_json (parallel_table s t))
        (map (\<lambda>d. \<lparr>event = None, data = d\<rparr>) [''1'', ''2'', ''3'', ''4'']) (new_translator m mid Map.empty)) =
    [MessageStart mid m, BlockStart 0 (ToolUse ''a'' ''a''), BlockStart 1 (ToolUse ''b'' ''b''),
     BlockDelta 0 (InputJsonDelta s), BlockDelta 1 (InputJsonDelta t), BlockStop 0, BlockStop 1,
     MessageDelta ''tool_use'' 0 0 None, MessageStop]"
proof -
  let ?J = "demo_json (parallel_table s t)"
  have added: "get_str (demo_json T) (call_added i) ''type'' = Some ''response.output_item.added''" for i T
    by (simp add: call_added_def get_str_def)
  have delta: "get_str (demo_json T) (call_delta i u) ''type'' = Some ''response.function_call_arguments.delta''" for i u T
    by (simp add: call_delta_def get_str_def)
  have table: "map_of (parallel_table s t) ''1'' = Some (call_added ''a'')"
    "map_of (parallel_table s t) ''2'' = Some (call_added ''b'')"
    "map_of (parallel_table s t) ''3'' = Some (call_delta ''a'' s)"
    "map_of (parallel_table s t) ''4'' = Some (call_delta ''b'' t)"
    by (simp_all add: parallel_table_def)
  have push:
    "\<not> tr_finished st \<Longrightarrow> push_frame ?J \<lparr>event = None, data = ''1''\<rparr> st = on_item_added ?J (call_added ''a'') st"
    "\<not> tr_finished st \<Longrightarrow> push_frame ?J \<lparr>event = None, data = ''2''\<rparr> st = on_item_added ?J (call_added ''b'') st"
    "\<not> tr_finished st \<Longrightarrow> push_frame ?J \<lparr>event = None, data = ''3''\<rparr> st = on_arguments_delta ?J (call_delta ''a'' s) st"
    "\<not> tr_finished st \<Longrightarrow> push_frame ?J \<lparr>event = None, data = ''4''\<rparr> st = on_arguments_delta ?J (call_delta ''b'' t) st" for st
    by (simp_all add: push_frame_def added delta dispatch_event_def table)
  have first: "\<not> tr_started st \<Longrightarrow> on_item_added ?J (call_added i) st =
     (let (st', o1) = on_item_added ?J (call_added i) (st\<lparr>tr_started := True\<rparr>)
      in (st', MessageStart (tr_message_id st) (tr_model st) # o1))"
    for i st
    by (simp add: on_item_added_def ensure_started_def Let_def split: prod.splits)
  have ids: "sanitize_tool_id ''a'' = ''a''" "sanitize_tool_id ''b'' = ''b''" by code_simp+
  show ?thesis
    using assms
    by (simp add: translate_def push first call_added_step call_delta_step new_translator_def
        ids finish_turn_def stop_open_blocks_def ensure_started_def finalize_thinking_def closing_frames_def)
qed

text \<open>
  Calls whose arguments arrive interleaved lose them in the non-streaming reply: the stream gives each
  call its own arguments, but the folded message gives the first call the empty object and the second
  whatever the two texts joined parse to.
\<close>

theorem parallel_calls_lose_arguments:
  assumes "s \<noteq> []" "t \<noteq> []"
  shows "map ab_input (ms_content (agg_finish J (foldl (agg_push J) new_aggregator
      (snd (translate (demo_json (parallel_table s t))
        (map (\<lambda>d. \<lparr>event = None, data = d\<rparr>) [''1'', ''2'', ''3'', ''4'']) (new_translator m mid Map.empty)))))) =
    [None, from_str J (s @ t)]"
  unfolding parallel_call_frames [OF assms]
  using assms
  by (simp add: agg_push_def agg_finish_def flush_open_block_def new_aggregator_def start_agg_block_def
      fold_block_def Let_def)

theorem parallel_calls_lose_arguments_witness:
  "map ab_input (ms_content (agg_finish (demo_json []) (foldl (agg_push (demo_json [])) new_aggregator
      (snd (translate (demo_json (parallel_table ''{}'' ''{}''))
        (map (\<lambda>d. \<lparr>event = None, data = d\<rparr>) [''1'', ''2'', ''3'', ''4'']) (new_translator [] [] Map.empty)))))) =
    [None, None]"
  using parallel_calls_lose_arguments [of "''{}''" "''{}''" "demo_json []" "[]" "[]"] by simp

end
