(* ===== verification/Shell_Syntax.thy ===== *)
theory Shell_Syntax
  imports Rust_Text
begin

text \<open>
  \<^verbatim>\<open>block_bad_cmd_shell.rs\<close> and the wrapper functions of \<^verbatim>\<open>block_bad_cmd.rs\<close>: how the command guard reads
  a shell command. A text is the bytes of a \<^verbatim>\<open>&str\<close>. The code scans scalars; every scalar it tests for is
  ASCII except white space, so a scan over bytes that recognises the encodings of white space
  (\<open>ws_seqs\<close>) makes the same decisions. \<^verbatim>\<open>Path::file_stem\<close> is that of a Unix build.
\<close>

section \<open>Dialects and quoting\<close>

datatype shell_dialect = Posix | PowerShell | CmdShell

definition shell_dialect_for_tool :: "bool \<Rightarrow> string \<Rightarrow> shell_dialect" where
  "shell_dialect_for_tool windows tool_name =
     (let t = to_ascii_lowercase tool_name
      in if t = ''bash'' then Posix
         else if t = ''powershell'' \<or> t = ''pwsh'' then PowerShell
         else if t = ''cmd'' \<or> t = ''commandprompt'' then CmdShell
         else if (t = ''shell'' \<or> t = ''shell_command'') \<and> windows then PowerShell
         else Posix)"

abbreviation squote :: char where "squote \<equiv> CHR 0x27"
abbreviation dquote :: char where "dquote \<equiv> CHR 0x22"
abbreviation backslash :: char where "backslash \<equiv> CHR 0x5C"
abbreviation backtick :: char where "backtick \<equiv> CHR 0x60"
abbreviation nl :: char where "nl \<equiv> CHR 0x0A"
abbreviation cr :: char where "cr \<equiv> CHR 0x0D"

definition is_quote :: "char \<Rightarrow> bool" where
  "is_quote c \<longleftrightarrow> c = squote \<or> c = dquote"

fun is_shell_escape :: "char \<Rightarrow> shell_dialect \<Rightarrow> bool" where
  "is_shell_escape c Posix \<longleftrightarrow> c = backslash"
| "is_shell_escape c PowerShell \<longleftrightarrow> c = backtick"
| "is_shell_escape c CmdShell \<longleftrightarrow> c = CHR ''^''"

text \<open>\<open>ws_at s\<close> is the number of bytes of the white-space scalar that \<open>s\<close> starts with, 0 if there is none.\<close>

definition ws_at :: "string \<Rightarrow> nat" where
  "ws_at s = (case List.find (\<lambda>w. prefix w s) ws_seqs of None \<Rightarrow> 0 | Some w \<Rightarrow> length w)"

text \<open>\<open>seen\<close> is the text before the index the code passes.\<close>

definition is_shell_comment_start :: "string \<Rightarrow> bool" where
  "is_shell_comment_start seen \<longleftrightarrow>
     seen = [] \<or> list_ex (\<lambda>w. suffix w seen) ws_seqs \<or> list_contains '';|&()'' (last seen)"

definition in_line :: "char \<Rightarrow> bool" where
  "in_line c \<longleftrightarrow> c \<noteq> cr \<and> c \<noteq> nl"

definition starts_comment :: "shell_dialect \<Rightarrow> string \<Rightarrow> char \<Rightarrow> bool" where
  "starts_comment d seen c \<longleftrightarrow> c = CHR ''#'' \<and> d \<noteq> CmdShell \<and> is_shell_comment_start seen"

definition doubled :: "char \<Rightarrow> char \<Rightarrow> string \<Rightarrow> bool" where
  "doubled x c rest \<longleftrightarrow> c = x \<and> rest \<noteq> [] \<and> hd rest = x"

definition stage_of :: "string \<Rightarrow> string list" where
  "stage_of buf = (let s = trim buf in if s = [] then [] else [s])"

section \<open>Segments\<close>

function segments_from ::
    "shell_dialect \<Rightarrow> string \<Rightarrow> string \<Rightarrow> char option \<Rightarrow> nat \<Rightarrow> string \<Rightarrow> string list" where
  "segments_from d seen buf quote depth [] = stage_of buf"
| "segments_from d seen buf quote depth (c # rest) =
     (case quote of
        Some q \<Rightarrow>
          if q \<noteq> squote \<and> is_shell_escape c d \<and> rest \<noteq> [] then
            segments_from d (seen @ [c, hd rest]) (buf @ [c, hd rest]) quote depth (tl rest)
          else
            segments_from d (seen @ [c]) (buf @ [c]) (if c = q then None else quote) depth rest
      | None \<Rightarrow>
          if is_quote c then segments_from d (seen @ [c]) (buf @ [c]) (Some c) depth rest
          else if is_shell_escape c d \<and> rest \<noteq> [] then
            segments_from d (seen @ [c, hd rest]) (buf @ [c, hd rest]) None depth (tl rest)
          else if depth > 0 then
            segments_from d (seen @ [c]) (buf @ [c]) None
              (if c = CHR ''('' then depth + 1 else if c = CHR '')'' then depth - 1 else depth) rest
          else if c = CHR ''('' \<and> eq_ignore_ascii_case (trim buf) ''for'' then
            segments_from d (seen @ [c]) (buf @ [c]) None 1 rest
          else if starts_comment d seen c then
            segments_from d (seen @ c # takeWhile in_line rest) buf None depth (dropWhile in_line rest)
          else if doubled (CHR ''&'') c rest \<or> doubled (CHR ''|'') c rest then
            stage_of buf @ segments_from d (seen @ [c, hd rest]) [] None depth (tl rest)
          else if list_contains [CHR '';'', CHR ''|'', cr, nl] c then
            stage_of buf @ segments_from d (seen @ [c]) [] None depth rest
          else segments_from d (seen @ [c]) (buf @ [c]) None depth rest)"
  by pat_completeness auto
termination
  by (relation "measure (\<lambda>(_, _, _, _, _, s). length s)")
    (auto simp: less_Suc_eq_le length_dropWhile_le)

definition split_shell_segments :: "shell_dialect \<Rightarrow> string \<Rightarrow> string list" where
  "split_shell_segments d text = segments_from d [] [] None 0 text"

section \<open>Pipelines\<close>

definition close_group :: "string list \<Rightarrow> string list list" where
  "close_group g = (if g = [] then [] else [g])"

function groups_from ::
    "shell_dialect \<Rightarrow> string \<Rightarrow> string \<Rightarrow> string list \<Rightarrow> char option \<Rightarrow> string \<Rightarrow> string list list" where
  "groups_from d seen buf g quote [] = close_group (g @ stage_of buf)"
| "groups_from d seen buf g quote (c # rest) =
     (case quote of
        Some q \<Rightarrow>
          if q \<noteq> squote \<and> is_shell_escape c d \<and> rest \<noteq> [] then
            groups_from d (seen @ [c, hd rest]) (buf @ [c, hd rest]) g quote (tl rest)
          else groups_from d (seen @ [c]) (buf @ [c]) g (if c = q then None else quote) rest
      | None \<Rightarrow>
          if is_quote c then groups_from d (seen @ [c]) (buf @ [c]) g (Some c) rest
          else if is_shell_escape c d \<and> rest \<noteq> [] then
            groups_from d (seen @ [c, hd rest]) (buf @ [c, hd rest]) g None (tl rest)
          else if starts_comment d seen c then
            groups_from d (seen @ c # takeWhile in_line rest) buf g None (dropWhile in_line rest)
          else if c = CHR ''|'' \<and> \<not> doubled (CHR ''|'') c rest then
            groups_from d (seen @ [c]) [] (g @ stage_of buf) None rest
          else if doubled (CHR ''&'') c rest \<or> doubled (CHR ''|'') c rest then
            close_group (g @ stage_of buf) @ groups_from d (seen @ [c, hd rest]) [] [] None (tl rest)
          else if list_contains [CHR '';'', cr, nl] c then
            close_group (g @ stage_of buf) @ groups_from d (seen @ [c]) [] [] None rest
          else groups_from d (seen @ [c]) (buf @ [c]) g None rest)"
  by pat_completeness auto
termination
  by (relation "measure (\<lambda>(_, _, _, _, _, s). length s)")
    (auto simp: less_Suc_eq_le length_dropWhile_le)

definition split_pipeline_groups :: "shell_dialect \<Rightarrow> string \<Rightarrow> string list list" where
  "split_pipeline_groups d text = groups_from d [] [] [] None text"

section \<open>Words\<close>

definition word_of :: "string \<Rightarrow> string list" where
  "word_of buf = (if buf = [] then [] else [buf])"

text \<open>\<^verbatim>\<open>str::split_whitespace\<close>.\<close>

function split_whitespace_from :: "string \<Rightarrow> string \<Rightarrow> string list" where
  "split_whitespace_from buf [] = word_of buf"
| "split_whitespace_from buf (c # s) =
     (if ws_at (c # s) > 0 then word_of buf @ split_whitespace_from [] (drop (ws_at (c # s) - 1) s)
      else split_whitespace_from (buf @ [c]) s)"
  by pat_completeness auto
termination
  by (relation "measure (\<lambda>(_, s). length s)") auto

definition split_whitespace :: "string \<Rightarrow> string list" where
  "split_whitespace s = split_whitespace_from [] s"

function tokenize_from :: "char option \<Rightarrow> string \<Rightarrow> string \<Rightarrow> string list" where
  "tokenize_from quote buf [] = word_of buf"
| "tokenize_from quote buf (c # rest) =
     (case quote of
        Some q \<Rightarrow>
          if c = q then tokenize_from None buf rest else tokenize_from quote (buf @ [c]) rest
      | None \<Rightarrow>
          if is_quote c then tokenize_from (Some c) buf rest
          else if ws_at (c # rest) > 0 then
            word_of buf @ tokenize_from None [] (drop (ws_at (c # rest) - 1) rest)
          else tokenize_from None (buf @ [c]) rest)"
  by pat_completeness auto
termination
  by (relation "measure (\<lambda>(_, _, s). length s)") auto

definition tokenize :: "string \<Rightarrow> string list" where
  "tokenize s = tokenize_from None [] s"

fun is_env_name_rest :: "string \<Rightarrow> bool" where
  "is_env_name_rest [] = False"
| "is_env_name_rest (c # s) =
     (if c = CHR ''='' then True
      else if \<not> (c = CHR ''_'' \<or> is_ascii_alphanumeric c) then False
      else is_env_name_rest s)"

definition is_ascii_alphabetic :: "char \<Rightarrow> bool" where
  "is_ascii_alphabetic c \<longleftrightarrow> is_upper c \<or> is_lower c"

definition is_env_assignment :: "string \<Rightarrow> bool" where
  "is_env_assignment w =
     (case w of [] \<Rightarrow> False | c # s \<Rightarrow> (c = CHR ''_'' \<or> is_ascii_alphabetic c) \<and> is_env_name_rest s)"

text \<open>\<^verbatim>\<open>Path::file_stem\<close> of a name without separators, and \<^verbatim>\<open>file_stem_any_separator\<close>.\<close>

definition file_stem :: "string \<Rightarrow> string option" where
  "file_stem name =
     (if name = ''.'' \<or> name = ''..'' then None
      else
        (case rsplit_once (CHR ''.'') name of
           None \<Rightarrow> Some name
         | Some (stem, _) \<Rightarrow> Some (if stem = [] then name else stem)))"

definition slash_separators :: "string \<Rightarrow> string" where
  "slash_separators s = map (\<lambda>c. if c = backslash then CHR ''/'' else c) s"

definition file_stem_any_separator :: "string \<Rightarrow> string option" where
  "file_stem_any_separator raw =
     (case filter (\<lambda>p. p \<noteq> []) (split_on (CHR ''/'') (slash_separators raw)) of
        [] \<Rightarrow> None
      | parts \<Rightarrow> file_stem (last parts))"

definition trim_matches :: "(char \<Rightarrow> bool) \<Rightarrow> string \<Rightarrow> string" where
  "trim_matches P s = rev (dropWhile P (rev (dropWhile P s)))"

definition program_name :: "string \<Rightarrow> string" where
  "program_name word =
     to_ascii_lowercase (unwrap_or (file_stem_any_separator (trim_matches is_quote (trim word))) [])"

section \<open>Wrappers\<close>

fun env_rest :: "string list \<Rightarrow> string list option" where
  "env_rest [] = Some []"
| "env_rest (w # ws) =
     (if w = ''--'' then Some ws
      else if is_env_assignment w then env_rest ws
      else if list_contains [''-u'', ''--unset'', ''-C'', ''--chdir'', ''-S'', ''--split-string''] w then
        (case ws of
           [] \<Rightarrow> None
         | v # ws' \<Rightarrow>
             if list_contains [''-S'', ''--split-string''] w then Some (tokenize v @ ws') else env_rest ws')
      else if list_contains [''-i'', ''--ignore-environment'', ''-0'', ''--null'', ''-v'', ''--debug''] w \<or>
          starts_with w ''--unset='' \<or> starts_with w ''--chdir='' \<or> starts_with w ''--split-string='' then
        (case strip_prefix w ''--split-string='' of
           Some v \<Rightarrow> Some (tokenize v @ ws)
         | None \<Rightarrow> env_rest ws)
      else if starts_with w ''-'' then None
      else Some (w # ws))"

fun command_rest :: "string list \<Rightarrow> string list option" where
  "command_rest [] = Some []"
| "command_rest (w # ws) =
     (if w = ''--'' then Some ws
      else if w = ''-p'' then command_rest ws
      else if starts_with w ''-'' then None
      else Some (w # ws))"

fun exec_rest :: "string list \<Rightarrow> string list option" where
  "exec_rest [] = Some []"
| "exec_rest (w # ws) =
     (if w = ''--'' then Some ws
      else if w = ''-a'' then (case ws of [] \<Rightarrow> None | _ # ws' \<Rightarrow> exec_rest ws')
      else if starts_with w ''-a'' \<and> length w > 2 then exec_rest ws
      else if starts_with w ''-'' \<and> list_all (\<lambda>c. c = CHR ''c'' \<or> c = CHR ''l'') (tl w) then exec_rest ws
      else if starts_with w ''-'' then None
      else Some (w # ws))"

definition sudo_value_options :: "string list" where
  "sudo_value_options =
     [''-u'', ''-g'', ''-h'', ''-p'', ''-C'', ''-T'', ''-R'', ''-D'', ''--user'', ''--group'', ''--host'',
      ''--prompt'', ''--close-from'', ''--chroot'', ''--directory'', ''--command-timeout'', ''--role'',
      ''--type'']"

fun sudo_rest :: "string list \<Rightarrow> string list option" where
  "sudo_rest [] = Some []"
| "sudo_rest (w # ws) =
     (if w = ''--'' then Some ws
      else if is_env_assignment w then sudo_rest ws
      else if \<not> starts_with w ''-'' \<or> w = ''-'' then Some (w # ws)
      else if list_contains sudo_value_options w then
        (case ws of [] \<Rightarrow> None | _ # ws' \<Rightarrow> sudo_rest ws')
      else sudo_rest ws)"

text \<open>The loop of at most eight wrappers; the literal bound is the code's.\<close>

fun unwrap_transparent_within :: "nat \<Rightarrow> string list \<Rightarrow> string list option" where
  "unwrap_transparent_within 0 words = None"
| "unwrap_transparent_within (Suc n) words =
     (case words of
        [] \<Rightarrow> None
      | w # ws \<Rightarrow>
          let p = program_name w
          in if p = ''env'' then Option.bind (env_rest ws) (unwrap_transparent_within n)
             else if p = ''command'' then Option.bind (command_rest ws) (unwrap_transparent_within n)
             else if p = ''exec'' then Option.bind (exec_rest ws) (unwrap_transparent_within n)
             else Some (w # ws))"

definition unwrap_transparent_wrappers :: "string list \<Rightarrow> string list option" where
  "unwrap_transparent_wrappers words = unwrap_transparent_within 8 words"

fun unwrap_configured_within :: "nat \<Rightarrow> string list \<Rightarrow> string list \<Rightarrow> string list option" where
  "unwrap_configured_within 0 words configured = None"
| "unwrap_configured_within (Suc n) words configured =
     (case words of
        [] \<Rightarrow> None
      | w # ws \<Rightarrow>
          if \<not> list_contains configured (program_name w) then Some (w # ws)
          else if program_name w = ''sudo'' then
            Option.bind (Option.bind (sudo_rest ws) unwrap_transparent_wrappers)
              (\<lambda>words. unwrap_configured_within n words configured)
          else None)"

definition unwrap_configured_wrappers :: "string list \<Rightarrow> string list \<Rightarrow> string list option" where
  "unwrap_configured_wrappers words configured =
     Option.bind (unwrap_transparent_wrappers words) (\<lambda>words. unwrap_configured_within 8 words configured)"

definition command_words :: "string \<Rightarrow> string list" where
  "command_words segment =
     unwrap_or
       (unwrap_transparent_wrappers
         (dropWhile is_env_assignment (dropWhile (list_contains [''&'', ''call'']) (tokenize segment)))) []"

section \<open>Nested shells\<close>

definition shell_wrappers :: "string list" where
  "shell_wrappers = [''cmd'', ''powershell'', ''pwsh'', ''bash'', ''sh'', ''zsh'', ''eval'']"

text \<open>The words after the first one that satisfies \<open>P\<close> and is not the last, joined.\<close>

fun joined_after :: "(string \<Rightarrow> bool) \<Rightarrow> string list \<Rightarrow> string option" where
  "joined_after P [] = None"
| "joined_after P (w # ws) = (if P w \<and> ws \<noteq> [] then Some (join_with '' '' ws) else joined_after P ws)"

definition runs_text :: "string \<Rightarrow> bool" where
  "runs_text w \<longleftrightarrow> CHR ''c'' \<in> set (dropWhile ((=) (CHR ''-'')) (to_ascii_lowercase w))"

definition nested_shell_command ::
    "string list \<Rightarrow> shell_dialect \<Rightarrow> (string \<times> shell_dialect) option" where
  "nested_shell_command words current =
     (case words of
        [] \<Rightarrow> None
      | w # ws \<Rightarrow>
          let p = program_name w
          in if \<not> list_contains shell_wrappers p then None
             else if p = ''eval'' then (if ws \<noteq> [] then Some (join_with '' '' ws, current) else None)
             else if p = ''cmd'' then
               map_option (\<lambda>t. (t, CmdShell))
                 (joined_after (\<lambda>w. list_contains [''/c'', ''/k'', ''/r''] (to_ascii_lowercase w)) ws)
             else if p = ''powershell'' \<or> p = ''pwsh'' then
               map_option (\<lambda>t. (t, PowerShell))
                 (joined_after (\<lambda>w. list_contains [''-command'', ''-c'', ''/c''] (to_ascii_lowercase w)) ws)
             else map_option (\<lambda>t. (t, Posix)) (joined_after runs_text ws))"

section \<open>The tool behind \<open>uv run\<close>\<close>

definition uv_run_options_with_value :: "string list" where
  "uv_run_options_with_value =
     [''--allow-insecure-host'', ''--cache-dir'', ''--color'', ''--config-setting'',
      ''--config-settings-package'', ''--config-file'', ''--default-index'', ''--directory'', ''--env-file'',
      ''--exclude-newer-package'', ''--exclude-newer'', ''--extra'', ''--extra-index-url'', ''--find-links'',
      ''--fork-strategy'', ''--group'', ''--gui-script'', ''--index'', ''--index-url'', ''--index-strategy'',
      ''--keyring-provider'', ''--link-mode'', ''--module'', ''--no-binary-package'',
      ''--no-build-isolation-package'', ''--no-build-package'', ''--no-editable-package'', ''--no-extra'',
      ''--no-group'', ''--no-sources-package'', ''--only-group'', ''--package'', ''--prerelease'',
      ''--project'', ''--python'', ''--python-platform'', ''--refresh-package'', ''--reinstall-package'',
      ''--resolution'', ''--script'', ''--upgrade-group'', ''--upgrade-package'', ''--with'',
      ''--with-editable'', ''--with-requirements'']"

definition uv_run_short_options_with_value :: "string list" where
  "uv_run_short_options_with_value = [''-C'', ''-P'', ''-f'', ''-i'', ''-m'', ''-p'', ''-s'', ''-w'']"

text \<open>The loop over the words after \<open>uv run\<close>; an option that takes a value skips it, past the end too.\<close>

function uv_tool :: "string list \<Rightarrow> string option" where
  "uv_tool [] = None"
| "uv_tool (w # ws) =
     (if w = ''--'' then (case ws of [] \<Rightarrow> None | t # _ \<Rightarrow> Some t)
      else if w = ''--script'' \<and> ws \<noteq> [] then Some (hd ws)
      else
        (case strip_prefix w ''--script='' of
           Some v \<Rightarrow> Some v
         | None \<Rightarrow>
             if \<not> starts_with w ''-'' then Some w
             else if (CHR ''='' \<notin> set w \<and> list_contains uv_run_options_with_value w) \<or>
                 list_contains uv_run_short_options_with_value w
             then uv_tool (tl ws)
             else uv_tool ws))"
  by pat_completeness auto
termination
  by (relation "measure length") auto

definition resolve_uv_run_tool :: "string list \<Rightarrow> string option" where
  "resolve_uv_run_tool words =
     (case words of
        w # r # t # ws \<Rightarrow> if program_name w = ''uv'' \<and> r = ''run'' then uv_tool (t # ws) else None
      | _ \<Rightarrow> None)"

end
