(* ===== verification/Command_Scan.thy ===== *)
theory Command_Scan
  imports Shell_Syntax
begin

text \<open>
  \<^verbatim>\<open>block_bad_cmd.rs\<close>: what of a command text is executed besides its segments. Command and process
  substitutions are extracted for evaluation, here-document bodies are dropped. \<open>alnum\<close> is
  \<^verbatim>\<open>char::is_alphanumeric\<close> on the bytes of a scalar that is not ASCII.
\<close>

section \<open>Substitutions\<close>

text \<open>Both the guard and the removal rewriting search nested commands to this depth.\<close>

definition max_substitution_depth :: nat where
  "max_substitution_depth = 8"

fun cons_fst :: "'a \<Rightarrow> ('a list \<times> 'b) option \<Rightarrow> ('a list \<times> 'b) option" where
  "cons_fst c None = None"
| "cons_fst c (Some (s, r)) = Some (c # s, r)"

text \<open>The text up to the paren that closes \<open>d\<close> open ones, and what follows it.\<close>

fun close_paren :: "nat \<Rightarrow> string \<Rightarrow> (string \<times> string) option" where
  "close_paren d [] = None"
| "close_paren d (c # s) =
     (if c = CHR ''('' then cons_fst c (close_paren (d + 1) s)
      else if c = CHR '')'' then (if d = 1 then Some ([], s) else cons_fst c (close_paren (d - 1) s))
      else cons_fst c (close_paren d s))"

fun close_backtick :: "string \<Rightarrow> (string \<times> string) option" where
  "close_backtick [] = None"
| "close_backtick (c # s) =
     (if c = backslash then
        (case s of [] \<Rightarrow> None | e # s' \<Rightarrow> cons_fst c (cons_fst e (close_backtick s')))
      else if c = backtick then Some ([], s)
      else cons_fst c (close_backtick s))"

lemma cons_fst_Some [simp]: "cons_fst c x = Some (s, r) \<longleftrightarrow> (\<exists>t. s = c # t \<and> x = Some (t, r))"
  by (cases "(c, x)" rule: cons_fst.cases) auto

lemma close_paren_text: "close_paren d s = Some (t, r) \<Longrightarrow> s = t @ CHR '')'' # r"
  by (induction d s arbitrary: t rule: close_paren.induct) (auto split: if_splits)

lemma close_backtick_text: "close_backtick s = Some (t, r) \<Longrightarrow> s = t @ backtick # r"
  by (induction s arbitrary: t rule: close_backtick.induct) (auto split: if_splits list.splits)

definition opens :: "string \<Rightarrow> bool" where
  "opens s \<longleftrightarrow> s \<noteq> [] \<and> hd s = CHR ''(''"

function scan_command_substitutions :: "string \<Rightarrow> string list" where
  "scan_command_substitutions [] = []"
| "scan_command_substitutions (c # rest) =
     (if c = backtick then
        (case close_backtick rest of
           Some (inner, r) \<Rightarrow> inner # scan_command_substitutions r
         | None \<Rightarrow> [])
      else if c = CHR ''$'' \<and> opens rest \<and> opens (tl rest) then
        (case close_paren 1 (tl (tl rest)) of
           Some (_, r) \<Rightarrow> scan_command_substitutions r
         | None \<Rightarrow> scan_command_substitutions rest)
      else if (c = CHR ''$'' \<or> c = CHR ''<'' \<or> c = CHR ''>'') \<and> opens rest then
        (case close_paren 1 (tl rest) of
           Some (inner, r) \<Rightarrow> inner # scan_command_substitutions r
         | None \<Rightarrow> scan_command_substitutions rest)
      else scan_command_substitutions rest)"
  by pat_completeness auto
termination
proof (relation "measure length")
  fix c :: char and rest inner r :: string and x :: "string \<times> string"
  show "(r, c # rest) \<in> measure length" if "close_backtick rest = Some x" "(inner, r) = x"
    using that close_backtick_text [of rest inner r] by auto
  show "(r, c # rest) \<in> measure length" if "close_paren 1 (tl (tl rest)) = Some x" "(inner, r) = x"
  proof -
    have "length (tl (tl rest)) \<le> length rest" by simp
    with that close_paren_text [of 1 "tl (tl rest)" inner r] show ?thesis by auto
  qed
  show "(r, c # rest) \<in> measure length" if "close_paren 1 (tl rest) = Some x" "(inner, r) = x"
  proof -
    have "length (tl rest) \<le> length rest" by simp
    with that close_paren_text [of 1 "tl rest" inner r] show ?thesis by auto
  qed
qed auto

section \<open>Here-documents\<close>

fun delim_name :: "(string \<Rightarrow> bool) \<Rightarrow> string \<Rightarrow> string" where
  "delim_name alnum [] = []"
| "delim_name alnum (c # s) =
     (if is_ascii c then (if is_ascii_alphanumeric c \<or> c = CHR ''_'' then c # delim_name alnum s else [])
      else if alnum (c # takeWhile is_cont s)
      then c # takeWhile is_cont s @ delim_name alnum (dropWhile is_cont s)
      else [])"

definition heredoc_name :: "(string \<Rightarrow> bool) \<Rightarrow> string \<Rightarrow> string" where
  "heredoc_name alnum s =
     (let s = (if s \<noteq> [] \<and> hd s = CHR ''-'' then tl s else s);
          s = dropWhile ((=) (CHR '' '')) s;
          s = (if s \<noteq> [] \<and> is_quote (hd s) then tl s else s)
      in delim_name alnum s)"

function heredoc_from :: "(string \<Rightarrow> bool) \<Rightarrow> char option \<Rightarrow> nat \<Rightarrow> string \<Rightarrow> string option" where
  "heredoc_from alnum quote arith [] = None"
| "heredoc_from alnum quote arith [c] = None"
| "heredoc_from alnum quote arith (c # e # rest) =
     (case quote of
        Some q \<Rightarrow> heredoc_from alnum (if c = q then None else quote) arith (e # rest)
      | None \<Rightarrow>
          if is_quote c then heredoc_from alnum (Some c) arith (e # rest)
          else if c = CHR ''$'' \<and> e = CHR ''('' \<and> opens rest then
            heredoc_from alnum None (arith + 1) (tl rest)
          else if arith > 0 then
            heredoc_from alnum None
              (if c = CHR ''('' then arith + 1 else if c = CHR '')'' then arith - 1 else arith) (e # rest)
          else if c = CHR ''<'' \<and> e = CHR ''<'' then
            (if rest \<noteq> [] \<and> hd rest = CHR ''<'' then heredoc_from alnum None arith (e # rest)
             else
               let name = heredoc_name alnum rest
               in if name = [] then heredoc_from alnum None arith (e # rest) else Some name)
          else heredoc_from alnum None arith (e # rest))"
  by pat_completeness auto
termination
  by (relation "measure (\<lambda>(_, _, _, s). length s)") auto

definition find_heredoc_delimiter :: "(string \<Rightarrow> bool) \<Rightarrow> string \<Rightarrow> string option" where
  "find_heredoc_delimiter alnum line = heredoc_from alnum None 0 line"

definition body_line :: "string \<Rightarrow> string" where
  "body_line line = trim_end_matches cr (dropWhile ((=) (CHR 0x09)) line)"

text \<open>The lines after the terminator, if there is one.\<close>

fun after_body :: "string \<Rightarrow> string list \<Rightarrow> string list option" where
  "after_body delim [] = None"
| "after_body delim (line # lines) =
     (if body_line line = delim then Some lines else after_body delim lines)"

lemma after_body_append:
  "after_body delim lines = Some rest \<Longrightarrow>
    \<exists>body t. lines = body @ t # rest \<and> body_line t = delim \<and> (\<forall>l \<in> set body. body_line l \<noteq> delim)"
proof (induction lines)
  case (Cons line lines)
  show ?case
  proof (cases "body_line line = delim")
    case True
    with Cons.prems have "line # lines = [] @ line # rest" by simp
    with True show ?thesis by fastforce
  next
    case False
    with Cons obtain body t where "lines = body @ t # rest" "body_line t = delim"
      "\<forall>l \<in> set body. body_line l \<noteq> delim" by auto
    with False have "line # lines = (line # body) @ t # rest \<and> body_line t = delim \<and>
        (\<forall>l \<in> set (line # body). body_line l \<noteq> delim)" by simp
    then show ?thesis by blast
  qed
qed simp

function kept_lines :: "(string \<Rightarrow> bool) \<Rightarrow> string list \<Rightarrow> string list" where
  "kept_lines alnum [] = []"
| "kept_lines alnum (line # lines) =
     line #
     (case find_heredoc_delimiter alnum line of
        None \<Rightarrow> kept_lines alnum lines
      | Some delim \<Rightarrow>
          (case after_body delim lines of
             Some rest \<Rightarrow> kept_lines alnum rest
           | None \<Rightarrow> lines))"
  by pat_completeness auto
termination
proof (relation "measure (\<lambda>(_, ls). length ls)")
  fix alnum :: "string \<Rightarrow> bool" and line delim :: string and lines rest :: "string list"
  assume "after_body delim lines = Some rest"
  then show "((alnum, rest), alnum, line # lines) \<in> measure (\<lambda>(_, ls). length ls)"
    using after_body_append by fastforce
qed auto

definition strip_heredoc_bodies :: "(string \<Rightarrow> bool) \<Rightarrow> string \<Rightarrow> string" where
  "strip_heredoc_bodies alnum text =
     (if \<not> str_contains text ''<<'' then text
      else join_with [nl] (kept_lines alnum (split_on nl text)))"

end
