(* ===== verification/Command_Rules.thy ===== *)
theory Command_Rules
  imports Command_Scan
begin

text \<open>
  The configurable rules of the command guard: their data (\<^verbatim>\<open>repo_clud_config.rs\<close>), how a pattern is
  compiled and matched, the argument matchers, the passthrough prefixes and the override
  (\<^verbatim>\<open>block_bad_cmd.rs\<close>). The regular-expression library is the parameter \<open>regex\<close>: \<^verbatim>\<open>Regex::new\<close> gives
  \<open>None\<close> or the predicate \<^verbatim>\<open>is_match\<close>. A flag is the bytes of one scalar.
\<close>

section \<open>Data\<close>

datatype match_mode = Glob | Regex

record match_pattern =
  mp_pattern :: string
  mp_mode :: match_mode

datatype argument_matcher =
  ArgumentMatcher
    (am_prefix: "match_pattern list") (am_ordered: "match_pattern list")
    (am_contiguous: "match_pattern list") (am_any: "match_pattern list")
    (am_all: "match_pattern list") (am_none: "match_pattern list")
    (am_short_any: "string list") (am_short_all: "string list")
    (am_any_of: "argument_matcher list")

record rule_source =
  rs_index :: nat
  rs_file :: "string option"
  rs_layer :: "string option"

record bad_command_rule =
  bc_id :: "string option"
  bc_pattern :: string
  bc_mode :: match_mode
  bc_replacement :: string
  bc_reason :: string
  bc_passthrough :: "string list"
  bc_allow_override :: bool
  bc_through :: "string list"
  bc_arguments :: "argument_matcher option"
  bc_source :: "rule_source option"

record command_matcher =
  cm_pattern :: string
  cm_mode :: match_mode
  cm_through :: "string list"
  cm_arguments :: "argument_matcher option"

record bad_pipeline_rule =
  bp_id :: "string option"
  bp_stages :: "command_matcher list"
  bp_replacement :: string
  bp_reason :: string
  bp_allow_override :: bool

section \<open>Patterns\<close>

fun glob_from :: "nat \<Rightarrow> string \<Rightarrow> string option" where
  "glob_from depth [] = (if depth = 0 then Some [] else None)"
| "glob_from depth (c # s) =
     (if c = CHR ''*'' \<and> depth = 0 then map_option ((@) ''.*'') (glob_from depth s)
      else if c = CHR ''?'' \<and> depth = 0 then map_option ((#) (CHR ''.'')) (glob_from depth s)
      else if c = CHR ''['' then
        (if s \<noteq> [] \<and> hd s = CHR ''!'' then map_option ((@) ''[^'') (glob_from (depth + 1) (tl s))
         else map_option ((#) c) (glob_from (depth + 1) s))
      else if c = CHR '']'' then
        (if depth = 0 then None else map_option ((#) c) (glob_from (depth - 1) s))
      else if depth > 0 then map_option ((#) c) (glob_from depth s)
      else if list_contains (backslash # ''.+^$(){}|'') c
      then map_option (\<lambda>r. backslash # c # r) (glob_from depth s)
      else map_option ((#) c) (glob_from depth s))"

definition glob_to_regex_source :: "string \<Rightarrow> string option" where
  "glob_to_regex_source glob = glob_from 0 glob"

definition compile_match_pattern ::
    "(string \<Rightarrow> (string \<Rightarrow> bool) option) \<Rightarrow> string \<Rightarrow> match_mode \<Rightarrow> (string \<Rightarrow> bool) option" where
  "compile_match_pattern regex pattern mode =
     Option.bind (case mode of Regex \<Rightarrow> Some pattern | Glob \<Rightarrow> glob_to_regex_source pattern)
       (\<lambda>body. regex (''(?i)^(?:'' @ body @ '')$''))"

definition pattern_matches :: "(string \<Rightarrow> (string \<Rightarrow> bool) option) \<Rightarrow> string \<Rightarrow> match_pattern \<Rightarrow> bool" where
  "pattern_matches regex token p =
     (case compile_match_pattern regex (mp_pattern p) (mp_mode p) of
        None \<Rightarrow> False | Some is_match \<Rightarrow> is_match token)"

section \<open>Arguments\<close>

definition windows_of :: "nat \<Rightarrow> 'a list \<Rightarrow> 'a list list" where
  "windows_of n xs = map (\<lambda>i. take n (drop i xs)) [0..<length xs + 1 - n]"

fun ordered_patterns_match ::
    "(string \<Rightarrow> (string \<Rightarrow> bool) option) \<Rightarrow> string list \<Rightarrow> match_pattern list \<Rightarrow> bool" where
  "ordered_patterns_match regex args [] = True"
| "ordered_patterns_match regex [] (p # ps) = False"
| "ordered_patterns_match regex (a # args) (p # ps) =
     ordered_patterns_match regex args (if pattern_matches regex a p then ps else p # ps)"

definition contiguous_patterns_match ::
    "(string \<Rightarrow> (string \<Rightarrow> bool) option) \<Rightarrow> string list \<Rightarrow> match_pattern list \<Rightarrow> bool" where
  "contiguous_patterns_match regex args ps \<longleftrightarrow>
     ps = [] \<or>
     (length ps \<le> length args \<and>
      list_ex (\<lambda>w. list_all (\<lambda>(a, p). pattern_matches regex a p) (zip w ps)) (windows_of (length ps) args))"

fun scalars :: "string \<Rightarrow> string list" where
  "scalars [] = []"
| "scalars (c # s) = (c # takeWhile is_cont s) # scalars (dropWhile is_cont s)"

definition short_flags :: "string list \<Rightarrow> string list" where
  "short_flags args =
     concat (map (\<lambda>a. scalars (tl a)) (filter (\<lambda>a. starts_with a ''-'' \<and> \<not> starts_with a ''--'') args))"

fun argument_matcher_matches ::
    "(string \<Rightarrow> (string \<Rightarrow> bool) option) \<Rightarrow> string list \<Rightarrow> argument_matcher \<Rightarrow> bool" where
  "argument_matcher_matches regex args (ArgumentMatcher pre ordr contig anyp allp nonep sany sall any_of) \<longleftrightarrow>
     contiguous_patterns_match regex (if length pre \<le> length args then take (length pre) args else []) pre \<and>
     ordered_patterns_match regex args ordr \<and>
     contiguous_patterns_match regex args contig \<and>
     (anyp = [] \<or> list_ex (\<lambda>p. list_ex (\<lambda>a. pattern_matches regex a p) args) anyp) \<and>
     list_all (\<lambda>p. list_ex (\<lambda>a. pattern_matches regex a p) args) allp \<and>
     list_all (\<lambda>p. list_all (\<lambda>a. \<not> pattern_matches regex a p) args) nonep \<and>
     (sany = [] \<or> list_ex (list_contains (short_flags args)) sany) \<and>
     list_all (list_contains (short_flags args)) sall \<and>
     (any_of = [] \<or> list_ex (argument_matcher_matches regex args) any_of)"

definition command_matcher_matches ::
    "(string \<Rightarrow> (string \<Rightarrow> bool) option) \<Rightarrow> string list \<Rightarrow> command_matcher \<Rightarrow> bool" where
  "command_matcher_matches regex words m \<longleftrightarrow>
     (case unwrap_configured_wrappers words (cm_through m) of
        Some (w # ws) \<Rightarrow>
          (case compile_match_pattern regex (cm_pattern m) (cm_mode m) of
             None \<Rightarrow> False
           | Some is_match \<Rightarrow>
               is_match (program_name w) \<and>
               (case cm_arguments m of None \<Rightarrow> True | Some a \<Rightarrow> argument_matcher_matches regex ws a))
      | _ \<Rightarrow> False)"

definition prefix_matches ::
    "(string \<Rightarrow> (string \<Rightarrow> bool) option) \<Rightarrow> match_mode \<Rightarrow> string \<Rightarrow> string \<Rightarrow> bool" where
  "prefix_matches regex mode head pre =
     (case compile_match_pattern regex pre mode of
        Some is_match \<Rightarrow> is_match head
      | None \<Rightarrow> eq_ignore_ascii_case pre head)"

definition passthrough_prefix_match ::
    "(string \<Rightarrow> (string \<Rightarrow> bool) option) \<Rightarrow> string list \<Rightarrow> match_mode \<Rightarrow> string \<Rightarrow> string option" where
  "passthrough_prefix_match regex candidates mode head = List.find (prefix_matches regex mode head) candidates"

section \<open>The override\<close>

datatype override_outcome =
  NotAttempted | Accepted string | RejectedIdMismatch string | RejectedMissingReason

text \<open>\<open>raw\<close> is the environment variable, if it is set.\<close>

definition classify_override :: "string option \<Rightarrow> string \<Rightarrow> override_outcome" where
  "classify_override raw rule_id =
     (case raw of
        None \<Rightarrow> NotAttempted
      | Some r \<Rightarrow>
          (case split_once (CHR '':'') r of
             None \<Rightarrow> RejectedMissingReason
           | Some (i, reason) \<Rightarrow>
               if i \<noteq> rule_id then RejectedIdMismatch i
               else if trim reason = [] then RejectedMissingReason
               else Accepted (trim reason)))"

definition accepted_override_reason :: "string option \<Rightarrow> string \<Rightarrow> string option" where
  "accepted_override_reason raw rule_id =
     (case classify_override raw rule_id of Accepted reason \<Rightarrow> Some reason | _ \<Rightarrow> None)"

end
