(* ===== verification/Unix_Path.thy ===== *)
theory Unix_Path
  imports Rust_Text
begin

text \<open>
  The lexical part of \<^verbatim>\<open>std::path\<close> of a Unix build, and the lexical resolution of
  \<^verbatim>\<open>block_bad_cmd.rs\<close>. A path is whether it starts at the root, and its component names; \<^verbatim>\<open>components()\<close>
  drops empty names and inner dots, and a leading dot is dropped here as well, since every use
  normalises or compares rooted paths.
\<close>

type_synonym upath = "bool \<times> string list"

definition parse_path :: "string \<Rightarrow> upath" where
  "parse_path s =
     (starts_with s ''/'', filter (\<lambda>n. n \<noteq> [] \<and> n \<noteq> ''.'') (split_on (CHR ''/'') s))"

definition path_join :: "upath \<Rightarrow> upath \<Rightarrow> upath" where
  "path_join p q = (if fst q then q else (fst p, snd p @ snd q))"

definition pop_or_push :: "string list \<Rightarrow> string \<Rightarrow> string list" where
  "pop_or_push out n = (if n = ''..'' then butlast out else out @ [n])"

definition lexically_normalize :: "upath \<Rightarrow> upath" where
  "lexically_normalize p = (fst p, foldl pop_or_push [] (snd p))"

definition resolve_against :: "upath \<Rightarrow> string \<Rightarrow> upath" where
  "resolve_against base candidate = lexically_normalize (path_join base (parse_path candidate))"

definition path_starts_with :: "upath \<Rightarrow> upath \<Rightarrow> bool" where
  "path_starts_with p q \<longleftrightarrow> fst p = fst q \<and> prefix (snd q) (snd p)"

definition show_path :: "upath \<Rightarrow> string" where
  "show_path p = (if fst p then ''/'' else []) @ join_with ''/'' (snd p)"

lemma foldl_pop_or_push_no_parent:
  "''..'' \<notin> set out \<Longrightarrow> ''..'' \<notin> set (foldl pop_or_push out ns)"
  by (induction ns arbitrary: out) (auto simp: pop_or_push_def dest: in_set_butlastD)

lemma normalized_no_parent: "''..'' \<notin> set (snd (lexically_normalize p))"
  by (simp add: lexically_normalize_def foldl_pop_or_push_no_parent)

lemma foldl_pop_or_push_plain:
  "''..'' \<notin> set ns \<Longrightarrow> foldl pop_or_push out ns = out @ ns"
  by (induction ns arbitrary: out) (auto simp: pop_or_push_def)

lemma normalize_plain: "''..'' \<notin> set (snd p) \<Longrightarrow> lexically_normalize p = p"
  by (simp add: lexically_normalize_def foldl_pop_or_push_plain)

lemma normalize_idem [simp]: "lexically_normalize (lexically_normalize p) = lexically_normalize p"
  by (simp add: normalize_plain normalized_no_parent)

end
