(* ===== verification/Command_Guard.thy ===== *)
theory Command_Guard
  imports Command_Rules Unix_Path
begin

text \<open>
  \<^verbatim>\<open>block_bad_cmd.rs\<close>: the evaluation of a command text against the built-in and configured rules. A
  denial is a constructor with the parts of its message (\<open>denial_text\<close> renders it), a log line likewise.
  The environment (override variable, regular expressions, the hybrid project found above the working
  directory, the platform) is a record; writing the forensic log of overrides is left out.
\<close>

section \<open>Data\<close>

datatype denial =
    SentinelDenied string
  | RuleDenied string string "string option" bool
  | WatchDenied
  | PollingDenied
  | CloneDenied
  | FindRootDenied string
  | LegacyDenied string string
  | UvToolDenied string string
  | HybridDenied string
  | RustToolDenied string
  | RmDenied string

datatype log_event =
    DepthExceeded nat
  | PassthroughTaken string string string string
  | OverrideTaken string string string
  | PipelineMatched string string
  | HybridBypassed string
  | RmUnchanged | RmRefused | RmRewritten

datatype capture_kind = GitClone | GitWorktreeAdd

record git_path_capture =
  gp_kind :: capture_kind
  gp_path :: upath
  gp_origin :: upath

record denial_provenance =
  dp_token :: string
  dp_program :: string
  dp_rule_id :: "string option"
  dp_pattern :: string
  dp_mode :: match_mode
  dp_source :: "rule_source option"

record evaluation =
  ev_reason :: "denial option"
  ev_rewritten :: "string option"
  ev_warnings :: "string list"
  ev_log :: "log_event list"
  ev_captures :: "git_path_capture list"
  ev_provenance :: "denial_provenance option"

definition new_evaluation :: evaluation where
  "new_evaluation =
     \<lparr>ev_reason = None, ev_rewritten = None, ev_warnings = [], ev_log = [], ev_captures = [],
      ev_provenance = None\<rparr>"

record guard =
  g_cwd :: "string option"
  g_allow_hybrid :: bool
  g_bad_commands :: "bad_command_rule list"
  g_bad_pipelines :: "bad_pipeline_rule list"
  g_repo_root :: "string option"
  g_pr_wait :: bool
  g_use_soldr :: bool
  g_override :: "string option"
  g_hybrid_root :: "string option"
  g_windows :: bool
  g_regex :: "string \<Rightarrow> (string \<Rightarrow> bool) option"
  g_alnum :: "string \<Rightarrow> bool"

definition sentinel_phrase :: string where
  "sentinel_phrase = ''bad cmd''"

definition rust_tools :: "string list" where
  "rust_tools =
     [''cargo'', ''rustc'', ''rustfmt'', ''clippy-driver'', ''cargo-clippy'', ''cargo-fmt'', ''rustup'',
      ''rustdoc'', ''rust-gdb'', ''rust-lldb'', ''rust-analyzer'']"

definition legacy_rust_trampolines :: "string list" where
  "legacy_rust_trampolines = [''_cargo'', ''_rustc'', ''_rustfmt'']"

section \<open>Steps that may deny\<close>

type_synonym step = "evaluation \<Rightarrow> evaluation"

definition deny :: "denial \<Rightarrow> step" where
  "deny r ev = ev\<lparr>ev_reason := Some r\<rparr>"

definition log_all :: "log_event list \<Rightarrow> step" where
  "log_all ls ev = ev\<lparr>ev_log := ev_log ev @ ls\<rparr>"

definition log_deny :: "log_event list \<times> denial option \<Rightarrow> step" where
  "log_deny v ev =
     (let ev = log_all (fst v) ev in case snd v of None \<Rightarrow> ev | Some r \<Rightarrow> deny r ev)"

text \<open>The early returns: a step runs only while nothing was denied.\<close>

fun run_steps :: "step list \<Rightarrow> step" where
  "run_steps [] ev = ev"
| "run_steps (f # fs) ev = (let ev = f ev in if ev_reason ev \<noteq> None then ev else run_steps fs ev)"

section \<open>Pipelines and structured rules\<close>

definition pipeline_rule_matches :: "guard \<Rightarrow> string list list \<Rightarrow> bad_pipeline_rule \<Rightarrow> bool" where
  "pipeline_rule_matches g stages rule \<longleftrightarrow>
     length (bp_stages rule) \<le> length stages \<and>
     list_ex (\<lambda>w. list_all (\<lambda>(words, m). command_matcher_matches (g_regex g) words m) (zip w (bp_stages rule)))
       (windows_of (length (bp_stages rule)) stages)"

definition override_for :: "guard \<Rightarrow> bool \<Rightarrow> string option \<Rightarrow> string option" where
  "override_for g allow i =
     (if allow then Option.bind i (accepted_override_reason (g_override g)) else None)"

fun pipeline_verdict ::
    "guard \<Rightarrow> string \<Rightarrow> string list list \<Rightarrow> bad_pipeline_rule list \<Rightarrow> log_event list \<times> denial option" where
  "pipeline_verdict g text stages [] = ([], None)"
| "pipeline_verdict g text stages (rule # rules) =
     (if \<not> pipeline_rule_matches g stages rule then pipeline_verdict g text stages rules
      else
        (case override_for g (bp_allow_override rule) (bp_id rule) of
           Some reason \<Rightarrow>
             let (ls, v) = pipeline_verdict g text stages rules
             in (OverrideTaken (unwrap_or (bp_id rule) []) reason text # ls, v)
         | None \<Rightarrow>
             ([PipelineMatched (unwrap_or (bp_id rule) ''unnamed'') text],
              Some (RuleDenied
                (if bp_reason rule = [] then ''this pipeline is blocked'' else bp_reason rule)
                (bp_replacement rule) (bp_id rule) (bp_allow_override rule)))))"

fun pipelines_verdict :: "guard \<Rightarrow> string \<Rightarrow> string list list \<Rightarrow> log_event list \<times> denial option" where
  "pipelines_verdict g text [] = ([], None)"
| "pipelines_verdict g text (grp # grps) =
     (if length grp < 2 then pipelines_verdict g text grps
      else
        (let (ls, v) = pipeline_verdict g text (map command_words grp) (g_bad_pipelines g)
         in case v of
              Some r \<Rightarrow> (ls, Some r)
            | None \<Rightarrow> let (ls', v') = pipelines_verdict g text grps in (ls @ ls', v')))"

definition evaluate_pipeline_rules :: "guard \<Rightarrow> shell_dialect \<Rightarrow> string \<Rightarrow> step" where
  "evaluate_pipeline_rules g d text =
     (if g_bad_pipelines g = [] then (\<lambda>ev. ev)
      else log_deny (pipelines_verdict g text (split_pipeline_groups d text)))"

text \<open>The words of a rule's candidate, when the rule matches them.\<close>

definition rule_candidate :: "guard \<Rightarrow> string list \<Rightarrow> bad_command_rule \<Rightarrow> string list option" where
  "rule_candidate g words rule =
     (case words of
        [] \<Rightarrow> None
      | w # ws \<Rightarrow>
          (case unwrap_configured_wrappers (if eq_ignore_ascii_case (program_name w) ''soldr'' then ws else words)
                  (bc_through rule) of
             Some (c # cs) \<Rightarrow>
               (case compile_match_pattern (g_regex g) (bc_pattern rule) (bc_mode rule) of
                  None \<Rightarrow> None
                | Some is_match \<Rightarrow>
                    if is_match (program_name c) \<and>
                      (case bc_arguments rule of None \<Rightarrow> True | Some a \<Rightarrow> argument_matcher_matches (g_regex g) cs a)
                    then Some (c # cs) else None)
           | _ \<Rightarrow> None))"

definition rule_denial :: "bad_command_rule \<Rightarrow> string \<Rightarrow> denial" where
  "rule_denial rule c =
     RuleDenied
       (if bc_reason rule = [] then [backtick] @ program_name c @ backtick # '' is a blocked command.''
        else bc_reason rule)
       (bc_replacement rule) (bc_id rule) (bc_allow_override rule)"

definition provenance_of :: "bad_command_rule \<Rightarrow> string \<Rightarrow> denial_provenance" where
  "provenance_of rule c =
     \<lparr>dp_token = c, dp_program = program_name c, dp_rule_id = bc_id rule, dp_pattern = bc_pattern rule,
      dp_mode = bc_mode rule, dp_source = bc_source rule\<rparr>"

fun structured_verdict ::
    "guard \<Rightarrow> string list \<Rightarrow> bad_command_rule list \<Rightarrow>
      log_event list \<times> (denial \<times> denial_provenance) option" where
  "structured_verdict g words [] = ([], None)"
| "structured_verdict g words (rule # rules) =
     (case passthrough_prefix_match (g_regex g) (bc_passthrough rule) (bc_mode rule) (program_name (hd words)) of
        Some pre \<Rightarrow>
          let (ls, v) = structured_verdict g words rules
          in (PassthroughTaken (unwrap_or (bc_id rule) (bc_pattern rule)) pre (program_name (hd words))
                (join_with '' '' words) # ls, v)
      | None \<Rightarrow>
          (case rule_candidate g words rule of
             None \<Rightarrow> structured_verdict g words rules
           | Some cand \<Rightarrow>
               (case override_for g (bc_allow_override rule) (bc_id rule) of
                  Some reason \<Rightarrow>
                    let (ls, v) = structured_verdict g words rules
                    in (OverrideTaken (unwrap_or (bc_id rule) []) reason (join_with '' '' words) # ls, v)
                | None \<Rightarrow> ([], Some (rule_denial rule (hd cand), provenance_of rule (hd cand))))))"

definition evaluate_structured_rules :: "guard \<Rightarrow> string list \<Rightarrow> step" where
  "evaluate_structured_rules g words ev =
     (case structured_verdict g words (g_bad_commands g) of
        (ls, None) \<Rightarrow> log_all ls ev
      | (ls, Some (r, p)) \<Rightarrow> deny r ((log_all ls ev)\<lparr>ev_provenance := Some p\<rparr>))"

section \<open>Waiting for pull requests\<close>

fun gh_positionals :: "string list \<Rightarrow> string list" where
  "gh_positionals [] = []"
| "gh_positionals (w # ws) =
     (if list_contains [''--repo'', ''-R'', ''--hostname''] w then
        (case ws of [] \<Rightarrow> [] | _ # ws' \<Rightarrow> gh_positionals ws')
      else if starts_with w ''-'' then gh_positionals ws
      else w # gh_positionals ws)"

definition is_gh :: "string list \<Rightarrow> bool" where
  "is_gh words \<longleftrightarrow> words \<noteq> [] \<and> program_name (hd words) = ''gh''"

definition has_flag :: "string \<Rightarrow> string list \<Rightarrow> bool" where
  "has_flag flag words \<longleftrightarrow> list_ex (\<lambda>w. w = flag \<or> starts_with w (flag @ ''='')) words"

definition native_gh_waiter :: "string list \<Rightarrow> bool" where
  "native_gh_waiter words \<longleftrightarrow>
     is_gh words \<and>
     (let ps = gh_positionals (tl words)
      in (prefix [''pr'', ''checks''] ps \<and> has_flag ''--watch'' words) \<or> prefix [''run'', ''watch''] ps)"

definition gh_poll_target :: "string list \<Rightarrow> bool" where
  "gh_poll_target words \<longleftrightarrow>
     is_gh words \<and>
     (let ps = gh_positionals (tl words)
      in prefix [''pr'', ''checks''] ps \<or> prefix [''run'', ''view''] ps \<or> prefix [''run'', ''list''] ps \<or>
         (prefix [''pr'', ''view''] ps \<and>
          list_ex (\<lambda>w. str_contains (to_ascii_lowercase w) ''statuscheckrollup'') words \<and>
          has_flag ''--json'' words))"

function without_ws :: "string \<Rightarrow> string" where
  "without_ws [] = []"
| "without_ws (c # s) =
     (if ws_at (c # s) > 0 then without_ws (drop (ws_at (c # s) - 1) s) else c # without_ws s)"
  by pat_completeness auto
termination
  by (relation "measure length") auto

definition is_polling_loop_head :: "shell_dialect \<Rightarrow> string \<Rightarrow> bool" where
  "is_polling_loop_head d segment =
     (case command_words segment of
        [] \<Rightarrow> False
      | w # _ \<Rightarrow>
          let head = program_name w;
              keyword = (case split_once (CHR ''('') head of None \<Rightarrow> head | Some (name, _) \<Rightarrow> name);
              compact = without_ws segment
          in (case d of
                Posix \<Rightarrow> keyword = ''until'' \<or> keyword = ''while'' \<or> starts_with compact ''for((;;))''
              | PowerShell \<Rightarrow> keyword = ''while'' \<or> keyword = ''do'' \<or> starts_with compact ''for(;;)''
              | CmdShell \<Rightarrow> False))"

fun tails :: "'a list \<Rightarrow> 'a list list" where
  "tails [] = []"
| "tails (x # xs) = (x # xs) # tails xs"

definition blocking_pr_wait_reason :: "shell_dialect \<Rightarrow> string \<Rightarrow> denial option" where
  "blocking_pr_wait_reason d text =
     (let segs = split_shell_segments d text
      in if list_ex (\<lambda>s. native_gh_waiter (command_words s)) segs then Some WatchDenied
         else if \<not> list_ex (is_polling_loop_head d) segs then None
         else if list_ex (\<lambda>t. gh_poll_target (command_words t)) (scan_command_substitutions text)
         then Some PollingDenied
         else if list_ex gh_poll_target (tails (tokenize text)) then Some PollingDenied
         else None)"

section \<open>Clones and worktrees\<close>

definition git_clone_options_with_value :: "string list" where
  "git_clone_options_with_value =
     [''--branch'', ''-b'', ''--origin'', ''-o'', ''--depth'', ''--config'', ''-c'', ''--template'',
      ''--reference'', ''--reference-if-able'', ''--separate-git-dir'', ''--filter'', ''--shallow-since'',
      ''--shallow-exclude'', ''--jobs'', ''-j'', ''--bundle-uri'']"

definition git_worktree_add_options_with_value :: "string list" where
  "git_worktree_add_options_with_value = [''-b'', ''-B'', ''--reason'']"

function collect_positionals :: "string list \<Rightarrow> string list \<Rightarrow> string list" where
  "collect_positionals options [] = []"
| "collect_positionals options (a # args) =
     (if a = ''--'' then args
      else if starts_with a ''-'' then
        collect_positionals options
          (if CHR ''='' \<notin> set a \<and> list_contains options a then tl args else args)
      else a # collect_positionals options args)"
  by pat_completeness auto
termination
  by (relation "measure (\<lambda>(_, args). length args)") auto

definition derive_clone_dir_from_repo :: "string \<Rightarrow> string" where
  "derive_clone_dir_from_repo repo =
     (let trimmed = trim_end_matches (CHR ''/'') repo;
          base = last (split_on (CHR ''/'') (map (\<lambda>c. if c = CHR '':'' then CHR ''/'' else c) trimmed))
      in unwrap_or (strip_suffix base ''.git'') base)"

definition git_clone_destination :: "string list \<Rightarrow> string option" where
  "git_clone_destination args =
     (case collect_positionals git_clone_options_with_value args of
        [] \<Rightarrow> None
      | [repo] \<Rightarrow> Some (derive_clone_dir_from_repo repo)
      | _ # dir # _ \<Rightarrow> Some dir)"

definition git_worktree_add_destination :: "string list \<Rightarrow> string option" where
  "git_worktree_add_destination args =
     (case collect_positionals git_worktree_add_options_with_value args of
        [] \<Rightarrow> None | p # _ \<Rightarrow> Some p)"

definition origin_cwd :: "guard \<Rightarrow> upath" where
  "origin_cwd g = parse_path (unwrap_or (g_cwd g) ''.'')"

definition capture_at :: "guard \<Rightarrow> capture_kind \<Rightarrow> string \<Rightarrow> git_path_capture" where
  "capture_at g kind dest =
     \<lparr>gp_kind = kind, gp_path = resolve_against (origin_cwd g) dest, gp_origin = origin_cwd g\<rparr>"

definition detect_git_path_capture :: "guard \<Rightarrow> string list \<Rightarrow> git_path_capture option" where
  "detect_git_path_capture g words =
     (case (if words \<noteq> [] \<and> program_name (hd words) = ''sudo'' then sudo_rest (tl words) else Some words) of
        Some (w # ws) \<Rightarrow>
          if program_name w \<noteq> ''git'' then None
          else
            (case ws of
               [] \<Rightarrow> None
             | sub # args \<Rightarrow>
                 if sub = ''clone'' then map_option (capture_at g GitClone) (git_clone_destination args)
                 else if sub = ''worktree'' \<and> args \<noteq> [] \<and> hd args = ''add''
                 then map_option (capture_at g GitWorktreeAdd) (git_worktree_add_destination (tl args))
                 else None)
      | _ \<Rightarrow> None)"

definition clone_rule_id :: string where
  "clone_rule_id = ''git-clone-outside-extern-repos''"

definition extern_repos_dir :: "string \<Rightarrow> upath" where
  "extern_repos_dir root = path_join (parse_path root) (parse_path ''.extern-repos'')"

definition extern_repos_violation ::
    "guard \<Rightarrow> git_path_capture \<Rightarrow> log_event list \<times> denial option" where
  "extern_repos_violation g cap =
     (if gp_kind cap \<noteq> GitClone then ([], None)
      else
        (case g_repo_root g of
           None \<Rightarrow> ([], None)
         | Some root \<Rightarrow>
             if path_starts_with (gp_path cap) (extern_repos_dir root) then ([], None)
             else
               (case accepted_override_reason (g_override g) clone_rule_id of
                  Some reason \<Rightarrow> ([OverrideTaken clone_rule_id reason (show_path (gp_path cap))], None)
                | None \<Rightarrow> ([], Some CloneDenied))))"

definition capture_step :: "guard \<Rightarrow> string list \<Rightarrow> step" where
  "capture_step g words ev =
     (case detect_git_path_capture g words of
        None \<Rightarrow> ev
      | Some cap \<Rightarrow>
          let v = extern_repos_violation g cap; ev = log_deny v ev
          in if snd v \<noteq> None then ev else ev\<lparr>ev_captures := ev_captures ev @ [cap]\<rparr>)"

section \<open>Searching a whole file system\<close>

definition drive_relative_remainder :: "string \<Rightarrow> string option" where
  "drive_relative_remainder s =
     (case s of
        c # e # r \<Rightarrow> if is_ascii_alphabetic c \<and> e = CHR '':'' then Some r else None
      | _ \<Rightarrow> None)"

definition is_msys_drive_root :: "string \<Rightarrow> bool" where
  "is_msys_drive_root s =
     (case dropWhile ((=) (CHR ''/'')) s of
        [] \<Rightarrow> True
      | c # r \<Rightarrow> is_ascii_alphabetic c \<and> list_all ((=) (CHR ''/'')) r \<and> r \<noteq> [])"

text \<open>The stack of names left after dots are collapsed.\<close>

definition collapse :: "string \<Rightarrow> string list" where
  "collapse rest =
     foldl (\<lambda>stack n. if n = [] \<or> n = ''.'' then stack else pop_or_push stack n) []
       (split_on (CHR ''/'') rest)"

definition is_filesystem_root :: "bool \<Rightarrow> string \<Rightarrow> bool" where
  "is_filesystem_root windows path =
     (let s = slash_separators (trim_matches is_quote path)
      in case drive_relative_remainder s of
           Some r \<Rightarrow> windows \<and> collapse r = []
         | None \<Rightarrow>
             (case s of
                [] \<Rightarrow> False
              | c # r \<Rightarrow>
                  c = CHR ''/'' \<and> ((windows \<and> is_msys_drive_root s) \<or> collapse r = [])))"

function find_operands :: "string list \<Rightarrow> string list" where
  "find_operands [] = []"
| "find_operands (w # ws) =
     (if list_contains [''-H'', ''-L'', ''-P''] w then find_operands ws
      else if w = ''-D'' then find_operands (tl ws)
      else if starts_with w ''-O'' then find_operands ws
      else takeWhile (\<lambda>w. \<not> starts_with w ''-'' \<and> \<not> list_contains [''('', '')'', ''!'', '',''] w) (w # ws))"
  by pat_completeness auto
termination
  by (relation "measure length") auto

definition find_rule_id :: string where
  "find_rule_id = ''find-filesystem-root''"

definition find_filesystem_root :: "guard \<Rightarrow> string list \<Rightarrow> log_event list \<times> denial option" where
  "find_filesystem_root g words =
     (if words = [] \<or> program_name (hd words) \<noteq> ''find'' then ([], None)
      else
        (case List.find (is_filesystem_root (g_windows g)) (find_operands (tl words)) of
           None \<Rightarrow> ([], None)
         | Some offender \<Rightarrow>
             (case accepted_override_reason (g_override g) find_rule_id of
                Some reason \<Rightarrow> ([OverrideTaken find_rule_id reason offender], None)
              | None \<Rightarrow> ([], Some (FindRootDenied offender)))))"

section \<open>Rust tools\<close>

definition legacy_step :: "guard \<Rightarrow> string list \<Rightarrow> step" where
  "legacy_step g words ev =
     (if g_use_soldr g \<and> list_contains legacy_rust_trampolines (program_name (hd words))
      then deny (LegacyDenied (program_name (hd words)) (hd words)) ev else ev)"

definition uv_tool_denial :: "string \<Rightarrow> denial option" where
  "uv_tool_denial tool =
     (if list_contains legacy_rust_trampolines (program_name tool) then Some (LegacyDenied (program_name tool) tool)
      else if list_contains rust_tools (program_name tool) then Some (UvToolDenied (program_name tool) tool)
      else None)"

definition uv_safe :: "string list \<Rightarrow> bool" where
  "uv_safe words \<longleftrightarrow>
     list_ex (\<lambda>w. list_ex (\<lambda>flag. w = flag \<or> starts_with w (flag @ ''=''))
       [''--no-project'', ''--no-sync'', ''--frozen'']) words"

definition hybrid_step :: "guard \<Rightarrow> string list \<Rightarrow> step" where
  "hybrid_step g words ev =
     (if uv_safe (drop 2 words) then ev
      else
        (case (if g_cwd g = None then None else g_hybrid_root g) of
           None \<Rightarrow> ev
         | Some root \<Rightarrow>
             if g_allow_hybrid g
             then (log_all [HybridBypassed root] ev)\<lparr>ev_warnings := ev_warnings ev @ [root]\<rparr>
             else deny (HybridDenied root) ev))"

definition uv_step :: "guard \<Rightarrow> string list \<Rightarrow> step" where
  "uv_step g words =
     run_steps
       [(\<lambda>ev. case resolve_uv_run_tool words of
          None \<Rightarrow> ev
        | Some tool \<Rightarrow>
            (case (if g_use_soldr g then uv_tool_denial tool else None) of
               None \<Rightarrow> ev | Some r \<Rightarrow> deny r ev)),
        hybrid_step g words]"

definition tool_step :: "guard \<Rightarrow> string list \<Rightarrow> step" where
  "tool_step g words =
     (let first = program_name (hd words)
      in if first = ''soldr'' then (\<lambda>ev. ev)
         else if first = ''uv'' \<and> tl words \<noteq> [] \<and> hd (tl words) = ''run'' then uv_step g words
         else if g_use_soldr g \<and> list_contains rust_tools first then deny (RustToolDenied first)
         else (\<lambda>ev. ev))"

section \<open>Evaluation\<close>

definition evaluate_words :: "guard \<Rightarrow> string list \<Rightarrow> step" where
  "evaluate_words g words =
     run_steps
       [capture_step g words, log_deny (find_filesystem_root g words), evaluate_structured_rules g words,
        legacy_step g words, tool_step g words]"

text \<open>A paren that opens the segment is a subshell and dropped.\<close>

definition segment_words :: "string \<Rightarrow> string list" where
  "segment_words segment =
     (let s = trim segment; s = (if opens s then trim_start (tl s) else s)
      in if s = [] then [] else command_words s)"

definition evaluate_segment ::
    "guard \<Rightarrow> (shell_dialect \<Rightarrow> string \<Rightarrow> step) \<Rightarrow> shell_dialect \<Rightarrow> string \<Rightarrow> step" where
  "evaluate_segment g nested d segment =
     (let words = segment_words segment
      in if words = [] then (\<lambda>ev. ev)
         else
           (case nested_shell_command words d of
              Some (text, d') \<Rightarrow> nested d' text
            | None \<Rightarrow> evaluate_words g words))"

definition pr_wait_step :: "guard \<Rightarrow> shell_dialect \<Rightarrow> string \<Rightarrow> step" where
  "pr_wait_step g d text ev =
     (if \<not> g_pr_wait g then ev
      else (case blocking_pr_wait_reason d text of None \<Rightarrow> ev | Some r \<Rightarrow> deny r ev))"

definition has_sentinel :: "string \<Rightarrow> bool" where
  "has_sentinel text \<longleftrightarrow> str_contains (to_ascii_lowercase text) sentinel_phrase"

text \<open>
  \<open>evaluate_within n\<close> is the evaluation at depth \<open>9 - n\<close>: at \<open>n = 9\<close> here-documents are stripped, at
  \<open>n = 0\<close> the cap is exceeded and the rest is allowed.
\<close>

definition scanned_text :: "guard \<Rightarrow> nat \<Rightarrow> string \<Rightarrow> string" where
  "scanned_text g n text =
     (if n = Suc max_substitution_depth then strip_heredoc_bodies (g_alnum g) text else text)"

primrec evaluate_within :: "guard \<Rightarrow> nat \<Rightarrow> shell_dialect \<Rightarrow> string \<Rightarrow> step" where
  "evaluate_within g 0 = (\<lambda>d text. log_all [DepthExceeded (Suc max_substitution_depth)])"
| "evaluate_within g (Suc n) =
     (\<lambda>d text ev.
        if has_sentinel text then deny (SentinelDenied text) ev
        else
          let text = scanned_text g (Suc n) text
          in run_steps
               (map (evaluate_within g n d) (scan_command_substitutions text) @
                [evaluate_pipeline_rules g d text, pr_wait_step g d text] @
                map (evaluate_segment g (evaluate_within g n) d) (split_shell_segments d text)) ev)"

definition evaluate_command_into :: "guard \<Rightarrow> shell_dialect \<Rightarrow> string \<Rightarrow> step" where
  "evaluate_command_into g = evaluate_within g (Suc max_substitution_depth)"

section \<open>Messages\<close>

definition quoted :: "string \<Rightarrow> string" where
  "quoted s = backtick # s @ [backtick]"

definition override_env :: string where
  "override_env = ''CLUD_BAD_CMD_OVERRIDE''"

definition py_string_repr :: "string \<Rightarrow> string" where
  "py_string_repr s =
     squote # concat (map (\<lambda>c.
       if c = backslash then [backslash, backslash]
       else if c = squote then [backslash, squote]
       else if c = nl then backslash # ''n''
       else if c = cr then backslash # ''r''
       else if c = CHR 0x09 then backslash # ''t''
       else [c]) s) @ [squote]"

definition deny_message :: "string \<Rightarrow> string \<Rightarrow> string option \<Rightarrow> bool \<Rightarrow> string" where
  "deny_message reason replacement i allow =
     reason @ '' Use '' @ quoted replacement @ '' instead.'' @
     (case (allow, i) of
        (True, Some i) \<Rightarrow>
          '' To intentionally bypass this rule for this one command, set the real environment variable '' @
          override_env @ ''='' @ [dquote] @ i @ '':<your reason for needing the raw command>'' @ [dquote] @
          '' for this tool call (not text prepended to the command itself) and re-run the exact same command unchanged.''
      | _ \<Rightarrow> [])"

definition pr_watch_replacement :: string where
  "pr_watch_replacement = ''clud tool run github/pr_merge_watch.py <PR>''"

definition override_hint :: "string \<Rightarrow> string" where
  "override_hint rule_id =
     override_env @ ''='' @ [dquote] @ rule_id @ '':<your reason for needing the raw command>'' @ [dquote]"

fun denial_text :: "denial \<Rightarrow> string" where
  "denial_text (SentinelDenied text) =
     ''command contains '' @ [dquote] @ sentinel_phrase @ [dquote] @ ''. Full command: '' @ py_string_repr text"
| "denial_text (RuleDenied reason replacement i allow) = deny_message reason replacement i allow"
| "denial_text WatchDenied =
     ''GitHub CLI watch commands wait locally and do not cancel the remaining matrix on first required failure. Use '' @
     quoted pr_watch_replacement @ '' instead.''"
| "denial_text PollingDenied =
     ''Hand-written PR polling loops can wait for the entire matrix after a required check is already red. Use '' @
     quoted pr_watch_replacement @ '' instead.''"
| "denial_text CloneDenied =
     ''git clone outside of .extern-repos is discouraged. Set '' @ override_hint clone_rule_id @
     '' to do it anyway, otherwise use .extern-repos/**.''"
| "denial_text (FindRootDenied offender) =
     quoted (''find '' @ offender) @
     '' walks the entire filesystem: it does not terminate, and on Windows/MSYS it leaks handles until no process on the host can start (clud#589). Scope the search to a real directory, or use the Glob/Grep tools. Note '' @
     quoted ''-maxdepth'' @ '' does not make this safe. To do it anyway, set '' @ override_hint find_rule_id @
     '' for this tool call and re-run the exact same command unchanged.''"
| "denial_text (LegacyDenied first word) =
     ''Use '' @ quoted (''soldr '' @ dropWhile ((=) (CHR ''_'')) first @ '' ...'') @ '' instead of legacy '' @ quoted word @
     ''. The root Rust trampolines bypass soldr'' @ [squote] @ ''s toolchain selection.''"
| "denial_text (UvToolDenied bare tool) =
     ''Use '' @ quoted (''soldr '' @ bare @ '' ...'') @ '' instead of '' @ quoted (''uv run '' @ tool @ '' ...'') @ ''. '' @
     quoted ''uv run <rust-tool>'' @ '' bypasses soldr'' @ [squote] @ ''s toolchain selection.''"
| "denial_text (HybridDenied root) =
     ''this hook fired because '' @ root @
     '' contains both pyproject.toml and Cargo.toml (a Python+Rust hybrid project). '' @ quoted ''uv run'' @
     '' without --no-project / --no-sync / --frozen triggers the project auto-sync, which on a Rust-backed wheel is a full native rebuild. Pass '' @
     quoted ''--no-project'' @ '' for pure-Python scripts, '' @ quoted ''--no-sync'' @
     '' to use the existing venv, or '' @ quoted ''--frozen'' @
     '' to lock to the existing lockfile. Escape hatch for a legitimate full-rebuild: run '' @ quoted ''./test'' @
     '' (or '' @ quoted ''bash ./test'' @
     '') - the canonical full-build entrypoint. Set CLUD_UV_RUST_ALLOW_ALL=1 to bypass this gate with a warning. See zackees/soldr#805.''"
| "denial_text (RustToolDenied first) =
     ''Use '' @ quoted (''soldr '' @ first @ '' ...'') @ '' instead of bare '' @ quoted first @
     ''. soldr resolves the pinned rustup-managed toolchain and avoids GNU/Chocolatey shims.''"
| "denial_text (RmDenied reason) = reason"

end
