(* ===== verification/Guard_Coverage.thy ===== *)
theory Guard_Coverage
  imports Command_Guard
begin

text \<open>
  What the command guard covers. \<open>reached\<close> says which texts a shell would run for a command, as far as
  the guard's scanners see it and within its depth; \<open>offending\<close> what makes one of them refused. The
  evaluation, with its early returns, denies exactly when something reached is offending.
\<close>

section \<open>Steps that decide\<close>

text \<open>A step decides \<open>b\<close> when, from any state without a denial, it denies if and only if \<open>b\<close>.\<close>

definition decides :: "step \<Rightarrow> bool \<Rightarrow> bool" where
  "decides f b \<longleftrightarrow> (\<forall>ev. ev_reason ev = None \<longrightarrow> (ev_reason (f ev) \<noteq> None \<longleftrightarrow> b))"

lemma decidesI: "(\<And>ev. ev_reason ev = None \<Longrightarrow> ev_reason (f ev) \<noteq> None \<longleftrightarrow> b) \<Longrightarrow> decides f b"
  by (auto simp: decides_def)

lemma decidesD: "decides f b \<Longrightarrow> ev_reason ev = None \<Longrightarrow> ev_reason (f ev) \<noteq> None \<longleftrightarrow> b"
  by (simp add: decides_def)

lemma log_all_reason [simp]: "ev_reason (log_all ls ev) = ev_reason ev"
  by (simp add: log_all_def)

lemma deny_reason [simp]: "ev_reason (deny r ev) = Some r"
  by (simp add: deny_def)

lemma decides_skip: "decides (\<lambda>ev. ev) False"
  by (simp add: decides_def)

lemma decides_deny: "decides (deny r) True"
  by (simp add: decides_def)

lemma decides_log_deny: "decides (log_deny v) (snd v \<noteq> None)"
  by (simp add: decides_def log_deny_def Let_def split: option.split)

lemma decides_if: "decides f a \<Longrightarrow> decides g b \<Longrightarrow> decides (if c then f else g) (if c then a else b)"
  by simp

lemma decides_steps:
  "list_all2 decides fs bs \<Longrightarrow> decides (run_steps fs) (True \<in> set bs)"
proof (induction fs bs rule: list_all2_induct)
  case Nil
  then show ?case by (simp add: decides_def)
next
  case (Cons f fs b bs)
  show ?case
  proof (rule decidesI)
    fix ev :: evaluation
    assume ev: "ev_reason ev = None"
    with Cons.hyps(1) have f: "ev_reason (f ev) \<noteq> None \<longleftrightarrow> b" by (rule decidesD)
    show "ev_reason (run_steps (f # fs) ev) \<noteq> None \<longleftrightarrow> True \<in> set (b # bs)"
    proof (cases "ev_reason (f ev) = None")
      case True
      from decidesD [OF Cons.IH True] True f show ?thesis by (auto simp: Let_def)
    next
      case False
      with f show ?thesis by (simp add: Let_def)
    qed
  qed
qed

lemma decides_map: "(\<And>x. decides (f x) (N x)) \<Longrightarrow> list_all2 decides (map f xs) (map N xs)"
  by (induction xs) simp_all

section \<open>What offends\<close>

definition clone_violation :: "guard \<Rightarrow> string list \<Rightarrow> bool" where
  "clone_violation g words \<longleftrightarrow>
     (case detect_git_path_capture g words of
        None \<Rightarrow> False | Some cap \<Rightarrow> snd (extern_repos_violation g cap) \<noteq> None)"

definition uv_violation :: "guard \<Rightarrow> string list \<Rightarrow> bool" where
  "uv_violation g words \<longleftrightarrow>
     (g_use_soldr g \<and>
      (case resolve_uv_run_tool words of
         None \<Rightarrow> False
       | Some tool \<Rightarrow> program_name tool \<in> set legacy_rust_trampolines \<union> set rust_tools)) \<or>
     (\<not> uv_safe (drop 2 words) \<and> \<not> g_allow_hybrid g \<and> g_cwd g \<noteq> None \<and> g_hybrid_root g \<noteq> None)"

definition tool_violation :: "guard \<Rightarrow> string list \<Rightarrow> bool" where
  "tool_violation g words \<longleftrightarrow>
     (let first = program_name (hd words)
      in first \<noteq> ''soldr'' \<and>
         (if first = ''uv'' \<and> tl words \<noteq> [] \<and> hd (tl words) = ''run'' then uv_violation g words
          else g_use_soldr g \<and> first \<in> set rust_tools))"

definition offending_words :: "guard \<Rightarrow> string list \<Rightarrow> bool" where
  "offending_words g words \<longleftrightarrow>
     clone_violation g words \<or> snd (find_filesystem_root g words) \<noteq> None \<or>
     snd (structured_verdict g words (g_bad_commands g)) \<noteq> None \<or>
     (g_use_soldr g \<and> program_name (hd words) \<in> set legacy_rust_trampolines) \<or>
     tool_violation g words"

definition offending :: "guard \<Rightarrow> shell_dialect \<Rightarrow> string \<Rightarrow> bool" where
  "offending g d text \<longleftrightarrow>
     (g_bad_pipelines g \<noteq> [] \<and> snd (pipelines_verdict g text (split_pipeline_groups d text)) \<noteq> None) \<or>
     (g_pr_wait g \<and> blocking_pr_wait_reason d text \<noteq> None) \<or>
     (\<exists>s \<in> set (split_shell_segments d text). segment_words s \<noteq> [] \<and>
        nested_shell_command (segment_words s) d = None \<and> offending_words g (segment_words s))"

text \<open>The texts run for a text, each with the depth left when the guard comes to it.\<close>

inductive reached ::
    "guard \<Rightarrow> nat \<Rightarrow> shell_dialect \<Rightarrow> string \<Rightarrow> nat \<Rightarrow> shell_dialect \<Rightarrow> string \<Rightarrow> bool" for g where
  here: "reached g (Suc n) d t (Suc n) d t"
| substituted: "reached g (Suc n) d t m d' v"
    if "u \<in> set (scan_command_substitutions (scanned_text g (Suc n) t))" "reached g n d u m d' v"
| nested: "reached g (Suc n) d t m d' v"
    if "s \<in> set (split_shell_segments d (scanned_text g (Suc n) t))"
      "nested_shell_command (segment_words s) d = Some (u, d1)" "reached g n d1 u m d' v"

inductive_cases reached_ZeroE: "reached g 0 d t m d' v"

definition denied_at :: "guard \<Rightarrow> nat \<Rightarrow> shell_dialect \<Rightarrow> string \<Rightarrow> bool" where
  "denied_at g n d t \<longleftrightarrow>
     (\<exists>m d' v. reached g n d t m d' v \<and> (has_sentinel v \<or> offending g d' (scanned_text g m v)))"

section \<open>The steps of the evaluation decide\<close>

lemma decides_capture: "decides (capture_step g words) (clone_violation g words)"
proof (rule decidesI)
  fix ev :: evaluation
  assume ev: "ev_reason ev = None"
  show "ev_reason (capture_step g words ev) \<noteq> None \<longleftrightarrow> clone_violation g words"
  proof (cases "detect_git_path_capture g words")
    case None
    with ev show ?thesis by (simp add: capture_step_def clone_violation_def)
  next
    case (Some cap)
    have "ev_reason (log_deny (extern_repos_violation g cap) ev) \<noteq> None \<longleftrightarrow>
        snd (extern_repos_violation g cap) \<noteq> None"
      using decidesD [OF decides_log_deny ev] .
    with Some show ?thesis by (auto simp: capture_step_def clone_violation_def Let_def)
  qed
qed

lemma decides_structured:
  "decides (evaluate_structured_rules g words)
     (snd (structured_verdict g words (g_bad_commands g)) \<noteq> None)"
  by (rule decidesI)
    (auto simp: evaluate_structured_rules_def split: prod.splits option.splits)

lemma decides_legacy:
  "decides (legacy_step g words) (g_use_soldr g \<and> program_name (hd words) \<in> set legacy_rust_trampolines)"
  by (rule decidesI) (simp add: legacy_step_def)

lemma decides_hybrid:
  "decides (hybrid_step g words)
     (\<not> uv_safe (drop 2 words) \<and> \<not> g_allow_hybrid g \<and> g_cwd g \<noteq> None \<and> g_hybrid_root g \<noteq> None)"
  by (rule decidesI) (auto simp: hybrid_step_def split: option.splits)

lemma uv_tool_denial_iff:
  "uv_tool_denial t \<noteq> None \<longleftrightarrow> program_name t \<in> set legacy_rust_trampolines \<union> set rust_tools"
  by (simp add: uv_tool_denial_def)

lemma decides_uv: "decides (uv_step g words) (uv_violation g words)"
proof -
  let ?tool = "case resolve_uv_run_tool words of
         None \<Rightarrow> False
       | Some tool \<Rightarrow> program_name tool \<in> set legacy_rust_trampolines \<union> set rust_tools"
  let ?f = "\<lambda>ev. case resolve_uv_run_tool words of
          None \<Rightarrow> ev
        | Some tool \<Rightarrow>
            (case (if g_use_soldr g then uv_tool_denial tool else None) of
               None \<Rightarrow> ev | Some r \<Rightarrow> deny r ev)"
  have "decides ?f (g_use_soldr g \<and> ?tool)"
  proof (rule decidesI)
    fix ev :: evaluation
    assume ev: "ev_reason ev = None"
    show "ev_reason (?f ev) \<noteq> None \<longleftrightarrow> g_use_soldr g \<and> ?tool"
      using ev uv_tool_denial_iff [of "the (resolve_uv_run_tool words)"]
      by (cases "resolve_uv_run_tool words") (auto split: option.splits)
  qed
  then have "list_all2 decides [?f, hybrid_step g words]
      [g_use_soldr g \<and> ?tool,
       \<not> uv_safe (drop 2 words) \<and> \<not> g_allow_hybrid g \<and> g_cwd g \<noteq> None \<and> g_hybrid_root g \<noteq> None]"
    using decides_hybrid by simp
  from decides_steps [OF this] show ?thesis
    unfolding uv_step_def uv_violation_def by (simp add: eq_commute [of True])
qed

lemma decides_tool: "decides (tool_step g words) (tool_violation g words)"
  using decides_uv [of g words]
  by (auto simp: tool_step_def tool_violation_def Let_def decides_def)

lemma decides_words: "decides (evaluate_words g words) (offending_words g words)"
proof -
  have "list_all2 decides
      [capture_step g words, log_deny (find_filesystem_root g words), evaluate_structured_rules g words,
        legacy_step g words, tool_step g words]
      [clone_violation g words, snd (find_filesystem_root g words) \<noteq> None,
       snd (structured_verdict g words (g_bad_commands g)) \<noteq> None,
       g_use_soldr g \<and> program_name (hd words) \<in> set legacy_rust_trampolines, tool_violation g words]"
    using decides_capture decides_log_deny decides_structured decides_legacy decides_tool by simp
  from decides_steps [OF this] show ?thesis
    unfolding evaluate_words_def offending_words_def by (simp add: eq_commute [of True])
qed

lemma decides_pipelines:
  "decides (evaluate_pipeline_rules g d text)
     (g_bad_pipelines g \<noteq> [] \<and> snd (pipelines_verdict g text (split_pipeline_groups d text)) \<noteq> None)"
  using decides_log_deny decides_skip by (auto simp: evaluate_pipeline_rules_def)

lemma decides_pr_wait:
  "decides (pr_wait_step g d text) (g_pr_wait g \<and> blocking_pr_wait_reason d text \<noteq> None)"
  by (rule decidesI) (auto simp: pr_wait_step_def split: option.splits)

lemma decides_segment:
  assumes "\<And>u d1. nested_shell_command (segment_words s) d = Some (u, d1) \<Longrightarrow> decides (nested d1 u) (N u d1)"
  shows "decides (evaluate_segment g nested d s)
    (segment_words s \<noteq> [] \<and>
     (case nested_shell_command (segment_words s) d of
        None \<Rightarrow> offending_words g (segment_words s) | Some (u, d1) \<Rightarrow> N u d1))"
  using assms decides_words decides_skip
  by (auto simp: evaluate_segment_def Let_def split: option.split prod.split)

section \<open>Exactness\<close>

lemma denied_at_0: "\<not> denied_at g 0 d t"
  by (auto simp: denied_at_def elim: reached_ZeroE)

lemma nested_of_words: "nested_shell_command words d = Some x \<Longrightarrow> words \<noteq> []"
  by (auto simp: nested_shell_command_def)

lemma denied_at_Suc:
  "denied_at g (Suc n) d t \<longleftrightarrow>
     has_sentinel t \<or>
     (let text = scanned_text g (Suc n) t
      in offending g d text \<or>
         (\<exists>u \<in> set (scan_command_substitutions text). denied_at g n d u) \<or>
         (\<exists>s \<in> set (split_shell_segments d text). \<exists>u d1.
            nested_shell_command (segment_words s) d = Some (u, d1) \<and> denied_at g n d1 u))"
  (is "?lhs \<longleftrightarrow> ?rhs")
proof
  assume ?lhs
  then obtain m d' v where r: "reached g (Suc n) d t m d' v"
    and bad: "has_sentinel v \<or> offending g d' (scanned_text g m v)"
    by (auto simp: denied_at_def)
  from r show ?rhs
  proof cases
    case here
    with bad show ?thesis by (auto simp: Let_def)
  next
    case (substituted u)
    with bad have "denied_at g n d u" by (auto simp: denied_at_def)
    with substituted show ?thesis by (auto simp: Let_def)
  next
    case (nested s u d1)
    with bad have "denied_at g n d1 u" by (auto simp: denied_at_def)
    with nested show ?thesis by (auto simp: Let_def)
  qed
next
  assume ?rhs
  then consider "has_sentinel t \<or> offending g d (scanned_text g (Suc n) t)"
    | u where "u \<in> set (scan_command_substitutions (scanned_text g (Suc n) t))" "denied_at g n d u"
    | s u d1 where "s \<in> set (split_shell_segments d (scanned_text g (Suc n) t))"
        "nested_shell_command (segment_words s) d = Some (u, d1)" "denied_at g n d1 u"
    by (auto simp: Let_def)
  then show ?lhs
    unfolding denied_at_def by cases (blast intro: here substituted nested)+
qed

lemma evaluate_within_decides: "decides (evaluate_within g n d t) (denied_at g n d t)"
proof (induction n arbitrary: d t)
  case 0
  show ?case using denied_at_0 by (simp add: decides_def)
next
  case (Suc n)
  show ?case
  proof (cases "has_sentinel t")
    case True
    then show ?thesis by (simp add: decides_def denied_at_Suc)
  next
    case False
    let ?text = "scanned_text g (Suc n) t"
    let ?N = "\<lambda>s. segment_words s \<noteq> [] \<and>
        (case nested_shell_command (segment_words s) d of
           None \<Rightarrow> offending_words g (segment_words s) | Some (u, d1) \<Rightarrow> denied_at g n d1 u)"
    let ?fs = "map (evaluate_within g n d) (scan_command_substitutions ?text) @
        [evaluate_pipeline_rules g d ?text, pr_wait_step g d ?text] @
        map (evaluate_segment g (evaluate_within g n) d) (split_shell_segments d ?text)"
    let ?bs = "map (denied_at g n d) (scan_command_substitutions ?text) @
        [g_bad_pipelines g \<noteq> [] \<and> snd (pipelines_verdict g ?text (split_pipeline_groups d ?text)) \<noteq> None,
         g_pr_wait g \<and> blocking_pr_wait_reason d ?text \<noteq> None] @
        map ?N (split_shell_segments d ?text)"
    have "list_all2 decides ?fs ?bs"
      using decides_pipelines decides_pr_wait
      by (intro list_all2_appendI decides_map Suc.IH decides_segment) simp
    then have "decides (run_steps ?fs) (True \<in> set ?bs)" by (rule decides_steps)
    moreover have "?N s \<longleftrightarrow>
        segment_words s \<noteq> [] \<and> nested_shell_command (segment_words s) d = None \<and>
          offending_words g (segment_words s) \<or>
        (\<exists>u d1. nested_shell_command (segment_words s) d = Some (u, d1) \<and> denied_at g n d1 u)" for s
      by (cases "nested_shell_command (segment_words s) d") (auto dest: nested_of_words)
    then have "True \<in> set ?bs \<longleftrightarrow> denied_at g (Suc n) d t"
      using False by (simp add: denied_at_Suc offending_def Let_def image_iff eq_commute [of True]) blast
    ultimately show ?thesis
      using False by (simp add: decides_def Let_def)
  qed
qed


end
