(* ===== verification/Guard_Limits.thy ===== *)
theory Guard_Limits
  imports Guard_Coverage
begin

text \<open>
  Where the command guard stops looking. Texts of plain words are one segment whose words are read back;
  on these the limits of the guard show: a single ampersand ends no segment, and nesting is followed
  eight levels deep.
\<close>

section \<open>Plain texts\<close>

definition shell_specials :: string where
  "shell_specials = ''();|&#$<>^ '' @ [backtick, backslash, squote, dquote, cr, nl]"

definition word_char :: "char \<Rightarrow> bool" where
  "word_char c \<longleftrightarrow> 33 \<le> code_of c \<and> code_of c \<le> 126 \<and> c \<notin> set shell_specials"

lemma word_char_neq:
  assumes "word_char c"
  shows "c \<noteq> CHR ''('' \<and> c \<noteq> CHR '')'' \<and> c \<noteq> CHR '';'' \<and> c \<noteq> CHR ''|'' \<and> c \<noteq> CHR ''&'' \<and> c \<noteq> CHR ''#'' \<and>
    c \<noteq> CHR ''$'' \<and> c \<noteq> CHR ''<'' \<and> c \<noteq> CHR ''>'' \<and> c \<noteq> CHR ''^'' \<and> c \<noteq> CHR '' '' \<and> c \<noteq> backtick \<and>
    c \<noteq> backslash \<and> c \<noteq> squote \<and> c \<noteq> dquote \<and> c \<noteq> cr \<and> c \<noteq> nl"
proof -
  have "c \<notin> set shell_specials" using assms by (simp add: word_char_def)
  then show ?thesis unfolding shell_specials_def by simp
qed

definition plain_word :: "string \<Rightarrow> bool" where
  "plain_word w \<longleftrightarrow> w \<noteq> [] \<and> list_all word_char w"

lemma ws_seqs_head: "w \<in> set ws_seqs \<Longrightarrow> w \<noteq> [] \<and> (code_of (hd w) \<le> 32 \<or> 128 \<le> code_of (hd w))"
  unfolding ws_seqs_def by (auto simp: code_of_def)

lemma ws_at_graphic: "33 \<le> code_of c \<Longrightarrow> code_of c \<le> 126 \<Longrightarrow> ws_at (c # s) = 0"
proof -
  assume c: "33 \<le> code_of c" "code_of c \<le> 126"
  have "\<not> prefix w (c # s)" if "w \<in> set ws_seqs" for w
    using ws_seqs_head [OF that] c by (cases w) auto
  then have "List.find (\<lambda>w. prefix w (c # s)) ws_seqs = None" by (auto simp: find_None_iff)
  then show ?thesis by (simp add: ws_at_def)
qed

lemma ws_at_space [simp]: "ws_at (CHR '' '' # s) = 1"
  by (simp add: ws_at_def ws_seqs_def)

lemma space_not_quote [simp]: "\<not> is_quote (CHR '' '')"
  by (simp add: is_quote_def)

lemma word_char_quote: "word_char c \<Longrightarrow> \<not> is_quote c"
  using word_char_neq [of c] by (simp add: is_quote_def)

lemma word_char_escape: "word_char c \<Longrightarrow> \<not> is_shell_escape c d"
  using word_char_neq [of c] by (cases d) simp_all

lemma word_char_ws: "word_char c \<Longrightarrow> ws_at (c # s) = 0"
  by (simp add: word_char_def ws_at_graphic)

text \<open>Words that the tokenizer reads back from their join: graphic, without quotes.\<close>

definition graphic_word :: "string \<Rightarrow> bool" where
  "graphic_word w \<longleftrightarrow> w \<noteq> [] \<and> list_all (\<lambda>c. 33 \<le> code_of c \<and> code_of c \<le> 126 \<and> \<not> is_quote c) w"

lemma tokenize_word:
  "list_all (\<lambda>c. 33 \<le> code_of c \<and> code_of c \<le> 126 \<and> \<not> is_quote c) w \<Longrightarrow>
    tokenize_from None buf (w @ s) = tokenize_from None (buf @ w) s"
  by (induction w arbitrary: buf) (simp_all add: ws_at_graphic)

lemma tokenize_words: "list_all graphic_word ws \<Longrightarrow> tokenize (join_with '' '' ws) = ws"
proof (induction ws rule: induct_list012)
  case 1
  then show ?case by (simp add: tokenize_def word_of_def)
next
  case (2 w)
  then show ?case
    using tokenize_word [of w "[]" "[]"] by (simp add: tokenize_def graphic_word_def word_of_def)
next
  case (3 v w ws)
  from 3 tokenize_word [of v "[]" "'' '' @ join_with '' '' (w # ws)"] show ?case
    by (simp add: tokenize_def graphic_word_def word_of_def)
qed

lemma plain_graphic: "plain_word w \<Longrightarrow> graphic_word w"
  by (auto simp: plain_word_def graphic_word_def list_all_iff word_char_quote) (simp_all add: word_char_def)

lemma ampersand_graphic [simp]: "graphic_word ''&''"
  by code_simp

text \<open>Single ampersands do not end a segment.\<close>

fun one_segment :: "string \<Rightarrow> bool" where
  "one_segment [] = True"
| "one_segment (c # s) =
     ((word_char c \<or> c = CHR '' '' \<or> (c = CHR ''&'' \<and> (s = [] \<or> hd s \<noteq> CHR ''&''))) \<and> one_segment s)"

lemma one_segment_head:
  assumes "one_segment (c # s)"
  shows "\<not> is_quote c \<and> \<not> is_shell_escape c d \<and> c \<noteq> CHR ''('' \<and> \<not> starts_comment d seen c \<and>
      \<not> doubled (CHR ''&'') c s \<and> \<not> doubled (CHR ''|'') c s \<and> \<not> list_contains [CHR '';'', CHR ''|'', cr, nl] c \<and>
      c \<noteq> backtick \<and> c \<noteq> CHR ''$'' \<and> c \<noteq> CHR ''<'' \<and> c \<noteq> CHR ''>''"
proof -
  from assms consider "word_char c" | "c = CHR '' ''" | "c = CHR ''&''" "s = [] \<or> hd s \<noteq> CHR ''&''" by auto
  then show ?thesis
  proof cases
    case 1
    with word_char_neq [of c] word_char_quote word_char_escape show ?thesis
      by (simp add: starts_comment_def doubled_def)
  qed (cases d; simp add: is_quote_def starts_comment_def doubled_def)+
qed

lemma segments_one:
  "one_segment s \<Longrightarrow> segments_from d seen buf None 0 s = stage_of (buf @ s)"
proof (induction s arbitrary: seen buf)
  case (Cons c s)
  with one_segment_head [OF Cons.prems, of d seen] show ?case by simp
qed simp

lemma split_one: "one_segment s \<Longrightarrow> split_shell_segments d s = stage_of s"
  by (simp add: split_shell_segments_def segments_one)

lemma scan_one: "one_segment s \<Longrightarrow> scan_command_substitutions s = []"
proof (induction s)
  case (Cons c s)
  with one_segment_head [OF Cons.prems, of Posix "[]"] show ?case by simp
qed simp

lemma one_segment_join:
  "list_all (\<lambda>v. plain_word v \<or> v = ''&'') vs \<Longrightarrow> one_segment (join_with '' '' vs)"
proof (induction vs rule: induct_list012)
  case (2 v)
  have "list_all word_char v \<Longrightarrow> one_segment v" by (induction v) simp_all
  with 2 show ?case by (auto simp: plain_word_def)
next
  case (3 v w vs)
  then have rest: "one_segment (join_with '' '' (w # vs))" by simp
  have "list_all word_char v \<Longrightarrow> one_segment (v @ '' '' @ join_with '' '' (w # vs))"
    using rest by (induction v) simp_all
  with 3 rest show ?case by (auto simp: plain_word_def)
qed simp

lemma ws_seqs_last: "w \<in> set ws_seqs \<Longrightarrow> code_of (last w) \<le> 32 \<or> 128 \<le> code_of (last w)"
  unfolding ws_seqs_def by (auto simp: code_of_def)

lemma trim_graphic:
  assumes "s \<noteq> []" "33 \<le> code_of (hd s)" "code_of (hd s) \<le> 126" "33 \<le> code_of (last s)" "code_of (last s) \<le> 126"
  shows "trim s = s"
proof (rule trim_trimmed)
  have "\<not> prefix w s \<and> \<not> suffix w s" if w: "w \<in> set ws_seqs" for w
  proof -
    from ws_seqs_head [OF w] have "w \<noteq> []" "code_of (hd w) \<le> 32 \<or> 128 \<le> code_of (hd w)" by simp_all
    with assms have "\<not> prefix w s" by (auto simp: prefix_def)
    moreover from \<open>w \<noteq> []\<close> ws_seqs_last [OF w] assms have "\<not> suffix w s" by (auto simp: suffix_def)
    ultimately show ?thesis by simp
  qed
  then show "trimmed s" by (simp add: trimmed_def list_all_iff)
qed

lemma join_ends:
  "list_all graphic_word vs \<Longrightarrow> vs \<noteq> [] \<Longrightarrow>
    join_with '' '' vs \<noteq> [] \<and> hd (join_with '' '' vs) = hd (hd vs) \<and>
    last (join_with '' '' vs) = last (last vs)"
  by (induction vs rule: induct_list012) (auto simp: graphic_word_def)

lemma trim_join:
  assumes "list_all graphic_word vs" "vs \<noteq> []"
  shows "trim (join_with '' '' vs) = join_with '' '' vs"
proof -
  have "graphic_word (hd vs)" "graphic_word (last vs)" using assms by (auto simp: list_all_iff)
  then have "\<And>c. c \<in> set (hd vs) \<union> set (last vs) \<Longrightarrow> 33 \<le> code_of c \<and> code_of c \<le> 126"
    "hd vs \<noteq> []" "last vs \<noteq> []" by (auto simp: graphic_word_def list_all_iff)
  moreover have "hd (hd vs) \<in> set (hd vs)" "last (last vs) \<in> set (last vs)"
    using \<open>hd vs \<noteq> []\<close> \<open>last vs \<noteq> []\<close> by simp_all
  ultimately show ?thesis
    using join_ends [OF assms] by (intro trim_graphic) auto
qed

text \<open>The words of a text that is one segment.\<close>

definition transparent_programs :: "string list" where
  "transparent_programs = [''env'', ''command'', ''exec'']"

lemma command_words_join:
  assumes "list_all graphic_word (w # ws)" "w \<noteq> ''&''" "w \<noteq> ''call''" "\<not> is_env_assignment w"
    "program_name w \<notin> set transparent_programs"
  shows "command_words (join_with '' '' (w # ws)) = w # ws"
proof -
  have "0 < n \<Longrightarrow> unwrap_transparent_within n (w # ws) = Some (w # ws)" for n
    using assms(5) unfolding transparent_programs_def by (cases n) (simp_all add: Let_def)
  then have "unwrap_transparent_wrappers (w # ws) = Some (w # ws)"
    by (simp add: unwrap_transparent_wrappers_def)
  then show ?thesis
    using assms by (simp add: command_words_def tokenize_words del: join_with.simps)
qed

section \<open>The ampersand that is no separator\<close>

definition deciding_programs :: "string list" where
  "deciding_programs =
     transparent_programs @ shell_wrappers @ rust_tools @ legacy_rust_trampolines @
     [''git'', ''sudo'', ''find'', ''uv'', ''gh'']"

text \<open>A text of plain words is one segment: its words decide.\<close>

definition only_builtin :: "guard \<Rightarrow> bool" where
  "only_builtin g \<longleftrightarrow> g_bad_commands g = [] \<and> g_bad_pipelines g = [] \<and> \<not> g_pr_wait g"

lemma no_heredoc_join:
  "list_all (\<lambda>v. plain_word v \<or> v = ''&'') vs \<Longrightarrow> \<not> str_contains (join_with '' '' vs) ''<<''"
proof -
  assume "list_all (\<lambda>v. plain_word v \<or> v = ''&'') vs"
  then have one: "one_segment (join_with '' '' vs)" by (rule one_segment_join)
  have "one_segment s \<Longrightarrow> CHR ''<'' \<notin> set s" for s
    using one_segment_head [of _ _ Posix] by (induction s) auto
  from this [OF one] show ?thesis by (auto simp: str_contains_iff)
qed

lemma denied_at_join:
  assumes "list_all (\<lambda>v. plain_word v \<or> v = ''&'') (w # ws)" "plain_word w" "w \<noteq> ''call''"
    and "\<not> is_env_assignment w" "program_name w \<notin> set transparent_programs" "only_builtin g"
  shows "denied_at g (Suc n) d (join_with '' '' (w # ws)) \<longleftrightarrow>
    has_sentinel (join_with '' '' (w # ws)) \<or>
    (case nested_shell_command (w # ws) d of
       None \<Rightarrow> offending_words g (w # ws) | Some (u, d1) \<Rightarrow> denied_at g n d1 u)"
proof -
  let ?t = "join_with '' '' (w # ws)"
  have graphic: "list_all graphic_word (w # ws)"
    using assms(1) by (auto simp: list_all_iff plain_graphic)
  have one: "one_segment ?t" using assms(1) by (rule one_segment_join)
  have "w \<noteq> ''&''" using assms(2) word_char_neq [of "CHR ''&''"] by (auto simp: plain_word_def)
  then have words: "command_words ?t = w # ws"
    using command_words_join [OF graphic] assms(3,4,5) by simp
  have trim: "trim ?t = ?t" using trim_join [OF graphic] by simp
  have t: "?t \<noteq> []" "hd ?t = hd w" using join_ends [OF graphic] by simp_all
  have "word_char (hd w)" using assms(2) by (cases w) (simp_all add: plain_word_def)
  then have "\<not> opens ?t" using t word_char_neq by (auto simp: opens_def)
  with trim words t have seg: "segment_words ?t = w # ws" by (simp add: segment_words_def Let_def)
  have split: "split_shell_segments d ?t = [?t]" using one trim t by (simp add: split_one stage_of_def)
  have scanned: "scanned_text g n ?t = ?t" for n
    using no_heredoc_join [OF assms(1)] by (simp add: scanned_text_def strip_heredoc_bodies_def)
  have "offending g d ?t \<longleftrightarrow> nested_shell_command (w # ws) d = None \<and> offending_words g (w # ws)"
    using split seg assms(6) by (simp add: offending_def only_builtin_def)
  then show ?thesis
    using scan_one [OF one] split seg scanned by (auto simp: denied_at_Suc split: option.splits)
qed

lemma denied_iff: "ev_reason (evaluate_command_into g d t new_evaluation) \<noteq> None \<longleftrightarrow>
    denied_at g (Suc max_substitution_depth) d t"
  unfolding evaluate_command_into_def
  by (rule decidesD [OF evaluate_within_decides]) (simp add: new_evaluation_def)

text \<open>
  A single ampersand does not end a segment for the guard, although the shell runs what follows it as
  a command of its own (in the background; in \<^verbatim>\<open>cmd.exe\<close> simply next): after any harmless first word
  every command is allowed, whatever it is.
\<close>

theorem background_hides_command:
  assumes "list_all (\<lambda>v. plain_word v \<or> v = ''&'') (w # ws)" "plain_word w" "w \<noteq> ''call''"
    and "\<not> is_env_assignment w" "program_name w \<notin> set deciding_programs" "only_builtin g"
    and "\<not> has_sentinel (join_with '' '' (w # ws))"
  shows "ev_reason (evaluate_command_into g d (join_with '' '' (w # ws)) new_evaluation) = None"
proof -
  have "program_name w \<notin> set transparent_programs" using assms(5) by (simp add: deciding_programs_def)
  note denied = denied_at_join [OF assms(1-4) this assms(6), of max_substitution_depth d]
  have "nested_shell_command (w # ws) d = None"
    using assms(5) by (simp add: nested_shell_command_def deciding_programs_def Let_def)
  moreover have "\<not> offending_words g (w # ws)"
    using assms(5,6)
    by (simp add: offending_words_def deciding_programs_def clone_violation_def detect_git_path_capture_def
      find_filesystem_root_def tool_violation_def only_builtin_def Let_def)
  ultimately show ?thesis
    using assms(7) denied denied_iff [of g d "join_with '' '' (w # ws)"] by simp
qed

definition demo_guard :: guard where
  "demo_guard =
     \<lparr>g_cwd = Some ''/w/r'', g_allow_hybrid = False, g_bad_commands = [], g_bad_pipelines = [],
      g_repo_root = Some ''/w/r'', g_pr_wait = False, g_use_soldr = True, g_override = None,
      g_hybrid_root = None, g_windows = False, g_regex = (\<lambda>_. None), g_alnum = (\<lambda>_. False)\<rparr>"

theorem background_hides_command_witness:
  "ev_reason (evaluate_command_into demo_guard Posix ''sleep 1 & cargo build'' new_evaluation) = None \<and>
   ev_reason (evaluate_command_into demo_guard Posix ''sleep 1 ; cargo build'' new_evaluation) =
     Some (RustToolDenied ''cargo'')"
proof
  have "list_all (\<lambda>v. plain_word v \<or> v = ''&'') [''sleep'', ''1'', ''&'', ''cargo'', ''build'']"
    "plain_word ''sleep''" "\<not> is_env_assignment ''sleep''" "program_name ''sleep'' \<notin> set deciding_programs"
    "\<not> has_sentinel (join_with '' '' [''sleep'', ''1'', ''&'', ''cargo'', ''build''])"
    by code_simp+
  moreover have "only_builtin demo_guard" by (simp add: only_builtin_def demo_guard_def)
  ultimately show "ev_reason (evaluate_command_into demo_guard Posix ''sleep 1 & cargo build'' new_evaluation) = None"
    using background_hides_command [of "''sleep''" "[''1'', ''&'', ''cargo'', ''build'']" demo_guard Posix]
    by simp
  show "ev_reason (evaluate_command_into demo_guard Posix ''sleep 1 ; cargo build'' new_evaluation) =
     Some (RustToolDenied ''cargo'')"
    unfolding demo_guard_def by code_simp
qed

section \<open>The depth that is searched\<close>

definition eval_chain :: "nat \<Rightarrow> string list \<Rightarrow> string list" where
  "eval_chain n ws = replicate n ''eval'' @ ws"

lemma eval_word: "plain_word ''eval''" "program_name ''eval'' = ''eval''" "\<not> is_env_assignment ''eval''"
  by code_simp+

lemma eval_chain_denied:
  assumes "list_all plain_word (w # ws)" "\<not> is_env_assignment w" "program_name w \<in> set rust_tools" "w \<noteq> ''call''"
    and "only_builtin g" "g_use_soldr g" "\<not> has_sentinel (join_with '' '' (eval_chain n (w # ws)))"
  shows "denied_at g m d (join_with '' '' (eval_chain n (w # ws))) \<longleftrightarrow> n < m"
  using assms(7)
proof (induction n arbitrary: m)
  case 0
  show ?case
  proof (cases m)
    case 0
    then show ?thesis by (simp add: denied_at_0)
  next
    case (Suc k)
    have "list_all (\<lambda>v. plain_word v \<or> v = ''&'') (w # ws)" using assms(1) by (auto simp: list_all_iff)
    moreover have p: "program_name w \<notin> set transparent_programs" "program_name w \<notin> set shell_wrappers"
      "program_name w \<noteq> ''soldr'' \<and> program_name w \<noteq> ''uv''"
      using assms(3) unfolding rust_tools_def transparent_programs_def shell_wrappers_def by auto
    moreover have "nested_shell_command (w # ws) d = None"
      using p by (simp add: nested_shell_command_def Let_def)
    moreover have "offending_words g (w # ws)"
      using p assms(3,6) by (simp add: offending_words_def tool_violation_def Let_def)
    ultimately show ?thesis
      using denied_at_join [of w ws g k d] assms Suc by (simp add: eval_chain_def)
  qed
next
  case (Suc n)
  let ?ws = "eval_chain n (w # ws)"
  have ne: "?ws \<noteq> []" by (simp add: eval_chain_def)
  then have text_eq: "join_with '' '' (''eval'' # ?ws) = ''eval '' @ join_with '' '' ?ws"
    by (cases ?ws) simp_all
  have chain: "eval_chain (Suc n) (w # ws) = ''eval'' # ?ws" by (simp add: eval_chain_def)
  have "has_sentinel s \<Longrightarrow> has_sentinel (''eval '' @ s)" for s
    by (simp add: has_sentinel_def str_contains_appendI del: str_contains.simps append.simps)
  with Suc.prems have free: "\<not> has_sentinel (join_with '' '' ?ws)"
    unfolding chain text_eq by blast
  show ?case
  proof (cases m)
    case 0
    then show ?thesis by (simp add: denied_at_0)
  next
    case (Suc k)
    have "list_all (\<lambda>v. plain_word v \<or> v = ''&'') (''eval'' # ?ws)"
      using assms(1) eval_word by (auto simp: list_all_iff eval_chain_def)
    moreover have "nested_shell_command (''eval'' # ?ws) d = Some (join_with '' '' ?ws, d)"
      using ne eval_word by (simp add: nested_shell_command_def shell_wrappers_def Let_def)
    ultimately have "denied_at g (Suc k) d (join_with '' '' (''eval'' # ?ws)) \<longleftrightarrow>
        has_sentinel (join_with '' '' (''eval'' # ?ws)) \<or> denied_at g k d (join_with '' '' ?ws)"
      using denied_at_join [of "''eval''" ?ws g k d] eval_word assms(5)
      by (simp add: transparent_programs_def del: join_with.simps)
    with Suc.prems show ?thesis
      unfolding chain \<open>m = Suc k\<close> Suc.IH [OF free] by simp
  qed
qed

text \<open>
  The guard looks through exactly eight levels of nesting: a Rust tool behind \<open>n\<close> calls of \<^verbatim>\<open>eval\<close> is
  refused up to the eighth and allowed from the ninth on.
\<close>

theorem eight_levels_are_searched:
  assumes "list_all plain_word (w # ws)" "\<not> is_env_assignment w" "program_name w \<in> set rust_tools" "w \<noteq> ''call''"
    and "only_builtin g" "g_use_soldr g" "\<not> has_sentinel (join_with '' '' (eval_chain n (w # ws)))"
  shows "ev_reason (evaluate_command_into g d (join_with '' '' (eval_chain n (w # ws))) new_evaluation) \<noteq> None \<longleftrightarrow>
    n \<le> 8"
  unfolding denied_iff eval_chain_denied [OF assms] by (auto simp: max_substitution_depth_def)

theorem eight_levels_are_searched_witness:
  "ev_reason (evaluate_command_into demo_guard Posix
     (join_with '' '' (eval_chain 8 [''cargo'', ''build''])) new_evaluation) \<noteq> None \<and>
   ev_reason (evaluate_command_into demo_guard Posix
     (join_with '' '' (eval_chain 9 [''cargo'', ''build''])) new_evaluation) = None"
proof -
  have facts: "list_all plain_word [''cargo'', ''build'']" "\<not> is_env_assignment ''cargo''"
    "program_name ''cargo'' \<in> set rust_tools"
    "\<not> has_sentinel (join_with '' '' (eval_chain 8 [''cargo'', ''build'']))"
    "\<not> has_sentinel (join_with '' '' (eval_chain 9 [''cargo'', ''build'']))"
    by code_simp+
  moreover have "only_builtin demo_guard" "g_use_soldr demo_guard"
    by (simp_all add: only_builtin_def demo_guard_def)
  ultimately show ?thesis
    using eight_levels_are_searched [of "''cargo''" "[''build'']" demo_guard 8 Posix]
      eight_levels_are_searched [of "''cargo''" "[''build'']" demo_guard 9 Posix]
    by simp
qed

end
