(* ===== verification/Rm_Variables.thy ===== *)
theory Rm_Variables
  imports Command_Scan
begin

text \<open>
  \<^verbatim>\<open>block_bad_cmd_rm_vars.rs\<close>: removals whose operand starts with a variable are rewritten to the literal
  value when the command itself proves it, and refused when it does not. Positions are byte offsets into
  the command, as in the code; pushing a scalar byte by byte is the same as pushing it whole. A
  \<^verbatim>\<open>HashMap\<close> is a map.
\<close>

section \<open>Data\<close>

datatype rm_resolution = Unchanged | Rewritten string | Refused string

datatype separator = SepStart | SepSequence | SepAnd | SepOr | SepPipe | SepBackground

record statement =
  st_text :: string
  st_start :: nat
  st_separator :: separator

datatype quote_context = Unquoted | Double

record expansion =
  ex_name :: string
  ex_raw_start :: nat
  ex_raw_end :: nat
  ex_logical_start :: nat
  ex_logical_end :: nat
  ex_quote :: quote_context

record rm_word =
  rw_cooked :: string
  rw_expansions :: "expansion list"
  rw_dynamic :: bool

datatype variable_value = Known string | Unset | Conflict

record replacement =
  rp_start :: nat
  rp_end :: nat
  rp_value :: string

section \<open>Names and assignments\<close>

definition is_name_start :: "char \<Rightarrow> bool" where
  "is_name_start c \<longleftrightarrow> c = CHR ''_'' \<or> is_ascii_alphabetic c"

definition is_name_continue :: "char \<Rightarrow> bool" where
  "is_name_continue c \<longleftrightarrow> is_name_start c \<or> is_digit c"

definition is_valid_name :: "string \<Rightarrow> bool" where
  "is_valid_name s \<longleftrightarrow> s \<noteq> [] \<and> is_name_start (hd s) \<and> list_all is_name_continue (tl s)"

definition assignment_parts :: "string \<Rightarrow> (string \<times> string) option" where
  "assignment_parts w =
     (case split_once (CHR ''='') w of
        None \<Rightarrow> None | Some (n, v) \<Rightarrow> if is_valid_name n then Some (n, v) else None)"

text \<open>The name of a simple expansion and what follows it, for the text after the dollar.\<close>

definition parse_simple_expansion :: "string \<Rightarrow> (string \<times> string) option" where
  "parse_simple_expansion s =
     (case s of
        [] \<Rightarrow> None
      | c # r \<Rightarrow>
          if c = CHR ''{'' then
            (let name = takeWhile is_name_continue r; after = dropWhile is_name_continue r
             in if name = [] \<or> after = [] \<or> hd after \<noteq> CHR ''}'' then None else Some (name, tl after))
          else if is_name_start c then
            Some (c # takeWhile is_name_continue r, dropWhile is_name_continue r)
          else None)"

section \<open>Masking here-documents\<close>

definition blank_line :: "string \<Rightarrow> string" where
  "blank_line line = map (\<lambda>c. if c = nl \<or> c = cr then c else CHR '' '') line"

text \<open>The lines up to and including the terminator, blanked, and those after it.\<close>

fun mask_body :: "string \<Rightarrow> string list \<Rightarrow> (string list \<times> string list) option" where
  "mask_body delim [] = None"
| "mask_body delim (line # lines) =
     (if body_line line = delim then Some ([blank_line line], lines)
      else map_option (\<lambda>(m, r). (blank_line line # m, r)) (mask_body delim lines))"

lemma mask_body_shape:
  "mask_body delim lines = Some (m, r) \<Longrightarrow>
    length lines = length m + length r \<and> m \<noteq> [] \<and> map length lines = map length (m @ r)"
  by (induction lines arbitrary: m) (auto simp: blank_line_def split: if_splits)

function mask_lines :: "(string \<Rightarrow> bool) \<Rightarrow> string list \<Rightarrow> string list" where
  "mask_lines alnum [] = []"
| "mask_lines alnum (line # lines) =
     line #
     (case find_heredoc_delimiter alnum line of
        None \<Rightarrow> mask_lines alnum lines
      | Some delim \<Rightarrow>
          (case mask_body delim lines of
             None \<Rightarrow> lines
           | Some (m, r) \<Rightarrow> m @ mask_lines alnum r))"
  by pat_completeness auto
termination
proof (relation "measure (\<lambda>(_, ls). length ls)")
  fix alnum :: "string \<Rightarrow> bool" and line delim :: string and lines m r :: "string list" and x
  assume "mask_body delim lines = Some x" "(m, r) = x"
  then show "((alnum, r), alnum, line # lines) \<in> measure (\<lambda>(_, ls). length ls)"
    using mask_body_shape [of delim lines m r] by auto
qed auto

definition mask_heredoc_bodies :: "(string \<Rightarrow> bool) \<Rightarrow> string \<Rightarrow> string" where
  "mask_heredoc_bodies alnum command =
     (if \<not> str_contains command ''<<'' then command
      else join_with [nl] (mask_lines alnum (split_on nl command)))"

section \<open>Statements\<close>

definition push_statement :: "string \<Rightarrow> nat \<Rightarrow> separator \<Rightarrow> statement list" where
  "push_statement txt start sep =
     (if trim txt = [] then []
      else [\<lparr>st_text = trim txt, st_start = start + (length txt - length (trim_start txt)), st_separator = sep\<rparr>])"

text \<open>
  The scan at offset \<open>i\<close>: \<open>cur\<close> is the text since \<open>start\<close>, \<open>prev\<close> the byte before \<open>i\<close>; \<open>None\<close> is malformed.
\<close>

function statements_from ::
    "char option \<Rightarrow> nat \<Rightarrow> nat \<Rightarrow> string \<Rightarrow> separator \<Rightarrow> char option \<Rightarrow> bool \<Rightarrow> nat \<Rightarrow> string \<Rightarrow>
      statement list option" where
  "statements_from prev i start cur sep quote escaped depth [] =
     (if quote \<noteq> None \<or> escaped \<or> depth \<noteq> 0 then None else Some (push_statement cur start sep))"
| "statements_from prev i start cur sep quote escaped depth (c # s) =
     (if escaped then statements_from (Some c) (i + 1) start (cur @ [c]) sep quote False depth s
      else if quote = Some squote then
        statements_from (Some c) (i + 1) start (cur @ [c]) sep (if c = squote then None else quote) False depth s
      else if quote = Some dquote then
        (if c = backslash then statements_from (Some c) (i + 1) start (cur @ [c]) sep quote True depth s
         else if c = dquote then statements_from (Some c) (i + 1) start (cur @ [c]) sep None False depth s
         else if c = CHR ''$'' \<and> opens s then
           statements_from (Some (hd s)) (i + 2) start (cur @ [c, hd s]) sep quote False (depth + 1) (tl s)
         else
           statements_from (Some c) (i + 1) start (cur @ [c]) sep quote False
             (if c = CHR '')'' \<and> depth > 0 then depth - 1 else depth) s)
      else if c = backslash then statements_from (Some c) (i + 1) start (cur @ [c]) sep None True depth s
      else if is_quote c then statements_from (Some c) (i + 1) start (cur @ [c]) sep (Some c) False depth s
      else if c = CHR ''('' then statements_from (Some c) (i + 1) start (cur @ [c]) sep None False (depth + 1) s
      else if c = CHR '')'' \<and> depth > 0 then
        statements_from (Some c) (i + 1) start (cur @ [c]) sep None False (depth - 1) s
      else if depth = 0 \<and> (c = CHR '';'' \<or> c = nl \<or> c = cr) then
        map_option ((@) (push_statement cur start sep))
          (statements_from (Some c) (i + 1) (i + 1) [] SepSequence None False depth s)
      else if depth = 0 \<and> doubled (CHR ''&'') c s then
        map_option ((@) (push_statement cur start sep))
          (statements_from (Some (hd s)) (i + 2) (i + 2) [] SepAnd None False depth (tl s))
      else if depth = 0 \<and> c = CHR ''&'' \<and> \<not> (s \<noteq> [] \<and> hd s = CHR ''>'') \<and> prev \<noteq> Some (CHR ''>'') then
        map_option ((@) (push_statement cur start sep))
          (statements_from (Some c) (i + 1) (i + 1) [] SepBackground None False depth s)
      else if depth = 0 \<and> doubled (CHR ''|'') c s then
        map_option ((@) (push_statement cur start sep))
          (statements_from (Some (hd s)) (i + 2) (i + 2) [] SepOr None False depth (tl s))
      else if depth = 0 \<and> c = CHR ''|'' then
        map_option ((@) (push_statement cur start sep))
          (statements_from (Some c) (i + 1) (i + 1) [] SepPipe None False depth s)
      else statements_from (Some c) (i + 1) start (cur @ [c]) sep None False depth s)"
  by pat_completeness auto
termination
  by (relation "measure (\<lambda>(_, _, _, _, _, _, _, _, s). length s)") auto

definition split_statements :: "string \<Rightarrow> statement list option" where
  "split_statements command = statements_from None 0 0 [] SepStart None False 0 command"

section \<open>Words\<close>

definition is_ascii_whitespace :: "char \<Rightarrow> bool" where
  "is_ascii_whitespace c \<longleftrightarrow> list_contains [CHR '' '', CHR 0x09, nl, CHR 0x0C, cr] c"

definition empty_word :: rm_word where
  "empty_word = \<lparr>rw_cooked = [], rw_expansions = [], rw_dynamic = False\<rparr>"

definition push_text :: "string \<Rightarrow> rm_word \<Rightarrow> rm_word" where
  "push_text t w = w\<lparr>rw_cooked := rw_cooked w @ t\<rparr>"

definition mark_dynamic :: "bool \<Rightarrow> rm_word \<Rightarrow> rm_word" where
  "mark_dynamic b w = w\<lparr>rw_dynamic := rw_dynamic w \<or> b\<rparr>"

definition push_expansion :: "string \<Rightarrow> nat \<Rightarrow> nat \<Rightarrow> char option \<Rightarrow> rm_word \<Rightarrow> rm_word" where
  "push_expansion name raw_start raw_end quote w =
     (let cooked = rw_cooked w @ ''${'' @ name @ ''}''
      in w\<lparr>rw_cooked := cooked,
           rw_expansions := rw_expansions w @
             [\<lparr>ex_name = name, ex_raw_start = raw_start, ex_raw_end = raw_end,
               ex_logical_start = length (rw_cooked w), ex_logical_end = length cooked,
               ex_quote = (if quote = Some dquote then Double else Unquoted)\<rparr>]\<rparr>)"

definition finished :: "rm_word option \<Rightarrow> rm_word list" where
  "finished w = (case w of None \<Rightarrow> [] | Some x \<Rightarrow> [x])"

definition makes_dynamic :: "char option \<Rightarrow> rm_word \<Rightarrow> char \<Rightarrow> string \<Rightarrow> bool" where
  "makes_dynamic quote w c s \<longleftrightarrow>
     ((c = CHR ''<'' \<or> c = CHR ''>'') \<and> opens s) \<or>
     (quote = None \<and>
      (c = CHR ''{'' \<or> c = CHR ''}'' \<or> (c = CHR ''~'' \<and> ends_with (rw_cooked w) ''=''))) \<or>
     c = CHR ''$''"

lemma parse_simple_expansion_shorter:
  "parse_simple_expansion s = Some (name, r) \<Longrightarrow> length r < length s"
proof -
  assume p: "parse_simple_expansion s = Some (name, r)"
  then obtain c t where s: "s = c # t" by (cases s) (auto simp: parse_simple_expansion_def)
  have "length (dropWhile is_name_continue t) \<le> length t" by (rule length_dropWhile_le)
  moreover have "length r \<le> length (dropWhile is_name_continue t)"
    using p s by (auto simp: parse_simple_expansion_def Let_def split: if_splits)
  ultimately show ?thesis using s by simp
qed

function lex_from :: "nat \<Rightarrow> rm_word option \<Rightarrow> char option \<Rightarrow> string \<Rightarrow> rm_word list option" where
  "lex_from i word quote [] = (if quote \<noteq> None then None else Some (finished word))"
| "lex_from i word quote (c # s) =
     (if quote = None \<and> is_ascii_whitespace c then
        map_option ((@) (finished word)) (lex_from (i + 1) None None s)
      else
        let w = unwrap_or word empty_word
        in if quote = Some squote then
             (if c = squote then lex_from (i + 1) (Some w) None s
              else lex_from (i + 1) (Some (push_text [c] w)) quote s)
           else if c = squote \<and> quote = None then lex_from (i + 1) (Some w) (Some squote) s
           else if c = dquote then
             lex_from (i + 1) (Some w) (if quote = Some dquote then None else Some dquote) s
           else if c = backslash then
             (case s of
                [] \<Rightarrow> None
              | e # s' \<Rightarrow>
                  lex_from (i + 2)
                    (Some (push_text
                      ((if quote = Some dquote \<and> \<not> list_contains [CHR ''$'', backtick, dquote, backslash, nl] e
                        then [backslash] else []) @ [e]) w)) quote s')
           else if c = backtick then lex_from (i + 1) (Some (push_text [c] (mark_dynamic True w))) quote s
           else if c = CHR ''$'' \<and> opens s then
             lex_from (i + 1) (Some (push_text [c] (mark_dynamic True w))) quote s
           else
             (case (if c = CHR ''$'' then parse_simple_expansion s else None) of
                Some (name, r) \<Rightarrow>
                  lex_from (i + 1 + (length s - length r))
                    (Some (push_expansion name i (i + 1 + (length s - length r)) quote w)) quote r
              | None \<Rightarrow>
                  lex_from (i + 1) (Some (push_text [c] (mark_dynamic (makes_dynamic quote w c s) w))) quote s))"
  by pat_completeness auto
termination
proof (relation "measure (\<lambda>(_, _, _, s). length s)")
  fix i :: nat and word quote and c :: char and s name r :: string and x xa
  assume "(if c = CHR ''$'' then parse_simple_expansion s else None) = Some xa" "(name, r) = xa"
  then have "length r < length s"
    using parse_simple_expansion_shorter [of s name r] by (auto split: if_splits)
  then show "((i + 1 + (length s - length r),
       Some (push_expansion name i (i + 1 + (length s - length r)) quote x), quote, r), i, word, quote, c # s)
      \<in> measure (\<lambda>(_, _, _, s). length s)" by simp
qed auto

text \<open>Expansions hold offsets into the whole command: \<open>offset\<close> is that of the segment.\<close>

definition lex_words :: "string \<Rightarrow> nat \<Rightarrow> rm_word list option" where
  "lex_words segment offset = lex_from offset None None segment"

section \<open>Variables\<close>

type_synonym variables = "string \<Rightarrow> variable_value option"
type_synonym counts = "string \<Rightarrow> nat"

definition assigned_value :: "separator \<Rightarrow> nat \<Rightarrow> rm_word \<Rightarrow> string \<Rightarrow> variable_value" where
  "assigned_value sep count w v =
     (if count > 1 \<or> sep = SepAnd \<or> sep = SepOr \<or> sep = SepPipe \<or> sep = SepBackground \<or>
         rw_dynamic w \<or> rw_expansions w \<noteq> []
      then Conflict
      else if v = [] then Unset
      else Known v)"

definition is_assignment :: "rm_word \<Rightarrow> bool" where
  "is_assignment w \<longleftrightarrow> assignment_parts (rw_cooked w) \<noteq> None"

definition assign_word :: "separator \<Rightarrow> rm_word \<Rightarrow> variables \<times> counts \<Rightarrow> variables \<times> counts" where
  "assign_word sep w vc =
     (case assignment_parts (rw_cooked w) of
        None \<Rightarrow> vc
      | Some (n, v) \<Rightarrow>
          let count = snd vc n + 1
          in ((fst vc)(n \<mapsto> assigned_value sep count w v), (snd vc)(n := count)))"

definition unset_word :: "rm_word \<Rightarrow> variables \<times> counts \<Rightarrow> variables \<times> counts" where
  "unset_word w vc =
     (let n = rw_cooked w
      in if is_valid_name n then ((fst vc)(n \<mapsto> Unset), (snd vc)(n := snd vc n + 1)) else vc)"

definition exported :: "rm_word list \<Rightarrow> rm_word list" where
  "exported words = (if words \<noteq> [] \<and> rw_cooked (hd words) = ''export'' then tl words else words)"

definition apply_assignment_statement ::
    "rm_word list \<Rightarrow> separator \<Rightarrow> variables \<times> counts \<Rightarrow> variables \<times> counts" where
  "apply_assignment_statement words sep vc =
     (if exported words \<noteq> [] \<and> list_all is_assignment (exported words)
      then fold (assign_word sep) (exported words) vc
      else if words \<noteq> [] \<and> rw_cooked (hd words) = ''unset'' then fold unset_word (tl words) vc
      else vc)"

definition spoil_word :: "rm_word \<Rightarrow> variables \<times> counts \<Rightarrow> variables \<times> counts" where
  "spoil_word w vc =
     (case split_once (CHR ''='') (rw_cooked w) of
        None \<Rightarrow> vc
      | Some (left, _) \<Rightarrow>
          let n = trim_end_matches (CHR ''+'') left
          in if is_valid_name n then ((fst vc)(n \<mapsto> Conflict), (snd vc)(n := snd vc n + 1)) else vc)"

definition mark_unsupported ::
    "rm_word list \<Rightarrow> variables \<times> counts \<Rightarrow> variables \<times> counts" where
  "mark_unsupported words vc =
     (if list_all is_assignment words \<or>
         (words \<noteq> [] \<and> rw_cooked (hd words) = ''export'' \<and> list_all is_assignment (tl words))
      then vc else fold spoil_word words vc)"

section \<open>What looks dangerous\<close>

definition control_words :: "string list" where
  "control_words =
     [''if'', ''then'', ''elif'', ''else'', ''fi'', ''for'', ''while'', ''until'', ''case'', ''esac'',
      ''select'', ''function'', ''eval'']"

definition first_ascii_word :: "string \<Rightarrow> string" where
  "first_ascii_word s = takeWhile (\<lambda>c. \<not> is_ascii_whitespace c) (dropWhile is_ascii_whitespace s)"

definition contains_unsupported_control_flow :: "statement list \<Rightarrow> bool" where
  "contains_unsupported_control_flow sts \<longleftrightarrow>
     list_ex (\<lambda>st. list_contains control_words (first_ascii_word (st_text st)) \<or>
       starts_with (st_text st) ''('' \<or> starts_with (st_text st) ''{'' \<or> str_contains (st_text st) ''()'') sts"

definition before_ok :: "char option \<Rightarrow> bool" where
  "before_ok p =
     (case p of
        None \<Rightarrow> True
      | Some c \<Rightarrow> is_ascii_whitespace c \<or> list_contains ('';|&(){}'' @ [squote, dquote, backtick]) c)"

text \<open>An occurrence of the program's name between a boundary and ASCII white space; \<open>p\<close> is the byte before.\<close>

fun program_text_from :: "string \<Rightarrow> char option \<Rightarrow> string \<Rightarrow> bool" where
  "program_text_from prog p [] = False"
| "program_text_from prog p (c # s) =
     ((prefix prog (c # s) \<and> before_ok p \<and>
       (let r = drop (length prog) (c # s) in r \<noteq> [] \<and> is_ascii_whitespace (hd r))) \<or>
      program_text_from prog (Some c) s)"

definition contains_removal_program_text :: "string \<Rightarrow> bool" where
  "contains_removal_program_text s \<longleftrightarrow>
     program_text_from ''rm'' None s \<or> program_text_from ''rmdir'' None s"

function path_variable_from :: "bool \<Rightarrow> bool \<Rightarrow> string \<Rightarrow> bool" where
  "path_variable_from single escaped [] = False"
| "path_variable_from single escaped (c # s) =
     (if escaped then path_variable_from single False s
      else if c = backslash \<and> \<not> single then path_variable_from single True s
      else if c = squote then path_variable_from (\<not> single) False s
      else
        (case (if c = CHR ''$'' \<and> \<not> single then parse_simple_expansion s else None) of
           Some (_, r) \<Rightarrow> (r \<noteq> [] \<and> hd r = CHR ''/'') \<or> path_variable_from single False r
         | None \<Rightarrow> path_variable_from single False s))"
  by pat_completeness auto
termination
proof (relation "measure (\<lambda>(_, _, s). length s)")
  fix single escaped :: bool and c :: char and s name r :: string and x
  assume "(if c = CHR ''$'' \<and> \<not> single then parse_simple_expansion s else None) = Some x" "(name, r) = x"
  then have "length r < length s"
    using parse_simple_expansion_shorter [of s name r] by (auto split: if_splits)
  then show "((single, False, r), single, escaped, c # s) \<in> measure (\<lambda>(_, _, s). length s)" by simp
qed auto

definition looks_like_hazardous_rm :: "string \<Rightarrow> bool" where
  "looks_like_hazardous_rm command \<longleftrightarrow>
     (let lower = to_ascii_lowercase command
      in contains_removal_program_text lower \<and>
         (path_variable_from False False command \<or>
          (str_contains lower ''eval'' \<and> CHR ''$'' \<in> set command)))"

section \<open>The program of a removal\<close>

definition is_removal :: "string \<Rightarrow> bool" where
  "is_removal w \<longleftrightarrow> program_name w = ''rm'' \<or> program_name w = ''rmdir''"

definition hazardous_cooked_words :: "string list \<Rightarrow> bool" where
  "hazardous_cooked_words words \<longleftrightarrow>
     (let joined = join_with '' '' words
      in (contains_removal_program_text (to_ascii_lowercase joined) \<or>
          (case lex_words joined 0 of
             None \<Rightarrow> False | Some ws \<Rightarrow> list_ex (\<lambda>w. is_removal (rw_cooked w)) ws)) \<and>
         CHR ''$'' \<in> set joined \<and> CHR ''/'' \<in> set joined)"

definition position_of :: "'a list \<Rightarrow> 'a list \<Rightarrow> nat option" where
  "position_of sub xs =
     List.find (\<lambda>i. take (length sub) (drop i xs) = sub) [0..<length xs + 1 - length sub]"

text \<open>\<open>Inl ()\<close> is a removal that cannot be proven; \<open>Inr (Some i)\<close> one whose program is word \<open>i\<close>.\<close>

definition unproven_if :: "bool \<Rightarrow> (unit, nat option) result" where
  "unproven_if b = (if b then Inl () else Inr None)"

definition removal_program_index :: "rm_word list \<Rightarrow> (unit, nat option) result" where
  "removal_program_index words =
     (let index = length (takeWhile is_assignment words);
          cooked = map rw_cooked (drop index words)
      in case cooked of
           [] \<Rightarrow> Inr None
         | first_word # after \<Rightarrow>
             let first = program_name first_word
             in if is_removal first_word then Inr (Some index)
                else if first = ''time'' then
                  (let flags = length (takeWhile (\<lambda>w. starts_with w ''-'') after);
                       remaining = drop flags after
                   in if remaining = [] then Inr None
                      else if is_removal (hd remaining) then Inr (Some (index + 1 + flags))
                      else unproven_if (hazardous_cooked_words remaining))
                else if list_contains [''sudo'', ''env'', ''command'', ''exec''] first then
                  (case unwrap_configured_wrappers cooked [''sudo''] of
                     None \<Rightarrow> unproven_if (hazardous_cooked_words cooked)
                   | Some unwrapped \<Rightarrow>
                       if unwrapped = [] then Inr None
                       else if is_removal (hd unwrapped) then
                         (case position_of unwrapped cooked of
                            Some offset \<Rightarrow> Inr (Some (index + offset)) | None \<Rightarrow> Inl ())
                       else unproven_if (hazardous_cooked_words unwrapped))
                else unproven_if (list_contains [''bash'', ''sh'', ''zsh'', ''eval''] first \<and>
                  hazardous_cooked_words cooked))"

section \<open>Values\<close>

fun component_depth :: "nat \<Rightarrow> string list \<Rightarrow> nat option" where
  "component_depth depth [] = Some depth"
| "component_depth depth (n # ns) =
     (if n = ''..'' then (if depth = 0 then None else component_depth (depth - 1) ns)
      else if list_ex (list_contains ''*?['') n then component_depth depth ns
      else component_depth (depth + 1) ns)"

definition normalized_component_count :: "string \<Rightarrow> nat option" where
  "normalized_component_count path =
     component_depth 0 (filter (\<lambda>n. n \<noteq> [] \<and> n \<noteq> ''.'') (split_on (CHR ''/'') path))"

definition at_most :: "nat \<Rightarrow> string \<Rightarrow> string \<Rightarrow> string \<Rightarrow> string option" where
  "at_most n path escapes shallow =
     (case normalized_component_count path of
        None \<Rightarrow> Some escapes | Some k \<Rightarrow> if k \<le> n then Some shallow else None)"

definition drop_slashes :: "string \<Rightarrow> string" where
  "drop_slashes s = dropWhile ((=) (CHR ''/'')) s"

definition unsafe_delete_base_reason :: "string \<Rightarrow> string option" where
  "unsafe_delete_base_reason value =
     (if value = [] then Some ''its value is empty''
      else if list_ex (list_contains [CHR 0x00, nl, cr]) value then
        Some ''its value contains control characters''
      else if backslash \<in> set value then Some ''its POSIX value contains a literal backslash''
      else
        let trimmed = trim_end_matches (CHR ''/'') value
        in if trimmed = [] \<or> trimmed = ''.'' \<or> trimmed = ''..'' \<or> starts_with trimmed ''../'' then
             Some ''its normalized value is a filesystem root or relative escape''
           else if starts_with value ''//'' then
             at_most 2 (drop_slashes trimmed) ''its normalized value escapes its UNC root''
               ''its normalized value is a UNC root or share root''
           else if length value \<ge> 3 \<and> hd value = CHR ''/'' \<and> is_ascii_alphabetic (value ! 1) \<and>
               value ! 2 = CHR ''/'' then
             at_most 1 (trim_end_matches (CHR ''/'') (drop 3 value))
               ''its normalized value escapes the MSYS drive root''
               ''its normalized value is an MSYS drive root or top-level directory''
           else if starts_with value ''/'' then
             at_most 1 (drop_slashes trimmed) ''its normalized value escapes the filesystem root''
               ''its normalized value is a filesystem root or top-level directory''
           else if length value \<ge> 2 \<and> value ! 1 = CHR '':'' then
             (if \<not> is_ascii_alphabetic (hd value) \<or> \<not> starts_with (drop 2 value) ''/'' then
                Some ''its Windows drive path is not absolute''
              else
                at_most 1 (trim_end_matches (CHR ''/'') (drop 3 value))
                  ''its normalized value escapes the drive root''
                  ''its normalized value is a drive root or top-level directory'')
           else if normalized_component_count trimmed = None then
             Some ''its normalized relative value escapes its working directory''
           else None)"

definition escape_double_quoted :: "string \<Rightarrow> string" where
  "escape_double_quoted v =
     concat (map (\<lambda>c. if list_contains [backslash, dquote, CHR ''$'', backtick] c then [backslash, c] else [c]) v)"

definition quote_posix_word :: "string \<Rightarrow> string" where
  "quote_posix_word v =
     squote # concat (map (\<lambda>c. if c = squote then [squote, backslash, squote, squote] else [c]) v) @ [squote]"

section \<open>Checking an operand\<close>

definition deny_because :: "string \<Rightarrow> string" where
  "deny_because detail =
     ''Blocked unsafe removal: a path variable could not be proven to contain one nonempty literal path. '' @
     detail @ ''. Retry using the validated literal path directly.''"

definition deny_for_variable :: "string \<Rightarrow> string \<Rightarrow> string" where
  "deny_for_variable name detail =
     ''Blocked unsafe removal: $'' @ name @
     '' could not be proven to contain one nonempty literal path because '' @ detail @
     ''. Retry using the validated literal path directly.''"

text \<open>\<^verbatim>\<open>String::replace_range\<close>.\<close>

definition replace_range :: "string \<Rightarrow> nat \<Rightarrow> nat \<Rightarrow> string \<Rightarrow> string" where
  "replace_range s a b v = take a s @ v @ drop b s"

fun splice_values :: "variables \<Rightarrow> expansion list \<Rightarrow> string \<Rightarrow> string option" where
  "splice_values vars [] s = Some s"
| "splice_values vars (e # es) s =
     (case vars (ex_name e) of
        Some (Known v) \<Rightarrow> splice_values vars es (replace_range s (ex_logical_start e) (ex_logical_end e) v)
      | _ \<Rightarrow> None)"

definition resolve_static_operand :: "rm_word \<Rightarrow> variables \<Rightarrow> string option" where
  "resolve_static_operand w vars =
     (if rw_dynamic w then None else splice_values vars (rev (rw_expansions w)) (rw_cooked w))"

fun splits_or_globs :: "string \<Rightarrow> bool" where
  "splits_or_globs [] = False"
| "splits_or_globs (c # s) = (ws_at (c # s) > 0 \<or> list_contains ''*?[]'' c \<or> splits_or_globs s)"

definition heads_path :: "rm_word \<Rightarrow> expansion \<Rightarrow> bool" where
  "heads_path w e \<longleftrightarrow>
     ex_logical_start e = 0 \<and> ex_logical_end e < length (rw_cooked w) \<and>
     rw_cooked w ! ex_logical_end e = CHR ''/''"

definition written_value :: "quote_context \<Rightarrow> string \<Rightarrow> string" where
  "written_value q v = (case q of Double \<Rightarrow> escape_double_quoted v | Unquoted \<Rightarrow> quote_posix_word v)"

text \<open>\<open>Inl\<close> is the refusal, \<open>Inr\<close> the replacements the expansion asks for.\<close>

definition check_expansion :: "variables \<Rightarrow> rm_word \<Rightarrow> expansion \<Rightarrow> (string, replacement list) result" where
  "check_expansion vars w e =
     (if \<not> heads_path w e then Inr []
      else
        (case vars (ex_name e) of
           Some (Known v) \<Rightarrow>
             (case unsafe_delete_base_reason v of
                Some reason \<Rightarrow> Inl (deny_for_variable (ex_name e) reason)
              | None \<Rightarrow>
                  (case resolve_static_operand w vars of
                     None \<Rightarrow> Inl (deny_because ''a removal operand contains a dynamic or ambiguous suffix'')
                   | Some operand \<Rightarrow>
                       if list_ex (list_contains ''<>'') operand then
                         Inl (deny_because ''a removal operand has an attached shell redirection'')
                       else
                         (case unsafe_delete_base_reason operand of
                            Some reason \<Rightarrow> Inl (deny_for_variable (ex_name e) reason)
                          | None \<Rightarrow>
                              if ex_quote e = Unquoted \<and> splits_or_globs v then
                                Inl (deny_for_variable (ex_name e)
                                  ''an unquoted expansion would change shell splitting or glob semantics'')
                              else
                                Inr [\<lparr>rp_start = ex_raw_start e, rp_end = ex_raw_end e,
                                      rp_value = written_value (ex_quote e) v\<rparr>])))
         | _ \<Rightarrow> Inl (deny_for_variable (ex_name e) ''its value is unset, dynamic, or ambiguous'')))"

text \<open>The first refusal of a list, or everything its elements ask for.\<close>

fun check_each :: "('a \<Rightarrow> (string, replacement list) result) \<Rightarrow> 'a list \<Rightarrow> (string, replacement list) result" where
  "check_each f [] = Inr []"
| "check_each f (x # xs) = rbind (f x) (\<lambda>rs. rbind (check_each f xs) (\<lambda>rs'. Inr (rs @ rs')))"

definition indirect_operand :: "rm_word \<Rightarrow> bool" where
  "indirect_operand w \<longleftrightarrow>
     rw_dynamic w \<and> (starts_with (rw_cooked w) ''$'' \<or> starts_with (rw_cooked w) [backtick]) \<and>
     CHR ''/'' \<in> set (rw_cooked w)"

definition check_word :: "variables \<Rightarrow> rm_word \<Rightarrow> (string, replacement list) result" where
  "check_word vars w =
     (if indirect_operand w then
        Inl (deny_because ''a removal operand uses an indirect or dynamic path expansion'')
      else check_each (check_expansion vars w) (rw_expansions w))"

section \<open>The statements of a command\<close>

definition after_separator :: "separator \<Rightarrow> variables \<Rightarrow> variables" where
  "after_separator sep vars =
     (if sep = SepPipe \<or> sep = SepBackground then (\<lambda>n. map_option (\<lambda>_. Conflict) (vars n)) else vars)"

definition after_words :: "rm_word list \<Rightarrow> separator \<Rightarrow> variables \<times> counts \<Rightarrow> variables \<times> counts" where
  "after_words words sep vc = mark_unsupported words (apply_assignment_statement words sep vc)"

fun check_statements ::
    "variables \<times> counts \<Rightarrow> statement list \<Rightarrow> (string, replacement list) result" where
  "check_statements vc [] = Inr []"
| "check_statements vc (st # sts) =
     (let vc = (after_separator (st_separator st) (fst vc), snd vc)
      in case lex_words (st_text st) (st_start st) of
           None \<Rightarrow>
             if looks_like_hazardous_rm (st_text st) then
               Inl (deny_because ''the removal command could not be tokenized safely'')
             else check_statements vc sts
         | Some words \<Rightarrow>
             if words = [] then check_statements vc sts
             else
               let vc = after_words words (st_separator st) vc
               in case removal_program_index words of
                    Inl _ \<Rightarrow> Inl (deny_because ''a nested or wrapped removal command cannot be proven safely'')
                  | Inr None \<Rightarrow> check_statements vc sts
                  | Inr (Some i) \<Rightarrow>
                      rbind (check_each (check_word (fst vc)) (drop (i + 1) words))
                        (\<lambda>rs. rbind (check_statements vc sts) (\<lambda>rs'. Inr (rs @ rs'))))"

section \<open>The rewritten command\<close>

fun overlapping :: "replacement list \<Rightarrow> bool" where
  "overlapping (a # b # rs) = (rp_end a > rp_start b \<or> overlapping (b # rs))"
| "overlapping rs = False"

definition apply_replacements :: "string \<Rightarrow> replacement list \<Rightarrow> string" where
  "apply_replacements command rs =
     fold (\<lambda>r s. replace_range s (rp_start r) (rp_end r) (rp_value r)) (rev rs) command"

definition rewrite_command :: "string \<Rightarrow> replacement list \<Rightarrow> rm_resolution" where
  "rewrite_command command found =
     (let rs = sort_key rp_start found
      in if rs = [] then Unchanged
         else if overlapping rs then
           Refused (deny_because ''overlapping variable expansions could not be rewritten safely'')
         else Rewritten (apply_replacements command rs))"

text \<open>The refusal because of a substitution; \<open>resolve\<close> is the resolution one level down.\<close>

fun inner_refusal :: "nat \<Rightarrow> (string \<Rightarrow> rm_resolution) \<Rightarrow> string list \<Rightarrow> string option" where
  "inner_refusal room resolve [] = None"
| "inner_refusal room resolve (inner # rest) =
     (if room = 0 then
        (if looks_like_hazardous_rm inner then
           Some (deny_because ''nested shell structure exceeded the static analysis depth limit'')
         else inner_refusal room resolve rest)
      else if resolve inner \<noteq> Unchanged then
        Some (deny_because ''the removal appears inside a command or process substitution'')
      else inner_refusal room resolve rest)"

definition resolve_level ::
    "(string \<Rightarrow> bool) \<Rightarrow> nat \<Rightarrow> (string \<Rightarrow> rm_resolution) \<Rightarrow> string \<Rightarrow> rm_resolution" where
  "resolve_level alnum room resolve command =
     (let scan = mask_heredoc_bodies alnum command
      in case split_statements scan of
           None \<Rightarrow>
             if looks_like_hazardous_rm scan then
               Refused (deny_because ''the command has malformed quoting or shell structure'')
             else Unchanged
         | Some statements \<Rightarrow>
             if contains_unsupported_control_flow statements \<and> looks_like_hazardous_rm scan then
               Refused (deny_because ''control flow prevents proving one value on every path'')
             else
               case inner_refusal room resolve (scan_command_substitutions scan) of
                 Some reason \<Rightarrow> Refused reason
               | None \<Rightarrow>
                   case check_statements (Map.empty, \<lambda>_. 0) statements of
                     Inl reason \<Rightarrow> Refused reason
                   | Inr found \<Rightarrow> rewrite_command command found)"

text \<open>\<open>room\<close> is the number of levels left below this one.\<close>

primrec resolve_within :: "(string \<Rightarrow> bool) \<Rightarrow> nat \<Rightarrow> string \<Rightarrow> rm_resolution" where
  "resolve_within alnum 0 command = resolve_level alnum 0 (\<lambda>_. Unchanged) command"
| "resolve_within alnum (Suc n) command = resolve_level alnum (Suc n) (resolve_within alnum n) command"

definition resolve_posix_rm_variable_expansions :: "(string \<Rightarrow> bool) \<Rightarrow> string \<Rightarrow> rm_resolution" where
  "resolve_posix_rm_variable_expansions alnum command = resolve_within alnum max_substitution_depth command"

end
