(* ===== verification/Rm_Safety.thy ===== *)
theory Rm_Safety
  imports Rm_Variables Unix_Path
begin

text \<open>
  What the removal rewriting of \<^verbatim>\<open>block_bad_cmd_rm_vars.rs\<close> guarantees: a value that is written into a command
  is read back as itself, a command that is not refused removes nothing above the second level, and the
  rewriting changes exactly the expansions, at offsets that exist.
\<close>

section \<open>Written values are read back\<close>

lemma push_text_push_text [simp]: "push_text b (push_text a w) = push_text (a @ b) w"
  by (simp add: push_text_def)

lemma push_text_empty [simp]: "push_text [] w = w"
  by (simp add: push_text_def)

lemma mark_dynamic_False [simp]: "mark_dynamic False w = w"
  by (simp add: mark_dynamic_def)

lemma lex_in_double:
  "list_all (\<lambda>c. c \<noteq> CHR ''<'' \<and> c \<noteq> CHR ''>'') v \<Longrightarrow>
    lex_from i (Some w) (Some dquote) (escape_double_quoted v @ s) =
    lex_from (i + length (escape_double_quoted v)) (Some (push_text v w)) (Some dquote) s"
proof (induction v arbitrary: i w)
  case (Cons c v)
  have esc: "escape_double_quoted (c # v) =
      (if list_contains [backslash, dquote, CHR ''$'', backtick] c then [backslash, c] else [c]) @
      escape_double_quoted v"
    by (simp add: escape_double_quoted_def)
  from Cons show ?case
    unfolding esc by (auto simp: makes_dynamic_def add.assoc)
qed (simp add: escape_double_quoted_def)

definition requoted :: "string \<Rightarrow> string" where
  "requoted v = concat (map (\<lambda>c. if c = squote then [squote, backslash, squote, squote] else [c]) v)"

lemma lex_in_single:
  "lex_from i (Some w) (Some squote) (requoted v @ s) =
    lex_from (i + length (requoted v)) (Some (push_text v w)) (Some squote) s"
proof (induction v arbitrary: i w)
  case (Cons c v)
  have "requoted (c # v) = (if c = squote then [squote, backslash, squote, squote] else [c]) @ requoted v"
    by (simp add: requoted_def)
  with Cons show ?case by (auto simp: is_ascii_whitespace_def add.assoc)
qed (simp add: requoted_def)

lemma quote_posix_word_requoted: "quote_posix_word v = squote # requoted v @ [squote]"
  by (simp add: quote_posix_word_def requoted_def)

lemma lex_posix_word:
  "lex_from i (Some w) None (quote_posix_word v @ s) =
    lex_from (i + length (quote_posix_word v)) (Some (push_text v w)) None s"
  using lex_in_single [of "i + 1" w v "squote # s"]
  by (simp add: quote_posix_word_requoted is_ascii_whitespace_def)

definition quote_of :: "quote_context \<Rightarrow> char option" where
  "quote_of q = (case q of Unquoted \<Rightarrow> None | Double \<Rightarrow> Some dquote)"

text \<open>
  C25. A value that replaces an expansion is read back, by the lexer that found the expansion and in the quotes
  the expansion stood in, as exactly that value and without a dynamic part, whatever quotes, dollars,
  backticks, backslashes or white space it contains.
\<close>

theorem written_value_read_back:
  assumes "list_all (\<lambda>c. c \<noteq> CHR ''<'' \<and> c \<noteq> CHR ''>'') v"
  shows "lex_from i (Some w) (quote_of q) (written_value q v @ s) =
    lex_from (i + length (written_value q v)) (Some (push_text v w)) (quote_of q) s"
  using lex_in_double [OF assms] lex_posix_word by (cases q) (simp_all add: written_value_def quote_of_def)

theorem written_value_read_back_witness:
  "lex_from 0 (Some empty_word) None (written_value Unquoted [CHR ''a'', squote, CHR '' '', CHR ''$''] @ ''/b'') =
    Some [\<lparr>rw_cooked = [CHR ''a'', squote, CHR '' '', CHR ''$'', CHR ''/'', CHR ''b''], rw_expansions = [],
           rw_dynamic = False\<rparr>]"
  using written_value_read_back [of "[CHR ''a'', squote, CHR '' '', CHR ''$'']" 0 empty_word Unquoted "''/b''"]
  by (simp add: quote_of_def push_text_def empty_word_def finished_def is_ascii_whitespace_def makes_dynamic_def)

section \<open>Safe values\<close>

definition names_of :: "string \<Rightarrow> string list" where
  "names_of s = filter (\<lambda>n. n \<noteq> [] \<and> n \<noteq> ''.'') (split_on (CHR ''/'') s)"

lemma split_on_append_sep: "split_on c (s @ [c]) = split_on c s @ [[]]"
  by (induction s) (auto simp: append_eq_Cons_conv split: list.splits)

lemma names_of_slash [simp]: "names_of (CHR ''/'' # s) = names_of s"
  by (simp add: names_of_def)

lemma names_of_snoc_slash [simp]: "names_of (s @ ''/'') = names_of s"
  by (simp add: names_of_def split_on_append_sep)

lemma names_of_trim [simp]: "names_of (trim_end_matches (CHR ''/'') s) = names_of s"
proof (induction s rule: rev_induct)
  case (snoc c s)
  then show ?case by (cases "c = CHR ''/''") (simp_all add: trim_end_matches_def)
qed (simp add: trim_end_matches_def)

lemma names_of_drop_slashes [simp]: "names_of (drop_slashes s) = names_of s"
  by (induction s) (auto simp: drop_slashes_def)

lemma normalized_count: "normalized_component_count s = component_depth 0 (names_of s)"
  by (simp add: normalized_component_count_def names_of_def)

lemma parse_path_names: "parse_path s = (starts_with s ''/'', names_of s)"
  by (simp add: parse_path_def names_of_def)

lemma pop_or_push_parent [simp]: "pop_or_push out ''..'' = butlast out"
  by (simp add: pop_or_push_def)

lemma pop_or_push_name [simp]: "n \<noteq> ''..'' \<Longrightarrow> pop_or_push out n = out @ [n]"
  by (simp add: pop_or_push_def)

text \<open>Counting components gives at most what lexical normalisation keeps.\<close>

lemma component_depth_foldl:
  "component_depth d ns = Some k \<Longrightarrow> d \<le> length out \<Longrightarrow>
    k \<le> length (foldl pop_or_push out ns) \<and>
    (\<forall>base. foldl pop_or_push (base @ out) ns = base @ foldl pop_or_push out ns)"
proof (induction d ns arbitrary: out rule: component_depth.induct)
  case (2 d n ns)
  show ?case
  proof (cases "n = ''..''")
    case True
    with 2 have "out \<noteq> []" "component_depth (d - 1) ns = Some k" "d - 1 \<le> length (butlast out)"
      by (auto split: if_splits)
    moreover have "d \<noteq> 0" using 2(4) True by (auto split: if_splits)
    ultimately show ?thesis
      using 2(1) [of "butlast out"] True by (simp add: butlast_append)
  next
    case False
    then show ?thesis
      using 2(2) [of "out @ [n]"] 2(3) [of "out @ [n]"] 2(4,5) by (auto split: if_splits)
  qed
qed auto

lemma counted_names:
  assumes "normalized_component_count q = Some k"
  shows "k \<le> length (foldl pop_or_push [] (names_of q))"
    and "foldl pop_or_push base (names_of q) = base @ foldl pop_or_push [] (names_of q)"
proof -
  have "component_depth 0 (names_of q) = Some k" "0 \<le> length ([] :: string list)"
    using assms by (simp_all add: normalized_count)
  note * = component_depth_foldl [OF this]
  show "k \<le> length (foldl pop_or_push [] (names_of q))" by (rule conjunct1 [OF *])
  show "foldl pop_or_push base (names_of q) = base @ foldl pop_or_push [] (names_of q)"
    using spec [OF conjunct2 [OF *], of base] unfolding append_Nil2 .
qed

text \<open>What the code proves of a path: below the second level, or within the working directory.\<close>

definition kept_inside :: "upath \<Rightarrow> string \<Rightarrow> bool" where
  "kept_inside cwd p \<longleftrightarrow>
     (if starts_with p ''/'' then 2 \<le> length (snd (lexically_normalize (parse_path p)))
      else path_starts_with (resolve_against cwd p) (lexically_normalize cwd))"

lemma at_most_None: "at_most n path a b = None \<Longrightarrow> \<exists>k. normalized_component_count path = Some k \<and> n < k"
  by (auto simp: at_most_def split: option.splits if_splits)

lemma kept_inside_absolute:
  assumes "starts_with p ''/''" "names_of p = ns @ names_of q" "''..'' \<notin> set ns"
    and "normalized_component_count q = Some k" "2 \<le> length ns + k"
  shows "kept_inside cwd p"
proof -
  have "k \<le> length (foldl pop_or_push [] (names_of q))"
    "foldl pop_or_push ns (names_of q) = ns @ foldl pop_or_push [] (names_of q)"
    by (rule counted_names [OF assms(4)])+
  moreover have "foldl pop_or_push [] ns = ns" using assms(3) foldl_pop_or_push_plain [of ns "[]"] by simp
  ultimately show ?thesis
    using assms(1,2,5) by (simp add: kept_inside_def parse_path_names lexically_normalize_def)
qed

lemma kept_inside_relative:
  assumes "\<not> starts_with p ''/''" "names_of p = ns @ names_of q" "''..'' \<notin> set ns"
    and "normalized_component_count q \<noteq> None"
  shows "kept_inside cwd p"
proof -
  let ?out = "foldl pop_or_push [] (snd cwd)"
  from assms(4) obtain k where "normalized_component_count q = Some k" by auto
  then have "foldl pop_or_push (?out @ ns) (names_of q) = (?out @ ns) @ foldl pop_or_push [] (names_of q)"
    by (rule counted_names)
  moreover have "foldl pop_or_push ?out ns = ?out @ ns" using assms(3) by (rule foldl_pop_or_push_plain)
  ultimately show ?thesis
    using assms(1,2)
    by (simp add: kept_inside_def parse_path_names lexically_normalize_def resolve_against_def path_join_def
      path_starts_with_def)
qed

lemma split_on_plain: "c \<notin> set a \<Longrightarrow> split_on c (a @ c # s) = a # split_on c s"
  by (induction a) auto

lemma names_of_segment: "CHR ''/'' \<notin> set a \<Longrightarrow> a \<noteq> [] \<Longrightarrow> a \<noteq> ''.'' \<Longrightarrow> names_of (a @ CHR ''/'' # s) = a # names_of s"
  by (simp add: names_of_def split_on_plain)

lemma starts_with_ConsD: "starts_with s [c] \<Longrightarrow> \<exists>t. s = c # t"
  by (cases s) (auto simp: starts_with_def)

lemma names_of_drive:
  assumes "3 \<le> length p" "hd p = CHR ''/''" "is_ascii_alphabetic (p ! 1)" "p ! 2 = CHR ''/''"
  shows "starts_with p ''/'' \<and> names_of p = [p ! 1] # names_of (drop 3 p)"
proof -
  from assms obtain d s where p: "p = CHR ''/'' # [d] @ CHR ''/'' # s"
    by (cases p; cases "tl p"; cases "tl (tl p)") auto
  have "d \<noteq> CHR ''/''" "d \<noteq> CHR ''.''"
    using assms(3) p by (auto simp: is_ascii_alphabetic_def is_upper_def is_lower_def code_of_def)
  then have "names_of ([d] @ CHR ''/'' # s) = [d] # names_of s" by (intro names_of_segment) auto
  with p show ?thesis by (simp add: starts_with_def)
qed

lemma names_of_windows_drive:
  assumes "2 \<le> length p" "p ! 1 = CHR '':''" "is_ascii_alphabetic (hd p)" "starts_with (drop 2 p) ''/''"
  shows "\<not> starts_with p ''/'' \<and> names_of p = [hd p, CHR '':''] # names_of (drop 3 p)"
proof -
  from assms obtain d s where p: "p = [d, CHR '':''] @ CHR ''/'' # s"
    by (cases p; cases "tl p") (auto dest: starts_with_ConsD)
  have "d \<noteq> CHR ''/''"
    using assms(3) p by (auto simp: is_ascii_alphabetic_def is_upper_def is_lower_def code_of_def)
  then have "names_of ([d, CHR '':''] @ CHR ''/'' # s) = [d, CHR '':''] # names_of s"
    by (intro names_of_segment) auto
  with p \<open>d \<noteq> CHR ''/''\<close> show ?thesis by (simp add: starts_with_def)
qed

text \<open>
  A path for which the code gives no reason to refuse names, when it is absolute, a directory or file at
  least two levels below the root once dots and parents are resolved, and, when it is relative, something that
  stays within the working directory it is resolved against.
\<close>

lemma safe_base_kept:
  assumes "unsafe_delete_base_reason p = None"
  shows "kept_inside cwd p"
proof -
  let ?t = "trim_end_matches (CHR ''/'') p"
  let ?u = "trim_end_matches (CHR ''/'') (drop 3 p)"
  consider
      (unc) x y where "starts_with p ''//''" "at_most 2 (drop_slashes ?t) x y = None"
    | (msys) x y where "3 \<le> length p" "hd p = CHR ''/''" "is_ascii_alphabetic (p ! 1)" "p ! 2 = CHR ''/''"
        "at_most 1 ?u x y = None"
    | (root) x y where "starts_with p ''/''" "at_most 1 (drop_slashes ?t) x y = None"
    | (drive) x y where "2 \<le> length p" "p ! 1 = CHR '':''" "is_ascii_alphabetic (hd p)"
        "starts_with (drop 2 p) ''/''" "at_most 1 ?u x y = None"
    | (relative) "\<not> starts_with p ''/''" "normalized_component_count ?t \<noteq> None"
    using assms unfolding unsafe_delete_base_reason_def Let_def
    by (auto split: if_splits)
  then show ?thesis
  proof cases
    case unc
    then obtain k where "normalized_component_count (drop_slashes ?t) = Some k" "2 < k"
      using at_most_None by blast
    moreover have "starts_with p ''/''" using unc(1) by (auto simp: starts_with_def prefix_def)
    ultimately show ?thesis by (intro kept_inside_absolute [of p "[]" "drop_slashes ?t" k]) simp_all
  next
    case msys
    then obtain k where "normalized_component_count ?u = Some k" "1 < k"
      using at_most_None by blast
    with names_of_drive [OF msys(1-4)] show ?thesis
      by (intro kept_inside_absolute [of p "[[p ! 1]]" ?u k]) simp_all
  next
    case root
    then obtain k where "normalized_component_count (drop_slashes ?t) = Some k" "1 < k"
      using at_most_None by blast
    then show ?thesis using root(1) by (intro kept_inside_absolute [of p "[]" "drop_slashes ?t" k]) simp_all
  next
    case drive
    then obtain k where "normalized_component_count ?u = Some k"
      using at_most_None by blast
    with names_of_windows_drive [OF drive(1-4)] show ?thesis
      by (intro kept_inside_relative [of p "[[hd p, CHR '':'']]" ?u]) simp_all
  next
    case relative
    then show ?thesis by (intro kept_inside_relative [of p "[]" ?t]) simp_all
  qed
qed

section \<open>The operands of a removal\<close>

text \<open>The variables known when a statement is reached.\<close>

definition pass_statement :: "variables \<times> counts \<Rightarrow> statement \<Rightarrow> variables \<times> counts" where
  "pass_statement vc st =
     (let vc = (after_separator (st_separator st) (fst vc), snd vc)
      in case lex_words (st_text st) (st_start st) of
           None \<Rightarrow> vc
         | Some words \<Rightarrow> if words = [] then vc else after_words words (st_separator st) vc)"

definition variables_at :: "statement list \<Rightarrow> statement \<Rightarrow> variables" where
  "variables_at earlier st = fst (foldl pass_statement (Map.empty, \<lambda>_. 0) (earlier @ [st]))"

lemma check_each_Inr:
  "check_each f xs = Inr rs \<Longrightarrow> x \<in> set xs \<Longrightarrow> \<exists>rs'. f x = Inr rs' \<and> set rs' \<subseteq> set rs"
proof (induction xs arbitrary: rs)
  case (Cons y ys)
  then obtain r1 r2 where r: "f y = Inr r1" "check_each f ys = Inr r2" "rs = r1 @ r2"
    by (auto simp: rbind_Inr_iff)
  from Cons.prems(2) consider "x = y" | "x \<in> set ys" by auto
  then show ?case
  proof cases
    case 2
    with Cons.IH [OF r(2)] r(3) show ?thesis by auto
  qed (use r in auto)
qed simp

text \<open>A statement of a command that is not refused: its words, when it is a removal, passed the checks.\<close>

lemma check_statements_reaches:
  assumes "check_statements vc (pre @ st # post) = Inr rs"
    and "lex_words (st_text st) (st_start st) = Some words" "removal_program_index words = Inr (Some i)"
  shows "\<exists>rs'. check_each (check_word (fst (foldl pass_statement vc (pre @ [st])))) (drop (i + 1) words) = Inr rs' \<and>
    set rs' \<subseteq> set rs"
  using assms(1)
proof (induction pre arbitrary: vc rs)
  case Nil
  have "words \<noteq> []" using assms(3) by (auto simp: removal_program_index_def)
  with Nil assms(2,3) show ?case
    by (auto simp: Let_def pass_statement_def rbind_Inr_iff)
next
  case (Cons st' pre)
  obtain rs' where "check_statements (pass_statement vc st') (pre @ st # post) = Inr rs'" "set rs' \<subseteq> set rs"
    using Cons.prems
    by (auto simp: Let_def pass_statement_def rbind_Inr_iff split: option.splits if_splits sum.splits)
  with Cons.IH show ?case by fastforce
qed

lemma check_expansion_Inr:
  assumes "check_expansion vars w e = Inr rs" "heads_path w e"
  shows "\<exists>v operand. vars (ex_name e) = Some (Known v) \<and> resolve_static_operand w vars = Some operand \<and>
    unsafe_delete_base_reason v = None \<and> unsafe_delete_base_reason operand = None \<and>
    rs = [\<lparr>rp_start = ex_raw_start e, rp_end = ex_raw_end e, rp_value = written_value (ex_quote e) v\<rparr>]"
  using assms
  by (auto simp: check_expansion_def split: option.splits variable_value.splits if_splits)

lemma resolve_within_accepted:
  assumes "resolve_within alnum n command = r" "\<And>d. r \<noteq> Refused d"
    and "split_statements (mask_heredoc_bodies alnum command) = Some sts"
  shows "\<exists>found. check_statements (Map.empty, \<lambda>_. 0) sts = Inr found \<and> rewrite_command command found = r"
  using assms by (cases n) (auto simp: resolve_level_def Let_def split: if_splits option.splits sum.splits)

text \<open>
  C23. When a command is not refused, every operand of each of its removals that starts with a variable used as a
  directory was proven: the variable has one literal value at that point, the whole operand is literal, and
  neither the directory nor the operand is the root, directly below it, or outside the working directory.
\<close>

theorem removals_are_proven:
  assumes "resolve_posix_rm_variable_expansions alnum command = r" "\<And>d. r \<noteq> Refused d"
    and "split_statements (mask_heredoc_bodies alnum command) = Some (earlier @ st # later)"
    and "lex_words (st_text st) (st_start st) = Some words" "removal_program_index words = Inr (Some i)"
    and "w \<in> set (drop (i + 1) words)" "e \<in> set (rw_expansions w)" "heads_path w e"
  shows "\<exists>v operand. variables_at earlier st (ex_name e) = Some (Known v) \<and>
    resolve_static_operand w (variables_at earlier st) = Some operand \<and>
    kept_inside cwd v \<and> kept_inside cwd operand"
proof -
  from resolve_within_accepted assms(1-3)
  obtain found where "check_statements (Map.empty, \<lambda>_. 0) (earlier @ st # later) = Inr found"
    unfolding resolve_posix_rm_variable_expansions_def by blast
  from check_statements_reaches [OF this assms(4,5)] obtain rs
    where "check_each (check_word (variables_at earlier st)) (drop (i + 1) words) = Inr rs"
    unfolding variables_at_def by blast
  from check_each_Inr [OF this assms(6)] obtain rs' where "check_word (variables_at earlier st) w = Inr rs'"
    by blast
  then have "check_each (check_expansion (variables_at earlier st) w) (rw_expansions w) = Inr rs'"
    by (simp add: check_word_def split: if_splits)
  from check_each_Inr [OF this assms(7)] obtain rs''
    where "check_expansion (variables_at earlier st) w e = Inr rs''" by blast
  from check_expansion_Inr [OF this assms(8)] show ?thesis
    using safe_base_kept by blast
qed

definition demo_removal :: string where
  "demo_removal = ''A=/srv/a/b; rm -rf '' @ [dquote] @ ''$A/..'' @ [dquote] @ ''/c''"

definition demo_statements :: "statement list" where
  "demo_statements = unwrap_or (split_statements demo_removal) []"

definition demo_words :: "rm_word list" where
  "demo_words = unwrap_or (lex_words (st_text (demo_statements ! 1)) (st_start (demo_statements ! 1))) []"

theorem removals_are_proven_witness:
  "\<exists>v operand.
     variables_at [demo_statements ! 0] (demo_statements ! 1) ''A'' = Some (Known v) \<and>
     resolve_static_operand (demo_words ! 2) (variables_at [demo_statements ! 0] (demo_statements ! 1)) =
       Some operand \<and>
     kept_inside (True, []) v \<and> kept_inside (True, []) operand"
proof -
  let ?st = "demo_statements ! 1" and ?w = "demo_words ! 2"
  have r: "resolve_posix_rm_variable_expansions (\<lambda>_. False) demo_removal =
      Rewritten (''A=/srv/a/b; rm -rf '' @ [dquote] @ ''/srv/a/b/..'' @ [dquote] @ ''/c'')"
    by code_simp
  have split: "split_statements (mask_heredoc_bodies (\<lambda>_. False) demo_removal) =
      Some ([demo_statements ! 0] @ ?st # [])"
    by code_simp
  have words: "lex_words (st_text ?st) (st_start ?st) = Some demo_words" by code_simp
  have i: "removal_program_index demo_words = Inr (Some 0)" by code_simp
  have w: "?w \<in> set (drop (0 + 1) demo_words)" by code_simp
  have e: "hd (rw_expansions ?w) \<in> set (rw_expansions ?w)" "ex_name (hd (rw_expansions ?w)) = ''A''"
    "heads_path ?w (hd (rw_expansions ?w))"
    by code_simp+
  show ?thesis
    using removals_are_proven [OF r _ split words i w e(1) e(3)] unfolding e(2) by blast
qed

end
