(* ===== verification/Rm_Rewriting.thy ===== *)
theory Rm_Rewriting
  imports Rm_Safety
begin

text \<open>
  The rewriting of \<^verbatim>\<open>block_bad_cmd_rm_vars.rs\<close> is local: the offsets the lexer records are those of the
  expansions in the command as it was given, although statements are cut, trimmed and lexed on a copy whose
  here-documents are blanked; replacing back to front is replacing front to back.
\<close>

section \<open>Where expansions stand\<close>

text \<open>The text of an expansion of a variable, with or without braces.\<close>

definition expansion_text :: "string \<Rightarrow> string \<Rightarrow> bool" where
  "expansion_text n x \<longleftrightarrow> x = ''$'' @ n \<or> x = ''${'' @ n @ ''}''"

lemma parse_simple_expansion_text:
  assumes "parse_simple_expansion s = Some (n, r)"
  shows "\<exists>x. s = x @ r \<and> expansion_text n (CHR ''$'' # x) \<and> list_all is_name_continue n"
proof -
  obtain c t where s: "s = c # t" using assms by (cases s) (auto simp: parse_simple_expansion_def)
  have t: "takeWhile is_name_continue t @ dropWhile is_name_continue t = t" by simp
  have all: "list_all is_name_continue (takeWhile is_name_continue t)"
    by (auto simp: list_all_iff dest: set_takeWhileD)
  show ?thesis
  proof (cases "c = CHR ''{''")
    case True
    then obtain e where "n = takeWhile is_name_continue t" "dropWhile is_name_continue t = CHR ''}'' # r"
      using assms s
      by (cases "dropWhile is_name_continue t") (auto simp: parse_simple_expansion_def Let_def split: if_splits)
    with True s t all show ?thesis
      by (intro exI [of _ "''{'' @ n @ ''}''"]) (simp add: expansion_text_def)
  next
    case False
    then have "is_name_start c" "n = c # takeWhile is_name_continue t" "r = dropWhile is_name_continue t"
      using assms s by (auto simp: parse_simple_expansion_def split: if_splits)
    with s t all show ?thesis by (intro exI [of _ n]) (simp add: expansion_text_def is_name_continue_def)
  qed
qed

text \<open>An expansion that is at its offsets in a text.\<close>

definition expansion_at :: "string \<Rightarrow> nat \<Rightarrow> nat \<Rightarrow> string \<Rightarrow> bool" where
  "expansion_at full a b n \<longleftrightarrow>
     (\<exists>x. expansion_text n x \<and> list_all is_name_continue n \<and> prefix x (drop a full) \<and> b = a + length x)"

definition sourced :: "string \<Rightarrow> rm_word \<Rightarrow> bool" where
  "sourced full w \<longleftrightarrow>
     list_all (\<lambda>e. expansion_at full (ex_raw_start e) (ex_raw_end e) (ex_name e)) (rw_expansions w)"

lemma sourced_text [simp]: "sourced full (push_text t w) = sourced full w"
  by (simp add: sourced_def push_text_def)

lemma sourced_dynamic [simp]: "sourced full (mark_dynamic b w) = sourced full w"
  by (simp add: sourced_def mark_dynamic_def)

lemma sourced_expansion [simp]:
  "sourced full (push_expansion n a b q w) \<longleftrightarrow> sourced full w \<and> expansion_at full a b n"
  by (auto simp: sourced_def push_expansion_def Let_def)

lemma sourced_empty: "sourced full empty_word"
  by (simp add: sourced_def empty_word_def)

definition sourced_opt :: "string \<Rightarrow> rm_word option \<Rightarrow> bool" where
  "sourced_opt full x \<longleftrightarrow> (case x of None \<Rightarrow> True | Some w \<Rightarrow> sourced full w)"

lemma sourced_opt_simps [simp]: "sourced_opt full None" "sourced_opt full (Some w) = sourced full w"
  by (simp_all add: sourced_opt_def)

lemma if_SomeE:
  assumes "(if b then x else y) = Some z"
  obtains "b" "x = Some z" | "y = Some z"
  using assms by (auto split: if_splits)

lemma prefix_drop_append: "prefix (x @ t) (drop i full) \<Longrightarrow> prefix t (drop (i + length x) full)"
proof -
  assume "prefix (x @ t) (drop i full)"
  then obtain z where "drop i full = x @ t @ z" by (auto simp: prefix_def)
  then have "drop (length x) (drop i full) = t @ z" by simp
  then show ?thesis by (simp add: prefix_def add.commute)
qed

lemma prefix_drop_Cons: "prefix (c # t) (drop i full) \<Longrightarrow> prefix t (drop (Suc i) full)"
  using prefix_drop_append [of "[c]" t i full] by simp

lemma lex_from_sourced:
  "lex_from i word quote s = Some ws \<Longrightarrow> sourced_opt full word \<Longrightarrow> prefix s (drop i full) \<Longrightarrow>
    list_all (sourced full) ws"
proof (induction "length s" arbitrary: i word quote s ws rule: less_induct)
  case less
  have f: "list_all (sourced full) (finished word)"
    using less.prems(2) by (cases word) (simp_all add: finished_def)
  show ?case
  proof (cases s)
    case Nil
    with less.prems f show ?thesis by (auto split: if_splits)
  next
    case (Cons c t)
    let ?w = "unwrap_or word empty_word"
    have step: "list_all (sourced full) ws'"
      if "lex_from j u q r = Some ws'" "length r \<le> length t" "sourced_opt full u" "prefix r (drop j full)"
      for j u q r ws'
      using less.hyps [of r] that Cons by (metis le_imp_less_Suc length_Cons)
    have w: "sourced full ?w" using less.prems(2) sourced_empty by (cases word) simp_all
    have p1: "prefix t (drop (Suc i) full)" using less.prems(3) Cons prefix_drop_Cons by simp
    have p2: "prefix t' (drop (Suc (Suc i)) full)" if "t = e # t'" for e t'
      using p1 prefix_drop_Cons [of e t' "Suc i" full] that by simp
    have p3: "expansion_at full i (Suc (i + (length t - length r))) n \<and> length r \<le> length t \<and>
        prefix r (drop (Suc (i + (length t - length r))) full)"
      if "parse_simple_expansion t = Some (n, r)" "c = CHR ''$''" for n r
    proof -
      from parse_simple_expansion_text [OF that(1)] obtain x
        where x: "t = x @ r" "expansion_text n (CHR ''$'' # x)" "list_all is_name_continue n" by blast
      have "prefix ((CHR ''$'' # x) @ r) (drop i full)" using less.prems(3) Cons that(2) x(1) by simp
      then have "prefix (CHR ''$'' # x) (drop i full)" "prefix r (drop (i + length (CHR ''$'' # x)) full)"
        using append_prefixD prefix_drop_append by blast+
      with x show ?thesis unfolding expansion_at_def by (intro conjI exI [of _ "CHR ''$'' # x"]) simp_all
    qed
    consider "quote = None" | "quote = Some squote" | "quote = Some dquote"
      | y where "quote = Some y" "y \<noteq> squote" "y \<noteq> dquote" by (cases quote) auto
    then show ?thesis
      by cases (use less.prems(1) f p1 in \<open>auto simp: Cons Let_def w split: if_splits option.splits list.splits
          dest: p2 p3 elim!: step\<close>)
  qed
qed

text \<open>A statement that is at its offset in a text.\<close>

definition placed :: "string \<Rightarrow> statement \<Rightarrow> bool" where
  "placed full st \<longleftrightarrow> prefix (st_text st) (drop (st_start st) full)"

lemma prefix_trim: "prefix (trim s) (trim_start s)"
  unfolding trim_def trim_end_def using strip_seqs_suffix by (metis rev_rev_ident suffix_to_prefix)

lemma suffix_trim_start: "suffix (trim_start s) s"
  unfolding trim_start_def by (rule strip_seqs_suffix)

lemma trim_Nil [simp]: "trim [] = []"
  using prefix_trim [of "[]"] suffix_trim_start [of "[]"] by simp

lemma push_statement_Nil [simp]: "push_statement [] start sep = []"
  by (simp add: push_statement_def)

lemma push_statement_placed:
  assumes "prefix cur (drop start full)"
  shows "list_all (placed full) (push_statement cur start sep)"
proof -
  obtain a where a: "cur = a @ trim_start cur" using suffix_trim_start by (auto simp: suffix_def)
  obtain b where b: "trim_start cur = trim cur @ b" using prefix_trim by (auto simp: prefix_def)
  have "length cur - length (trim_start cur) = length a" using arg_cong [OF a, of length] by simp
  moreover have "prefix (a @ trim cur @ b) (drop start full)" using assms a b by simp
  then have "prefix (trim cur) (drop (start + length a) full)"
    using prefix_drop_append append_prefixD by blast
  ultimately show ?thesis by (simp add: push_statement_def placed_def)
qed

lemma statements_from_placed:
  "statements_from prev i start cur sep quote escaped depth s = Some sts \<Longrightarrow> start + length cur = i \<Longrightarrow>
    prefix (cur @ s) (drop start full) \<Longrightarrow> list_all (placed full) sts"
proof (induction "length s" arbitrary: prev i start cur sep quote escaped depth s sts rule: less_induct)
  case less
  have f: "list_all (placed full) (push_statement cur start sep)"
    using less.prems(3) append_prefixD by (intro push_statement_placed) blast
  show ?case
  proof (cases s)
    case Nil
    with less.prems(1) f show ?thesis by (auto split: if_splits)
  next
    case (Cons c t)
    have step: "list_all (placed full) sts'"
      if "statements_from p j b u sep' q esc d r = Some sts'" "length r \<le> length t" "b + length u = j"
        "prefix (u @ r) (drop b full)" for p j b u sep' q esc d r sts'
      using less.hyps [of r] that Cons by (metis le_imp_less_Suc length_Cons)
    have "prefix s (drop i full)" using prefix_drop_append [OF less.prems(3)] less.prems(2) by simp
    then have p1: "prefix t (drop (Suc i) full)" using Cons prefix_drop_Cons by simp
    have p2: "prefix (tl t) (drop (Suc (Suc i)) full)" if "t \<noteq> []"
      using p1 prefix_drop_Cons [of "hd t" "tl t" "Suc i" full] that by simp
    have p3: "prefix (cur @ d # t) (drop start full)" if "c = d" for d
      using less.prems(3) Cons that by simp
    have p4: "prefix (cur @ d # e # tl t) (drop start full)" if "t \<noteq> []" "c = d" "hd t = e" for d e
      using p3 [OF that(2)] that by (metis list.collapse)
    show ?thesis
      using less.prems(1) f unfolding Cons statements_from.simps
      by (elim if_SomeE)
        (auto simp: opens_def doubled_def less.prems(2) p1 p2 p3 p4 elim!: step)
  qed
qed


text \<open>A masked text is the text with some bytes turned into spaces.\<close>

definition masked_char :: "char \<Rightarrow> char \<Rightarrow> bool" where
  "masked_char m c \<longleftrightarrow> m = c \<or> m = CHR '' ''"

lemma masked_refl: "list_all2 masked_char s s"
  by (simp add: list_all2_refl masked_char_def)

lemma masked_lines_refl: "list_all2 (list_all2 masked_char) ls ls"
  by (simp add: list_all2_refl masked_refl)

lemma masked_blank_line: "list_all2 masked_char (blank_line line) line"
  by (induction line) (simp_all add: blank_line_def masked_char_def)

lemma mask_body_masked:
  "mask_body delim lines = Some (m, r) \<Longrightarrow> list_all2 (list_all2 masked_char) (m @ r) lines"
  by (induction lines arbitrary: m)
    (auto simp: masked_blank_line masked_lines_refl split: if_splits)

lemma mask_lines_masked: "list_all2 (list_all2 masked_char) (mask_lines alnum lines) lines"
proof (induction alnum lines rule: mask_lines.induct)
  case (2 alnum line lines)
  show ?case
  proof (cases "find_heredoc_delimiter alnum line")
    case None
    with 2(1) show ?thesis by (simp add: masked_refl)
  next
    case delim: (Some delim)
    show ?thesis
    proof (cases "mask_body delim lines")
      case None
      with delim show ?thesis by (simp add: masked_refl masked_lines_refl)
    next
      case (Some mr)
      obtain m r where mr: "mr = (m, r)" by fastforce
      have "list_all2 (list_all2 masked_char) (m @ r) lines" using Some mr mask_body_masked by simp
      then obtain l1 l2 where l: "lines = l1 @ l2" "list_all2 (list_all2 masked_char) m l1"
          "list_all2 (list_all2 masked_char) r l2"
        by (auto simp: list_all2_append1)
      have "masked_char x y \<Longrightarrow> masked_char y z \<Longrightarrow> masked_char x z" for x y z
        by (auto simp: masked_char_def)
      then have "list_all2 masked_char x y \<Longrightarrow> list_all2 masked_char y z \<Longrightarrow> list_all2 masked_char x z" for x y z
        using list_all2_trans [of masked_char masked_char masked_char] by blast
      then have "list_all2 (list_all2 masked_char) (mask_lines alnum r) l2"
        using list_all2_trans [of "list_all2 masked_char" "list_all2 masked_char" "list_all2 masked_char"]
          2(2) [OF delim Some [unfolded mr] refl] l(3) by blast
      with delim Some mr l show ?thesis by (simp add: masked_refl list_all2_appendI)
    qed
  qed
qed simp

lemma join_masked:
  "list_all2 (list_all2 masked_char) ls ls' \<Longrightarrow> list_all2 masked_char (join_with sep ls) (join_with sep ls')"
proof (induction ls arbitrary: ls' rule: induct_list012)
  case (3 x y zs)
  then obtain x' y' zs' where ls': "ls' = x' # y' # zs'" by (auto simp: list_all2_Cons1)
  with 3 have "list_all2 masked_char (join_with sep (y # zs)) (join_with sep (y' # zs'))" by auto
  with 3(3) ls' show ?case by (simp add: list_all2_appendI masked_refl)
qed (auto simp: list_all2_Cons1)

lemma join_split: "join_with [c] (split_on c s) = s"
proof (induction s)
  case (Cons x s)
  then show ?case by (cases "split_on c s" rule: remdups_adj.cases) auto
qed simp

lemma mask_masked: "list_all2 masked_char (mask_heredoc_bodies alnum command) command"
  using join_masked [OF mask_lines_masked [of alnum "split_on nl command"], of "[nl]"]
  by (simp add: mask_heredoc_bodies_def masked_refl join_split)

lemma masked_prefix:
  assumes "list_all2 masked_char m c" "prefix x (drop a m)" "CHR '' '' \<notin> set x"
  shows "prefix x (drop a c)"
proof -
  have same: "list_all2 masked_char y z \<Longrightarrow> CHR '' '' \<notin> set y \<Longrightarrow> y = z" for y z
    by (induction rule: list_all2_induct) (auto simp: masked_char_def)
  obtain r where "drop a m = x @ r" using assms(2) by (auto simp: prefix_def)
  then have "list_all2 masked_char (x @ r) (drop a c)" using assms(1) list_all2_dropI by metis
  then obtain y z where "drop a c = y @ z" "list_all2 masked_char x y" by (auto simp: list_all2_append1)
  with same [of x y] assms(3) show ?thesis by simp
qed


section \<open>The rewritten text\<close>

lemma check_statements_Cons:
  assumes "check_statements vc (st # sts) = Inr rs"
  shows "\<exists>r1 r2. rs = r1 @ r2 \<and> check_statements (pass_statement vc st) sts = Inr r2 \<and>
    (r1 = [] \<or> (\<exists>words i. lex_words (st_text st) (st_start st) = Some words \<and>
      check_each (check_word (fst (pass_statement vc st))) (drop (i + 1) words) = Inr r1))"
  using assms
  by (auto simp: Let_def pass_statement_def rbind_Inr_iff split: option.splits if_splits sum.splits)

lemma check_each_source:
  "check_each f xs = Inr rs \<Longrightarrow> r \<in> set rs \<Longrightarrow> \<exists>x rs'. x \<in> set xs \<and> f x = Inr rs' \<and> r \<in> set rs'"
proof (induction xs arbitrary: rs)
  case (Cons x xs)
  then obtain r1 r2 where "f x = Inr r1" "check_each f xs = Inr r2" "rs = r1 @ r2"
    by (auto simp: rbind_Inr_iff)
  with Cons show ?case by (metis Un_iff list.set_intros set_append)
qed simp

text \<open>Every replacement stems from an expansion of a statement that passed the checks.\<close>

lemma check_statements_source:
  "check_statements vc sts = Inr rs \<Longrightarrow> r \<in> set rs \<Longrightarrow>
    \<exists>pre st post words w e rs'. sts = pre @ st # post \<and>
      lex_words (st_text st) (st_start st) = Some words \<and> w \<in> set words \<and> e \<in> set (rw_expansions w) \<and>
      check_expansion (fst (foldl pass_statement vc (pre @ [st]))) w e = Inr rs' \<and> r \<in> set rs'"
proof (induction sts arbitrary: vc rs)
  case (Cons st sts)
  from check_statements_Cons [OF Cons.prems(1)] obtain r1 r2 where rs: "rs = r1 @ r2"
      "check_statements (pass_statement vc st) sts = Inr r2"
      "r1 = [] \<or> (\<exists>words i. lex_words (st_text st) (st_start st) = Some words \<and>
        check_each (check_word (fst (pass_statement vc st))) (drop (i + 1) words) = Inr r1)"
    by blast
  show ?case
  proof (cases "r \<in> set r1")
    case True
    then obtain words i where words: "lex_words (st_text st) (st_start st) = Some words"
        "check_each (check_word (fst (pass_statement vc st))) (drop (i + 1) words) = Inr r1"
      using rs(3) by auto
    from check_each_source [OF words(2) True] obtain w rs' where
        w: "w \<in> set words" "check_word (fst (pass_statement vc st)) w = Inr rs'" "r \<in> set rs'"
      by (blast dest: in_set_dropD)
    then have "check_each (check_expansion (fst (pass_statement vc st)) w) (rw_expansions w) = Inr rs'"
      by (simp add: check_word_def split: if_splits)
    from check_each_source [OF this w(3)] obtain e rs'' where
      "e \<in> set (rw_expansions w)" "check_expansion (fst (pass_statement vc st)) w e = Inr rs''" "r \<in> set rs''"
      by blast
    then show ?thesis
      using words(1) w(1) by (intro exI [of _ "[]"] exI [of _ st] exI [of _ sts] exI [of _ words] exI [of _ w]
          exI [of _ e] exI [of _ rs'']) simp
  next
    case False
    then obtain pre st' post words w e rs' where h: "sts = pre @ st' # post"
        "lex_words (st_text st') (st_start st') = Some words" "w \<in> set words" "e \<in> set (rw_expansions w)"
        "check_expansion (fst (foldl pass_statement (pass_statement vc st) (pre @ [st']))) w e = Inr rs'"
        "r \<in> set rs'"
      using Cons.IH [OF rs(2)] Cons.prems(2) rs(1) by auto
    then show ?thesis
      by (intro exI [of _ "st # pre"] exI [of _ st'] exI [of _ post]) auto
  qed
qed simp

lemma name_no_space: "list_all is_name_continue n \<Longrightarrow> CHR '' '' \<notin> set n"
proof -
  have "\<not> is_name_continue (CHR '' '')" by code_simp
  then show "list_all is_name_continue n \<Longrightarrow> CHR '' '' \<notin> set n" by (auto simp: list_all_iff)
qed

text \<open>The variable a replacement stands for, its value, and where the code took it from.\<close>

definition justified :: "string \<Rightarrow> statement list \<Rightarrow> replacement \<Rightarrow> bool" where
  "justified command sts r \<longleftrightarrow>
     (\<exists>n v q earlier st later. sts = earlier @ st # later \<and>
       variables_at earlier st n = Some (Known v) \<and> unsafe_delete_base_reason v = None \<and>
       expansion_at command (rp_start r) (rp_end r) n \<and> rp_value r = written_value q v)"

lemma check_expansion_replacement:
  assumes "check_expansion vars w e = Inr rs" "r \<in> set rs"
  shows "\<exists>v. vars (ex_name e) = Some (Known v) \<and> unsafe_delete_base_reason v = None \<and>
    rp_start r = ex_raw_start e \<and> rp_end r = ex_raw_end e \<and> rp_value r = written_value (ex_quote e) v"
proof (cases "heads_path w e")
  case True
  from check_expansion_Inr [OF assms(1) True] assms(2) show ?thesis by auto
next
  case False
  with assms show ?thesis by (simp add: check_expansion_def)
qed

lemma replacements_justified:
  assumes "split_statements (mask_heredoc_bodies alnum command) = Some sts"
    and "check_statements (Map.empty, \<lambda>_. 0) sts = Inr rs" "r \<in> set rs"
  shows "justified command sts r"
proof -
  let ?scan = "mask_heredoc_bodies alnum command"
  from check_statements_source [OF assms(2,3)] obtain pre st post words w e rs' where
    h: "sts = pre @ st # post" "lex_words (st_text st) (st_start st) = Some words" "w \<in> set words"
      "e \<in> set (rw_expansions w)" "check_expansion (variables_at pre st) w e = Inr rs'" "r \<in> set rs'"
    unfolding variables_at_def by blast
  have "list_all (placed ?scan) sts"
    using assms(1) by (intro statements_from_placed [of None 0 0 "[]"]) (auto simp: split_statements_def)
  then have "prefix (st_text st) (drop (st_start st) ?scan)" using h(1) by (simp add: placed_def)
  then have "list_all (sourced ?scan) words"
    using h(2) by (intro lex_from_sourced [of "st_start st" None None]) (simp_all add: lex_words_def)
  then have "expansion_at ?scan (ex_raw_start e) (ex_raw_end e) (ex_name e)"
    using h(3,4) by (auto simp: sourced_def list_all_iff)
  then obtain x where x: "expansion_text (ex_name e) x" "list_all is_name_continue (ex_name e)"
      "prefix x (drop (ex_raw_start e) ?scan)" "ex_raw_end e = ex_raw_start e + length x"
    by (auto simp: expansion_at_def)
  then have "CHR '' '' \<notin> set x" by (auto simp: expansion_text_def dest: name_no_space)
  from masked_prefix [OF mask_masked x(3) this] x
  have "expansion_at command (ex_raw_start e) (ex_raw_end e) (ex_name e)" by (auto simp: expansion_at_def)
  then show ?thesis
    using check_expansion_replacement [OF h(5,6)] h(1) unfolding justified_def by metis
qed

text \<open>The command with each range replaced, read front to back; \<open>pos\<close> is the offset reached.\<close>

fun spliced :: "nat \<Rightarrow> string \<Rightarrow> replacement list \<Rightarrow> string" where
  "spliced pos s [] = drop pos s"
| "spliced pos s (r # rs) = take (rp_start r - pos) (drop pos s) @ rp_value r @ spliced (rp_end r) s rs"

fun in_order :: "nat \<Rightarrow> nat \<Rightarrow> replacement list \<Rightarrow> bool" where
  "in_order pos hi [] = (pos \<le> hi)"
| "in_order pos hi (r # rs) = (pos \<le> rp_start r \<and> rp_start r < rp_end r \<and> in_order (rp_end r) hi rs)"

lemma in_order_le: "in_order pos hi rs \<Longrightarrow> pos \<le> hi"
  by (induction rs arbitrary: pos) fastforce+

lemma in_orderI:
  "list_all (\<lambda>r. rp_start r < rp_end r \<and> rp_end r \<le> hi) rs \<Longrightarrow> \<not> overlapping rs \<Longrightarrow>
    rs \<noteq> [] \<longrightarrow> pos \<le> rp_start (hd rs) \<Longrightarrow> pos \<le> hi \<Longrightarrow> in_order pos hi rs"
  by (induction rs arbitrary: pos rule: overlapping.induct) auto

lemma justified_range:
  assumes "justified command sts r"
  shows "rp_start r < rp_end r \<and> rp_end r \<le> length command"
proof -
  from assms obtain n x where x: "expansion_text n x" "prefix x (drop (rp_start r) command)"
      "rp_end r = rp_start r + length x"
    by (auto simp: justified_def expansion_at_def)
  then have "x \<noteq> []" "length x \<le> length command - rp_start r"
    using prefix_length_le [OF x(2)] by (auto simp: expansion_text_def)
  with x(3) show ?thesis by (cases x) auto
qed

lemma apply_replacements_spliced:
  "in_order pos (length s) rs \<Longrightarrow> apply_replacements s rs = take pos s @ spliced pos s rs"
proof (induction rs arbitrary: pos)
  case Nil
  then show ?case by (simp add: apply_replacements_def)
next
  case (Cons r rs)
  then have o: "pos \<le> rp_start r" "rp_start r < rp_end r" "in_order (rp_end r) (length s) rs" by simp_all
  have "rp_end r \<le> length s" using o(3) by (rule in_order_le)
  have "apply_replacements s (r # rs) =
      replace_range (apply_replacements s rs) (rp_start r) (rp_end r) (rp_value r)"
    by (simp add: apply_replacements_def)
  also have "\<dots> = take (rp_start r) s @ rp_value r @ spliced (rp_end r) s rs"
    using Cons.IH [OF o(3)] o(2) \<open>rp_end r \<le> length s\<close> by (simp add: replace_range_def)
  also have "take (rp_start r) s = take pos s @ take (rp_start r - pos) (drop pos s)"
    using take_add [of pos "rp_start r - pos" s] o(1) by simp
  finally show ?case by simp
qed

text \<open>
  C24. A rewritten command is the command with some expansions replaced, all else kept: each replaced range is
  inside the command, after the one before it, and holds \<^verbatim>\<open>$NAME\<close> or \<^verbatim>\<open>${NAME}\<close> for a variable whose one
  literal value at that statement is what is written there, quoted.
\<close>

theorem rewriting_replaces_expansions:
  assumes "resolve_posix_rm_variable_expansions alnum command = Rewritten t"
  shows "\<exists>sts rs. split_statements (mask_heredoc_bodies alnum command) = Some sts \<and> rs \<noteq> [] \<and>
    list_all (justified command sts) rs \<and> in_order 0 (length command) rs \<and> t = spliced 0 command rs"
proof -
  let ?scan = "mask_heredoc_bodies alnum command"
  obtain sts where sts: "split_statements ?scan = Some sts"
    using assms by (auto simp: resolve_posix_rm_variable_expansions_def max_substitution_depth_def numeral_eq_Suc
      resolve_level_def Let_def split: option.splits if_splits)
  from resolve_within_accepted [OF assms [unfolded resolve_posix_rm_variable_expansions_def] _ sts]
  obtain found where found: "check_statements (Map.empty, \<lambda>_. 0) sts = Inr found"
    "rewrite_command command found = Rewritten t" by blast
  let ?rs = "sort_key rp_start found"
  have rs: "?rs \<noteq> []" "\<not> overlapping ?rs" "t = apply_replacements command ?rs"
    using found(2) by (auto simp: rewrite_command_def Let_def split: if_splits)
  have just: "list_all (justified command sts) ?rs"
    using replacements_justified [OF sts found(1)] by (simp add: list_all_iff)
  then have "in_order 0 (length command) ?rs"
    using rs(2) justified_range by (intro in_orderI) (auto simp: list_all_iff)
  moreover from this have "t = spliced 0 command ?rs"
    using apply_replacements_spliced [of 0 command ?rs] rs(3) by simp
  ultimately show ?thesis using sts rs(1) just by blast
qed

theorem rewriting_replaces_expansions_witness:
  "\<exists>sts rs. split_statements (mask_heredoc_bodies (\<lambda>_. False) demo_removal) = Some sts \<and> rs \<noteq> [] \<and>
    list_all (justified demo_removal sts) rs \<and> in_order 0 (length demo_removal) rs \<and>
    ''A=/srv/a/b; rm -rf '' @ [dquote] @ ''/srv/a/b/..'' @ [dquote] @ ''/c'' = spliced 0 demo_removal rs"
proof -
  have "resolve_posix_rm_variable_expansions (\<lambda>_. False) demo_removal =
      Rewritten (''A=/srv/a/b; rm -rf '' @ [dquote] @ ''/srv/a/b/..'' @ [dquote] @ ''/c'')"
    by code_simp
  then show ?thesis by (rule rewriting_replaces_expansions)
qed

section \<open>Values the code does not track\<close>

text \<open>
  A statement none of whose words has an equals sign, and that is not an \<^verbatim>\<open>unset\<close>, leaves every recorded
  value as it was. Shell builtins that assign without one (\<^verbatim>\<open>read X\<close>, \<^verbatim>\<open>printf -v X\<close>, \<^verbatim>\<open>source\<close>) are among
  them, so that a later removal is rewritten with the value from before, another directory than the shell
  would have removed.
\<close>

theorem builtin_assignments_are_missed:
  assumes "words \<noteq> []" "list_all (\<lambda>w. CHR ''='' \<notin> set (rw_cooked w)) words" "rw_cooked (hd words) \<noteq> ''unset''"
  shows "after_words words sep vc = vc"
proof -
  have no: "split_once (CHR ''='') (rw_cooked w) = None" if "w \<in> set words" for w
    using assms(2) that by (simp add: split_once_None_iff list_all_iff)
  then have "\<not> is_assignment w" if "w \<in> set words" for w
    using that by (simp add: is_assignment_def assignment_parts_def)
  moreover have "set (exported words) \<subseteq> set words"
    by (cases words) (auto simp: exported_def)
  ultimately have "apply_assignment_statement words sep vc = vc"
    using assms(3) by (cases "exported words") (auto simp: apply_assignment_statement_def)
  moreover have "fold spoil_word ws vc = vc" if "set ws \<subseteq> set words" for ws
    using that no by (induction ws) (auto simp: spoil_word_def)
  ultimately show ?thesis by (simp add: after_words_def mark_unsupported_def)
qed

definition read_command :: string where
  "read_command = ''X=/srv/a/b; read X; rm -rf '' @ [dquote] @ ''$X'' @ [dquote] @ ''/c''"

theorem builtin_assignments_are_missed_witness:
  "fst (after_words (unwrap_or (lex_words ''read X'' 0) []) SepSequence
     ([''X'' \<mapsto> Known ''/srv/a/b''], \<lambda>_. 0)) ''X'' = Some (Known ''/srv/a/b'') \<and>
   resolve_posix_rm_variable_expansions (\<lambda>_. False) read_command =
     Rewritten (''X=/srv/a/b; read X; rm -rf '' @ [dquote] @ ''/srv/a/b'' @ [dquote] @ ''/c'')"
proof
  let ?ws = "unwrap_or (lex_words ''read X'' 0) []"
  have "?ws \<noteq> []" "list_all (\<lambda>w. CHR ''='' \<notin> set (rw_cooked w)) ?ws" "rw_cooked (hd ?ws) \<noteq> ''unset''"
    by code_simp+
  then have "after_words ?ws SepSequence ([''X'' \<mapsto> Known ''/srv/a/b''], \<lambda>_. 0) =
      ([''X'' \<mapsto> Known ''/srv/a/b''], \<lambda>_. 0)"
    by (rule builtin_assignments_are_missed)
  then show "fst (after_words ?ws SepSequence ([''X'' \<mapsto> Known ''/srv/a/b''], \<lambda>_. 0)) ''X'' =
      Some (Known ''/srv/a/b'')"
    by simp
  show "resolve_posix_rm_variable_expansions (\<lambda>_. False) read_command =
     Rewritten (''X=/srv/a/b; read X; rm -rf '' @ [dquote] @ ''/srv/a/b'' @ [dquote] @ ''/c'')"
    by code_simp
qed

end
