(* ===== verification/Cd_Guard.thy ===== *)
theory Cd_Guard
  imports Command_Rules Unix_Path Json_Api
begin

text \<open>
  \<^verbatim>\<open>block_bad_cmd_cd.rs\<close>: which commands may move the directory of the session, and the path keys of
  \<^verbatim>\<open>path_norm.rs\<close>. Slicing a text off a scalar boundary panics in Rust: \<open>Inl ()\<close> is that panic. Files and
  directories (hook configurations, \<^verbatim>\<open>.git\<close> entries) are arguments.
\<close>

section \<open>Path keys\<close>

definition norm_step :: "string list \<Rightarrow> string \<Rightarrow> string list" where
  "norm_step out n = (if n = ''..'' \<and> out \<noteq> [] \<and> last out \<noteq> ''..'' then butlast out else out @ [n])"

definition normalize_path :: "upath \<Rightarrow> upath" where
  "normalize_path p = (fst p, foldl norm_step [] (snd p))"

definition display_slash :: "string \<Rightarrow> string" where
  "display_slash s =
     slash_separators
       (case strip_prefix s [backslash, backslash, CHR ''?'', backslash, CHR ''U'', CHR ''N'', CHR ''C'', backslash] of
          Some r \<Rightarrow> [backslash, backslash] @ r
        | None \<Rightarrow> unwrap_or (strip_prefix s [backslash, backslash, CHR ''?'', backslash]) s)"

text \<open>\<open>fold_case\<close> is whether the platform is Windows or macOS.\<close>

definition normalize_for_key :: "bool \<Rightarrow> upath \<Rightarrow> string" where
  "normalize_for_key fold_case p =
     (let s = display_slash (show_path (normalize_path p)) in if fold_case then to_ascii_lowercase s else s)"

section \<open>Data\<close>

datatype cd_policy = CdOff | EscapeOnly | Strict

datatype cd_target = CdPath upath | Unresolvable | CdNoOp

record cd_occurrence =
  co_raw :: "string option"
  co_target :: cd_target

definition block_cd_rule_id :: string where
  "block_cd_rule_id = ''block-cd''"

section \<open>The pre-filter\<close>

definition is_word_byte :: "char \<Rightarrow> bool" where
  "is_word_byte c \<longleftrightarrow> is_ascii_alphanumeric c \<or> c = CHR ''_'' \<or> c = CHR ''.'' \<or> c = CHR ''-''"

text \<open>An occurrence of the needle between bytes that are not of a word; \<open>p\<close> is the byte before.\<close>

fun word_from :: "string \<Rightarrow> char option \<Rightarrow> string \<Rightarrow> bool" where
  "word_from needle p [] = False"
| "word_from needle p (c # s) =
     ((prefix needle (c # s) \<and> (case p of None \<Rightarrow> True | Some b \<Rightarrow> \<not> is_word_byte b) \<and>
       (let r = drop (length needle) (c # s) in r = [] \<or> \<not> is_word_byte (hd r))) \<or>
      word_from needle (Some c) s)"

definition contains_word :: "string \<Rightarrow> string \<Rightarrow> bool" where
  "contains_word haystack needle = word_from needle None haystack"

fun cd_builtins :: "shell_dialect \<Rightarrow> string list" where
  "cd_builtins Posix = [''cd'']"
| "cd_builtins PowerShell = [''cd'', ''chdir'', ''sl'', ''set-location'']"
| "cd_builtins CmdShell = [''cd'', ''chdir'']"

definition command_may_change_directory :: "string \<Rightarrow> shell_dialect \<Rightarrow> bool" where
  "command_may_change_directory text d \<longleftrightarrow>
     list_ex (contains_word (to_ascii_lowercase text)) (cd_builtins d)"

section \<open>Segments of the session's own shell\<close>

definition keep_at :: "nat \<Rightarrow> string \<Rightarrow> string \<Rightarrow> string" where
  "keep_at depth buf cs = (if depth = 0 then buf @ cs else buf)"

function top_segments_from ::
    "shell_dialect \<Rightarrow> string \<Rightarrow> string \<Rightarrow> char option \<Rightarrow> nat \<Rightarrow> string \<Rightarrow> string list" where
  "top_segments_from d seen buf quote depth [] = stage_of buf"
| "top_segments_from d seen buf quote depth (c # rest) =
     (case quote of
        Some q \<Rightarrow>
          if q \<noteq> squote \<and> is_shell_escape c d \<and> rest \<noteq> [] then
            top_segments_from d (seen @ [c, hd rest]) (keep_at depth buf [c, hd rest]) quote depth (tl rest)
          else
            top_segments_from d (seen @ [c]) (keep_at depth buf [c]) (if c = q then None else quote) depth rest
      | None \<Rightarrow>
          if is_quote c \<or> c = backtick then
            top_segments_from d (seen @ [c]) (keep_at depth buf [c]) (Some c) depth rest
          else if is_shell_escape c d \<and> rest \<noteq> [] then
            top_segments_from d (seen @ [c, hd rest]) (keep_at depth buf [c, hd rest]) None depth (tl rest)
          else if starts_comment d seen c then
            top_segments_from d (seen @ c # takeWhile in_line rest) buf None depth (dropWhile in_line rest)
          else if c = CHR ''('' then
            (if depth = 0 then stage_of buf @ top_segments_from d (seen @ [c]) [] None 1 rest
             else top_segments_from d (seen @ [c]) buf None (depth + 1) rest)
          else if c = CHR '')'' then top_segments_from d (seen @ [c]) buf None (depth - 1) rest
          else if depth > 0 then top_segments_from d (seen @ [c]) buf None depth rest
          else if doubled (CHR ''&'') c rest \<or> doubled (CHR ''|'') c rest then
            stage_of buf @ top_segments_from d (seen @ [c, hd rest]) [] None 0 (tl rest)
          else if list_contains [CHR '';'', nl, cr, CHR ''|'', CHR ''&''] c then
            stage_of buf @ top_segments_from d (seen @ [c]) [] None 0 rest
          else top_segments_from d (seen @ [c]) (buf @ [c]) None 0 rest)"
  by pat_completeness auto
termination
  by (relation "measure (\<lambda>(_, _, _, _, _, s). length s)")
    (auto simp: less_Suc_eq_le length_dropWhile_le)

definition top_level_segments :: "string \<Rightarrow> shell_dialect \<Rightarrow> string list" where
  "top_level_segments text d = top_segments_from d [] [] None 0 text"

section \<open>Targets\<close>

fun cd_argument :: "shell_dialect \<Rightarrow> string list \<Rightarrow> string option" where
  "cd_argument d [] = None"
| "cd_argument d (a # args) =
     (if a = ''-'' then Some a
      else if d = PowerShell \<and> list_contains [''-path'', ''-literalpath''] (to_ascii_lowercase a) \<and> args \<noteq> []
      then Some (hd args)
      else if starts_with a ''-'' \<or> (d = CmdShell \<and> starts_with a ''/'') then cd_argument d args
      else Some a)"

definition bare_cd_target :: "shell_dialect \<Rightarrow> string option \<Rightarrow> cd_target" where
  "bare_cd_target d home =
     (case d of
        Posix \<Rightarrow> (case home of None \<Rightarrow> Unresolvable | Some h \<Rightarrow> CdPath (lexically_normalize (parse_path h)))
      | _ \<Rightarrow> CdNoOp)"

definition unquote :: "string \<Rightarrow> string" where
  "unquote raw =
     (if length raw \<ge> 2 \<and> is_quote (hd raw) \<and> last raw = hd raw then butlast (tl raw) else raw)"

definition home_tokens :: "string list" where
  "home_tokens =
     [''~'', ''$HOME'', ''${HOME}'', ''$env:USERPROFILE'', ''$env:HOME'', ''%USERPROFILE%'', ''%HOME%'']"

fun home_from :: "string \<Rightarrow> string \<Rightarrow> string list \<Rightarrow> (unit, string option) result" where
  "home_from home raw [] = Inr None"
| "home_from home raw (t # ts) =
     (if eq_ignore_ascii_case raw t then Inr (Some home)
      else if length raw > length t then
        (if \<not> is_char_boundary raw (length t) then Inl ()
         else if eq_ignore_ascii_case (take (length t) raw) t \<and>
             list_contains [CHR ''/'', backslash] (raw ! length t)
         then Inr (Some (home @ CHR ''/'' # drop (length t + 1) raw))
         else home_from home raw ts)
      else home_from home raw ts)"

definition expand_home_prefix :: "string \<Rightarrow> string option \<Rightarrow> (unit, string option) result" where
  "expand_home_prefix raw home =
     (case home of None \<Rightarrow> Inr None | Some h \<Rightarrow> home_from h raw home_tokens)"

definition resolve_cd_argument :: "string \<Rightarrow> upath \<Rightarrow> string option \<Rightarrow> (unit, cd_target) result" where
  "resolve_cd_argument argument cwd home =
     (let trimmed = unquote (trim argument)
      in if trimmed = [] then Inr CdNoOp
         else if trimmed = ''-'' then Inr Unresolvable
         else
           rbind (expand_home_prefix trimmed home)
             (\<lambda>expanded. Inr
               (case expanded of
                  Some e \<Rightarrow> CdPath (resolve_against cwd e)
                | None \<Rightarrow>
                    if list_ex (list_contains [CHR ''$'', CHR ''%'', backtick]) trimmed then Unresolvable
                    else CdPath (resolve_against cwd trimmed))))"

fun scan_segments ::
    "shell_dialect \<Rightarrow> upath \<Rightarrow> string option \<Rightarrow> string list \<Rightarrow> (unit, cd_occurrence list) result" where
  "scan_segments d cwd home [] = Inr []"
| "scan_segments d cwd home (seg # segs) =
     (case command_words seg of
        [] \<Rightarrow> scan_segments d cwd home segs
      | w # ws \<Rightarrow>
          if nested_shell_command (w # ws) d \<noteq> None \<or>
            \<not> list_contains (cd_builtins d) (to_ascii_lowercase (program_name w))
          then scan_segments d cwd home segs
          else
            let raw = cd_argument d ws
            in rbind (case raw of None \<Rightarrow> Inr (bare_cd_target d home) | Some a \<Rightarrow> resolve_cd_argument a cwd home)
                 (\<lambda>t. rbind (scan_segments d cwd home segs)
                   (\<lambda>os. Inr (\<lparr>co_raw = raw, co_target = t\<rparr> # os))))"

definition scan_session_cd ::
    "(string \<Rightarrow> bool) \<Rightarrow> string \<Rightarrow> shell_dialect \<Rightarrow> upath \<Rightarrow> string option \<Rightarrow>
      (unit, cd_occurrence list) result" where
  "scan_session_cd alnum text d cwd home =
     scan_segments d cwd home (top_level_segments (strip_heredoc_bodies alnum text) d)"

section \<open>Decision\<close>

definition is_registered_root :: "bool \<Rightarrow> upath \<Rightarrow> upath list \<Rightarrow> bool" where
  "is_registered_root fold_case p roots \<longleftrightarrow>
     list_ex (\<lambda>r. normalize_for_key fold_case r = normalize_for_key fold_case p) roots"

definition is_within :: "bool \<Rightarrow> upath \<Rightarrow> upath \<Rightarrow> bool" where
  "is_within fold_case p root \<longleftrightarrow>
     (let path_key = normalize_for_key fold_case p; root_key = normalize_for_key fold_case root
      in path_key = root_key \<or>
         starts_with path_key (if ends_with root_key ''/'' then root_key else root_key @ ''/''))"

definition roots_display :: "upath list \<Rightarrow> string" where
  "roots_display roots = join_with '', '' (map (\<lambda>r. display_slash (show_path r)) roots)"

definition em_dash :: string where
  "em_dash = [CHR 0xE2, CHR 0x80, CHR 0x94]"

definition in_backticks :: "string \<Rightarrow> string" where
  "in_backticks s = backtick # s @ [backtick]"

definition policy_hint :: string where
  "policy_hint =
     '' To change the policy set '' @ in_backticks ''bash.block_cd'' @
     '' in .clud/settings.json, or bypass this one call with CLUD_BAD_CMD_OVERRIDE='' @ block_cd_rule_id @
     '':<reason>.''"

definition strict_message :: "string \<Rightarrow> upath list \<Rightarrow> string option \<Rightarrow> string \<Rightarrow> string" where
  "strict_message described roots hint why =
     ''Blocked '' @ in_backticks (''cd '' @ described) @
     '': it mutates the session cwd for every later tool call, and '' @ why @ ''.'' @
     (case hint of
        None \<Rightarrow> []
      | Some h \<Rightarrow>
          '' This repo has a cwd-sensitive hook ('' @ h @
          ''), which resolves its script path against whatever cwd it inherits, so any drift breaks it.'') @
     '' Run the command without moving the session instead '' @ em_dash @ '' '' @
     in_backticks ''(cd DIR && CMD)'' @ '', '' @ in_backticks ''git -C DIR ...'' @ '', '' @
     in_backticks ''cargo --manifest-path DIR/Cargo.toml ...'' @
     '', or an absolute path; a subshell '' @ in_backticks ''cd'' @
     '' is always allowed because it cannot leak. '' @ in_backticks ''cd'' @
     '' back to a registered root ('' @ roots_display roots @ '') stays allowed as the way to recover.'' @
     policy_hint"

definition escape_message :: "string \<Rightarrow> upath list \<Rightarrow> string" where
  "escape_message described roots =
     ''Blocked '' @ in_backticks (''cd '' @ described) @ '': it moves the session cwd outside the repo ('' @
     roots_display roots @ '') for every later tool call, which breaks repo-relative hooks and tooling. Use '' @
     in_backticks ''(cd DIR && CMD)'' @ '', '' @ in_backticks ''git -C DIR ...'' @
     '', or an absolute path instead; a subshell '' @ in_backticks ''cd'' @
     '' is always allowed because it cannot leak.'' @ policy_hint"

definition occurrence_denial ::
    "bool \<Rightarrow> cd_policy \<Rightarrow> upath list \<Rightarrow> string option \<Rightarrow> cd_occurrence \<Rightarrow> string option" where
  "occurrence_denial fold_case policy roots hint oc =
     (let described = unwrap_or (co_raw oc) ''<home>''
      in case (co_target oc, policy) of
           (CdNoOp, _) \<Rightarrow> None
         | (Unresolvable, EscapeOnly) \<Rightarrow> None
         | (Unresolvable, Strict) \<Rightarrow>
             Some (strict_message described roots hint ''its target cannot be resolved without running the shell'')
         | (CdPath p, Strict) \<Rightarrow>
             if is_registered_root fold_case p roots then None
             else Some (strict_message described roots hint ''it is not a registered repo root'')
         | (CdPath p, EscapeOnly) \<Rightarrow>
             if list_ex (is_within fold_case p) roots then None else Some (escape_message described roots)
         | (_, CdOff) \<Rightarrow> None)"

fun first_denial :: "('a \<Rightarrow> string option) \<Rightarrow> 'a list \<Rightarrow> string option" where
  "first_denial f [] = None"
| "first_denial f (x # xs) = (case f x of None \<Rightarrow> first_denial f xs | Some r \<Rightarrow> Some r)"

definition cd_denial_reason ::
    "bool \<Rightarrow> (string \<Rightarrow> bool) \<Rightarrow> string \<Rightarrow> shell_dialect \<Rightarrow> cd_policy \<Rightarrow> upath \<Rightarrow> upath list \<Rightarrow>
      string option \<Rightarrow> string option \<Rightarrow> (unit, string option) result" where
  "cd_denial_reason fold_case alnum text d policy cwd roots home hint =
     (if policy = CdOff \<or> roots = [] then Inr None
      else
        rbind (scan_session_cd alnum text d cwd home)
          (\<lambda>os. Inr (first_denial (occurrence_denial fold_case policy roots hint) os)))"

end
