(* ===== verification/Cd_Policy.thy ===== *)
theory Cd_Policy
  imports Cd_Guard
begin

text \<open>
  How strictly \<^verbatim>\<open>cd\<close> is policed (\<^verbatim>\<open>block_bad_cmd_cd.rs\<close>): the hook commands configured for a repository are
  read and classified by whether they depend on the directory they inherit. Reading and parsing a file is
  the argument \<open>read_json\<close>, iterating over an object the argument \<open>entries\<close>.
\<close>

section \<open>Texts of hook commands\<close>

text \<open>\<^verbatim>\<open>split(sep).next()\<close>.\<close>

fun before_text :: "string \<Rightarrow> string \<Rightarrow> string" where
  "before_text sep [] = []"
| "before_text sep (c # s) = (if prefix sep (c # s) then [] else c # before_text sep s)"

text \<open>\<^verbatim>\<open>trim_start_matches\<close> of a text that is not empty.\<close>

function strip_all :: "string \<Rightarrow> string \<Rightarrow> string" where
  "strip_all p s = (if p \<noteq> [] \<and> prefix p s then strip_all p (drop (length p) s) else s)"
  by pat_completeness auto
termination
proof (relation "measure (\<lambda>(_, s). length s)")
  fix p s :: string
  assume "p \<noteq> [] \<and> prefix p s"
  then show "((p, drop (length p) s), p, s) \<in> measure (\<lambda>(_, s). length s)"
    by (cases p; cases s) auto
qed simp

declare strip_all.simps [simp del]

definition is_absolute_pathish :: "string \<Rightarrow> bool" where
  "is_absolute_pathish raw \<longleftrightarrow>
     (raw \<noteq> [] \<and> (hd raw = CHR ''/'' \<or> hd raw = backslash)) \<or>
     (length raw \<ge> 2 \<and> is_ascii_alphabetic (hd raw) \<and> raw ! 1 = CHR '':'') \<or>
     starts_with raw ''/''"

definition has_broken_git_rev_parse_prefix :: "string \<Rightarrow> bool" where
  "has_broken_git_rev_parse_prefix command \<longleftrightarrow>
     (let lower = to_ascii_lowercase command
      in str_contains lower ''--show-superproject-working-tree'' \<and> str_contains lower ''||'' \<and>
         str_contains lower ''rev-parse'')"

definition has_self_rooting_prefix :: "string \<Rightarrow> bool" where
  "has_self_rooting_prefix command \<longleftrightarrow>
     (let head = unquote (trim (strip_all ''cd '' (trim (before_text ''&&'' command))))
      in str_contains head ''CLAUDE_PROJECT_DIR'' \<or> str_contains head ''CLUD_PROJECT_DIR'' \<or>
         (head \<noteq> [] \<and> is_absolute_pathish head))"

definition looks_like_relative_path :: "string \<Rightarrow> bool" where
  "looks_like_relative_path token \<longleftrightarrow>
     \<not> starts_with token ''-'' \<and> \<not> str_contains token ''://'' \<and>
     (let u = unquote token
      in u \<noteq> [] \<and> \<not> list_contains ''$%~'' (hd u) \<and> (CHR ''/'' \<in> set u \<or> backslash \<in> set u) \<and>
         \<not> is_absolute_pathish u)"

definition is_cwd_sensitive_hook_command :: "string \<Rightarrow> bool" where
  "is_cwd_sensitive_hook_command command \<longleftrightarrow>
     has_broken_git_rev_parse_prefix command \<or>
     (\<not> has_self_rooting_prefix command \<and> list_ex looks_like_relative_path (split_whitespace command))"

section \<open>The scan\<close>

record sensitive_hook =
  sh_source :: upath
  sh_command :: string

record hook_cwd_scan =
  hs_any_hooks :: bool
  hs_sensitive :: "sensitive_hook list"
  hs_broken_git_prefix :: "sensitive_hook list"

definition no_hooks :: hook_cwd_scan where
  "no_hooks = \<lparr>hs_any_hooks = False, hs_sensitive = [], hs_broken_git_prefix = []\<rparr>"

definition truncate_command :: "string \<Rightarrow> string" where
  "truncate_command command =
     (let line = join_with '' '' (split_whitespace command)
      in if length (scalars line) \<le> 60 then in_backticks line
         else in_backticks (concat (take 60 (scalars line)) @ [CHR 0xE2, CHR 0x80, CHR 0xA6]))"

definition hint :: "hook_cwd_scan \<Rightarrow> string option" where
  "hint scan =
     (case hs_sensitive scan of
        [] \<Rightarrow> None
      | h # _ \<Rightarrow> Some (truncate_command (sh_command h) @ '' in '' @ display_slash (show_path (sh_source h))))"

text \<open>Commands of handlers, trimmed, each once.\<close>

definition add_command :: "'v json_api \<Rightarrow> 'v \<Rightarrow> string list \<Rightarrow> string list" where
  "add_command J handler out =
     (case get_str J handler ''command'' of
        None \<Rightarrow> out
      | Some c \<Rightarrow> if trim c = [] \<or> list_contains out (trim c) then out else out @ [trim c])"

definition add_group :: "'v json_api \<Rightarrow> 'v \<Rightarrow> string list \<Rightarrow> string list" where
  "add_group J grp out =
     (case Option.bind (get_field J grp ''hooks'') (as_array J) of
        None \<Rightarrow> out | Some handlers \<Rightarrow> fold (add_command J) handlers out)"

definition add_event :: "'v json_api \<Rightarrow> string \<times> 'v \<Rightarrow> string list \<Rightarrow> string list" where
  "add_event J ev out =
     (case as_array J (snd ev) of None \<Rightarrow> out | Some groups \<Rightarrow> fold (add_group J) groups out)"

definition hook_commands :: "'v json_api \<Rightarrow> ('v \<Rightarrow> (string \<times> 'v) list option) \<Rightarrow> 'v \<Rightarrow> string list" where
  "hook_commands J entries json =
     fold (\<lambda>root out. case entries root of None \<Rightarrow> out | Some events \<Rightarrow> fold (add_event J) events out)
       ((case get_field J json ''hooks'' of None \<Rightarrow> [] | Some h \<Rightarrow> [h]) @ [json]) []"

definition scan_command :: "upath \<Rightarrow> string \<Rightarrow> hook_cwd_scan \<Rightarrow> hook_cwd_scan" where
  "scan_command source command scan =
     (let h = \<lparr>sh_source = source, sh_command = command\<rparr>;
          scan = scan\<lparr>hs_any_hooks := True\<rparr>;
          scan = (if has_broken_git_rev_parse_prefix command
                  then scan\<lparr>hs_broken_git_prefix := hs_broken_git_prefix scan @ [h]\<rparr> else scan)
      in if is_cwd_sensitive_hook_command command
         then scan\<lparr>hs_sensitive := hs_sensitive scan @ [h]\<rparr> else scan)"

definition hook_files :: "upath \<Rightarrow> upath option \<Rightarrow> upath list" where
  "hook_files repo_root home =
     map (\<lambda>ns. (fst repo_root, snd repo_root @ ns))
       [[''.claude'', ''settings.json''], [''.claude'', ''settings.local.json''], [''.codex'', ''hooks.json'']] @
     (case home of
        None \<Rightarrow> []
      | Some h \<Rightarrow> map (\<lambda>ns. (fst h, snd h @ ns)) [[''.claude'', ''settings.json''], [''.codex'', ''hooks.json'']])"

definition scan_hook_cwd_sensitivity ::
    "'v json_api \<Rightarrow> ('v \<Rightarrow> (string \<times> 'v) list option) \<Rightarrow> (upath \<Rightarrow> 'v option) \<Rightarrow>
      upath \<Rightarrow> upath option \<Rightarrow> hook_cwd_scan" where
  "scan_hook_cwd_sensitivity J entries read_json repo_root home =
     fold (\<lambda>path scan.
        case read_json path of
          None \<Rightarrow> scan | Some json \<Rightarrow> fold (scan_command path) (hook_commands J entries json) scan)
       (hook_files repo_root home) no_hooks"

section \<open>The policy\<close>

datatype block_cd = Auto | Always | Never

definition resolve_policy :: "block_cd \<Rightarrow> bool \<Rightarrow> hook_cwd_scan \<Rightarrow> cd_policy" where
  "resolve_policy setting in_repo scan =
     (case setting of
        Never \<Rightarrow> CdOff
      | Always \<Rightarrow> if in_repo then Strict else CdOff
      | Auto \<Rightarrow>
          if \<not> in_repo \<or> \<not> hs_any_hooks scan then CdOff
          else if hs_sensitive scan = [] then EscapeOnly
          else Strict)"

text \<open>The nearest ancestor with a \<^verbatim>\<open>.git\<close> entry; the names are those of the start, innermost first.\<close>

fun repo_root_from :: "(upath \<Rightarrow> bool) \<Rightarrow> bool \<Rightarrow> string list \<Rightarrow> upath option" where
  "repo_root_from has_git absolute [] = (if has_git (absolute, []) then Some (absolute, []) else None)"
| "repo_root_from has_git absolute (n # ns) =
     (if has_git (absolute, rev (n # ns)) then Some (absolute, rev (n # ns))
      else repo_root_from has_git absolute ns)"

definition nearest_repo_root :: "(upath \<Rightarrow> bool) \<Rightarrow> upath \<Rightarrow> upath option" where
  "nearest_repo_root has_git start =
     (let p = lexically_normalize start in repo_root_from has_git (fst p) (rev (snd p)))"

end
