(* ===== verification/Bad_Cmd_Hook.thy ===== *)
theory Bad_Cmd_Hook
  imports Guard_Coverage Rm_Variables Cd_Policy
begin

text \<open>
  The hook of \<^verbatim>\<open>block_bad_cmd.rs\<close>: what is decided about one tool call, from the text on standard input to
  the answer. Environment variables, settings, files and git are fields of \<open>hook_env\<close>; bounded reading of
  standard input, logging and the notification of the daemon are left out.
\<close>

section \<open>Evaluation with removals\<close>

definition evaluate_command_with_policy :: "guard \<Rightarrow> shell_dialect \<Rightarrow> string \<Rightarrow> evaluation" where
  "evaluate_command_with_policy g d text =
     (let ev = evaluate_command_into g d text new_evaluation
      in if ev_reason ev = None \<and> d = Posix then
           (case resolve_posix_rm_variable_expansions (g_alnum g) text of
              Unchanged \<Rightarrow> log_all [RmUnchanged] ev
            | Refused reason \<Rightarrow> log_all [RmRefused] (deny (RmDenied reason) ev)
            | Rewritten rewritten \<Rightarrow>
                let verified = log_all [RmRewritten] (evaluate_command_into g d rewritten new_evaluation)
                in if ev_reason verified = None then verified\<lparr>ev_rewritten := Some rewritten\<rparr> else verified)
         else ev)"

section \<open>The environment of the hook\<close>

record hook_config =
  hc_bad_commands :: "bad_command_rule list"
  hc_bad_pipelines :: "bad_pipeline_rule list"
  hc_use_soldr :: bool
  hc_block_cd :: block_cd

record 'v hook_env =
  he_json :: "'v json_api"
  he_entries :: "'v \<Rightarrow> (string \<times> 'v) list option"
  he_set_str :: "'v \<Rightarrow> string \<Rightarrow> string \<Rightarrow> 'v"
  he_to_string :: "'v \<Rightarrow> string"
  he_process_cwd :: string
  he_config :: "string \<Rightarrow> hook_config option"
  he_uv_allow_all :: "string option"
  he_main_repo_root :: "string \<Rightarrow> string option"
  he_pr_wait :: "bool option"
  he_override :: "string option"
  he_hybrid_root :: "string \<Rightarrow> string option"
  he_windows :: bool
  he_fold_case :: bool
  he_regex :: "string \<Rightarrow> (string \<Rightarrow> bool) option"
  he_alnum :: "string \<Rightarrow> bool"
  he_home :: "string option"
  he_has_git :: "upath \<Rightarrow> bool"
  he_read_json :: "upath \<Rightarrow> 'v option"

definition default_clud_config :: hook_config where
  "default_clud_config =
     \<lparr>hc_bad_commands = [], hc_bad_pipelines = [], hc_use_soldr = True, hc_block_cd = Auto\<rparr>"

section \<open>The payload\<close>

record 'v hook_payload =
  hp_tool_name :: string
  hp_command :: string
  hp_cwd :: string
  hp_tool_input :: "'v option"

definition field_of :: "'v hook_env \<Rightarrow> 'v \<Rightarrow> string \<Rightarrow> string \<Rightarrow> 'v option" where
  "field_of E v k1 k2 = or_else (get_field (he_json E) v k1) (get_field (he_json E) v k2)"

definition extract_command :: "'v hook_env \<Rightarrow> 'v \<Rightarrow> string" where
  "extract_command E payload =
     (case field_of E payload ''tool_input'' ''toolInput'' of
        None \<Rightarrow> []
      | Some input \<Rightarrow>
          (case (if he_entries E input = None then None
                 else or_else (get_str (he_json E) input ''command'')
                   (or_else (get_str (he_json E) input ''script'')
                     (map_option
                       (\<lambda>argv. join_with '' '' (map (\<lambda>v. unwrap_or (as_str (he_json E) v) (he_to_string E v)) argv))
                       (Option.bind (get_field (he_json E) input ''argv'') (as_array (he_json E)))))) of
             Some c \<Rightarrow> c
           | None \<Rightarrow> unwrap_or (as_str (he_json E) input) []))"

definition parse_payload_value :: "'v hook_env \<Rightarrow> 'v \<Rightarrow> 'v hook_payload option" where
  "parse_payload_value E v =
     (if he_entries E v = None then None
      else Some
        \<lparr>hp_tool_name = unwrap_or (Option.bind (field_of E v ''tool_name'' ''toolName'') (as_str (he_json E))) ''?'',
         hp_command = extract_command E v,
         hp_cwd =
           (case Option.bind (field_of E v ''cwd'' ''cwdPath'') (as_str (he_json E)) of
              Some c \<Rightarrow> if c = [] then he_process_cwd E else c
            | None \<Rightarrow> he_process_cwd E),
         hp_tool_input = field_of E v ''tool_input'' ''toolInput''\<rparr>)"

definition parse_payload :: "'v hook_env \<Rightarrow> string \<Rightarrow> 'v hook_payload option" where
  "parse_payload E raw = Option.bind (from_str (he_json E) raw) (parse_payload_value E)"

section \<open>Moving the session\<close>

definition hook_dialect :: "'v hook_env \<Rightarrow> 'v hook_payload \<Rightarrow> shell_dialect" where
  "hook_dialect E p = shell_dialect_for_tool (he_windows E) (hp_tool_name p)"

definition block_cd_denial ::
    "'v hook_env \<Rightarrow> 'v hook_payload \<Rightarrow> hook_config \<Rightarrow> (unit, string option) result" where
  "block_cd_denial E p config =
     (let d = hook_dialect E p
      in if \<not> command_may_change_directory (hp_command p) d \<or> hc_block_cd config = Never then Inr None
         else
           let root = nearest_repo_root (he_has_git E) (parse_path (hp_cwd p));
               scan =
                 (case (root, hc_block_cd config) of
                    (Some r, Auto) \<Rightarrow>
                      scan_hook_cwd_sensitivity (he_json E) (he_entries E) (he_read_json E) r
                        (map_option parse_path (he_home E))
                  | _ \<Rightarrow> no_hooks);
               policy = resolve_policy (hc_block_cd config) (root \<noteq> None) scan
           in if policy = CdOff then Inr None
              else
                rbind
                  (cd_denial_reason (he_fold_case E) (he_alnum E) (hp_command p) d policy (parse_path (hp_cwd p))
                    (case root of None \<Rightarrow> [] | Some r \<Rightarrow> [r]) (he_home E) (hint scan))
                  (\<lambda>reason. Inr
                    (case reason of
                       None \<Rightarrow> None
                     | Some r \<Rightarrow>
                         if accepted_override_reason (he_override E) block_cd_rule_id = None then Some r else None)))"

section \<open>The answer\<close>

definition command_may_contain_clone_or_worktree_add :: "string \<Rightarrow> bool" where
  "command_may_contain_clone_or_worktree_add text \<longleftrightarrow>
     (let lower = to_ascii_lowercase text in str_contains lower ''clone'' \<or> str_contains lower ''worktree'')"

definition hook_guard :: "'v hook_env \<Rightarrow> 'v hook_payload \<Rightarrow> hook_config \<Rightarrow> guard" where
  "hook_guard E p config =
     \<lparr>g_cwd = Some (hp_cwd p), g_allow_hybrid = (he_uv_allow_all E = Some ''1''),
      g_bad_commands = hc_bad_commands config, g_bad_pipelines = hc_bad_pipelines config,
      g_repo_root =
        (if command_may_contain_clone_or_worktree_add (hp_command p) then he_main_repo_root E (hp_cwd p) else None),
      g_pr_wait = unwrap_or (he_pr_wait E) False, g_use_soldr = hc_use_soldr config,
      g_override = he_override E, g_hybrid_root = he_hybrid_root E (hp_cwd p), g_windows = he_windows E,
      g_regex = he_regex E, g_alnum = he_alnum E\<rparr>"

definition source_reference :: "rule_source \<Rightarrow> string" where
  "source_reference s = unwrap_or (rs_file s) [] @ ''#/bad_commands/'' @ show_nat (rs_index s)"

definition provenance_reason_suffix :: "denial_provenance \<Rightarrow> string" where
  "provenance_reason_suffix p =
     nl # ''Blocked '' @ in_backticks (dp_token p) @ '' (normalized: '' @ in_backticks (dp_program p) @ '') '' @
     (case dp_rule_id p of Some i \<Rightarrow> ''by rule '' @ in_backticks i | None \<Rightarrow> ''by an unnamed rule'') @
     (case dp_source p of Some s \<Rightarrow> '' from '' @ in_backticks (source_reference s) | None \<Rightarrow> []) @ ''.''"

datatype 'v hook_answer =
    HookIgnored
  | HookDenied string
  | HookAllowed "'v option" "git_path_capture list"
  | HookPanicked

definition no_object_reason :: string where
  "no_object_reason =
     ''Blocked unsafe removal: the hook payload did not contain an object-shaped tool_input to rewrite safely. Retry using a validated literal path directly.''"

definition no_command_reason :: string where
  "no_command_reason =
     ''Blocked unsafe removal: tool_input.command was missing or not a string, so the hook could not rewrite it safely. Retry using a validated literal path directly.''"

definition allow_rewritten ::
    "'v hook_env \<Rightarrow> 'v hook_payload \<Rightarrow> string \<Rightarrow> git_path_capture list \<Rightarrow> 'v hook_answer" where
  "allow_rewritten E p rewritten captures =
     (case hp_tool_input p of
        None \<Rightarrow> HookDenied no_object_reason
      | Some input \<Rightarrow>
          if he_entries E input = None then HookDenied no_object_reason
          else if get_str (he_json E) input ''command'' = None then HookDenied no_command_reason
          else HookAllowed (Some (he_set_str E input ''command'' rewritten)) captures)"

definition deny_text :: "evaluation \<Rightarrow> string \<Rightarrow> string" where
  "deny_text ev base =
     (case ev_provenance ev of None \<Rightarrow> base | Some p \<Rightarrow> base @ provenance_reason_suffix p)"

definition decide :: "'v hook_env \<Rightarrow> 'v hook_payload \<Rightarrow> 'v hook_answer" where
  "decide E p =
     (let config = unwrap_or (he_config E (hp_cwd p)) default_clud_config;
          ev = evaluate_command_with_policy (hook_guard E p config) (hook_dialect E p) (hp_command p)
      in case (case ev_reason ev of
                 Some r \<Rightarrow> Inr (Some (denial_text r))
               | None \<Rightarrow> block_cd_denial E p config) of
           Inl _ \<Rightarrow> HookPanicked
         | Inr (Some base) \<Rightarrow> HookDenied (deny_text ev base)
         | Inr None \<Rightarrow>
             (case ev_rewritten ev of
                Some rewritten \<Rightarrow> allow_rewritten E p rewritten (ev_captures ev)
              | None \<Rightarrow> HookAllowed None (ev_captures ev)))"

definition run_hook :: "'v hook_env \<Rightarrow> string \<Rightarrow> 'v hook_answer" where
  "run_hook E stdin =
     (case from_str (he_json E) (if trim stdin = [] then ''{}'' else stdin) of
        None \<Rightarrow> HookIgnored
      | Some v \<Rightarrow> (case parse_payload_value E v of None \<Rightarrow> HookIgnored | Some p \<Rightarrow> decide E p))"

end
