(* ===== verification/Cd_Safety.thy ===== *)
theory Cd_Safety
  imports Bad_Cmd_Hook
begin

text \<open>
  What the guard of the session's directory and the answer of the hook guarantee: the comparison of path keys
  is the comparison of directory names, a command is let through exactly when the guard resolves each of its
  moves into a registered root, the policy follows the configured hooks, and a rewritten command has passed the
  guard. What is not guaranteed: moves are resolved one by one, a quoted builtin is not seen, and a target
  that starts beyond ASCII stops the hook.
\<close>

section \<open>Keys and names\<close>

definition plain_name :: "string \<Rightarrow> bool" where
  "plain_name n \<longleftrightarrow> n \<noteq> [] \<and> n \<noteq> ''..'' \<and> CHR ''/'' \<notin> set n \<and> backslash \<notin> set n"

definition plain_path :: "upath \<Rightarrow> bool" where
  "plain_path p \<longleftrightarrow> fst p \<and> list_all plain_name (snd p)"

definition name_key :: "bool \<Rightarrow> string \<Rightarrow> string" where
  "name_key fold_case n = (if fold_case then to_ascii_lowercase n else n)"

definition names_key :: "bool \<Rightarrow> upath \<Rightarrow> string list" where
  "names_key fold_case p = map (name_key fold_case) (snd p)"

definition closed_names :: "string list \<Rightarrow> string" where
  "closed_names ns = concat (map (\<lambda>n. n @ ''/'') ns)"

lemma ascii_lower_slash [simp]: "ascii_lower c = CHR ''/'' \<longleftrightarrow> c = CHR ''/''"
proof (cases "is_upper c")
  case True
  have slash: "code_of CHR ''/'' = 47" by (simp add: code_of_def)
  have "code_of (ascii_lower c) = code_of c + 32" and "code_of c \<le> 90" and "65 \<le> code_of c"
    using True by (auto simp: ascii_lower_def is_upper_def)
  then have "code_of (ascii_lower c) \<noteq> code_of CHR ''/''" and "code_of c \<noteq> code_of CHR ''/''"
    unfolding slash by linarith+
  then show ?thesis by simp
qed (simp add: ascii_lower_def)

lemma ascii_lower_of_slash [simp]: "ascii_lower CHR ''/'' = CHR ''/''"
  by simp

lemma lowercase_eq_Nil [simp]: "to_ascii_lowercase n = [] \<longleftrightarrow> n = []"
  by (simp add: to_ascii_lowercase_def)

lemma slash_in_lowercase [simp]: "CHR ''/'' \<in> set (to_ascii_lowercase n) \<longleftrightarrow> CHR ''/'' \<in> set n"
  by (auto simp: to_ascii_lowercase_def image_iff eq_commute [of "CHR ''/''"])

lemma join_closed: "ns \<noteq> [] \<Longrightarrow> join_with ''/'' ns @ ''/'' = closed_names ns"
  by (induction "''/''" ns rule: join_with.induct) (auto simp: closed_names_def)

lemma prefix_name_iff:
  assumes "s \<notin> set a" "s \<notin> set b"
  shows "prefix (a @ s # u) (b @ s # v) \<longleftrightarrow> a = b \<and> prefix u v"
  using assms
proof (induction a arbitrary: b)
  case Nil then show ?case by (cases b) auto
next
  case (Cons x a) then show ?case by (cases b) auto
qed

lemma prefix_closed_names:
  "list_all (\<lambda>n. CHR ''/'' \<notin> set n) ms \<Longrightarrow> list_all (\<lambda>n. CHR ''/'' \<notin> set n) ns \<Longrightarrow>
   prefix (closed_names ms) (closed_names ns) \<longleftrightarrow> prefix ms ns"
proof (induction ms arbitrary: ns)
  case Nil then show ?case by (simp add: closed_names_def)
next
  case (Cons m ms)
  then show ?case
    by (cases ns) (auto simp: closed_names_def prefix_name_iff)
qed

lemma foldl_norm_step_plain:
  "''..'' \<notin> set ns \<Longrightarrow> foldl norm_step out ns = out @ ns"
  by (induction ns arbitrary: out) (auto simp: norm_step_def)

lemma slash_join:
  "list_all (\<lambda>n. backslash \<notin> set n) ns \<Longrightarrow> slash_separators (join_with ''/'' ns) = join_with ''/'' ns"
  by (induction "''/''" ns rule: join_with.induct)
    (auto simp: slash_separators_def intro!: map_idI)

lemma lowercase_join:
  "to_ascii_lowercase (join_with ''/'' ns) = join_with ''/'' (map to_ascii_lowercase ns)"
  by (induction "''/''" ns rule: join_with.induct) (auto simp: to_ascii_lowercase_def)

lemma key_of_plain:
  assumes "plain_path p"
  shows "normalize_for_key fc p = ''/'' @ join_with ''/'' (names_key fc p)"
proof -
  obtain ns where p: "p = (True, ns)" and ns: "list_all plain_name ns"
    using assms by (cases p) (auto simp: plain_path_def)
  have "normalize_path p = p"
    using ns by (auto simp: p normalize_path_def foldl_norm_step_plain plain_name_def list_all_iff)
  moreover have "slash_separators (join_with ''/'' ns) = join_with ''/'' ns"
    using ns by (intro slash_join) (auto simp: plain_name_def list_all_iff)
  ultimately have "display_slash (show_path (normalize_path p)) = ''/'' @ join_with ''/'' ns"
    by (simp add: p display_slash_def show_path_def strip_prefix_def unwrap_or_def slash_separators_def)
  moreover have "to_ascii_lowercase (''/'' @ join_with ''/'' ns) = ''/'' @ join_with ''/'' (map to_ascii_lowercase ns)"
    by (simp add: lowercase_join del: append.simps) (simp add: to_ascii_lowercase_def)
  ultimately show ?thesis
    by (auto simp: p normalize_for_key_def names_key_def name_key_def[abs_def] Let_def)
qed

lemma names_key_no_slash:
  "plain_path p \<Longrightarrow> list_all (\<lambda>n. CHR ''/'' \<notin> set n \<and> n \<noteq> []) (names_key fc p)"
  by (simp add: plain_path_def plain_name_def names_key_def name_key_def list_all_iff)

text \<open>Being within a root, and being a root, as the text comparisons of the keys decide it.\<close>

lemma join_prefix_closed:
  assumes "ms \<noteq> []" "ns \<noteq> []"
    "list_all (\<lambda>n. CHR ''/'' \<notin> set n) ms" "list_all (\<lambda>n. CHR ''/'' \<notin> set n) ns"
  shows "join_with ''/'' ns = join_with ''/'' ms \<or> prefix (join_with ''/'' ms @ ''/'') (join_with ''/'' ns) \<longleftrightarrow>
    prefix ms ns"
proof -
  have "join_with ''/'' ns = join_with ''/'' ms \<or> prefix (join_with ''/'' ms @ ''/'') (join_with ''/'' ns) \<longleftrightarrow>
    prefix (join_with ''/'' ms @ ''/'') (join_with ''/'' ns @ ''/'')"
    by (auto simp: prefix_snoc)
  then show ?thesis using assms by (simp add: join_closed prefix_closed_names del: append.simps)
qed

abbreviation name_list :: "string list \<Rightarrow> bool" where
  "name_list ns \<equiv> list_all (\<lambda>n. CHR ''/'' \<notin> set n \<and> n \<noteq> []) ns"

lemma join_eq_Nil: "name_list ns \<Longrightarrow> join_with ''/'' ns = [] \<longleftrightarrow> ns = []"
  by (induction "''/''" ns rule: join_with.induct) auto

lemma join_last_slash:
  "name_list ns \<Longrightarrow> ns \<noteq> [] \<Longrightarrow> \<not> suffix ''/'' (join_with ''/'' ns)"
proof (induction ns)
  case (Cons n ns)
  show ?case
  proof (cases ns)
    case Nil
    then show ?thesis using Cons.prems(1) by (auto simp: suffix_def)
  next
    case (Cons m ms)
    then have "\<not> suffix ''/'' (join_with ''/'' ns)" and "join_with ''/'' ns \<noteq> []"
      using Cons.IH Cons.prems(1) join_eq_Nil [of ns] by auto
    then show ?thesis
      unfolding Cons by (auto simp: suffix_append suffix_Cons Cons_eq_append_conv)
  qed
qed simp

lemma join_inject:
  assumes "name_list ms" "name_list ns"
  shows "join_with ''/'' ms = join_with ''/'' ns \<longleftrightarrow> ms = ns"
proof (cases "ms = [] \<or> ns = []")
  case True then show ?thesis
    using join_eq_Nil [OF assms(1)] join_eq_Nil [OF assms(2)] by auto
next
  case False
  show ?thesis
  proof
    assume eq: "join_with ''/'' ms = join_with ''/'' ns"
    have "prefix ms ns" and "prefix ns ms"
      using join_prefix_closed [of ms ns] join_prefix_closed [of ns ms] False assms eq
      by (auto simp: list_all_iff)
    then show "ms = ns" by (rule prefix_order.antisym)
  qed simp
qed

lemma same_key_iff:
  assumes "plain_path p" "plain_path r"
  shows "normalize_for_key fc r = normalize_for_key fc p \<longleftrightarrow> names_key fc r = names_key fc p"
  using join_inject [of "names_key fc r" "names_key fc p"] assms
  by (simp add: key_of_plain names_key_no_slash)

lemma within_iff:
  assumes p: "plain_path p" and r: "plain_path r"
  shows "is_within fc p r \<longleftrightarrow> prefix (names_key fc r) (names_key fc p)"
proof -
  let ?m = "names_key fc r" and ?n = "names_key fc p"
  have names: "name_list ?m" "name_list ?n" using p r by (auto intro: names_key_no_slash)
  show ?thesis
  proof (cases "?m = [] \<or> ?n = []")
    case True
    then show ?thesis
      using names join_eq_Nil [of ?m] join_eq_Nil [of ?n]
      by (auto simp: is_within_def key_of_plain p r starts_with_def ends_with_def)
  next
    case False
    have "\<not> suffix ''/'' (join_with ''/'' ?m)"
      using False names by (simp add: join_last_slash)
    then have "is_within fc p r \<longleftrightarrow>
        join_with ''/'' ?n = join_with ''/'' ?m \<or> prefix (join_with ''/'' ?m @ ''/'') (join_with ''/'' ?n)"
      using False names join_eq_Nil [of ?m] by (auto simp: eq_commute [of "[]"] is_within_def key_of_plain p r starts_with_def ends_with_def suffix_Cons Let_def)
    then show ?thesis
      using join_prefix_closed [of ?m ?n] False names by (auto simp: list_all_iff)
  qed
qed

section \<open>Which moves are let through\<close>

lemma first_denial_None_iff: "first_denial f xs = None \<longleftrightarrow> (\<forall>x\<in>set xs. f x = None)"
  by (induction xs) (auto split: option.splits)

fun move_allowed :: "bool \<Rightarrow> cd_policy \<Rightarrow> upath list \<Rightarrow> cd_target \<Rightarrow> bool" where
  "move_allowed fc policy roots CdNoOp = True"
| "move_allowed fc policy roots Unresolvable = (policy = EscapeOnly)"
| "move_allowed fc policy roots (CdPath p) =
     list_ex (\<lambda>r. if policy = EscapeOnly then prefix (names_key fc r) (names_key fc p)
                   else names_key fc r = names_key fc p) roots"

lemma occurrence_denial_None_iff:
  assumes "policy \<noteq> CdOff" "list_all plain_path roots" "\<forall>p. co_target oc = CdPath p \<longrightarrow> plain_path p"
  shows "occurrence_denial fc policy roots why oc = None \<longleftrightarrow> move_allowed fc policy roots (co_target oc)"
  using assms
  by (cases policy; cases "co_target oc")
    (auto simp: occurrence_denial_def is_registered_root_def list_ex_iff list_all_iff within_iff same_key_iff)


definition demo_moves :: string where
  "demo_moves = ''cd src; (cd /etc); cd ../docs && cd -''"

definition demo_cwd :: upath where
  "demo_cwd = (True, [''work'', ''repo'', ''src''])"

definition demo_occurrences :: "cd_occurrence list" where
  "demo_occurrences =
     [\<lparr>co_raw = Some ''src'', co_target = CdPath (True, [''work'', ''repo'', ''src'', ''src''])\<rparr>,
      \<lparr>co_raw = Some ''../docs'', co_target = CdPath (True, [''work'', ''repo'', ''docs''])\<rparr>,
      \<lparr>co_raw = Some ''-'', co_target = Unresolvable\<rparr>]"


section \<open>Moves are resolved one by one\<close>

definition move_up :: "upath \<Rightarrow> cd_occurrence" where
  "move_up cwd = \<lparr>co_raw = Some ''..'', co_target = CdPath (resolve_against cwd ''..'')\<rparr>"

lemma resolve_parent: "resolve_cd_argument ''..'' cwd home = Inr (CdPath (resolve_against cwd ''..''))"
proof -
  have "unquote (trim ''..'') = ''..''" by code_simp
  moreover have "home_from h ''..'' home_tokens = Inr None" for h by code_simp
  moreover have "\<not> list_ex (list_contains [CHR ''$'', CHR ''%'', backtick]) ''..''" by code_simp
  ultimately show ?thesis
    by (simp add: resolve_cd_argument_def expand_home_prefix_def Let_def split: option.splits)
qed

lemma scan_moves_up:
  "scan_segments Posix cwd home (replicate k ''cd ..'') = Inr (replicate k (move_up cwd))"
proof -
  have step: "command_words ''cd ..'' = [''cd'', ''..'']" "nested_shell_command [''cd'', ''..''] Posix = None"
    "to_ascii_lowercase (program_name ''cd'') \<in> set (cd_builtins Posix)"
    "cd_argument Posix [''..''] = Some ''..''"
    by code_simp+
  show ?thesis
  proof (induction k)
    case (Suc k)
    then show ?case
      by (simp add: step resolve_parent move_up_def Let_def del: cd_builtins.simps cd_argument.simps)
  qed simp
qed

lemma session_moves_up:
  "scan_session_cd alnum ''cd ..'' Posix cwd home = Inr [move_up cwd]"
  "scan_session_cd alnum ''cd .. && cd ..'' Posix cwd home = Inr [move_up cwd, move_up cwd]"
proof -
  have "top_level_segments (strip_heredoc_bodies alnum ''cd ..'') Posix = replicate 1 ''cd ..''"
    "top_level_segments (strip_heredoc_bodies alnum ''cd .. && cd ..'') Posix = replicate 2 ''cd ..''"
    by code_simp+
  then show "scan_session_cd alnum ''cd ..'' Posix cwd home = Inr [move_up cwd]"
    "scan_session_cd alnum ''cd .. && cd ..'' Posix cwd home = Inr [move_up cwd, move_up cwd]"
    unfolding scan_session_cd_def by (simp_all only: scan_moves_up) (simp_all add: numeral_2_eq_2)
qed

lemma resolve_parent_plain:
  assumes "list_all plain_name (ns @ [n])"
  shows "resolve_against (True, ns @ [n]) ''..'' = (True, ns)"
proof -
  have "parse_path ''..'' = (False, [''..''])" by code_simp
  moreover have "''..'' \<notin> set (ns @ [n])" using assms by (auto simp: list_all_iff plain_name_def)
  ultimately show ?thesis
    by (auto simp: resolve_against_def path_join_def lexically_normalize_def foldl_pop_or_push_plain
        pop_or_push_def)
qed

text \<open>
  Every move of a command is resolved against the directory in which the command starts. One level below
  a registered root, going up twice is let through under both policies, although it ends in the parent of the
  root: the second move on its own, from the root, is refused.
\<close>

theorem two_moves_leave_the_root:
  assumes "list_all plain_name (ns @ [m, n])" "policy \<noteq> CdOff"
  shows "cd_denial_reason fc alnum ''cd .. && cd ..'' Posix policy (True, ns @ [m, n]) [(True, ns @ [m])] home why =
      Inr None \<and>
    resolve_against (resolve_against (True, ns @ [m, n]) ''..'') ''..'' = (True, ns) \<and>
    \<not> is_within fc (True, ns) (True, ns @ [m]) \<and>
    cd_denial_reason fc alnum ''cd ..'' Posix policy (True, ns @ [m]) [(True, ns @ [m])] home why \<noteq> Inr None"
proof -
  have up: "resolve_against (True, ns @ [m, n]) ''..'' = (True, ns @ [m])"
    "resolve_against (True, ns @ [m]) ''..'' = (True, ns)"
    using resolve_parent_plain [of "ns @ [m]" n] resolve_parent_plain [of ns m] assms by auto
  have plain: "plain_path (True, ns)" "plain_path (True, ns @ [m])"
    using assms by (auto simp: plain_path_def)
  have out: "\<not> is_within fc (True, ns) (True, ns @ [m])"
    using plain by (simp add: within_iff names_key_def)
  have "occurrence_denial fc policy [(True, ns @ [m])] why (move_up (True, ns @ [m, n])) = None"
    using plain assms(2) by (simp add: occurrence_denial_None_iff move_up_def up)
  moreover have "occurrence_denial fc policy [(True, ns @ [m])] why (move_up (True, ns @ [m])) \<noteq> None"
    using plain assms(2) by (simp add: occurrence_denial_None_iff move_up_def up names_key_def)
  ultimately show ?thesis
    using assms(2) out by (auto simp: up cd_denial_reason_def session_moves_up)
qed

theorem two_moves_leave_the_root_witness:
  "cd_denial_reason False (\<lambda>_. False) ''cd .. && cd ..'' Posix Strict (True, [''work'', ''repo'', ''src''])
     [(True, [''work'', ''repo''])] None None = Inr None"
  using two_moves_leave_the_root [of "[''work'']" "''repo''" "''src''" Strict False "\<lambda>_. False" None None]
  by (simp add: plain_name_def)

text \<open>The test that comes first looks for the builtin in the text, where the words of the shell are not seen yet.\<close>

lemma quoted_builtin_is_missed:
  assumes "hook_dialect E p = Posix" "hp_command p = ''c'' @ dquote # ''d'' @ dquote # '' /tmp''"
  shows "block_cd_denial E p config = Inr None"
proof -
  have "\<not> command_may_change_directory (''c'' @ dquote # ''d'' @ dquote # '' /tmp'') Posix" by code_simp
  then show ?thesis using assms by (simp add: block_cd_denial_def)
qed

lemma quoted_builtin_moves:
  "scan_session_cd alnum (''c'' @ dquote # ''d'' @ dquote # '' /tmp'') Posix cwd None =
     Inr [\<lparr>co_raw = Some ''/tmp'', co_target = CdPath (True, [''tmp''])\<rparr>]"
proof -
  have "top_level_segments (strip_heredoc_bodies alnum (''c'' @ dquote # ''d'' @ dquote # '' /tmp'')) Posix =
      [''c'' @ dquote # ''d'' @ dquote # '' /tmp'']"
    by code_simp
  moreover have "scan_segments Posix cwd None [''c'' @ dquote # ''d'' @ dquote # '' /tmp''] =
      Inr [\<lparr>co_raw = Some ''/tmp'', co_target = CdPath (True, [''tmp''])\<rparr>]"
    by code_simp
  ultimately show ?thesis by (simp add: scan_session_cd_def)
qed

section \<open>A target beyond ASCII\<close>

lemma home_from_panics:
  "is_cont x \<Longrightarrow> home_from h (c # x # s) home_tokens = Inl ()"
  by (simp add: home_tokens_def is_char_boundary_def eq_ignore_ascii_case_def to_ascii_lowercase_def)

lemma scan_panics:
  assumes "seg \<in> set segs" "command_words seg = w # ws"
    "to_ascii_lowercase (program_name w) \<in> set (cd_builtins d)" "nested_shell_command (w # ws) d = None"
    "cd_argument d ws = Some a" "resolve_cd_argument a cwd home = Inl ()"
  shows "scan_segments d cwd home segs = Inl ()"
  using assms(1)
proof (induction segs)
  case (Cons t segs)
  show ?case
  proof (cases "t = seg")
    case True then show ?thesis using assms by simp
  next
    case False
    then have "scan_segments d cwd home segs = Inl ()" using Cons by simp
    then show ?thesis
      by (auto simp: Let_def rbind_def split: list.splits sum.splits option.splits)
  qed
qed simp

text \<open>
  When the home directory is known, a command that moves the session to a target whose first scalar is
  beyond ASCII is not decided: the comparison with \<^verbatim>\<open>~\<close> cuts the text after its first byte, and the hook
  panics instead of answering, whatever the policy in force and the other moves of the command are.
\<close>

theorem unicode_target_panics:
  assumes "home = Some h" "policy \<noteq> CdOff" "roots \<noteq> []"
    and "seg \<in> set (top_level_segments (strip_heredoc_bodies alnum text) d)"
    and "command_words seg = w # ws"
    and "to_ascii_lowercase (program_name w) \<in> set (cd_builtins d)" "nested_shell_command (w # ws) d = None"
    and "cd_argument d ws = Some a" "unquote (trim a) = c # x # s" "is_cont x"
  shows "cd_denial_reason fc alnum text d policy cwd roots home why = Inl ()"
proof -
  have "c # x # s \<noteq> ''-''" by simp
  then have "resolve_cd_argument a cwd home = Inl ()"
    using assms by (simp add: resolve_cd_argument_def expand_home_prefix_def home_from_panics Let_def)
  then have "scan_session_cd alnum text d cwd home = Inl ()"
    unfolding scan_session_cd_def by (rule scan_panics [OF assms(4-8)])
  then show ?thesis using assms by (simp add: cd_denial_reason_def)
qed

theorem unicode_target_panics_witness:
  "cd_denial_reason False (\<lambda>_. False) (''make; cd '' @ [CHR 0xC3, CHR 0xA9] @ ''tudes'') Posix EscapeOnly
     (True, [''work'']) [(True, [''work''])] (Some ''/home/u'') None = Inl ()"
  by (rule unicode_target_panics [where seg = "''cd '' @ [CHR 0xC3, CHR 0xA9] @ ''tudes''" and w = "''cd''"
        and ws = "[[CHR 0xC3, CHR 0xA9] @ ''tudes'']" and a = "[CHR 0xC3, CHR 0xA9] @ ''tudes''"
        and c = "CHR 0xC3" and x = "CHR 0xA9" and s = "''tudes''" and h = "''/home/u''"])
    code_simp+

section \<open>The policy follows the hooks\<close>

definition configured_commands ::
    "'v json_api \<Rightarrow> ('v \<Rightarrow> (string \<times> 'v) list option) \<Rightarrow> (upath \<Rightarrow> 'v option) \<Rightarrow>
      upath \<Rightarrow> upath option \<Rightarrow> (upath \<times> string) list" where
  "configured_commands J entries read_json repo_root home =
     concat (map (\<lambda>path. case read_json path of
          None \<Rightarrow> [] | Some json \<Rightarrow> map (Pair path) (hook_commands J entries json))
       (hook_files repo_root home))"

lemma fold_scan_command:
  "hs_any_hooks (fold (scan_command path) cs scan) \<longleftrightarrow> hs_any_hooks scan \<or> cs \<noteq> []"
  "hs_sensitive (fold (scan_command path) cs scan) =
     hs_sensitive scan @ map (sensitive_hook.make path) (filter is_cwd_sensitive_hook_command cs)"
  by (induction cs arbitrary: scan) (auto simp: scan_command_def Let_def sensitive_hook.make_def)

lemma fold_scan_files:
  fixes J :: "'v json_api" and entries read_json
  defines "scan_file \<equiv> \<lambda>path scan. case read_json path of
      None \<Rightarrow> scan | Some json \<Rightarrow> fold (scan_command path) (hook_commands J entries json) scan"
    and "commands \<equiv> \<lambda>path. case read_json path of
      None \<Rightarrow> [] | Some json \<Rightarrow> map (Pair path) (hook_commands J entries json)"
  shows "hs_any_hooks (fold scan_file paths scan) \<longleftrightarrow> hs_any_hooks scan \<or> concat (map commands paths) \<noteq> []"
    "hs_sensitive (fold scan_file paths scan) = hs_sensitive scan @
       map (\<lambda>(path, c). sensitive_hook.make path c)
         (filter (\<lambda>(path, c). is_cwd_sensitive_hook_command c) (concat (map commands paths)))"
  by (induction paths arbitrary: scan)
    (auto simp: scan_file_def commands_def fold_scan_command filter_map comp_def split: option.split)

text \<open>
  Under the automatic setting the policy of a repository follows the hook commands configured in its files
  and in those of the user: strict when one of them depends on the directory it inherits, lenient when there are
  commands and none does, off when there is none.
\<close>

theorem automatic_policy_follows_hooks:
  "resolve_policy Auto True (scan_hook_cwd_sensitivity J entries read_json repo_root home) =
     (let cs = map snd (configured_commands J entries read_json repo_root home)
      in if cs = [] then CdOff else if list_ex is_cwd_sensitive_hook_command cs then Strict else EscapeOnly)"
proof -
  let ?cs = "configured_commands J entries read_json repo_root home"
  let ?scan = "scan_hook_cwd_sensitivity J entries read_json repo_root home"
  have any: "hs_any_hooks ?scan \<longleftrightarrow> ?cs \<noteq> []"
    and sensitive: "hs_sensitive ?scan = map (\<lambda>(path, c). sensitive_hook.make path c)
      (filter (\<lambda>(path, c). is_cwd_sensitive_hook_command c) ?cs)"
    unfolding scan_hook_cwd_sensitivity_def configured_commands_def
    by (simp_all only: fold_scan_files) (simp_all add: no_hooks_def)
  have "filter (\<lambda>(path, c). is_cwd_sensitive_hook_command c) ?cs = [] \<longleftrightarrow>
      \<not> list_ex is_cwd_sensitive_hook_command (map snd ?cs)"
    by (force simp: filter_empty_conv list_ex_iff)
  then show ?thesis by (simp add: resolve_policy_def any sensitive Let_def)
qed

section \<open>Rewritten commands\<close>

text \<open>The guard itself never rewrites.\<close>

definition keeps_rewritten :: "step \<Rightarrow> bool" where
  "keeps_rewritten f \<longleftrightarrow> (\<forall>ev. ev_rewritten (f ev) = ev_rewritten ev)"

lemma keeps_rewrittenD: "keeps_rewritten f \<Longrightarrow> ev_rewritten (f ev) = ev_rewritten ev"
  by (simp add: keeps_rewritten_def)

lemma log_all_keeps [simp]: "ev_rewritten (log_all ls ev) = ev_rewritten ev"
  by (simp add: log_all_def)

lemma deny_keeps [simp]: "ev_rewritten (deny r ev) = ev_rewritten ev"
  by (simp add: deny_def)

lemma log_deny_keeps [simp]: "ev_rewritten (log_deny v ev) = ev_rewritten ev"
  by (simp add: log_deny_def Let_def split: option.split)

lemma steps_keep: "list_all keeps_rewritten fs \<Longrightarrow> keeps_rewritten (run_steps fs)"
proof (induction fs)
  case (Cons f fs)
  then show ?case by (simp add: keeps_rewritten_def Let_def)
qed (simp add: keeps_rewritten_def)

lemma basic_steps_keep:
  "keeps_rewritten (evaluate_pipeline_rules g d t)" "keeps_rewritten (pr_wait_step g d t)"
  "keeps_rewritten (capture_step g ws)" "keeps_rewritten (log_deny v)"
  "keeps_rewritten (evaluate_structured_rules g ws)" "keeps_rewritten (legacy_step g ws)"
  "keeps_rewritten (hybrid_step g ws)" "keeps_rewritten (deny r)" "keeps_rewritten (\<lambda>ev. ev)"
  by (simp_all add: keeps_rewritten_def evaluate_pipeline_rules_def pr_wait_step_def capture_step_def
      evaluate_structured_rules_def legacy_step_def hybrid_step_def Let_def
      split: option.split prod.split)

lemma uv_step_keeps: "keeps_rewritten (uv_step g ws)"
  unfolding uv_step_def
  by (rule steps_keep) (simp add: basic_steps_keep, simp add: keeps_rewritten_def split: option.split)

lemma evaluate_words_keeps: "keeps_rewritten (evaluate_words g ws)"
proof -
  have "keeps_rewritten (tool_step g ws)"
    by (simp add: tool_step_def Let_def uv_step_keeps basic_steps_keep)
  then show ?thesis
    unfolding evaluate_words_def by (intro steps_keep) (simp add: basic_steps_keep)
qed

lemma evaluate_within_keeps: "keeps_rewritten (evaluate_within g n d t)"
proof (induction n arbitrary: d t)
  case 0 then show ?case by (simp add: keeps_rewritten_def)
next
  case (Suc n)
  have seg: "keeps_rewritten (evaluate_segment g (evaluate_within g n) d s)" for s
    by (auto simp: evaluate_segment_def Let_def evaluate_words_keeps basic_steps_keep Suc split: option.split)
  have "keeps_rewritten (run_steps
      (map (evaluate_within g n d) (scan_command_substitutions t) @
       [evaluate_pipeline_rules g d t, pr_wait_step g d t] @
       map (evaluate_segment g (evaluate_within g n) d) (split_shell_segments d t)))" for t
    by (rule steps_keep) (auto simp: list_all_iff seg Suc basic_steps_keep)
  then show ?case by (simp add: keeps_rewritten_def Let_def)
qed

lemma rewritten_evaluation:
  assumes "ev_reason (evaluate_command_with_policy g d c) = None"
    "ev_rewritten (evaluate_command_with_policy g d c) = Some rw"
  shows "d = Posix \<and> resolve_posix_rm_variable_expansions (g_alnum g) c = Rewritten rw \<and>
    ev_reason (evaluate_command_into g d c new_evaluation) = None \<and>
    ev_reason (evaluate_command_into g d rw new_evaluation) = None"
proof -
  have "ev_rewritten (evaluate_command_into g d t new_evaluation) = None" for t
    using keeps_rewrittenD [OF evaluate_within_keeps]
    by (simp add: evaluate_command_into_def new_evaluation_def del: evaluate_within.simps)
  then show ?thesis
    using assms
    by (auto simp: evaluate_command_with_policy_def Let_def log_all_def deny_def
        split: if_splits rm_resolution.splits)
qed

text \<open>
  C27. When the hook answers with a changed input, the change is the resolution of the removals of a POSIX
  command into the field \<^verbatim>\<open>command\<close> of the input it was given: neither the command it was asked about nor
  the one it hands back is refused by the guard, and no move of the session was refused.
\<close>

theorem rewritten_answer_is_checked:
  assumes "decide E p = HookAllowed (Some v) caps"
  shows "\<exists>input rw. hp_tool_input p = Some input \<and> get_str (he_json E) input ''command'' \<noteq> None \<and>
    v = he_set_str E input ''command'' rw \<and> hook_dialect E p = Posix \<and>
    resolve_posix_rm_variable_expansions (he_alnum E) (hp_command p) = Rewritten rw \<and>
    (let config = unwrap_or (he_config E (hp_cwd p)) default_clud_config; g = hook_guard E p config
     in ev_reason (evaluate_command_into g Posix (hp_command p) new_evaluation) = None \<and>
        ev_reason (evaluate_command_into g Posix rw new_evaluation) = None \<and>
        block_cd_denial E p config = Inr None)"
proof -
  let ?config = "unwrap_or (he_config E (hp_cwd p)) default_clud_config"
  let ?g = "hook_guard E p ?config"
  let ?ev = "evaluate_command_with_policy ?g (hook_dialect E p) (hp_command p)"
  obtain rw where reason: "ev_reason ?ev = None" and rw: "ev_rewritten ?ev = Some rw"
    and cd: "block_cd_denial E p ?config = Inr None" and allow: "allow_rewritten E p rw (ev_captures ?ev) =
      HookAllowed (Some v) caps"
    using assms by (auto simp: decide_def Let_def split: option.splits sum.splits)
  have "g_alnum ?g = he_alnum E" by (simp add: hook_guard_def)
  then show ?thesis
    using rewritten_evaluation [OF reason rw] cd allow
    by (auto simp: allow_rewritten_def Let_def split: option.splits if_splits)
qed

definition demo_env :: "json_value hook_env" where
  "demo_env =
     \<lparr>he_json = demo_json [], he_entries = (\<lambda>v. case v of JObj kvs \<Rightarrow> Some kvs | _ \<Rightarrow> None),
      he_set_str = (\<lambda>v k s. case v of JObj kvs \<Rightarrow> JObj ((k, JStr s) # kvs) | _ \<Rightarrow> v),
      he_to_string = (\<lambda>_. []), he_process_cwd = ''/work'', he_config = (\<lambda>_. None), he_uv_allow_all = None,
      he_main_repo_root = (\<lambda>_. None), he_pr_wait = None, he_override = None, he_hybrid_root = (\<lambda>_. None),
      he_windows = False, he_fold_case = False, he_regex = (\<lambda>_. None), he_alnum = (\<lambda>_. False),
      he_home = None, he_has_git = (\<lambda>_. False), he_read_json = (\<lambda>_. None)\<rparr>"

definition demo_input :: "string \<Rightarrow> json_value" where
  "demo_input c = JObj [(''command'', JStr c)]"

definition demo_payload :: "string \<Rightarrow> json_value hook_payload" where
  "demo_payload c =
     \<lparr>hp_tool_name = ''Bash'', hp_command = c, hp_cwd = ''/work'', hp_tool_input = Some (demo_input c)\<rparr>"

definition demo_rm :: string where
  "demo_rm = ''A=/srv/a; rm -rf $A/c''"

definition demo_rm_rewritten :: string where
  "demo_rm_rewritten = ''A=/srv/a; rm -rf '' @ squote # ''/srv/a'' @ squote # ''/c''"

theorem rewritten_answer_is_checked_witness:
  "\<exists>input rw. demo_input demo_rm = input \<and>
     JObj [(''command'', JStr demo_rm_rewritten), (''command'', JStr demo_rm)] =
       he_set_str demo_env input ''command'' rw \<and>
     resolve_posix_rm_variable_expansions (\<lambda>_. False) demo_rm = Rewritten rw"
proof -
  have "decide demo_env (demo_payload demo_rm) =
      HookAllowed (Some (JObj [(''command'', JStr demo_rm_rewritten), (''command'', JStr demo_rm)])) []"
    by code_simp
  from rewritten_answer_is_checked [OF this] show ?thesis
    by (auto simp: demo_payload_def demo_env_def)
qed

end
