(* ===== verification/Request_Translation.thy ===== *)
theory Request_Translation
  imports Codex_Model
begin

text \<open>
  \<^verbatim>\<open>codex_translate.rs\<close>: an Anthropic Messages request becomes an OpenAI Responses request. The decoded request
  is the argument (decoding is derived code); JSON values, SHA-256 and base64 are fields of \<open>translate_env\<close>,
  and a JSON object is read and built as the list of its entries.
\<close>

section \<open>The Messages request\<close>

datatype image_source = Base64 string string | UrlSource string | OtherSource

datatype 'v content_block =
    TextContent string
  | ImageContent image_source
  | ToolUseContent string string 'v
  | ToolResultContent string "'v tool_result_content option" bool
  | ThinkingContent "string option"
  | RedactedThinkingContent
  | OtherContent
and 'v tool_result_content = ResultText string | ResultBlocks "'v content_block list"

datatype 'v message_content = ContentText string | ContentBlocks "'v content_block list"

record 'v request_message =
  m_role :: string
  m_content :: "'v message_content"

record system_block =
  sb_kind :: string
  sb_text :: "string option"

datatype system_prompt = SystemText string | SystemBlocks "system_block list"

record 'v tool_definition =
  td_name :: string
  td_description :: "string option"
  td_input_schema :: "'v option"

record tool_choice =
  tc_kind :: string
  tc_name :: "string option"
  tc_disable_parallel :: bool

record thinking =
  th_kind :: string
  th_budget :: "int option"

text \<open>\<^verbatim>\<open>output_config\<close> is read for its effort only.\<close>

record 'v messages_request =
  mr_model :: "string option"
  mr_messages :: "'v request_message list"
  mr_system :: "system_prompt option"
  mr_tools :: "'v tool_definition list option"
  mr_tool_choice :: "tool_choice option"
  mr_stream :: bool
  mr_thinking :: "thinking option"
  mr_output_config :: "string option option"

section \<open>The Responses request\<close>

datatype content_part = InputText string | InputImage string | OutputText string

datatype function_output = OutputPlain string | OutputParts "content_part list"

datatype 'v input_item =
    MessageItem string "content_part list"
  | FunctionCall string string string
  | FunctionCallOutput string function_output
  | ReasoningItem "'v list" string
  | CompactionItem string "(string \<times> 'v) list"

record 'v responses_tool =
  rt_kind :: string
  rt_name :: string
  rt_description :: "string option"
  rt_parameters :: 'v
  rt_strict :: bool

datatype responses_tool_choice = ChoiceMode string | ChoiceFunction string string

record 'v responses_request =
  rr_model :: string
  rr_input :: "'v input_item list"
  rr_stream :: bool
  rr_store :: bool
  rr_include :: "string list"
  rr_instructions :: "string option"
  rr_tools :: "'v responses_tool list option"
  rr_tool_choice :: "responses_tool_choice option"
  rr_parallel_tool_calls :: "bool option"
  rr_reasoning :: "string option"
  rr_prompt_cache_key :: "string option"
  rr_service_tier :: "string option"

record 'v translated =
  t_request :: "'v responses_request"
  t_tool_names :: "string \<rightharpoonup> string"

datatype system_placement = Instructions | DeveloperMessage

record translate_options =
  to_model :: model_spec
  to_placement :: system_placement
  to_cache_key :: "string option"
  to_service_tier :: "string option"

datatype translate_error = Invalid string

record 'v translate_env =
  te_sha :: "string \<Rightarrow> string"
  te_base64 :: "string \<Rightarrow> string option"
  te_base64_no_pad :: "string \<Rightarrow> string option"
  te_to_string :: "'v \<Rightarrow> string option"
  te_entries :: "'v \<Rightarrow> (string \<times> 'v) list option"
  te_as_str :: "'v \<Rightarrow> string option"
  te_string :: "string \<Rightarrow> 'v"
  te_object :: "(string \<times> 'v) list \<Rightarrow> 'v"

section \<open>Identifiers\<close>

definition max_identifier_len :: nat where
  "max_identifier_len = 64"

text \<open>The last scalar boundary at or before an offset.\<close>

fun floor_boundary :: "string \<Rightarrow> nat \<Rightarrow> nat" where
  "floor_boundary s 0 = 0"
| "floor_boundary s (Suc n) = (if is_char_boundary s (Suc n) then Suc n else floor_boundary s n)"

definition identifier_suffix :: "(string \<Rightarrow> string) \<Rightarrow> string \<Rightarrow> string" where
  "identifier_suffix sha i = concat (map hex_byte (take 4 (sha i)))"

definition shorten_identifier :: "(string \<Rightarrow> string) \<Rightarrow> string \<Rightarrow> string" where
  "shorten_identifier sha i =
     (if length i \<le> max_identifier_len then i
      else
        let suffix = identifier_suffix sha i;
            keep = max_identifier_len - length suffix - 1
        in take (floor_boundary i (min keep (length i))) i @ ''_'' @ suffix)"

section \<open>Reasoning\<close>

definition base64_decode_urlsafe :: "'v translate_env \<Rightarrow> string \<Rightarrow> string option" where
  "base64_decode_urlsafe E value = or_else (te_base64 E value) (te_base64_no_pad E value)"

definition is_gpt_reasoning_signature :: "'v translate_env \<Rightarrow> string \<Rightarrow> bool" where
  "is_gpt_reasoning_signature E signature \<longleftrightarrow>
     starts_with signature ''gAAAA'' \<and> trim signature = signature \<and>
     (case base64_decode_urlsafe E signature of
        None \<Rightarrow> False
      | Some decoded \<Rightarrow>
          length decoded \<ge> 73 \<and> hd decoded = CHR 0x80 \<and> (length decoded - (1 + 8 + 16 + 32)) mod 16 = 0)"

definition effort_for_budget :: "int \<Rightarrow> effort_level option" where
  "effort_for_budget budget =
     (if budget \<le> -1 then None
      else if budget = 0 then Some NoEffort
      else if budget \<le> 1024 then Some Low
      else if budget \<le> 8192 then Some Medium
      else if budget \<le> 24576 then Some High
      else if budget \<le> 49152 then Some XHigh
      else Some Max)"

definition effort_from_thinking :: "thinking option \<Rightarrow> effort_level option" where
  "effort_from_thinking t =
     Option.bind t (\<lambda>t. if th_kind t = ''disabled'' then Some NoEffort
                        else effort_for_budget (unwrap_or (th_budget t) (-1)))"

definition stated_text :: "string option \<Rightarrow> string option" where
  "stated_text x = Option.bind x (\<lambda>v. if trim v = [] then None else Some (trim v))"

definition effort_for :: "'v messages_request \<Rightarrow> model_spec \<Rightarrow> (translate_error, effort_level) result" where
  "effort_for request spec =
     (case spec_effort spec of
        Some e \<Rightarrow> Inr e
      | None \<Rightarrow>
          (case stated_text (Option.bind (mr_output_config request) id) of
             Some v \<Rightarrow> ok_or (parse_effort v) (Invalid (spec_error_text (UnknownEffort v)))
           | None \<Rightarrow> Inr (unwrap_or (effort_from_thinking (mr_thinking request)) (effective_effort spec))))"

section \<open>Parts of a request\<close>

definition resolve_selection :: "string option \<Rightarrow> model_spec \<Rightarrow> (translate_error, model_spec) result" where
  "resolve_selection requested fallback =
     (case stated_text requested of
        None \<Rightarrow> Inr fallback
      | Some model \<Rightarrow>
          if starts_with (to_ascii_lowercase model) ''claude'' then Inr fallback
          else (case parse_spec model of Inl e \<Rightarrow> Inl (Invalid (spec_error_text e)) | Inr spec \<Rightarrow> Inr spec))"

definition claude_attribution_prefix :: string where
  "claude_attribution_prefix = ''x-anthropic-billing-header:''"

definition is_attribution :: "string \<Rightarrow> bool" where
  "is_attribution s \<longleftrightarrow> starts_with (trim_start s) claude_attribution_prefix"

definition instruction :: "string \<Rightarrow> string list" where
  "instruction s = (if s \<noteq> [] \<and> \<not> is_attribution s then [s] else [])"

definition system_text :: "system_prompt \<Rightarrow> string" where
  "system_text system =
     join_with [CHR 0x0A, CHR 0x0A]
       (case system of
          SystemText s \<Rightarrow> instruction s
        | SystemBlocks blocks \<Rightarrow>
            concat (map (\<lambda>b. if sb_kind b \<noteq> ''text'' then []
                             else case sb_text b of None \<Rightarrow> [] | Some s \<Rightarrow> instruction s) blocks))"

fun image_url :: "image_source \<Rightarrow> string option" where
  "image_url (Base64 media_type data) = Some (''data:'' @ media_type @ '';base64,'' @ data)"
| "image_url (UrlSource url) = Some url"
| "image_url OtherSource = None"

definition image_parts :: "image_source \<Rightarrow> content_part list" where
  "image_parts source = (case image_url source of None \<Rightarrow> [] | Some url \<Rightarrow> [InputImage url])"

definition tool_result_output :: "'v tool_result_content option \<Rightarrow> bool \<Rightarrow> function_output" where
  "tool_result_output content is_error =
     (let pre = (if is_error then ''ERROR: '' else [])
      in case content of
           None \<Rightarrow> OutputPlain (trim_end pre)
         | Some (ResultText s) \<Rightarrow> OutputPlain (pre @ s)
         | Some (ResultBlocks blocks) \<Rightarrow>
             let parts = concat (map (\<lambda>b. case b of
                   TextContent s \<Rightarrow> [InputText (pre @ s)]
                 | ImageContent source \<Rightarrow> image_parts source
                 | _ \<Rightarrow> []) blocks)
             in if parts = [] then OutputPlain [] else OutputParts parts)"

definition push_message :: "'v input_item list \<Rightarrow> string \<Rightarrow> content_part list \<Rightarrow> 'v input_item list" where
  "push_message items role parts = (if parts = [] then items else items @ [MessageItem role parts])"

text \<open>The role a message is sent in, and whether its texts are wrapped as reminders.\<close>

definition message_role :: "string \<Rightarrow> string \<times> bool" where
  "message_role role =
     (if role = ''assistant'' then (''assistant'', False)
      else if role = ''user'' then (''user'', False) else (''user'', True))"

definition text_part :: "string \<times> bool \<Rightarrow> string \<Rightarrow> content_part" where
  "text_part role s =
     (let s = (if snd role then ''<system-reminder>'' @ s @ ''</system-reminder>'' else s)
      in if fst role = ''assistant'' then OutputText s else InputText s)"

text \<open>The items so far and the parts of the message under construction.\<close>

fun translate_block ::
    "'v translate_env \<Rightarrow> string \<times> bool \<Rightarrow> 'v content_block \<Rightarrow>
      'v input_item list \<times> content_part list \<Rightarrow> 'v input_item list \<times> content_part list" where
  "translate_block E role (TextContent s) (items, parts) = (items, parts @ [text_part role s])"
| "translate_block E role (ImageContent source) (items, parts) = (items, parts @ image_parts source)"
| "translate_block E role (ToolUseContent i name input) (items, parts) =
     (push_message items (fst role) parts @
       [FunctionCall (shorten_identifier (te_sha E) i) (shorten_identifier (te_sha E) name)
         (unwrap_or (te_to_string E input) ''{}'')], [])"
| "translate_block E role (ToolResultContent i content is_error) (items, parts) =
     (push_message items (fst role) parts @
       [FunctionCallOutput (shorten_identifier (te_sha E) i) (tool_result_output content is_error)], [])"
| "translate_block E role (ThinkingContent signature) (items, parts) =
     (case signature of
        None \<Rightarrow> (items, parts)
      | Some s \<Rightarrow>
          if is_gpt_reasoning_signature E s
          then (push_message items (fst role) parts @ [ReasoningItem [] s], [])
          else (items, parts))"
| "translate_block E role RedactedThinkingContent (items, parts) = (items, parts)"
| "translate_block E role OtherContent (items, parts) = (items, parts)"

definition translate_message ::
    "'v translate_env \<Rightarrow> 'v request_message \<Rightarrow> 'v input_item list \<Rightarrow> 'v input_item list" where
  "translate_message E m items =
     (let role = message_role (m_role m)
      in case m_content m of
           ContentText s \<Rightarrow> push_message items (fst role) [text_part role s]
         | ContentBlocks blocks \<Rightarrow>
             let (items, parts) = fold (translate_block E role) blocks (items, [])
             in push_message items (fst role) parts)"

text \<open>Entries of a schema; \<^verbatim>\<open>or_insert\<close> keeps an entry that is there.\<close>

definition or_insert :: "string \<Rightarrow> 'v \<Rightarrow> (string \<times> 'v) list \<Rightarrow> (string \<times> 'v) list" where
  "or_insert k v kvs = (if map_of kvs k = None then kvs @ [(k, v)] else kvs)"

definition stripped_keys :: "string list" where
  "stripped_keys = [''$schema'', ''cache_control'', ''defer_loading'']"

definition normalize_tool_parameters :: "'v translate_env \<Rightarrow> 'v option \<Rightarrow> 'v" where
  "normalize_tool_parameters E schema =
     (case Option.bind schema (te_entries E) of
        None \<Rightarrow> te_object E [(''type'', te_string E ''object''), (''properties'', te_object E [])]
      | Some kvs \<Rightarrow>
          let kvs = filter (\<lambda>(k, _). k \<notin> set stripped_keys) kvs;
              kvs = or_insert ''type'' (te_string E ''object'') kvs
          in te_object E
               (if Option.bind (map_of kvs ''type'') (te_as_str E) = Some ''object''
                then or_insert ''properties'' (te_object E []) kvs else kvs))"

definition translate_tool_choice ::
    "'v translate_env \<Rightarrow> tool_choice \<Rightarrow> (string \<rightharpoonup> string) \<Rightarrow> responses_tool_choice option \<times> bool option" where
  "translate_tool_choice E choice names =
     (Some
        (if tc_kind choice = ''any'' then ChoiceMode ''required''
         else if tc_kind choice = ''none'' then ChoiceMode ''none''
         else if tc_kind choice = ''tool'' then
           (case tc_name choice of
              Some name \<Rightarrow>
                let short = shorten_identifier (te_sha E) name
                in ChoiceFunction ''function'' (unwrap_or (map_option (\<lambda>_. short) (names short)) short)
            | None \<Rightarrow> ChoiceMode ''auto'')
         else ChoiceMode ''auto''),
      Some (\<not> tc_disable_parallel choice))"

definition translate_tool :: "'v translate_env \<Rightarrow> 'v tool_definition \<Rightarrow> 'v responses_tool" where
  "translate_tool E d =
     \<lparr>rt_kind = ''function'', rt_name = shorten_identifier (te_sha E) (td_name d),
      rt_description = td_description d, rt_parameters = normalize_tool_parameters E (td_input_schema d),
      rt_strict = False\<rparr>"

definition record_name :: "'v translate_env \<Rightarrow> 'v tool_definition \<Rightarrow> (string \<rightharpoonup> string) \<Rightarrow> (string \<rightharpoonup> string)" where
  "record_name E d names =
     (let short = shorten_identifier (te_sha E) (td_name d)
      in if short \<noteq> td_name d then names(short \<mapsto> td_name d) else names)"

section \<open>The request\<close>

definition system_items :: "system_placement \<Rightarrow> string \<Rightarrow> 'v input_item list" where
  "system_items placement s =
     (if s \<noteq> [] \<and> placement = DeveloperMessage then [MessageItem ''developer'' [InputText s]] else [])"

definition translate_request ::
    "'v translate_env \<Rightarrow> 'v messages_request \<Rightarrow> translate_options \<Rightarrow> (translate_error, 'v translated) result" where
  "translate_request E request options =
     (if mr_messages request = [] then Inl (Invalid ''messages must not be empty'')
      else
        let system = unwrap_or (map_option system_text (mr_system request)) [];
            instructions = (if system = [] \<or> to_placement options = DeveloperMessage then None else Some system);
            input = fold (translate_message E) (mr_messages request) (system_items (to_placement options) system);
            names = fold (record_name E) (unwrap_or (mr_tools request) []) Map.empty;
            tools = map_option (map (translate_tool E)) (mr_tools request);
            (choice, parallel) =
              (case mr_tool_choice request of
                 Some choice \<Rightarrow> translate_tool_choice E choice names | None \<Rightarrow> (None, Some True));
            choice = (if tools = None then None else choice)
        in rbind (resolve_selection (mr_model request) (to_model options))
             (\<lambda>selection. rbind (effort_for request selection)
               (\<lambda>effort. Inr
                 \<lparr>t_request =
                    \<lparr>rr_model = spec_model selection, rr_input = input, rr_stream = True, rr_store = False,
                     rr_include = [''reasoning.encrypted_content''], rr_instructions = instructions,
                     rr_tools = tools, rr_tool_choice = choice, rr_parallel_tool_calls = parallel,
                     rr_reasoning = Some (effort_name effort), rr_prompt_cache_key = to_cache_key options,
                     rr_service_tier = to_service_tier options\<rparr>,
                  t_tool_names = names\<rparr>)))"

text \<open>\<open>decode\<close> is the derived deserialiser, its failure a text.\<close>

definition decode_request ::
    "(string \<Rightarrow> (string, 'v messages_request) result) \<Rightarrow> string \<Rightarrow>
      (translate_error, 'v messages_request) result" where
  "decode_request decode body =
     (case decode body of Inl e \<Rightarrow> Inl (Invalid (''could not decode request: '' @ e)) | Inr r \<Rightarrow> Inr r)"

definition translate_bytes ::
    "'v translate_env \<Rightarrow> (string \<Rightarrow> (string, 'v messages_request) result) \<Rightarrow> string \<Rightarrow> translate_options \<Rightarrow>
      (translate_error, 'v translated) result" where
  "translate_bytes E decode body options =
     rbind (decode_request decode body) (\<lambda>request. translate_request E request options)"

text \<open>The new input of a continuation: what follows the last turn of the assistant.\<close>

fun rposition :: "('a \<Rightarrow> bool) \<Rightarrow> 'a list \<Rightarrow> nat option" where
  "rposition P [] = None"
| "rposition P (x # xs) =
     (case rposition P xs of Some i \<Rightarrow> Some (Suc i) | None \<Rightarrow> if P x then Some 0 else None)"

definition pending_start :: "'v request_message list \<Rightarrow> nat" where
  "pending_start ms =
     (let last = length ms - 1
      in case rposition (\<lambda>m. m_role m = ''assistant'') ms of
           None \<Rightarrow> last
         | Some assistant \<Rightarrow> if assistant < last then assistant + 1 else last)"

definition pending_input_items ::
    "'v translate_env \<Rightarrow> (string \<Rightarrow> (string, 'v messages_request) result) \<Rightarrow> string \<Rightarrow>
      (translate_error, 'v input_item list) result" where
  "pending_input_items E decode body =
     rbind (decode_request decode body)
       (\<lambda>request.
         if mr_messages request = [] then Inl (Invalid ''messages must not be empty'')
         else
           Inr (fold (translate_message E) (drop (pending_start (mr_messages request)) (mr_messages request)) []))"

definition wants_stream ::
    "(string \<Rightarrow> 'v option) \<Rightarrow> ('v \<Rightarrow> string \<Rightarrow> 'v option) \<Rightarrow> ('v \<Rightarrow> bool option) \<Rightarrow> string \<Rightarrow> bool" where
  "wants_stream parse get as_bool body =
     unwrap_or (Option.bind (Option.bind (parse body) (\<lambda>v. get v ''stream'')) as_bool) False"

definition default_model_spec :: model_spec where
  "default_model_spec = \<lparr>spec_model = wire_id (the (reviewed_default_model Codex)), spec_effort = None\<rparr>"

definition default_options :: translate_options where
  "default_options =
     \<lparr>to_model = default_model_spec, to_placement = Instructions, to_cache_key = None,
      to_service_tier = None\<rparr>"

end
