(* ===== verification/Request_Fidelity.thy ===== *)
theory Request_Fidelity
  imports Request_Translation Json_Api
begin

text \<open>
  What the translation of a request keeps: the transcript part by part and in order, identifiers within the
  upstream limit and restored on the way back, schemas as objects, the new input as a suffix, and exactly which
  requests are refused.
\<close>

section \<open>The transcript\<close>

text \<open>The parts a model reads, with the role they are sent in.\<close>

datatype atom =
    Part string content_part
  | Call string string string
  | Output string function_output
  | Thought string

fun item_atoms :: "'v input_item \<Rightarrow> atom list" where
  "item_atoms (MessageItem role parts) = map (Part role) parts"
| "item_atoms (FunctionCall i name arguments) = [Call i name arguments]"
| "item_atoms (FunctionCallOutput i out) = [Output i out]"
| "item_atoms (ReasoningItem summary s) = [Thought s]"
| "item_atoms (CompactionItem s extra) = []"

fun block_atoms :: "'v translate_env \<Rightarrow> string \<times> bool \<Rightarrow> 'v content_block \<Rightarrow> atom list" where
  "block_atoms E role (TextContent s) = [Part (fst role) (text_part role s)]"
| "block_atoms E role (ImageContent source) = map (Part (fst role)) (image_parts source)"
| "block_atoms E role (ToolUseContent i name input) =
     [Call (shorten_identifier (te_sha E) i) (shorten_identifier (te_sha E) name)
       (unwrap_or (te_to_string E input) ''{}'')]"
| "block_atoms E role (ToolResultContent i content is_error) =
     [Output (shorten_identifier (te_sha E) i) (tool_result_output content is_error)]"
| "block_atoms E role (ThinkingContent signature) =
     (case signature of None \<Rightarrow> [] | Some s \<Rightarrow> if is_gpt_reasoning_signature E s then [Thought s] else [])"
| "block_atoms E role RedactedThinkingContent = []"
| "block_atoms E role OtherContent = []"

definition message_atoms :: "'v translate_env \<Rightarrow> 'v request_message \<Rightarrow> atom list" where
  "message_atoms E m =
     (let role = message_role (m_role m)
      in case m_content m of
           ContentText s \<Rightarrow> [Part (fst role) (text_part role s)]
         | ContentBlocks blocks \<Rightarrow> concat (map (block_atoms E role) blocks))"

abbreviation transcript_atoms :: "'v input_item list \<Rightarrow> atom list" where
  "transcript_atoms items \<equiv> concat (map item_atoms items)"

lemma push_message_atoms [simp]:
  "transcript_atoms (push_message items role parts) = transcript_atoms items @ map (Part role) parts"
  by (simp add: push_message_def)

lemma translate_block_atoms:
  "translate_block E role b st = (items', parts') \<Longrightarrow>
   transcript_atoms items' @ map (Part (fst role)) parts' =
   transcript_atoms (fst st) @ map (Part (fst role)) (snd st) @ block_atoms E role b"
  by (cases st; cases b) (auto split: option.splits if_splits)

lemma translate_blocks_atoms:
  "fold (translate_block E role) bs st = (items', parts') \<Longrightarrow>
   transcript_atoms items' @ map (Part (fst role)) parts' =
   transcript_atoms (fst st) @ map (Part (fst role)) (snd st) @ concat (map (block_atoms E role) bs)"
proof (induction bs arbitrary: st)
  case (Cons b bs)
  obtain items parts where st: "translate_block E role b st = (items, parts)" by fastforce
  then show ?case using Cons translate_block_atoms [OF st] by simp
qed auto

lemma translate_message_atoms:
  "transcript_atoms (translate_message E m items) = transcript_atoms items @ message_atoms E m"
proof (cases "m_content m")
  case (ContentText s)
  then show ?thesis by (simp add: translate_message_def message_atoms_def Let_def)
next
  case (ContentBlocks bs)
  obtain items' parts' where st:
    "fold (translate_block E (message_role (m_role m))) bs (items, []) = (items', parts')"
    by fastforce
  then show ?thesis
    using ContentBlocks translate_blocks_atoms [OF st]
    by (simp add: translate_message_def message_atoms_def Let_def)
qed

lemma translate_messages_atoms:
  "transcript_atoms (fold (translate_message E) ms items) =
   transcript_atoms items @ concat (map (message_atoms E) ms)"
  by (induction ms arbitrary: items) (simp_all add: translate_message_atoms)

text \<open>No message is empty, and reasoning is only what the upstream itself signed.\<close>

fun item_ok :: "'v translate_env \<Rightarrow> 'v input_item \<Rightarrow> bool" where
  "item_ok E (MessageItem role parts) = (parts \<noteq> [])"
| "item_ok E (ReasoningItem summary s) = (summary = [] \<and> is_gpt_reasoning_signature E s)"
| "item_ok E (CompactionItem s extra) = False"
| "item_ok E _ = True"

lemma push_message_ok [simp]:
  "list_all (item_ok E) (push_message items role parts) = list_all (item_ok E) items"
  by (simp add: push_message_def)

lemma translate_block_ok:
  "list_all (item_ok E) (fst st) \<Longrightarrow> list_all (item_ok E) (fst (translate_block E role b st))"
  by (cases st; cases b) (auto split: option.splits)

lemma translate_blocks_ok:
  "list_all (item_ok E) (fst st) \<Longrightarrow> list_all (item_ok E) (fst (fold (translate_block E role) bs st))"
  by (induction bs arbitrary: st) (simp_all add: translate_block_ok)

lemma translate_message_ok:
  "list_all (item_ok E) items \<Longrightarrow> list_all (item_ok E) (translate_message E m items)"
  using translate_blocks_ok [of E "(items, [])"]
  by (cases "message_role (m_role m)")
    (auto simp: translate_message_def Let_def split: message_content.split prod.split, metis fst_conv)

lemma translate_messages_ok:
  "list_all (item_ok E) items \<Longrightarrow> list_all (item_ok E) (fold (translate_message E) ms items)"
  by (induction ms arbitrary: items) (simp_all add: translate_message_ok)

text \<open>What a translated request consists of.\<close>

lemma translate_requestD:
  assumes "translate_request E request options = Inr t"
  shows "mr_messages request \<noteq> []"
    and "rr_input (t_request t) = fold (translate_message E) (mr_messages request)
      (system_items (to_placement options) (unwrap_or (map_option system_text (mr_system request)) []))"
    and "t_tool_names t = fold (record_name E) (unwrap_or (mr_tools request) []) Map.empty"
    and "rr_tools (t_request t) = map_option (map (translate_tool E)) (mr_tools request)"
    and "rr_tool_choice (t_request t) =
      (if mr_tools request = None then None
       else Option.bind (mr_tool_choice request) (\<lambda>c. fst (translate_tool_choice E c (t_tool_names t))))"
  using assms
  by (auto simp: translate_request_def rbind_def Let_def split: if_splits sum.splits prod.splits option.splits)

text \<open>
  C28. The transcript sent upstream is that of the client: the parts of its messages in their order, calls,
  results and signed reasoning between them, after the instructions when those are sent as a message. No item
  is an empty message, and no reasoning is sent that the upstream did not sign.
\<close>

theorem transcript_preserved:
  assumes "translate_request E request options = Inr t"
  shows "transcript_atoms (rr_input (t_request t)) =
      transcript_atoms (system_items (to_placement options)
        (unwrap_or (map_option system_text (mr_system request)) []) :: 'v input_item list) @
      concat (map (message_atoms E) (mr_messages request)) \<and>
    list_all (item_ok E) (rr_input (t_request (t :: 'v translated)))"
proof -
  have "list_all (item_ok E) (system_items placement s)" for placement s
    by (simp add: system_items_def)
  then show ?thesis
    by (simp add: translate_requestD(2) [OF assms] translate_messages_atoms translate_messages_ok)
qed

section \<open>Identifiers\<close>

lemma floor_boundary_le: "floor_boundary s n \<le> n"
  by (induction n) auto

lemma floor_boundary_is: "is_char_boundary s (floor_boundary s n)"
  by (induction n) (auto simp: is_char_boundary_def)

lemma identifier_suffix_length: "4 \<le> length (sha i) \<Longrightarrow> length (identifier_suffix sha i) = 8"
  by (simp add: identifier_suffix_def hex_byte_def length_concat comp_def sum_list_triv)

lemma shorten_identifier_length:
  assumes "4 \<le> length (sha i)"
  shows "length (shorten_identifier sha i) \<le> 64"
proof -
  have "floor_boundary i 55 \<le> 55" by (rule floor_boundary_le)
  then show ?thesis
    by (simp add: shorten_identifier_def max_identifier_len_def identifier_suffix_length [of sha i, OF assms] Let_def)
qed

fun item_identifiers :: "'v input_item \<Rightarrow> string list" where
  "item_identifiers (FunctionCall i name arguments) = [i, name]"
| "item_identifiers (FunctionCallOutput i out) = [i]"
| "item_identifiers _ = []"

fun choice_identifiers :: "responses_tool_choice \<Rightarrow> string list" where
  "choice_identifiers (ChoiceFunction kind name) = [name]"
| "choice_identifiers (ChoiceMode mode) = []"

definition request_identifiers :: "'v responses_request \<Rightarrow> string list" where
  "request_identifiers r =
     concat (map item_identifiers (rr_input r)) @ map rt_name (unwrap_or (rr_tools r) []) @
     (case rr_tool_choice r of None \<Rightarrow> [] | Some c \<Rightarrow> choice_identifiers c)"

definition shortened :: "'v translate_env \<Rightarrow> string \<Rightarrow> bool" where
  "shortened E i \<longleftrightarrow> (\<exists>j. i = shorten_identifier (te_sha E) j)"

abbreviation items_shortened :: "'v translate_env \<Rightarrow> 'v input_item list \<Rightarrow> bool" where
  "items_shortened E items \<equiv> (\<forall>i\<in>set items. list_all (shortened E) (item_identifiers i))"

lemma shortenedI [simp]: "shortened E (shorten_identifier (te_sha E) j)"
  by (auto simp: shortened_def)

lemma translate_block_shortened:
  "items_shortened E (fst st) \<Longrightarrow> items_shortened E (fst (translate_block E role b st))"
  by (cases st; cases b) (auto simp: push_message_def split: option.splits)

lemma translate_blocks_shortened:
  "items_shortened E (fst st) \<Longrightarrow> items_shortened E (fst (fold (translate_block E role) bs st))"
proof (induction bs arbitrary: st)
  case (Cons b bs)
  show ?case using Cons.IH [OF translate_block_shortened [OF Cons.prems]] by simp
qed simp

lemma translate_message_shortened:
  assumes "items_shortened E items"
  shows "items_shortened E (translate_message E m items)"
proof (cases "m_content m")
  case (ContentText s)
  then show ?thesis using assms by (auto simp: translate_message_def push_message_def Let_def)
next
  case (ContentBlocks bs)
  let ?role = "message_role (m_role m)"
  obtain items' parts' where st: "fold (translate_block E ?role) bs (items, []) = (items', parts')" by fastforce
  have "items_shortened E items'"
    using translate_blocks_shortened [of "(items, [])" E ?role bs] assms st by simp
  then show ?thesis
    using ContentBlocks st by (auto simp: translate_message_def push_message_def Let_def)
qed

lemma translate_messages_shortened:
  "items_shortened E items \<Longrightarrow> items_shortened E (fold (translate_message E) ms items)"
proof (induction ms arbitrary: items)
  case (Cons m ms)
  show ?case using Cons.IH [OF translate_message_shortened [OF Cons.prems]] by simp
qed simp

lemma tool_choice_shortened:
  "fst (translate_tool_choice E c names) = Some x \<Longrightarrow> list_all (shortened E) (choice_identifiers x)"
  by (auto simp: translate_tool_choice_def Let_def unwrap_or_def split: if_splits option.splits)

text \<open>
  Every identifier of a translated request, of calls, results, tools and the chosen tool, is at most the 64
  bytes the upstream accepts, and an identifier that was within them is sent as it is.
\<close>

theorem identifiers_fit:
  assumes "translate_request E request options = Inr t"
    and sha: "\<And>s. length (te_sha E s) = 32"
  shows "\<forall>i\<in>set (request_identifiers (t_request t)).
    length i \<le> 64 \<and> (\<exists>j. i = shorten_identifier (te_sha E) j \<and> (length j \<le> 64 \<longrightarrow> i = j))"
proof -
  have "items_shortened E (system_items placement s)" for placement s
    by (simp add: system_items_def)
  then have "items_shortened E (rr_input (t_request t))"
    unfolding translate_requestD(2) [OF assms(1)] by (rule translate_messages_shortened)
  moreover have "list_all (shortened E) (map rt_name (unwrap_or (rr_tools (t_request t)) []))"
    by (auto simp: translate_requestD(4) [OF assms(1)] translate_tool_def list_all_iff unwrap_or_def
        split: option.splits)
  moreover have "rr_tool_choice (t_request t) = Some c \<Longrightarrow> list_all (shortened E) (choice_identifiers c)" for c
    using tool_choice_shortened
    by (auto simp: translate_requestD(5) [OF assms(1)] bind_eq_Some_conv split: if_splits)
  ultimately have "\<forall>i\<in>set (request_identifiers (t_request t)). shortened E i"
    by (cases "rr_tool_choice (t_request t)") (auto simp: request_identifiers_def list_all_iff)
  then show ?thesis
    using sha by (auto simp: shortened_def intro!: shorten_identifier_length)
      (metis shorten_identifier_def max_identifier_len_def)
qed

lemma rposition_SomeD: "rposition P xs = Some i \<Longrightarrow> i < length xs \<and> P (xs ! i)"
  by (induction xs arbitrary: i) (auto split: option.splits if_splits)

lemma rposition_NoneD: "rposition P xs = None \<Longrightarrow> x \<in> set xs \<Longrightarrow> \<not> P x"
  by (induction xs) (auto split: option.splits if_splits)

lemma record_names:
  "fold (record_name E) ds names s =
     (case rposition (\<lambda>d. shorten_identifier (te_sha E) (td_name d) = s \<and> s \<noteq> td_name d) ds of
        None \<Rightarrow> names s | Some i \<Rightarrow> Some (td_name (ds ! i)))"
  by (induction ds arbitrary: names) (auto simp: record_name_def Let_def split: option.splits)

text \<open>
  When the names of the offered tools stay apart once shortened, the names recorded for the answer restore
  each of them: a call to a tool under the name it was offered by reaches the client under the name the client
  gave.
\<close>

theorem tool_names_restored:
  assumes "translate_request E request options = Inr t" "mr_tools request = Some ds"
    and "inj_on (shorten_identifier (te_sha E)) (td_name ` set ds)"
  shows "\<exists>tools. rr_tools (t_request t) = Some tools \<and>
    map (\<lambda>tool. unwrap_or (t_tool_names t (rt_name tool)) (rt_name tool)) tools = map td_name ds"
proof -
  have "unwrap_or (t_tool_names t (rt_name (translate_tool E d))) (rt_name (translate_tool E d)) = td_name d"
    if d: "d \<in> set ds" for d
  proof -
    let ?short = "shorten_identifier (te_sha E) (td_name d)"
    let ?P = "\<lambda>d. shorten_identifier (te_sha E) (td_name d) = ?short \<and> ?short \<noteq> td_name d"
    have names: "t_tool_names t ?short = map_option (\<lambda>i. td_name (ds ! i)) (rposition ?P ds)"
      by (simp add: translate_requestD(3) [OF assms(1)] assms(2) unwrap_or_def record_names split: option.split)
    show ?thesis
    proof (cases "rposition ?P ds")
      case None
      then show ?thesis
        using rposition_NoneD [OF None d] names by (auto simp: translate_tool_def unwrap_or_def)
    next
      case (Some i)
      then have "ds ! i \<in> set ds" and "shorten_identifier (te_sha E) (td_name (ds ! i)) = ?short"
        using rposition_SomeD [OF Some] by auto
      then have "td_name (ds ! i) = td_name d"
        using inj_onD [OF assms(3), of "td_name (ds ! i)" "td_name d"] d by auto
      then show ?thesis using Some names by (simp add: translate_tool_def unwrap_or_def)
    qed
  qed
  then show ?thesis
    by (simp add: translate_requestD(4) [OF assms(1)] assms(2) comp_def)
qed

section \<open>Schemas\<close>

text \<open>What \<^verbatim>\<open>serde_json\<close> promises of objects and strings: they are read back as they were built.\<close>

definition json_laws :: "'v translate_env \<Rightarrow> bool" where
  "json_laws E \<longleftrightarrow>
     (\<forall>kvs. distinct (map fst kvs) \<longrightarrow>
        (\<exists>kvs'. te_entries E (te_object E kvs) = Some kvs' \<and> distinct (map fst kvs') \<and> map_of kvs' = map_of kvs)) \<and>
     (\<forall>s. te_as_str E (te_string E s) = Some s) \<and>
     (\<forall>v kvs. te_entries E v = Some kvs \<longrightarrow> distinct (map fst kvs))"

definition schema_ok :: "'v translate_env \<Rightarrow> 'v \<Rightarrow> bool" where
  "schema_ok E v \<longleftrightarrow>
     (case te_entries E v of
        None \<Rightarrow> False
      | Some kvs \<Rightarrow>
          list_all (\<lambda>k. map_of kvs k = None) stripped_keys \<and> map_of kvs ''type'' \<noteq> None \<and>
          (Option.bind (map_of kvs ''type'') (te_as_str E) = Some ''object'' \<longrightarrow> map_of kvs ''properties'' \<noteq> None))"

definition schema_entries :: "'v translate_env \<Rightarrow> 'v option \<Rightarrow> (string \<times> 'v) list" where
  "schema_entries E schema = unwrap_or (Option.bind schema (te_entries E)) []"

lemma map_of_or_insert: "map_of (or_insert k v kvs) k' =
  (if k' = k \<and> map_of kvs k = None then Some v else map_of kvs k')"
  by (auto simp: or_insert_def map_add_def split: option.split)

lemma distinct_or_insert: "distinct (map fst kvs) \<Longrightarrow> distinct (map fst (or_insert k v kvs))"
  by (auto simp: or_insert_def map_of_eq_None_iff)

lemma map_of_stripped:
  "map_of (filter (\<lambda>(k, _). k \<notin> S) kvs) k = (if k \<in> S then None else map_of kvs k)"
  by (induction kvs) auto

text \<open>
  Whatever schema a client gives a tool, or none, the parameters sent are an object with a type, with
  properties when that type is object, without the keys only the client understands, and with every other
  entry of the schema as it was.
\<close>

theorem schemas_are_accepted:
  assumes "json_laws E"
  shows "schema_ok E (normalize_tool_parameters E schema) \<and>
    (\<forall>k v. k \<notin> set stripped_keys \<longrightarrow> map_of (schema_entries E schema) k = Some v \<longrightarrow>
      map_of (schema_entries E (Some (normalize_tool_parameters E schema))) k = Some v)"
proof -
  obtain kvs where build: "normalize_tool_parameters E schema = te_object E kvs" and "distinct (map fst kvs)"
    and kvs: "list_all (\<lambda>k. map_of kvs k = None) stripped_keys" "map_of kvs ''type'' \<noteq> None"
      "Option.bind (map_of kvs ''type'') (te_as_str E) = Some ''object'' \<longrightarrow> map_of kvs ''properties'' \<noteq> None"
      "\<forall>k v. k \<notin> set stripped_keys \<longrightarrow> map_of (schema_entries E schema) k = Some v \<longrightarrow> map_of kvs k = Some v"
  proof (cases "Option.bind schema (te_entries E)")
    case None
    show thesis
      by (rule that [of "[(''type'', te_string E ''object''), (''properties'', te_object E [])]"])
        (simp_all add: normalize_tool_parameters_def None schema_entries_def unwrap_or_def stripped_keys_def)
  next
    case (Some es)
    let ?es = "or_insert ''type'' (te_string E ''object'') (filter (\<lambda>(k, _). k \<notin> set stripped_keys) es)"
    let ?kvs = "if Option.bind (map_of ?es ''type'') (te_as_str E) = Some ''object''
      then or_insert ''properties'' (te_object E []) ?es else ?es"
    have "distinct (map fst es)"
      using Some assms by (auto simp: json_laws_def bind_eq_Some_conv)
    then have "distinct (map fst ?es)" by (intro distinct_or_insert) (simp add: distinct_map_filter)
    then have "distinct (map fst ?kvs)" by (simp add: distinct_or_insert)
    moreover have "''type'' \<notin> set stripped_keys" "''properties'' \<notin> set stripped_keys"
      by (simp_all add: stripped_keys_def)
    ultimately show thesis
      by (intro that [of ?kvs])
        (auto simp: normalize_tool_parameters_def Some schema_entries_def unwrap_or_def Let_def
          map_of_or_insert map_of_stripped list_all_iff simp del: map_of_eq_Some_iff Some_eq_map_of_iff)
  qed
  obtain kvs' where "te_entries E (te_object E kvs) = Some kvs'" "map_of kvs' = map_of kvs"
    using assms \<open>distinct (map fst kvs)\<close> unfolding json_laws_def by blast
  then show ?thesis
    using kvs by (simp add: schema_ok_def build schema_entries_def unwrap_or_def)
qed

section \<open>The new input\<close>

text \<open>Translation only appends.\<close>

lemma push_message_append: "push_message (xs @ items) role parts = xs @ push_message items role parts"
  by (simp add: push_message_def)

lemma translate_block_append:
  "translate_block E role b (xs @ items, parts) = map_prod ((@) xs) id (translate_block E role b (items, parts))"
  by (cases b) (auto simp: push_message_append split: option.split)

lemma translate_blocks_append:
  "fold (translate_block E role) bs (xs @ items, parts) =
   map_prod ((@) xs) id (fold (translate_block E role) bs (items, parts))"
proof (induction bs arbitrary: items parts)
  case (Cons b bs)
  obtain items' parts' where "translate_block E role b (items, parts) = (items', parts')" by fastforce
  then show ?case using Cons by (simp add: translate_block_append)
qed simp

lemma translate_message_append:
  "translate_message E m (xs @ items) = xs @ translate_message E m items"
  using translate_blocks_append [of E "message_role (m_role m)" _ xs items "[]"]
  by (auto simp: translate_message_def push_message_append Let_def split: message_content.split prod.splits)

lemma translate_messages_append:
  "fold (translate_message E) ms (xs @ items) = xs @ fold (translate_message E) ms items"
  by (induction ms arbitrary: items) (simp_all add: translate_message_append)

lemma rposition_snoc:
  "P y \<Longrightarrow> rposition P post = None \<Longrightarrow> rposition P (ys @ y # post) = Some (length ys)"
  by (induction ys) auto

lemma rposition_last:
  assumes "pre \<noteq> []" "P (last pre)" "list_all (\<lambda>x. \<not> P x) post"
  shows "rposition P (pre @ post) = Some (length pre - 1)"
proof -
  have "rposition P post = None" using assms(3) by (induction post) auto
  from rposition_snoc [OF assms(2) this, of "butlast pre"] show ?thesis
    using append_butlast_last_id [OF assms(1)] by (metis append.assoc append_Cons append_Nil length_butlast)
qed

text \<open>
  C29. The new input of a continuation is the end of the translated request, and is the translation of exactly
  the messages after the last turn of the assistant, however many there are.
\<close>

theorem pending_input_is_the_suffix:
  assumes "decode body = Inr request" "mr_messages request = pre @ post" "post \<noteq> []"
    and "pre \<noteq> []" "m_role (last pre) = ''assistant''" "list_all (\<lambda>m. m_role m \<noteq> ''assistant'') post"
    and "translate_bytes E decode body options = Inr t"
  shows "\<exists>items old. pending_input_items E decode body = Inr items \<and> rr_input (t_request t) = old @ items \<and>
    transcript_atoms items = concat (map (message_atoms E) post)"
proof -
  have t: "translate_request E request options = Inr t"
    using assms(1,7) by (simp add: translate_bytes_def decode_request_def)
  have "pending_start (pre @ post) = length pre"
    using rposition_last [of pre "\<lambda>m. m_role m = ''assistant''" post] assms
    by (cases pre) (auto simp: pending_start_def Let_def)
  then have "pending_input_items E decode body = Inr (fold (translate_message E) post [])"
    using assms by (simp add: pending_input_items_def decode_request_def)
  moreover have "\<exists>old. rr_input (t_request t) = old @ fold (translate_message E) post []"
    unfolding translate_requestD(2) [OF t] assms(2) fold_append comp_apply
    by (metis translate_messages_append append_Nil2)
  ultimately show ?thesis by (auto simp: translate_messages_atoms)
qed

section \<open>Refused requests\<close>

lemma selection_fails_iff:
  "resolve_selection requested fallback = Inl e \<longleftrightarrow>
   (\<exists>model why. stated_text requested = Some model \<and> \<not> starts_with (to_ascii_lowercase model) ''claude'' \<and>
      parse_spec model = Inl why \<and> e = Invalid (spec_error_text why))"
  by (auto simp: resolve_selection_def split: option.splits sum.splits)

lemma effort_fails_iff:
  "effort_for request spec = Inl e \<longleftrightarrow>
   spec_effort spec = None \<and>
   (\<exists>v. stated_text (Option.bind (mr_output_config request) id) = Some v \<and> parse_effort v = None \<and>
      e = Invalid (spec_error_text (UnknownEffort v)))"
  by (auto simp: effort_for_def ok_or_def split: option.splits)

text \<open>
  A decoded request is refused only when it has no messages, when it names a model that is neither one of
  Claude's nor a selection of the catalogue, or when the selection has no effort and the one stated beside it
  is not known: nothing in the messages, tools or instructions of a request makes it fail.
\<close>

theorem only_selections_are_refused:
  "translate_request E request options = Inl e \<longleftrightarrow>
   (if mr_messages request = [] then e = Invalid ''messages must not be empty''
    else
      (\<exists>model why. stated_text (mr_model request) = Some model \<and>
         \<not> starts_with (to_ascii_lowercase model) ''claude'' \<and> parse_spec model = Inl why \<and>
         e = Invalid (spec_error_text why)) \<or>
      (\<exists>spec v. resolve_selection (mr_model request) (to_model options) = Inr spec \<and> spec_effort spec = None \<and>
         stated_text (Option.bind (mr_output_config request) id) = Some v \<and> parse_effort v = None \<and>
         e = Invalid (spec_error_text (UnknownEffort v))))"
proof (cases "mr_messages request = []")
  case False
  have "translate_request E request options = Inl e \<longleftrightarrow>
      resolve_selection (mr_model request) (to_model options) = Inl e \<or>
      (\<exists>spec. resolve_selection (mr_model request) (to_model options) = Inr spec \<and>
        effort_for request spec = Inl e)"
    using False
    by (cases "resolve_selection (mr_model request) (to_model options)")
      (auto simp: translate_request_def rbind_def Let_def split: sum.splits prod.splits)
  then show ?thesis
    using False by (simp add: selection_fails_iff effort_fails_iff)
qed (auto simp: translate_request_def)

text \<open>A failed tool whose answer has nothing the upstream can take reports an empty success.\<close>

lemma error_flag_is_lost:
  "tool_result_output (Some (ResultBlocks [])) True = OutputPlain []"
  "tool_result_output (Some (ResultBlocks [])) is_error = tool_result_output (Some (ResultBlocks [])) False"
  by (simp_all add: tool_result_output_def Let_def)

lemma reviewed_codex_default: "reviewed_default_model Codex \<noteq> None"
  by (simp add: reviewed_default_model_def models_for_provider_def models_def)

section \<open>A concrete request\<close>

definition demo_translate_env :: "json_value translate_env" where
  "demo_translate_env =
     \<lparr>te_sha = (\<lambda>_. replicate 32 CHR 0xAB), te_base64 = (\<lambda>_. None), te_base64_no_pad = (\<lambda>_. None),
      te_to_string = (\<lambda>_. Some ''{}''),
      te_entries = (\<lambda>v. case v of JObj kvs \<Rightarrow> if distinct (map fst kvs) then Some kvs else None | _ \<Rightarrow> None),
      te_as_str = jas_str, te_string = JStr, te_object = JObj\<rparr>"

definition demo_tool :: "string \<Rightarrow> json_value tool_definition" where
  "demo_tool name = \<lparr>td_name = name, td_description = None, td_input_schema = Some (JObj [(''type'', JStr ''object'')])\<rparr>"

definition long_name :: string where
  "long_name = ''mcp__'' @ replicate 70 CHR ''x''"

definition demo_request :: "json_value messages_request" where
  "demo_request =
     \<lparr>mr_model = Some ''claude-x'',
      mr_messages =
        [\<lparr>m_role = ''user'', m_content = ContentText ''go''\<rparr>,
         \<lparr>m_role = ''assistant'', m_content = ContentBlocks
            [TextContent ''ok'', ThinkingContent (Some ''foreign''), ToolUseContent ''t1'' ''ls'' JNull,
             ToolUseContent ''t2'' ''ls'' JNull]\<rparr>,
         \<lparr>m_role = ''user'', m_content = ContentBlocks [ToolResultContent ''t1'' (Some (ResultText ''a'')) False]\<rparr>,
         \<lparr>m_role = ''user'', m_content = ContentBlocks [ToolResultContent ''t2'' None True, TextContent ''on'']\<rparr>],
      mr_system = Some (SystemText ''be brief''), mr_tools = Some [demo_tool ''ls'', demo_tool long_name],
      mr_tool_choice = Some \<lparr>tc_kind = ''tool'', tc_name = Some long_name, tc_disable_parallel = True\<rparr>,
      mr_stream = True, mr_thinking = Some \<lparr>th_kind = ''adaptive'', th_budget = None\<rparr>,
      mr_output_config = Some (Some '' high '')\<rparr>"

definition demo_options :: translate_options where
  "demo_options =
     \<lparr>to_model = \<lparr>spec_model = ''gpt'', spec_effort = None\<rparr>, to_placement = DeveloperMessage,
      to_cache_key = None, to_service_tier = None\<rparr>"

definition demo_translated :: "json_value translated" where
  "demo_translated =
     (case translate_request demo_translate_env demo_request demo_options of Inr t \<Rightarrow> t)"

lemma demo_translates:
  "translate_request demo_translate_env demo_request demo_options = Inr demo_translated"
proof -
  have "isl (translate_request demo_translate_env demo_request demo_options) = False" by code_simp
  then show ?thesis by (auto simp: demo_translated_def split: sum.splits)
qed

theorem transcript_preserved_witness:
  "transcript_atoms (rr_input (t_request demo_translated)) =
     [Part ''developer'' (InputText ''be brief''), Part ''user'' (InputText ''go''),
      Part ''assistant'' (OutputText ''ok''), Call ''t1'' ''ls'' ''{}'', Call ''t2'' ''ls'' ''{}'',
      Output ''t1'' (OutputPlain ''a''), Output ''t2'' (OutputPlain ''ERROR:''), Part ''user'' (InputText ''on'')]"
proof -
  have "transcript_atoms (system_items (to_placement demo_options)
        (unwrap_or (map_option system_text (mr_system demo_request)) []) :: json_value input_item list) @
      concat (map (message_atoms demo_translate_env) (mr_messages demo_request)) =
     [Part ''developer'' (InputText ''be brief''), Part ''user'' (InputText ''go''),
      Part ''assistant'' (OutputText ''ok''), Call ''t1'' ''ls'' ''{}'', Call ''t2'' ''ls'' ''{}'',
      Output ''t1'' (OutputPlain ''a''), Output ''t2'' (OutputPlain ''ERROR:''), Part ''user'' (InputText ''on'')]"
    by code_simp
  then show ?thesis using transcript_preserved [OF demo_translates] by simp
qed

theorem identifiers_fit_witness:
  "list_all (\<lambda>i. length i \<le> 64) (request_identifiers (t_request demo_translated)) \<and>
   (\<exists>j. last (request_identifiers (t_request demo_translated)) = shorten_identifier (te_sha demo_translate_env) j)"
proof -
  have "request_identifiers (t_request demo_translated) \<noteq> []" by code_simp
  then show ?thesis
    using identifiers_fit [OF demo_translates]
    by (fastforce simp: demo_translate_env_def list_all_iff)
qed

theorem tool_names_restored_witness:
  "\<exists>tools. rr_tools (t_request demo_translated) = Some tools \<and>
    map (\<lambda>tool. unwrap_or (t_tool_names demo_translated (rt_name tool)) (rt_name tool)) tools =
      [''ls'', long_name]"
proof -
  have "mr_tools demo_request = Some [demo_tool ''ls'', demo_tool long_name]"
    by (simp add: demo_request_def)
  moreover have "shorten_identifier (te_sha demo_translate_env) ''ls'' \<noteq>
      shorten_identifier (te_sha demo_translate_env) long_name"
    by code_simp
  ultimately show ?thesis
    using tool_names_restored [OF demo_translates, of "[demo_tool ''ls'', demo_tool long_name]"]
    by (simp add: inj_on_def demo_tool_def)
qed

theorem schemas_are_accepted_witness:
  "schema_ok demo_translate_env (normalize_tool_parameters demo_translate_env
     (Some (JObj [(''$schema'', JNull), (''title'', JStr ''t'')])))"
proof -
  have "json_laws demo_translate_env"
    by (simp add: json_laws_def demo_translate_env_def split: json_value.splits)
  then show ?thesis using schemas_are_accepted by blast
qed

theorem pending_input_is_the_suffix_witness:
  "\<exists>items old. pending_input_items demo_translate_env (\<lambda>_. Inr demo_request) [] = Inr items \<and>
    rr_input (t_request demo_translated) = old @ items \<and>
    transcript_atoms items =
      [Output ''t1'' (OutputPlain ''a''), Output ''t2'' (OutputPlain ''ERROR:''), Part ''user'' (InputText ''on'')]"
proof -
  let ?pre = "take 2 (mr_messages demo_request)" and ?post = "drop 2 (mr_messages demo_request)"
  have shape: "mr_messages demo_request = ?pre @ ?post" by simp
  have cut: "?post \<noteq> []" "?pre \<noteq> []" "m_role (last ?pre) = ''assistant''"
    "list_all (\<lambda>m. m_role m \<noteq> ''assistant'') ?post"
    by code_simp+
  have "translate_bytes demo_translate_env (\<lambda>_. Inr demo_request) [] demo_options = Inr demo_translated"
    by (simp add: translate_bytes_def decode_request_def demo_translates)
  moreover have "concat (map (message_atoms demo_translate_env) ?post) =
      [Output ''t1'' (OutputPlain ''a''), Output ''t2'' (OutputPlain ''ERROR:''), Part ''user'' (InputText ''on'')]"
    by code_simp
  ultimately show ?thesis
    using pending_input_is_the_suffix [where decode = "\<lambda>_. Inr demo_request" and body = "[]", OF refl shape cut]
    by metis
qed

end
