(* ===== verification/Request_Compaction.thy ===== *)
theory Request_Compaction
  imports Pipeline_Error Request_Translation
begin

text \<open>
  Compaction in \<^verbatim>\<open>codex_translate.rs\<close>, and the requests the pipeline of \<^verbatim>\<open>codex_pipeline.rs\<close> prepares:
  what is sent to be compacted, which answers are accepted, and the request that is tried again. Encoding an
  item (\<open>to_value\<close>), encoding the body (\<open>to_body\<close>) and the call itself (\<open>send\<close>) are arguments.
\<close>

section \<open>Encoding\<close>

fun try_map :: "('a \<Rightarrow> ('e, 'b) result) \<Rightarrow> 'a list \<Rightarrow> ('e, 'b list) result" where
  "try_map f [] = Inr []"
| "try_map f (x # xs) = rbind (f x) (\<lambda>y. rbind (try_map f xs) (\<lambda>ys. Inr (y # ys)))"

lemma try_map_Inr_iff: "try_map f xs = Inr ys \<longleftrightarrow> list_all2 (\<lambda>x y. f x = Inr y) xs ys"
proof (induction xs arbitrary: ys)
  case (Cons x xs)
  show ?case
    by (cases "f x"; cases "try_map f xs"; cases ys) (auto simp: Cons [symmetric])
qed auto

definition map_err :: "('e \<Rightarrow> 'f) \<Rightarrow> ('e, 'a) result \<Rightarrow> ('f, 'a) result" where
  "map_err f r = (case r of Inl e \<Rightarrow> Inl (f e) | Inr x \<Rightarrow> Inr x)"

lemma map_err_Inr [simp]: "map_err f r = Inr x \<longleftrightarrow> r = Inr x"
  by (cases r) (auto simp: map_err_def)

definition input_items_as_values ::
    "('v input_item \<Rightarrow> (string, 'v) result) \<Rightarrow> 'v input_item list \<Rightarrow> (translate_error, 'v list) result" where
  "input_items_as_values to_value =
     try_map (\<lambda>item. map_err (\<lambda>e. Invalid (''could not encode Responses input: '' @ e)) (to_value item))"

section \<open>Requests for compaction\<close>

record 'v compact_request =
  cr_model :: string
  cr_input :: "'v list"
  cr_instructions :: "string option"
  cr_tools :: "'v responses_tool list option"
  cr_parallel_tool_calls :: bool
  cr_reasoning :: "string option"
  cr_service_tier :: "string option"
  cr_prompt_cache_key :: "string option"
  cr_text :: 'v

definition compact_request_of :: "'v translate_env \<Rightarrow> 'v responses_request \<Rightarrow> 'v list \<Rightarrow> 'v compact_request" where
  "compact_request_of E r input =
     \<lparr>cr_model = rr_model r, cr_input = input, cr_instructions = rr_instructions r, cr_tools = rr_tools r,
      cr_parallel_tool_calls = unwrap_or (rr_parallel_tool_calls r) True, cr_reasoning = rr_reasoning r,
      cr_service_tier = rr_service_tier r, cr_prompt_cache_key = rr_prompt_cache_key r,
      cr_text = te_object E []\<rparr>"

definition typed_compact_request ::
    "'v translate_env \<Rightarrow> ('v input_item \<Rightarrow> (string, 'v) result) \<Rightarrow> 'v responses_request \<Rightarrow>
      (compaction_error, 'v compact_request) result" where
  "typed_compact_request E to_value r =
     (if rr_input r = [] then Inl MissingPendingInput
      else
        rbind (try_map (\<lambda>item. map_err (\<lambda>_. MalformedOutput) (to_value item)) (butlast (rr_input r)))
          (\<lambda>input. Inr (compact_request_of E r input)))"

definition compact_request_for_history ::
    "'v translate_env \<Rightarrow> 'v responses_request \<Rightarrow> 'v list \<Rightarrow> (compaction_error, 'v compact_request) result" where
  "compact_request_for_history E r history =
     (if history = [] then Inl MissingPendingInput else Inr (compact_request_of E r history))"

section \<open>Answers\<close>

fun is_compaction :: "'v input_item \<Rightarrow> bool" where
  "is_compaction (CompactionItem s extra) = (s \<noteq> [])"
| "is_compaction _ = False"

definition validated_compact_output :: "'v input_item list \<Rightarrow> (compaction_error, 'v input_item list) result" where
  "validated_compact_output output =
     (if output = [] then Inl EmptyOutput
      else if list_ex (\<lambda>item. \<not> is_compaction item) output then Inl UnsupportedOutput
      else Inr output)"

definition compact_output_as_values ::
    "('v input_item \<Rightarrow> (string, 'v) result) \<Rightarrow> 'v input_item list \<Rightarrow> (compaction_error, 'v list) result" where
  "compact_output_as_values to_value output =
     rbind (validated_compact_output output)
       (try_map (\<lambda>item. map_err (\<lambda>_. MalformedOutput) (to_value item)))"

definition retry_with_compaction ::
    "'v responses_request \<Rightarrow> 'v input_item list \<Rightarrow> (compaction_error, 'v responses_request) result" where
  "retry_with_compaction r output =
     (if rr_input r = [] then Inl MissingPendingInput
      else
        rbind (validated_compact_output output)
          (\<lambda>compact. Inr (r\<lparr>rr_input := compact @ [last (rr_input r)]\<rparr>)))"

section \<open>The calls of the pipeline\<close>

text \<open>The environment of a pipeline: its client's call, and the options its credentials give.\<close>

record 'v compaction_env =
  ce_translate :: "'v translate_env"
  ce_decode :: "string \<Rightarrow> (string, 'v messages_request) result"
  ce_to_value :: "'v input_item \<Rightarrow> (string, 'v) result"
  ce_to_body :: "'v compact_request \<Rightarrow> (string, string) result"
  ce_send :: "string \<Rightarrow> (upstream_error, 'v input_item list) result"
  ce_model_override :: "model_spec option"
  ce_codex_backend :: bool
  ce_cache_key :: "string option"
  ce_session_id :: string
  ce_default_model :: model_spec
  ce_credentials :: "upstream_error option"

definition send_compaction ::
    "'v compaction_env \<Rightarrow> 'v compact_request \<Rightarrow> (pipeline_error, 'v input_item list) result" where
  "send_compaction C compact =
     rbind (map_err PTranslate (ce_to_body C compact))
       (\<lambda>body. map_err PUpstream (ce_send C body))"

definition compact_history ::
    "'v compaction_env \<Rightarrow> 'v responses_request \<Rightarrow> 'v list \<Rightarrow> (pipeline_error, 'v list) result" where
  "compact_history C request history =
     rbind (map_err PCompaction (compact_request_for_history (ce_translate C) request history))
       (\<lambda>compact. rbind (send_compaction C compact)
         (\<lambda>response. map_err PCompaction (compact_output_as_values (ce_to_value C) response)))"

definition compact_canonical_history ::
    "'v compaction_env \<Rightarrow> 'v list \<Rightarrow> (pipeline_error, 'v list) result" where
  "compact_canonical_history C =
     compact_history C
       \<lparr>rr_model = spec_model (ce_default_model C), rr_input = [], rr_stream = False, rr_store = False,
        rr_include = [], rr_instructions = None, rr_tools = None, rr_tool_choice = None,
        rr_parallel_tool_calls = Some True, rr_reasoning = None,
        rr_prompt_cache_key = Some (ce_session_id C), rr_service_tier = None\<rparr>"

fun invalid_text :: "translate_error \<Rightarrow> string" where
  "invalid_text (Invalid what) = what"

definition prepared_options :: "'v compaction_env \<Rightarrow> translate_options" where
  "prepared_options C =
     \<lparr>to_model = unwrap_or (ce_model_override C) (ce_default_model C),
      to_placement = (if ce_codex_backend C then DeveloperMessage else Instructions),
      to_cache_key = or_else (ce_cache_key C) (Some (ce_session_id C)), to_service_tier = None\<rparr>"

definition prepare_request :: "'v compaction_env \<Rightarrow> string \<Rightarrow> (pipeline_error, 'v translated) result" where
  "prepare_request C body =
     (case ce_credentials C of
        Some e \<Rightarrow> Inl (PUpstream e)
      | None \<Rightarrow>
          map_err (\<lambda>e. PTranslate (invalid_text e))
            (translate_bytes (ce_translate C) (ce_decode C) body (prepared_options C)))"

definition prepare :: "'v compaction_env \<Rightarrow> string \<Rightarrow> (pipeline_error, 'v translated \<times> 'v list) result" where
  "prepare C body =
     rbind (prepare_request C body)
       (\<lambda>t. rbind (map_err (\<lambda>e. PTranslate (invalid_text e))
              (input_items_as_values (ce_to_value C) (rr_input (t_request t))))
         (\<lambda>input. Inr (t, input)))"

definition compact_and_retry ::
    "'v compaction_env \<Rightarrow> string \<Rightarrow> (pipeline_error, 'v responses_request) result" where
  "compact_and_retry C body =
     rbind (prepare_request C body)
       (\<lambda>t. rbind (map_err PCompaction (typed_compact_request (ce_translate C) (ce_to_value C) (t_request t)))
         (\<lambda>compact. rbind (send_compaction C compact)
           (\<lambda>response. map_err PCompaction (retry_with_compaction (t_request t) response))))"

section \<open>What compaction may replace\<close>

lemma validated_iff:
  "validated_compact_output output = Inr items \<longleftrightarrow>
   items = output \<and> output \<noteq> [] \<and> list_all is_compaction output"
  by (auto simp: validated_compact_output_def list_ex_iff list_all_iff)

text \<open>
  A transcript is only ever replaced by what the upstream issued for it: the call that was sent carried
  the whole transcript, its answer held compaction items with content and nothing else, and the replacement
  is their encoding, item by item.
\<close>

theorem replacements_are_compactions:
  assumes "compact_history C request history = Inr replacement"
  shows "history \<noteq> [] \<and>
    (\<exists>body output. ce_to_body C (compact_request_of (ce_translate C) request history) = Inr body \<and>
      ce_send C body = Inr output \<and> output \<noteq> [] \<and> list_all is_compaction output \<and>
      list_all2 (\<lambda>item v. ce_to_value C item = Inr v) output replacement)"
  using assms
  by (auto simp: compact_history_def send_compaction_def compact_request_for_history_def
      compact_output_as_values_def rbind_Inr_iff validated_iff try_map_Inr_iff split: if_splits)

text \<open>The typed retry keeps the last item of the request only.\<close>

lemma retry_keeps_only_the_last:
  assumes "retry_with_compaction r output = Inr r'"
  shows "rr_input r' = output @ [last (rr_input r)]"
  using assms by (auto simp: retry_with_compaction_def rbind_Inr_iff validated_iff split: if_splits)

end
