(* ===== verification/Terminal_Filters.thy ===== *)
theory Terminal_Filters
  imports Utf8
begin

text \<open>
  The two byte filters of an interactive session: titles are taken out of what the agent writes
  (\<^verbatim>\<open>console_title_osc.rs\<close>), and dropped paths are rewritten in what the user pastes
  (\<^verbatim>\<open>session/bracketed_paste.rs\<close>, with the path forms of \<^verbatim>\<open>dnd/mod.rs\<close> on a Unix build). Both are machines
  that survive any fragmentation of their input.
\<close>

abbreviation esc :: char where "esc \<equiv> CHR 0x1B"
abbreviation bel :: char where "bel \<equiv> CHR 0x07"

text \<open>A machine that folds a step over its chunk meets the contract of chunks.\<close>

lemma run_machine_chunked:
  "chunked_machine (run_machine step) (\<lambda>_. True) (\<lambda>_. True)"
  by unfold_locales (simp_all add: run_machine_append)

section \<open>Titles\<close>

datatype osc_state =
    Normal | AfterEsc | InOscNumber | SwallowOscBody | SwallowAfterEsc | PassthroughOscBody
  | PassthroughAfterEsc

record osc_title_stripper =
  os_state :: osc_state
  os_digits :: string

definition new_stripper :: osc_title_stripper where
  "new_stripper = \<lparr>os_state = Normal, os_digits = []\<rparr>"

definition process_byte :: "osc_title_stripper \<Rightarrow> char \<Rightarrow> osc_title_stripper \<times> string" where
  "process_byte s b =
     (case os_state s of
        Normal \<Rightarrow> if b = esc then (s\<lparr>os_state := AfterEsc\<rparr>, []) else (s, [b])
      | AfterEsc \<Rightarrow>
          if b = CHR '']'' then (s\<lparr>os_state := InOscNumber, os_digits := []\<rparr>, [])
          else if b = esc then (s, [esc])
          else (s\<lparr>os_state := Normal\<rparr>, [esc, b])
      | InOscNumber \<Rightarrow>
          if is_digit b then (s\<lparr>os_digits := os_digits s @ [b]\<rparr>, [])
          else if b = CHR '';'' then
            (if os_digits s = ''0'' \<or> os_digits s = ''2''
             then (s\<lparr>os_state := SwallowOscBody, os_digits := []\<rparr>, [])
             else (s\<lparr>os_state := PassthroughOscBody, os_digits := []\<rparr>,
                   [esc, CHR '']''] @ os_digits s @ '';''))
          else if b = bel then (s\<lparr>os_state := Normal, os_digits := []\<rparr>, [])
          else
            (s\<lparr>os_state := (if b = esc then PassthroughAfterEsc else PassthroughOscBody), os_digits := []\<rparr>,
             [esc, CHR '']''] @ os_digits s @ (if b \<noteq> esc then [b] else []))
      | SwallowOscBody \<Rightarrow>
          if b = bel then (s\<lparr>os_state := Normal\<rparr>, [])
          else if b = esc then (s\<lparr>os_state := SwallowAfterEsc\<rparr>, [])
          else (s, [])
      | SwallowAfterEsc \<Rightarrow>
          if b = CHR 0x5C \<or> b = bel then (s\<lparr>os_state := Normal\<rparr>, [])
          else if b = esc then (s, [])
          else (s\<lparr>os_state := SwallowOscBody\<rparr>, [])
      | PassthroughOscBody \<Rightarrow>
          (if b = bel then s\<lparr>os_state := Normal\<rparr>
           else if b = esc then s\<lparr>os_state := PassthroughAfterEsc\<rparr> else s, [b])
      | PassthroughAfterEsc \<Rightarrow>
          (if b = CHR 0x5C \<or> b = bel then s\<lparr>os_state := Normal\<rparr>
           else if b \<noteq> esc then s\<lparr>os_state := PassthroughOscBody\<rparr> else s, [b]))"

definition strip_titles :: "osc_title_stripper \<Rightarrow> string \<Rightarrow> osc_title_stripper \<times> string" where
  "strip_titles = run_machine process_byte"

interpretation titles: chunked_machine strip_titles "\<lambda>_. True" "\<lambda>_. True"
  unfolding strip_titles_def by (rule run_machine_chunked)

section \<open>Path forms of a drop\<close>

definition strip_matching_surrounding_quotes :: "string \<Rightarrow> string" where
  "strip_matching_surrounding_quotes s =
     (if length s \<ge> 2 \<and> (hd s = CHR 0x22 \<and> last s = CHR 0x22 \<or> hd s = CHR 0x27 \<and> last s = CHR 0x27)
      then butlast (tl s) else s)"

definition strip_powershell_call_prefix :: "string \<Rightarrow> string" where
  "strip_powershell_call_prefix s =
     (case strip_prefix s ''& '' of
        Some rest \<Rightarrow> rest
      | None \<Rightarrow>
          (case strip_prefix s ''&'' of
             None \<Rightarrow> s
           | Some rest \<Rightarrow>
               if starts_with (trim_start rest) [CHR 0x27] \<or> starts_with (trim_start rest) [CHR 0x22]
               then trim_start rest else s))"

definition hex_value :: "char \<Rightarrow> nat option" where
  "hex_value b =
     (let n = code_of b
      in if is_digit b then Some (n - 48)
         else if 97 \<le> n \<and> n \<le> 102 then Some (n - 97 + 10)
         else if 65 \<le> n \<and> n \<le> 70 then Some (n - 65 + 10)
         else None)"

fun percent_bytes :: "string \<Rightarrow> string" where
  "percent_bytes (p # a # b # s) =
     (if p = CHR ''%'' then
        (case (hex_value a, hex_value b) of
           (Some h, Some l) \<Rightarrow> char_of (h * 16 + l) # percent_bytes s
         | _ \<Rightarrow> p # percent_bytes (a # b # s))
      else p # percent_bytes (a # b # s))"
| "percent_bytes s = s"

definition percent_decode :: "string \<Rightarrow> string" where
  "percent_decode s =
     (let out = percent_bytes s in if valid_utf8 out then out else from_utf8_lossy out)"

definition decode_file_uri :: "string \<Rightarrow> string option" where
  "decode_file_uri s =
     map_option
       (\<lambda>rest. percent_decode (if CHR ''/'' \<in> set rest then dropWhile (\<lambda>c. c \<noteq> CHR ''/'') rest else rest))
       (strip_prefix s ''file://'')"

fun unescape_bytes :: "string \<Rightarrow> string" where
  "unescape_bytes (a # b # s) =
     (if a = CHR 0x5C \<and> b = CHR '' '' then b # unescape_bytes s else a # unescape_bytes (b # s))"
| "unescape_bytes s = s"

definition unescape_shell_spaces :: "string \<Rightarrow> string" where
  "unescape_shell_spaces s = from_utf8_lossy (unescape_bytes s)"

definition normalize_dropped_path :: "string \<Rightarrow> string" where
  "normalize_dropped_path input =
     (let s = strip_matching_surrounding_quotes (strip_powershell_call_prefix (trim input));
          s = unwrap_or (decode_file_uri s) s
      in unescape_shell_spaces s)"

definition looks_like_windows_drive_path :: "string \<Rightarrow> bool" where
  "looks_like_windows_drive_path s \<longleftrightarrow>
     length s \<ge> 3 \<and> (is_upper (s ! 0) \<or> is_lower (s ! 0)) \<and> s ! 1 = CHR '':'' \<and>
     (s ! 2 = CHR 0x5C \<or> s ! 2 = CHR ''/'')"

definition looks_like_msys_drive_path :: "string \<Rightarrow> bool" where
  "looks_like_msys_drive_path s \<longleftrightarrow>
     length s \<ge> 3 \<and> s ! 0 = CHR ''/'' \<and> (is_upper (s ! 1) \<or> is_lower (s ! 1)) \<and> s ! 2 = CHR ''/''"

definition is_posix_absolute_with_extension :: "string \<Rightarrow> bool" where
  "is_posix_absolute_with_extension s \<longleftrightarrow>
     starts_with s ''/'' \<and>
     (let name = last (split_on (CHR ''/'') s) in CHR ''.'' \<in> set name \<and> \<not> starts_with name ''.'')"

definition looks_like_dropped_path :: "string \<Rightarrow> bool" where
  "looks_like_dropped_path input \<longleftrightarrow>
     (let s = trim input
      in s \<noteq> [] \<and>
         (starts_with s ''file://'' \<or>
          (let inner = strip_matching_surrounding_quotes
                (strip_powershell_call_prefix (strip_matching_surrounding_quotes s))
           in looks_like_windows_drive_path inner \<or> looks_like_msys_drive_path inner \<or>
              is_posix_absolute_with_extension inner)))"

section \<open>Pastes\<close>

definition paste_start :: string where
  "paste_start = esc # ''[200~''"

definition paste_end :: string where
  "paste_end = esc # ''[201~''"

record paste_normalizer =
  pn_start_match :: nat
  pn_inside :: "string option"
  pn_end_match :: nat

definition new_paste_normalizer :: paste_normalizer where
  "new_paste_normalizer = \<lparr>pn_start_match = 0, pn_inside = None, pn_end_match = 0\<rparr>"

definition paste_body :: "string \<Rightarrow> string" where
  "paste_body inner =
     (if valid_utf8 inner \<and> looks_like_dropped_path inner then normalize_dropped_path inner else inner)"

definition paste_block :: "string \<Rightarrow> string" where
  "paste_block inner = paste_start @ paste_body inner @ paste_end"

definition paste_byte :: "paste_normalizer \<Rightarrow> char \<Rightarrow> paste_normalizer \<times> string" where
  "paste_byte s b =
     (case pn_inside s of
        Some buf \<Rightarrow>
          if b = paste_end ! pn_end_match s then
            (if pn_end_match s + 1 = length paste_end
             then (s\<lparr>pn_inside := None, pn_end_match := 0\<rparr>, paste_block buf)
             else (s\<lparr>pn_end_match := pn_end_match s + 1\<rparr>, []))
          else if pn_end_match s > 0 then
            (let buf = buf @ take (pn_end_match s) paste_end; n = (if b = hd paste_end then 1 else 0)
             in (s\<lparr>pn_inside := Some (if n = 0 then buf @ [b] else buf), pn_end_match := n\<rparr>, []))
          else (s\<lparr>pn_inside := Some (buf @ [b])\<rparr>, [])
      | None \<Rightarrow>
          if b = paste_start ! pn_start_match s then
            (if pn_start_match s + 1 = length paste_start
             then (s\<lparr>pn_start_match := 0, pn_end_match := 0, pn_inside := Some []\<rparr>, [])
             else (s\<lparr>pn_start_match := pn_start_match s + 1\<rparr>, []))
          else if pn_start_match s > 0 then
            (let n = (if b = hd paste_start then 1 else 0 :: nat)
             in (s\<lparr>pn_start_match := n\<rparr>, take (pn_start_match s) paste_start @ (if n = 0 then [b] else [])))
          else (s, [b]))"

definition process_paste :: "paste_normalizer \<Rightarrow> string \<Rightarrow> paste_normalizer \<times> string" where
  "process_paste = run_machine paste_byte"

interpretation pastes: chunked_machine process_paste "\<lambda>_. True" "\<lambda>_. True"
  unfolding process_paste_def by (rule run_machine_chunked)

end
