(* ===== verification/Terminal_Fidelity.thy ===== *)
theory Terminal_Fidelity
  imports Terminal_Filters
begin

text \<open>
  What the terminal filters do to a whole stream: the paste filter rewrites the bodies of bracketed pastes and
  nothing else, the title filter removes the title sequences of a stream and nothing else as long as every
  other sequence has a semicolon.
\<close>

section \<open>Finding a marker\<close>

fun split_first :: "string \<Rightarrow> string \<Rightarrow> (string \<times> string) option" where
  "split_first p [] = None"
| "split_first p (c # s) =
     (if prefix p (c # s) then Some ([], drop (length p) (c # s))
      else map_option (\<lambda>(a, r). (c # a, r)) (split_first p s))"

lemma split_first_SomeD:
  "split_first p s = Some (a, r) \<Longrightarrow> s = a @ p @ r"
proof (induction s arbitrary: a)
  case (Cons c s)
  then show ?case by (auto simp: prefix_def split: if_splits)
qed simp

text \<open>
  A marker whose first byte does not occur again in it: after a partial match that breaks, a new one can only
  start at the byte that broke it.
\<close>

locale marker =
  fixes p :: string and e :: char and q :: string
  assumes marker: "p = e # q" and once: "e \<notin> set q" and long: "q \<noteq> []"
begin

lemma take_marker: "take (Suc k) p = e # take k q"
  by (simp add: marker)

lemma split_first_skip:
  "e \<notin> set xs \<Longrightarrow> split_first p (xs @ s) = map_option (\<lambda>(a, r). (xs @ a, r)) (split_first p s)"
proof (induction xs)
  case Nil
  then show ?case by (cases "split_first p s") auto
next
  case (Cons x xs)
  then show ?case
    by (cases "split_first p s") (auto simp: marker split: option.split)
qed

lemma split_first_match:
  "split_first p (p @ s) = Some ([], s)"
  by (simp add: marker)

lemma partial_not_prefix:
  assumes "k < length p" "b \<noteq> p ! k"
  shows "\<not> prefix p (take k p @ b # s)"
proof
  assume "prefix p (take k p @ b # s)"
  then obtain t where t: "take k p @ b # s = p @ t" by (auto simp: prefix_def)
  have "(take k p @ b # s) ! k = b" using assms(1) by (simp add: nth_append)
  moreover have "(p @ t) ! k = p ! k" using assms(1) by (simp add: nth_append)
  ultimately show False using assms(2) t by metis
qed

text \<open>The three ways a partial match goes on.\<close>

lemma split_first_broken:
  assumes "k < length p" "b \<noteq> p ! k"
  shows "split_first p (take k p @ b # s) =
    map_option (\<lambda>(a, r). (take k p @ (if k > 0 \<and> b = e then [] else [b]) @ a, r))
      (split_first p (if k > 0 \<and> b = e then b # s else s))"
proof (cases k)
  case 0
  then have "b \<noteq> e" using assms by (simp add: marker)
  then show ?thesis using 0 by (simp add: marker)
next
  case (Suc j)
  have "e \<notin> set (take j q)" using once by (meson in_set_takeD)
  have first: "split_first p (take k p @ b # s) =
      map_option (\<lambda>(a, r). (e # a, r)) (split_first p (take j q @ b # s))"
    using partial_not_prefix [OF assms, of s] by (simp add: Suc take_marker)
  show ?thesis
  proof (cases "b = e")
    case True
    have "split_first p (take k p @ b # s) =
        map_option (\<lambda>(a, r). (e # a, r)) (map_option (\<lambda>(a, r). (take j q @ a, r)) (split_first p (b # s)))"
      unfolding first split_first_skip [OF \<open>e \<notin> set (take j q)\<close>] ..
    then show ?thesis
      using True Suc
      by (simp add: take_marker option.map_comp comp_def case_prod_beta' del: split_first.simps)
  next
    case False
    then have "e \<notin> set (take j q @ [b])" using \<open>e \<notin> set (take j q)\<close> by simp
    from split_first_skip [OF this, of s] have "split_first p (take k p @ b # s) =
        map_option (\<lambda>(a, r). (e # a, r)) (map_option (\<lambda>(a, r). (take j q @ b # a, r)) (split_first p s))"
      unfolding first by simp
    then show ?thesis
      using False Suc
      by (simp add: take_marker option.map_comp comp_def case_prod_beta' del: split_first.simps)
  qed
qed

end

interpretation starts: marker paste_start esc "''[200~''"
  by unfold_locales (simp_all add: paste_start_def)

interpretation ends: marker paste_end esc "''[201~''"
  by unfold_locales (simp_all add: paste_end_def)

section \<open>Pastes\<close>

function rewrite_pastes :: "string \<Rightarrow> string" where
  "rewrite_pastes s =
     (case split_first paste_start s of
        None \<Rightarrow> s
      | Some (a, r) \<Rightarrow>
          (case split_first paste_end r of
             None \<Rightarrow> s
           | Some (body, r') \<Rightarrow> a @ paste_block body @ rewrite_pastes r'))"
  by pat_completeness auto
termination
  by (relation "measure length") (auto dest!: split_first_SomeD simp: paste_start_def)

declare rewrite_pastes.simps [simp del]

text \<open>What the filter holds back.\<close>

definition held_back :: "paste_normalizer \<Rightarrow> string" where
  "held_back s =
     (case pn_inside s of
        None \<Rightarrow> take (pn_start_match s) paste_start
      | Some buf \<Rightarrow> paste_start @ buf @ take (pn_end_match s) paste_end)"

definition inside_rest :: "string \<Rightarrow> string \<Rightarrow> string" where
  "inside_rest buf s =
     (case split_first paste_end s of
        None \<Rightarrow> paste_start @ buf @ s
      | Some (body, r) \<Rightarrow> paste_block (buf @ body) @ rewrite_pastes r)"

definition rest_of :: "paste_normalizer \<Rightarrow> string \<Rightarrow> string" where
  "rest_of st s =
     (case pn_inside st of
        None \<Rightarrow> rewrite_pastes (take (pn_start_match st) paste_start @ s)
      | Some buf \<Rightarrow> inside_rest buf (take (pn_end_match st) paste_end @ s))"

definition paste_ok :: "paste_normalizer \<Rightarrow> bool" where
  "paste_ok st \<longleftrightarrow> pn_start_match st < length paste_start \<and> pn_end_match st < length paste_end \<and>
     (pn_inside st \<noteq> None \<longrightarrow> pn_start_match st = 0)"

lemma rewrite_skip:
  assumes "split_first paste_start (xs @ s) = map_option (\<lambda>(a, r). (xs @ a, r)) (split_first paste_start s)"
  shows "rewrite_pastes (xs @ s) = xs @ rewrite_pastes s"
  using assms
  by (simp add: rewrite_pastes.simps [of "xs @ s"] rewrite_pastes.simps [of s] split: option.split prod.split)

lemma rewrite_start: "rewrite_pastes (paste_start @ s) = inside_rest [] s"
  by (simp add: rewrite_pastes.simps [of "paste_start @ s"] starts.split_first_match inside_rest_def
      split: option.split prod.split)

lemma inside_skip:
  assumes "split_first paste_end (xs @ s) = map_option (\<lambda>(a, r). (xs @ a, r)) (split_first paste_end s)"
  shows "inside_rest buf (xs @ s) = inside_rest (buf @ xs) s"
  using assms by (simp add: inside_rest_def split: option.split prod.split)

lemma take_Suc_next: "k < length p \<Longrightarrow> take k p @ p ! k # s = take (Suc k) p @ s"
  by (simp add: take_Suc_conv_app_nth)

lemma paste_byte_step:
  assumes "paste_ok st" "paste_byte st b = (st', out)"
  shows "paste_ok st' \<and> rest_of st (b # s) = out @ rest_of st' s"
proof (cases "pn_inside st")
  case None
  let ?k = "pn_start_match st"
  have k: "?k < length paste_start" using assms(1) by (simp add: paste_ok_def)
  show ?thesis
  proof (cases "b = paste_start ! ?k")
    case True
    have next_rest: "rest_of st (b # s) = rewrite_pastes (take (Suc ?k) paste_start @ s)"
      by (simp add: rest_of_def None True take_Suc_next [OF k])
    show ?thesis
    proof (cases "?k + 1 = length paste_start")
      case True2: True
      then show ?thesis
        using assms None True next_rest rewrite_start [of s]
        by (auto simp: paste_byte_def paste_ok_def rest_of_def paste_end_def)
    next
      case False
      then show ?thesis
        using assms None True next_rest k
        by (auto simp: paste_byte_def paste_ok_def rest_of_def)
    qed
  next
    case False
    note broken = starts.split_first_broken [OF k False, of s]
    show ?thesis
    proof (cases "?k > 0 \<and> b = esc")
      case True
      have "rewrite_pastes (take ?k paste_start @ (b # s)) = take ?k paste_start @ rewrite_pastes (b # s)"
        by (rule rewrite_skip) (use broken True in simp)
      then show ?thesis
        using assms None False True
        by (auto simp: paste_byte_def paste_ok_def rest_of_def Let_def paste_start_def)
    next
      case not: False
      have "rewrite_pastes ((take ?k paste_start @ [b]) @ s) = (take ?k paste_start @ [b]) @ rewrite_pastes s"
        by (rule rewrite_skip) (use broken not in auto)
      then show ?thesis
        using assms None False not
        by (auto simp: paste_byte_def paste_ok_def rest_of_def Let_def paste_start_def split: if_splits)
    qed
  qed
next
  case (Some buf)
  let ?k = "pn_end_match st"
  have k: "?k < length paste_end" using assms(1) by (simp add: paste_ok_def)
  show ?thesis
  proof (cases "b = paste_end ! ?k")
    case True
    have next_rest: "rest_of st (b # s) = inside_rest buf (take (Suc ?k) paste_end @ s)"
      by (simp add: rest_of_def Some True take_Suc_next [OF k])
    show ?thesis
    proof (cases "?k + 1 = length paste_end")
      case True2: True
      have "inside_rest buf (paste_end @ s) = paste_block buf @ rewrite_pastes s"
        by (simp add: inside_rest_def ends.split_first_match)
      then show ?thesis
        using assms Some True True2 next_rest
        by (auto simp: paste_byte_def paste_ok_def rest_of_def)
    next
      case False
      then show ?thesis
        using assms Some True next_rest k by (auto simp: paste_byte_def paste_ok_def rest_of_def)
    qed
  next
    case False
    note broken = ends.split_first_broken [OF k False, of s]
    show ?thesis
    proof (cases "?k > 0 \<and> b = esc")
      case True
      have "inside_rest buf (take ?k paste_end @ (b # s)) = inside_rest (buf @ take ?k paste_end) (b # s)"
        by (rule inside_skip) (use broken True in simp)
      then show ?thesis
        using assms Some False True
        by (auto simp: paste_byte_def paste_ok_def rest_of_def Let_def paste_end_def)
    next
      case not: False
      have "inside_rest buf ((take ?k paste_end @ [b]) @ s) = inside_rest (buf @ take ?k paste_end @ [b]) s"
        by (rule inside_skip) (use broken not in auto)
      then show ?thesis
        using assms Some False not
        by (auto simp: paste_byte_def paste_ok_def rest_of_def Let_def paste_end_def split: if_splits)
    qed
  qed
qed

lemma process_paste_rest:
  "paste_ok st \<Longrightarrow> process_paste st s = (st', out) \<Longrightarrow> paste_ok st' \<and> rest_of st s = out @ rest_of st' []"
proof (induction s arbitrary: st out)
  case Nil
  then show ?case by (simp add: process_paste_def)
next
  case (Cons b s)
  obtain st1 out1 where step: "paste_byte st b = (st1, out1)" by fastforce
  obtain outs where rest: "process_paste st1 s = (st', outs)" and out: "out = out1 @ outs"
    using Cons.prems(2) step by (auto simp: process_paste_def Let_def split: prod.splits)
  have "paste_ok st1 \<and> rest_of st (b # s) = out1 @ rest_of st1 s"
    by (rule paste_byte_step [OF Cons.prems(1) step])
  with Cons.IH [OF _ rest] show ?case by (simp add: out)
qed

lemma short_has_no_marker: "length s < length p \<Longrightarrow> split_first p s = None"
proof -
  assume short: "length s < length p"
  have "split_first p s = Some x \<Longrightarrow> False" for x
    using split_first_SomeD [of p s "fst x" "snd x"] short by simp
  then show ?thesis by (cases "split_first p s") auto
qed

lemma rest_is_held:
  assumes "paste_ok st"
  shows "rest_of st [] = held_back st"
  using assms
  by (auto simp: rest_of_def held_back_def paste_ok_def inside_rest_def rewrite_pastes.simps
      short_has_no_marker split: option.split)

text \<open>
  C30. However the input of a session is cut into reads, what is forwarded followed by what is held back is the
  input with the body of every complete bracketed paste rewritten when it looks like a dropped path, and every
  other byte as it was. What is held back is a marker that has begun, or a paste that has not ended.
\<close>

theorem pastes_are_rewritten_exactly:
  assumes "run_chunks process_paste new_paste_normalizer reads = (st, out)"
  shows "out @ held_back st = rewrite_pastes (concat reads)"
proof -
  have "process_paste new_paste_normalizer (concat reads) = (st, out)"
    using assms pastes.run_chunks_concat [where s = new_paste_normalizer and cs = reads] by (simp add: list_all_iff)
  moreover have "paste_ok new_paste_normalizer"
    by (simp add: paste_ok_def new_paste_normalizer_def paste_start_def paste_end_def)
  ultimately have "paste_ok st \<and> rest_of new_paste_normalizer (concat reads) = out @ rest_of st []"
    using process_paste_rest by blast
  then have "out @ held_back st = rest_of new_paste_normalizer (concat reads)"
    by (simp add: rest_is_held)
  then show ?thesis by (simp add: rest_of_def new_paste_normalizer_def)
qed

theorem pastes_are_rewritten_exactly_witness:
  "held_back (fst (run_chunks process_paste new_paste_normalizer
       [''a'' @ esc # ''[20'', ''0~'' @ ''file:///x%20y.t'' @ esc # ''[2'', ''01~b'' @ [esc]])) = [esc] \<and>
   snd (run_chunks process_paste new_paste_normalizer
       [''a'' @ esc # ''[20'', ''0~'' @ ''file:///x%20y.t'' @ esc # ''[2'', ''01~b'' @ [esc]]) =
     ''a'' @ paste_start @ ''/x y.t'' @ paste_end @ ''b''"
proof -
  let ?reads = "[''a'' @ esc # ''[20'', ''0~'' @ ''file:///x%20y.t'' @ esc # ''[2'', ''01~b'' @ [esc]]"
  let ?r = "''file:///x%20y.t'' @ paste_end @ ''b'' @ [esc]"
  have "split_first paste_start (concat ?reads) = Some (''a'', ?r)"
    "split_first paste_end ?r = Some (''file:///x%20y.t'', ''b'' @ [esc])"
    "split_first paste_start (''b'' @ [esc]) = None"
    "paste_body ''file:///x%20y.t'' = ''/x y.t''"
    by code_simp+
  then have "rewrite_pastes (concat ?reads) = ''a'' @ paste_start @ ''/x y.t'' @ paste_end @ ''b'' @ [esc]"
    by (simp only: rewrite_pastes.simps [of "concat ?reads"] rewrite_pastes.simps [of "''b'' @ [esc]"]
        option.case prod.case paste_block_def append_assoc)
  moreover have "held_back (fst (run_chunks process_paste new_paste_normalizer ?reads)) = [esc]" by code_simp
  ultimately show ?thesis
    using pastes_are_rewritten_exactly [of ?reads, OF prod.collapse [symmetric]] by simp
qed

text \<open>A key press of escape is the start of a marker and held back until the next byte arrives.\<close>

lemma lone_escape_is_held_back:
  "process_paste new_paste_normalizer [esc] = (new_paste_normalizer\<lparr>pn_start_match := 1\<rparr>, [])"
  by (simp add: process_paste_def paste_byte_def new_paste_normalizer_def paste_start_def)

section \<open>Titles\<close>

datatype osc_end = Bel | St

fun end_bytes :: "osc_end \<Rightarrow> string" where
  "end_bytes Bel = [bel]"
| "end_bytes St = [esc, CHR 0x5C]"

text \<open>Terminal output as plain bytes, escape sequences of two bytes or more, and operating system commands.\<close>

datatype osc_token = Plain char | Escaped char | Osc string string osc_end

fun token_bytes :: "osc_token \<Rightarrow> string" where
  "token_bytes (Plain c) = [c]"
| "token_bytes (Escaped c) = [esc, c]"
| "token_bytes (Osc n body t) = [esc, CHR '']''] @ n @ '';'' @ body @ end_bytes t"

fun token_ok :: "osc_token \<Rightarrow> bool" where
  "token_ok (Plain c) = (c \<noteq> esc)"
| "token_ok (Escaped c) = (c \<noteq> esc \<and> c \<noteq> CHR '']'')"
| "token_ok (Osc n body t) = (list_all is_digit n \<and> list_all (\<lambda>c. c \<noteq> esc \<and> c \<noteq> bel) body)"

fun is_title :: "osc_token \<Rightarrow> bool" where
  "is_title (Osc n body t) = (n = ''0'' \<or> n = ''2'')"
| "is_title _ = False"

lemma strip_append:
  "strip_titles s (xs @ ys) =
    (let (s', out) = strip_titles s xs; (s'', outs) = strip_titles s' ys in (s'', out @ outs))"
  by (rule titles.push_append) simp_all

lemma strip_digits:
  "os_state s = InOscNumber \<Longrightarrow> list_all is_digit n \<Longrightarrow>
   strip_titles s n = (s\<lparr>os_digits := os_digits s @ n\<rparr>, [])"
  by (induction n arbitrary: s) (auto simp: strip_titles_def process_byte_def Let_def)

lemma strip_swallowed:
  "os_state s = SwallowOscBody \<Longrightarrow> list_all (\<lambda>c. c \<noteq> esc \<and> c \<noteq> bel) body \<Longrightarrow>
   strip_titles s (body @ end_bytes t) = (s\<lparr>os_state := Normal\<rparr>, [])"
  by (induction body arbitrary: s; cases t) (auto simp: strip_titles_def process_byte_def Let_def)

lemma strip_passed:
  "os_state s = PassthroughOscBody \<Longrightarrow> list_all (\<lambda>c. c \<noteq> esc \<and> c \<noteq> bel) body \<Longrightarrow>
   strip_titles s (body @ end_bytes t) = (s\<lparr>os_state := Normal\<rparr>, body @ end_bytes t)"
  by (induction body arbitrary: s; cases t) (auto simp: strip_titles_def process_byte_def Let_def)

lemma strip_number:
  assumes "list_all is_digit n"
  shows "strip_titles new_stripper ([esc, CHR '']''] @ n @ '';'') =
    (if n = ''0'' \<or> n = ''2'' then (\<lparr>os_state = SwallowOscBody, os_digits = []\<rparr>, [])
     else (\<lparr>os_state = PassthroughOscBody, os_digits = []\<rparr>, [esc, CHR '']''] @ n @ '';''))"
proof -
  let ?s = "\<lparr>os_state = InOscNumber, os_digits = []\<rparr>"
  have "strip_titles new_stripper [esc, CHR '']''] = (?s, [])"
    by (simp add: strip_titles_def process_byte_def new_stripper_def)
  moreover have "strip_titles ?s n = (?s\<lparr>os_digits := n\<rparr>, [])"
    using strip_digits [of ?s n] assms by simp
  moreover have "\<not> is_digit CHR '';''" by code_simp
  ultimately show ?thesis
    by (simp add: strip_append del: append.simps) (simp add: strip_titles_def process_byte_def)
qed

lemma strip_token:
  assumes "token_ok t"
  shows "strip_titles new_stripper (token_bytes t) = (new_stripper, if is_title t then [] else token_bytes t)"
proof (cases t)
  case (Osc n body e)
  have parts: "token_bytes t = ([esc, CHR '']''] @ n @ '';'') @ (body @ end_bytes e)" by (simp add: Osc)
  have split: "strip_titles new_stripper (token_bytes t) =
      (let (s', out) = strip_titles new_stripper ([esc, CHR '']''] @ n @ '';'');
           (s'', outs) = strip_titles s' (body @ end_bytes e) in (s'', out @ outs))"
    unfolding parts by (rule strip_append)
  have ok: "list_all is_digit n" "list_all (\<lambda>c. c \<noteq> esc \<and> c \<noteq> bel) body"
    using assms by (simp_all add: Osc)
  show ?thesis
  proof (cases "n = ''0'' \<or> n = ''2''")
    case True
    then show ?thesis
      unfolding split strip_number [OF ok(1)]
      using strip_swallowed [OF _ ok(2), of "\<lparr>os_state = SwallowOscBody, os_digits = []\<rparr>" e]
      by (auto simp: Osc new_stripper_def)
  next
    case False
    then show ?thesis
      unfolding split strip_number [OF ok(1)]
      using strip_passed [OF _ ok(2), of "\<lparr>os_state = PassthroughOscBody, os_digits = []\<rparr>" e]
      by (auto simp: Osc new_stripper_def)
  qed
qed (use assms in \<open>auto simp: strip_titles_def process_byte_def new_stripper_def\<close>)

lemma strip_tokens:
  "list_all token_ok ts \<Longrightarrow>
   strip_titles new_stripper (concat (map token_bytes ts)) =
     (new_stripper, concat (map token_bytes (filter (\<lambda>t. \<not> is_title t) ts)))"
proof (induction ts)
  case Nil then show ?case by (simp add: strip_titles_def)
next
  case (Cons t ts)
  then show ?case using strip_token [of t] by (simp add: strip_append)
qed

text \<open>
  C31. Output made of plain bytes, escape sequences and operating system commands with a number and a semicolon
  comes out without its title commands and otherwise byte for byte, however it is cut into reads.
\<close>

theorem only_titles_are_stripped:
  assumes "list_all token_ok ts" "concat reads = concat (map token_bytes ts)"
  shows "run_chunks strip_titles new_stripper reads =
    (new_stripper, concat (map token_bytes (filter (\<lambda>t. \<not> is_title t) ts)))"
  using titles.run_chunks_concat [where s = new_stripper and cs = reads] strip_tokens [OF assms(1)] assms(2)
  by (simp add: list_all_iff)

theorem only_titles_are_stripped_witness:
  "run_chunks strip_titles new_stripper
     [''a'' @ [esc], '']0;ti'', ''tle'' @ [bel] @ ''b'' @ esc # '']8;;u'' @ [esc], [CHR 0x5C]] =
   (new_stripper, ''ab'' @ esc # '']8;;u'' @ [esc, CHR 0x5C])"
proof -
  let ?ts = "[Plain CHR ''a'', Osc ''0'' ''title'' Bel, Plain CHR ''b'', Osc ''8'' '';u'' St]"
  let ?reads = "[''a'' @ [esc], '']0;ti'', ''tle'' @ [bel] @ ''b'' @ esc # '']8;;u'' @ [esc], [CHR 0x5C]]"
  have "list_all token_ok ?ts" "concat ?reads = concat (map token_bytes ?ts)"
    "concat (map token_bytes (filter (\<lambda>t. \<not> is_title t) ?ts)) = ''ab'' @ esc # '']8;;u'' @ [esc, CHR 0x5C]"
    by code_simp+
  with only_titles_are_stripped [of ?ts ?reads] show ?thesis by metis
qed

text \<open>
  A command without a semicolon does not survive: ended by a bell it is dropped whole, whatever its number,
  and ended by the string terminator it loses the escape of its terminator, so that the terminal is left inside
  the command.
\<close>

theorem commands_without_semicolon_are_damaged:
  assumes "list_all is_digit n"
  shows "strip_titles new_stripper ([esc, CHR '']''] @ n @ [bel]) = (new_stripper, []) \<and>
    strip_titles new_stripper ([esc, CHR '']''] @ n @ [esc, CHR 0x5C]) =
      (new_stripper, [esc, CHR '']''] @ n @ [CHR 0x5C])"
proof -
  let ?s = "\<lparr>os_state = InOscNumber, os_digits = []\<rparr>"
  have "strip_titles new_stripper [esc, CHR '']''] = (?s, [])"
    by (simp add: strip_titles_def process_byte_def new_stripper_def)
  moreover have "strip_titles ?s n = (?s\<lparr>os_digits := n\<rparr>, [])"
    using strip_digits [of ?s n] assms by simp
  moreover have "\<not> is_digit bel" "\<not> is_digit esc" by code_simp+
  ultimately show ?thesis
    by (simp add: strip_append del: append.simps) (simp add: strip_titles_def process_byte_def new_stripper_def)
qed

theorem commands_without_semicolon_are_damaged_witness:
  "strip_titles new_stripper (esc # '']112'' @ [esc, CHR 0x5C]) = (new_stripper, esc # '']112'' @ [CHR 0x5C])"
  using commands_without_semicolon_are_damaged [of "''112''"] by (simp add: is_digit_def code_of_def)

end
