(* ===== verification/Process_Facts.thy ===== *)
theory Process_Facts
  imports Rust_Text
begin

text \<open>
  Who a process is and why it must survive: \<^verbatim>\<open>process_identity.rs\<close>, \<^verbatim>\<open>reaper_facts.rs\<close> and the kill of a
  process tree in \<^verbatim>\<open>process_tree.rs\<close>. A process id is a natural number, since the code only compares it; a
  start time of zero stands for one that was not recorded. What the operating system reports (a process table
  in any order, the process that holds an id now) is an argument. The walks over parent links keep no set of
  visited processes, so they are instances of \<open>stack_walk\<close>, whose value \<open>None\<close> is a walk that never returns.
\<close>

type_synonym pid = nat

section \<open>Walks with an explicit stack\<close>

text \<open>
  \<^verbatim>\<open>while let Some(item) = stack.pop()\<close>: a visit yields what is appended to the result and what is pushed,
  the next item to be popped first.
\<close>

partial_function (option) stack_walk :: "('i \<Rightarrow> 'o list \<times> 'i list) \<Rightarrow> 'i list \<Rightarrow> 'o list \<Rightarrow> 'o list option" where
  "stack_walk visit st acc =
     (case st of [] \<Rightarrow> Some acc
      | i # rest \<Rightarrow> stack_walk visit (snd (visit i) @ rest) (acc @ fst (visit i)))"

lemma stack_walk_simps [simp, code]:
  "stack_walk visit [] acc = Some acc"
  "stack_walk visit (i # rest) acc = stack_walk visit (snd (visit i) @ rest) (acc @ fst (visit i))"
  by (simp_all add: stack_walk.simps)

text \<open>The visit of an item and of all that it pushes ends.\<close>

inductive visit_ends :: "('i \<Rightarrow> 'o list \<times> 'i list) \<Rightarrow> 'i \<Rightarrow> bool" for visit where
  visit_ends: "(\<And>j. j \<in> set (snd (visit i)) \<Longrightarrow> visit_ends visit j) \<Longrightarrow> visit_ends visit i"

text \<open>What a walk that starts from some items visits.\<close>

inductive visited :: "('i \<Rightarrow> 'o list \<times> 'i list) \<Rightarrow> 'i list \<Rightarrow> 'i \<Rightarrow> bool" for visit st where
  visited_start: "i \<in> set st \<Longrightarrow> visited visit st i"
| visited_next: "visited visit st i \<Longrightarrow> j \<in> set (snd (visit i)) \<Longrightarrow> visited visit st j"

lemma visited_trans: "visited visit [k] j \<Longrightarrow> visited visit st k \<Longrightarrow> visited visit st j"
proof (induction rule: visited.induct)
  case (visited_next l m)
  then show ?case by (blast intro: visited.visited_next)
qed simp

lemma visit_ends_output:
  "visit_ends visit i \<Longrightarrow>
   \<exists>out. (\<forall>rest acc. stack_walk visit (i # rest) acc = stack_walk visit rest (acc @ out)) \<and>
     set out = (\<Union>j\<in>{j. visited visit [i] j}. set (fst (visit j)))"
proof (induction rule: visit_ends.induct)
  case (visit_ends i)
  have list: "set is \<subseteq> set (snd (visit i)) \<Longrightarrow>
     \<exists>out. (\<forall>rest acc. stack_walk visit (is @ rest) acc = stack_walk visit rest (acc @ out)) \<and>
       set out = (\<Union>j\<in>{j. \<exists>k\<in>set is. visited visit [k] j}. set (fst (visit j)))" for "is"
  proof (induction "is")
    case Nil then show ?case by (intro exI [of _ "[]"]) auto
  next
    case (Cons k ks)
    obtain a where a: "\<And>rest acc. stack_walk visit (k # rest) acc = stack_walk visit rest (acc @ a)"
      "set a = (\<Union>j\<in>{j. visited visit [k] j}. set (fst (visit j)))"
      using visit_ends.IH [of k] Cons.prems by auto
    obtain b where b: "\<And>rest acc. stack_walk visit (ks @ rest) acc = stack_walk visit rest (acc @ b)"
      "set b = (\<Union>j\<in>{j. \<exists>k\<in>set ks. visited visit [k] j}. set (fst (visit j)))"
      using Cons by auto
    show ?case
    proof (intro exI [of _ "a @ b"] conjI allI)
      fix rest acc
      show "stack_walk visit ((k # ks) @ rest) acc = stack_walk visit rest (acc @ a @ b)"
        using a(1) [of "ks @ rest" acc] b(1) [of rest "acc @ a"] by simp
      show "set (a @ b) = (\<Union>j\<in>{j. \<exists>k\<in>set (k # ks). visited visit [k] j}. set (fst (visit j)))"
        using a(2) b(2) by auto
    qed
  qed
  obtain out where out: "\<And>rest acc. stack_walk visit (snd (visit i) @ rest) acc = stack_walk visit rest (acc @ out)"
    "set out = (\<Union>j\<in>{j. \<exists>k\<in>set (snd (visit i)). visited visit [k] j}. set (fst (visit j)))"
    using list [of "snd (visit i)"] by auto
  have split: "visited visit [i] j \<longleftrightarrow> j = i \<or> (\<exists>k\<in>set (snd (visit i)). visited visit [k] j)" for j
  proof
    assume "visited visit [i] j"
    then show "j = i \<or> (\<exists>k\<in>set (snd (visit i)). visited visit [k] j)"
    proof induction
      case (visited_next k j)
      then show ?case by (metis list.set_intros(1) visited.intros)
    qed simp
  next
    assume "j = i \<or> (\<exists>k\<in>set (snd (visit i)). visited visit [k] j)"
    then show "visited visit [i] j"
      using visited_trans [of visit _ j "[i]"] visited_next [of visit "[i]" i] visited_start [of i "[i]" visit]
      by auto
  qed
  show ?case
  proof (intro exI [of _ "fst (visit i) @ out"] conjI allI)
    fix rest acc
    show "stack_walk visit (i # rest) acc = stack_walk visit rest (acc @ fst (visit i) @ out)"
      using out(1) [of rest "acc @ fst (visit i)"] by (simp del: stack_walk_simps(1))
    show "set (fst (visit i) @ out) = (\<Union>j\<in>{j. visited visit [i] j}. set (fst (visit j)))"
      using out(2) by (auto simp: split)
  qed
qed

lemma visited_from_one: "visited visit st j \<longleftrightarrow> (\<exists>i\<in>set st. visited visit [i] j)"
proof
  assume "visited visit st j"
  then show "\<exists>i\<in>set st. visited visit [i] j"
    by induction (meson list.set_intros(1) visited.intros)+
next
  assume "\<exists>i\<in>set st. visited visit [i] j"
  then show "visited visit st j" by (blast intro: visited_trans visited_start)
qed

lemma stack_walk_returns:
  assumes "\<And>i. i \<in> set st \<Longrightarrow> visit_ends visit i"
  shows "\<exists>out. stack_walk visit st acc = Some (acc @ out) \<and>
    set out = (\<Union>j\<in>{j. visited visit st j}. set (fst (visit j)))"
  using assms
proof (induction st arbitrary: acc)
  case Nil
  have "\<not> visited visit [] j" for j
    by (simp add: visited_from_one [of visit "[]"])
  then show ?case by simp
next
  case (Cons i rest)
  obtain a where a: "\<And>rest acc. stack_walk visit (i # rest) acc = stack_walk visit rest (acc @ a)"
    "set a = (\<Union>j\<in>{j. visited visit [i] j}. set (fst (visit j)))"
    using visit_ends_output [of visit i] Cons.prems by auto
  obtain b where b: "stack_walk visit rest (acc @ a) = Some ((acc @ a) @ b)"
    "set b = (\<Union>j\<in>{j. visited visit rest j}. set (fst (visit j)))"
    using Cons.IH [of "acc @ a"] Cons.prems by auto
  have split: "visited visit (i # rest) j \<longleftrightarrow> visited visit [i] j \<or> visited visit rest j" for j
    by (simp add: visited_from_one [of visit "i # rest"] visited_from_one [of visit rest])
  show ?case
    using a(1) [of rest acc] b a(2)
    by (intro exI [of _ "a @ b"]) (auto simp: split simp del: stack_walk_simps(2))
qed

lemma stack_walk_ends:
  assumes "stack_walk visit st acc = Some out" "i \<in> set st"
  shows "visit_ends visit i"
  using assms
proof (induction arbitrary: i rule: stack_walk.raw_induct [rotated 1, consumes 1])
  case (1 walk visit st acc out)
  show ?case
  proof (cases st)
    case (Cons k rest)
    have IH: "j \<in> set (snd (visit k) @ rest) \<Longrightarrow> visit_ends visit j" for j
      using 1(1) [of visit "snd (visit k) @ rest" "acc @ fst (visit k)" out j] 1(2) Cons by simp
    then show ?thesis
      using 1(3) Cons by (cases "i = k") (auto intro: visit_ends.intros)
  qed (use 1 in simp)
qed

lemma stack_walk_Some_iff: "(\<exists>out. stack_walk visit st acc = Some out) \<longleftrightarrow> (\<forall>i\<in>set st. visit_ends visit i)"
  using stack_walk_ends [of visit st acc] stack_walk_returns [of st visit acc] by blast

lemma stack_walk_set:
  assumes "stack_walk visit st [] = Some out"
  shows "set out = (\<Union>j\<in>{j. visited visit st j}. set (fst (visit j)))"
  using stack_walk_returns [of st visit "[]"] stack_walk_ends [OF assms] assms by force

text \<open>An item that pushes itself after some visits keeps the walk from returning.\<close>

lemma visit_ends_acyclic: "visit_ends visit i \<Longrightarrow> (i, i) \<notin> {(i, j). j \<in> set (snd (visit i))}\<^sup>+"
proof (induction rule: visit_ends.induct)
  case (visit_ends i)
  show ?case
  proof
    assume "(i, i) \<in> {(i, j). j \<in> set (snd (visit i))}\<^sup>+"
    then obtain j where "j \<in> set (snd (visit i))" "(j, i) \<in> {(i, j). j \<in> set (snd (visit i))}\<^sup>*"
      by (auto dest: tranclD)
    moreover from this have "(j, j) \<in> {(i, j). j \<in> set (snd (visit i))}\<^sup>+"
      by (auto intro: rtrancl_into_trancl1)
    ultimately show False using visit_ends.IH by auto
  qed
qed

lemma visit_ends_measure:
  assumes "wf R" "\<And>i j. P i \<Longrightarrow> j \<in> set (snd (visit i)) \<Longrightarrow> P j \<and> (f j, f i) \<in> R" "P i"
  shows "visit_ends visit i"
  using assms(1,3)
proof (induction "f i" arbitrary: i rule: wf_induct_rule)
  case less
  show ?case
    by (rule visit_ends.intros) (use assms(2) [OF less.prems] less.hyps in blast)
qed

section \<open>Parent links\<close>

lemma forest_acyclic_below:
  assumes parent: "single_valued (E\<inverse>)"
    and root: "(r, r) \<notin> E\<^sup>+" and below: "(r, x) \<in> E\<^sup>*"
  shows "(x, x) \<notin> E\<^sup>+"
  using below
proof (induction rule: rtrancl_induct)
  case (step y z)
  show ?case
  proof
    assume "(z, z) \<in> E\<^sup>+"
    then obtain w where "(z, w) \<in> E\<^sup>*" "(w, z) \<in> E" by (meson tranclD2)
    with step.hyps(2) single_valuedD [OF parent, of z y w] have "(z, y) \<in> E\<^sup>*" by simp
    with step.hyps(2) have "(y, y) \<in> E\<^sup>+" by (rule rtrancl_into_trancl2)
    with step.IH show False by contradiction
  qed
qed (rule root)

lemma forest_wf_below:
  assumes "finite E" "single_valued (E\<inverse>)" "(r, r) \<notin> E\<^sup>+"
  shows "wf {(c, p). (p, c) \<in> E \<and> (r, p) \<in> E\<^sup>*}"
proof -
  let ?B = "{(p, c). (p, c) \<in> E \<and> (r, p) \<in> E\<^sup>*}"
  have sub: "?B\<^sup>+ \<subseteq> E\<^sup>+" by (intro trancl_mono_subset) auto
  have "acyclic ?B"
    unfolding acyclic_def
  proof
    fix x show "(x, x) \<notin> ?B\<^sup>+"
    proof
      assume x: "(x, x) \<in> ?B\<^sup>+"
      then have "(r, x) \<in> E\<^sup>*" by (auto dest: tranclD)
      then show False using forest_acyclic_below [OF assms(2,3)] x sub by blast
    qed
  qed
  moreover have "finite ?B" by (rule finite_subset [OF _ assms(1)]) auto
  moreover have "?B\<inverse> = {(c, p). (p, c) \<in> E \<and> (r, p) \<in> E\<^sup>*}" by auto
  ultimately show ?thesis using finite_acyclic_wf_converse [of ?B] by simp
qed

text \<open>
  A walk that goes down the parent links of a finite forest ends when its start is not below itself.
\<close>

lemma forest_walk_ends:
  assumes E: "finite E" "single_valued (E\<inverse>)" "(r, r) \<notin> E\<^sup>+"
    and step: "\<And>i j. j \<in> set (snd (visit i)) \<Longrightarrow> (key i, key j) \<in> E"
    and i: "(r, key i) \<in> E\<^sup>*"
  shows "visit_ends visit i"
  using forest_wf_below [OF E]
proof (rule visit_ends_measure)
  show "(r, key i) \<in> E\<^sup>*" by (rule i)
next
  fix k j
  assume "(r, key k) \<in> E\<^sup>*" "j \<in> set (snd (visit k))"
  then show "(r, key j) \<in> E\<^sup>* \<and> (key j, key k) \<in> {(c, p). (p, c) \<in> E \<and> (r, p) \<in> E\<^sup>*}"
    using step [of j k] by auto
qed

section \<open>Identities\<close>

record process_identity =
  id_pid :: pid
  id_start_time :: nat

definition unknown_start_time :: nat where
  "unknown_start_time = 0"

definition pid_only :: "pid \<Rightarrow> process_identity" where
  "pid_only p = \<lparr>id_pid = p, id_start_time = unknown_start_time\<rparr>"

definition has_start_time :: "process_identity \<Rightarrow> bool" where
  "has_start_time i \<longleftrightarrow> id_start_time i \<noteq> unknown_start_time"

definition identity_matches :: "process_identity \<Rightarrow> process_identity \<Rightarrow> bool" where
  "identity_matches self observed =
     (if id_pid self \<noteq> id_pid observed then False
      else if \<not> has_start_time self \<or> \<not> has_start_time observed then True
      else id_start_time self = id_start_time observed)"

definition automatic_identity_matches :: "process_identity \<Rightarrow> process_identity \<Rightarrow> bool" where
  "automatic_identity_matches recorded observed \<longleftrightarrow>
     id_start_time recorded \<noteq> unknown_start_time \<and> id_start_time observed \<noteq> unknown_start_time \<and>
     recorded = observed"

definition automatic_target_allowed :: "process_identity \<Rightarrow> process_identity \<Rightarrow> string \<Rightarrow> bool" where
  "automatic_target_allowed recorded observed image_name \<longleftrightarrow>
     automatic_identity_matches recorded observed \<and> \<not> eq_ignore_ascii_case image_name ''conhost.exe''"

section \<open>Reasons to spare a process\<close>

datatype spare_reason =
    OutsideJobObject | ServiceSession | SessionLeader | ForeignTokenOwner | DeclaredDaemon
  | ListeningEndpoint | ActiveDesktopShell | DockerDesktopProcessFamily | ConfiguredSpareList

fun spare_reason_str :: "spare_reason \<Rightarrow> string" where
  "spare_reason_str OutsideJobObject = ''outside_job_object''"
| "spare_reason_str ServiceSession = ''service_session''"
| "spare_reason_str SessionLeader = ''session_leader''"
| "spare_reason_str ForeignTokenOwner = ''foreign_token_owner''"
| "spare_reason_str DeclaredDaemon = ''declared_daemon''"
| "spare_reason_str ListeningEndpoint = ''listening_endpoint''"
| "spare_reason_str ActiveDesktopShell = ''active_desktop_shell''"
| "spare_reason_str DockerDesktopProcessFamily = ''docker_desktop_process_family''"
| "spare_reason_str ConfiguredSpareList = ''configured_spare_list''"

record process_facts =
  in_reaper_job :: "pid \<Rightarrow> bool option"
  is_service_session :: "pid \<Rightarrow> bool option"
  is_session_leader :: "pid \<Rightarrow> bool option"
  owner_differs :: "pid \<Rightarrow> bool option"
  declared_daemon :: "pid \<Rightarrow> bool option"
  owns_listening_endpoint :: "pid \<Rightarrow> bool option"
  is_active_desktop_shell :: "pid \<Rightarrow> bool option"
  spare_listed :: "pid \<Rightarrow> string \<Rightarrow> bool"

datatype fact_signal =
    JobMembership | ServiceSessionSignal | SessionLeaderSignal | TokenOwner | DaemonMarker
  | ListeningSignal | DesktopShellSignal

record facts_snapshot =
  outside_job :: "pid set"
  service_session :: "pid set"
  session_leaders :: "pid set"
  foreign_owner :: "pid set"
  declared_daemons :: "pid set"
  listening :: "pid set"
  active_desktop_shells :: "pid set"
  spare_images :: "string list"
  unavailable :: "fact_signal set"

definition fact_answer :: "facts_snapshot \<Rightarrow> fact_signal \<Rightarrow> bool \<Rightarrow> bool option" where
  "fact_answer f sig present = (if sig \<notin> unavailable f then Some present else None)"

definition image_basename :: "string \<Rightarrow> string" where
  "image_basename img = rev (takeWhile (\<lambda>c. c \<noteq> CHR 0x5C \<and> c \<noteq> CHR ''/'') (rev img))"

definition normalized_image :: "string \<Rightarrow> string" where
  "normalized_image img = to_ascii_lowercase (image_basename img)"

definition is_docker_desktop_family_root :: "string \<Rightarrow> bool" where
  "is_docker_desktop_family_root image_name =
     (let img = normalized_image image_name
      in img = ''docker desktop.exe'' \<or> starts_with img ''com.docker.'' \<or> img = ''docker.exe'')"

definition snapshot_facts :: "facts_snapshot \<Rightarrow> process_facts" where
  "snapshot_facts f =
     \<lparr>in_reaper_job = (\<lambda>p. fact_answer f JobMembership (p \<notin> outside_job f)),
      is_service_session = (\<lambda>p. fact_answer f ServiceSessionSignal (p \<in> service_session f)),
      is_session_leader = (\<lambda>p. fact_answer f SessionLeaderSignal (p \<in> session_leaders f)),
      owner_differs = (\<lambda>p. fact_answer f TokenOwner (p \<in> foreign_owner f)),
      declared_daemon = (\<lambda>p. fact_answer f DaemonMarker (p \<in> declared_daemons f)),
      owns_listening_endpoint = (\<lambda>p. fact_answer f ListeningSignal (p \<in> listening f)),
      is_active_desktop_shell = (\<lambda>p. fact_answer f DesktopShellSignal (p \<in> active_desktop_shells f)),
      spare_listed = (\<lambda>_ image_name.
        list_ex (\<lambda>configured. normalized_image configured = normalized_image image_name) (spare_images f))\<rparr>"

definition configured_spare_images :: "string option \<Rightarrow> string list" where
  "configured_spare_images raw =
     filter (\<lambda>entry. entry \<noteq> [])
       (map trim (split_on CHR '','' (map (\<lambda>c. if c = CHR '';'' then CHR '','' else c) (unwrap_or raw []))))"

definition spare_signal :: "process_facts \<Rightarrow> pid \<Rightarrow> string \<Rightarrow> spare_reason option" where
  "spare_signal facts p image_name =
     (if in_reaper_job facts p = Some False then Some OutsideJobObject
      else if is_service_session facts p = Some True then Some ServiceSession
      else if is_session_leader facts p = Some True then Some SessionLeader
      else if owner_differs facts p = Some True then Some ForeignTokenOwner
      else if declared_daemon facts p = Some True then Some DeclaredDaemon
      else if owns_listening_endpoint facts p = Some True then Some ListeningEndpoint
      else if is_active_desktop_shell facts p = Some True then Some ActiveDesktopShell
      else if is_docker_desktop_family_root image_name then Some DockerDesktopProcessFamily
      else if spare_listed facts p image_name then Some ConfiguredSpareList
      else None)"

definition build_spare_list :: "process_facts \<Rightarrow> (pid \<times> string) list \<Rightarrow> pid \<rightharpoonup> spare_reason" where
  "build_spare_list facts candidates =
     fold (\<lambda>(p, image_name) spares.
         (case spare_signal facts p image_name of None \<Rightarrow> spares | Some r \<Rightarrow> spares(p \<mapsto> r)))
       candidates Map.empty"

text \<open>
  Facts on some candidates. What the platform adds to them is an argument: it fills the sets of positive
  findings, and names further signals it cannot answer.
\<close>

definition collect_host_facts ::
    "(pid list \<Rightarrow> facts_snapshot \<Rightarrow> facts_snapshot) \<Rightarrow> (facts_snapshot \<Rightarrow> facts_snapshot) \<Rightarrow>
     pid list \<Rightarrow> pid set \<Rightarrow> string list \<Rightarrow> facts_snapshot" where
  "collect_host_facts fill mark_unavailable candidates declared imgs =
     (let snapshot =
            \<lparr>outside_job = {}, service_session = {}, session_leaders = {}, foreign_owner = {},
             declared_daemons = set (filter (\<lambda>p. p \<in> declared) candidates), listening = {},
             active_desktop_shells = {}, spare_images = imgs, unavailable = {JobMembership}\<rparr>
      in if candidates = [] then mark_unavailable snapshot else fill candidates snapshot)"

lemma dom_build_spare_list:
  "dom (build_spare_list facts candidates) = {p. \<exists>img. (p, img) \<in> set candidates \<and> spare_signal facts p img \<noteq> None}"
proof -
  have "dom (fold (\<lambda>(p, image_name) spares.
         (case spare_signal facts p image_name of None \<Rightarrow> spares | Some r \<Rightarrow> spares(p \<mapsto> r))) cs m) =
      dom m \<union> {p. \<exists>img. (p, img) \<in> set cs \<and> spare_signal facts p img \<noteq> None}" for cs m
    by (induction cs arbitrary: m) (auto split: option.splits if_splits)
  then show ?thesis by (simp add: build_spare_list_def)
qed

lemma spare_signal_None_iff:
  "spare_signal facts p img = None \<longleftrightarrow>
     in_reaper_job facts p \<noteq> Some False \<and> is_service_session facts p \<noteq> Some True \<and>
     is_session_leader facts p \<noteq> Some True \<and> owner_differs facts p \<noteq> Some True \<and>
     declared_daemon facts p \<noteq> Some True \<and> owns_listening_endpoint facts p \<noteq> Some True \<and>
     is_active_desktop_shell facts p \<noteq> Some True \<and> \<not> is_docker_desktop_family_root img \<and>
     \<not> spare_listed facts p img"
  by (simp add: spare_signal_def)

section \<open>Killing a process tree\<close>

text \<open>
  A row of the process table. Its parent is \<open>None\<close> where the system reports none. The table is a list in the
  arbitrary order in which the map of the snapshot is walked.
\<close>

record host_process =
  hp_pid :: pid
  hp_parent :: "pid option"
  hp_start_time :: nat
  hp_name :: string

definition host_process_of :: "host_process list \<Rightarrow> pid \<Rightarrow> host_process option" where
  "host_process_of table p = find (\<lambda>h. hp_pid h = p) table"

definition host_identity :: "host_process \<Rightarrow> process_identity" where
  "host_identity h = \<lparr>id_pid = hp_pid h, id_start_time = hp_start_time h\<rparr>"

definition host_children :: "host_process list \<Rightarrow> pid \<Rightarrow> pid list" where
  "host_children table p = map hp_pid (filter (\<lambda>h. hp_parent h = Some p) table)"

definition visit_pid :: "host_process list \<Rightarrow> (pid \<Rightarrow> bool) \<Rightarrow> pid \<Rightarrow> pid list \<times> pid list" where
  "visit_pid table may_kill current =
     (let kept = filter may_kill (host_children table current) in (kept, rev kept))"

definition descendant_pids_filtered :: "host_process list \<Rightarrow> pid \<Rightarrow> (pid \<Rightarrow> bool) \<Rightarrow> pid list option" where
  "descendant_pids_filtered table root may_kill = stack_walk (visit_pid table may_kill) [root] []"

definition is_console_host :: "host_process \<Rightarrow> bool" where
  "is_console_host h = eq_ignore_ascii_case (hp_name h) ''conhost.exe''"

definition killable_child :: "host_process list \<Rightarrow> (pid \<Rightarrow> bool) \<Rightarrow> pid \<Rightarrow> bool" where
  "killable_child table may_kill child =
     (case host_process_of table child of None \<Rightarrow> False
      | Some h \<Rightarrow> may_kill child \<and> \<not> is_console_host h)"

definition visit_identity :: "host_process list \<Rightarrow> (pid \<Rightarrow> bool) \<Rightarrow> pid \<Rightarrow> process_identity list \<times> pid list" where
  "visit_identity table may_kill current =
     (let kept = filter (killable_child table may_kill) (host_children table current)
      in (map (\<lambda>c. host_identity (the (host_process_of table c))) kept, rev kept))"

definition descendant_identities_filtered ::
    "host_process list \<Rightarrow> pid \<Rightarrow> (pid \<Rightarrow> bool) \<Rightarrow> process_identity list option" where
  "descendant_identities_filtered table root may_kill = stack_walk (visit_identity table may_kill) [root] []"

text \<open>
  The kill of a list of targets; \<open>observe\<close> is the process that holds an id when its turn comes. The result is
  the identities that were sent the kill, in order.
\<close>

definition kill_verified ::
    "host_process list \<Rightarrow> (pid \<Rightarrow> process_identity option) \<Rightarrow> pid list \<Rightarrow> process_identity list" where
  "kill_verified table observe targets =
     concat (map (\<lambda>d.
       (case host_process_of table d of None \<Rightarrow> []
        | Some h \<Rightarrow>
            (let recorded = \<lparr>id_pid = d, id_start_time = hp_start_time h\<rparr>
             in (case observe d of
                   Some observed \<Rightarrow> if identity_matches recorded observed then [observed] else []
                 | None \<Rightarrow> [])))) targets)"

definition kill_tree_filtered ::
    "host_process list \<Rightarrow> (pid \<Rightarrow> process_identity option) \<Rightarrow> pid \<Rightarrow> (pid \<Rightarrow> bool) \<Rightarrow> process_identity list option" where
  "kill_tree_filtered table observe p may_kill =
     (if host_process_of table p = None then Some []
      else if \<not> may_kill p then Some []
      else (case descendant_pids_filtered table p may_kill of
              None \<Rightarrow> None
            | Some descendants \<Rightarrow> Some (kill_verified table observe (rev descendants @ [p]))))"

definition kill_tree ::
    "host_process list \<Rightarrow> (pid \<Rightarrow> process_identity option) \<Rightarrow> pid \<Rightarrow> process_identity list option" where
  "kill_tree table observe p = kill_tree_filtered table observe p (\<lambda>_. True)"

definition kill_identity_filtered_automatic ::
    "(pid \<Rightarrow> host_process option) \<Rightarrow> (pid \<Rightarrow> bool) \<Rightarrow> process_identity \<Rightarrow> process_identity list" where
  "kill_identity_filtered_automatic current may_kill identity =
     (if id_start_time identity = unknown_start_time \<or> \<not> may_kill (id_pid identity) then []
      else (case current (id_pid identity) of None \<Rightarrow> []
            | Some process \<Rightarrow>
                (let observed = \<lparr>id_pid = id_pid identity, id_start_time = hp_start_time process\<rparr>
                 in if \<not> automatic_target_allowed identity observed (hp_name process) then [] else [observed])))"

definition kill_tree_filtered_automatic ::
    "host_process list \<Rightarrow> (pid \<Rightarrow> host_process option) \<Rightarrow> process_identity \<Rightarrow> (pid \<Rightarrow> bool) \<Rightarrow>
     process_identity list option" where
  "kill_tree_filtered_automatic table current root_identity may_kill =
     (if id_start_time root_identity = unknown_start_time \<or> \<not> may_kill (id_pid root_identity) then Some []
      else (case host_process_of table (id_pid root_identity) of
          None \<Rightarrow> Some []
        | Some root_process \<Rightarrow>
            (let observed_root = \<lparr>id_pid = id_pid root_identity, id_start_time = hp_start_time root_process\<rparr>
             in if \<not> automatic_target_allowed root_identity observed_root (hp_name root_process) then Some []
                else (case descendant_identities_filtered table (id_pid root_identity) may_kill of
                    None \<Rightarrow> None
                  | Some descendants \<Rightarrow>
                      Some (concat (map (kill_identity_filtered_automatic current may_kill)
                        (rev descendants @ [root_identity])))))))"

text \<open>The links of the table from parent to child.\<close>

definition host_edges :: "host_process list \<Rightarrow> (pid \<times> pid) set" where
  "host_edges table = {(p, c). c \<in> set (host_children table p)}"

lemma host_edges_iff: "(p, c) \<in> host_edges table \<longleftrightarrow> (\<exists>h\<in>set table. hp_parent h = Some p \<and> hp_pid h = c)"
  by (auto simp: host_edges_def host_children_def)

lemma finite_host_edges: "finite (host_edges table)"
proof -
  have "host_edges table \<subseteq> (\<lambda>h. (the (hp_parent h), hp_pid h)) ` set table"
    by (force simp: host_edges_iff image_iff)
  then show ?thesis by (rule finite_subset) simp
qed

lemma host_edges_parent: "distinct (map hp_pid table) \<Longrightarrow> single_valued ((host_edges table)\<inverse>)"
  by (auto simp: single_valued_def host_edges_iff distinct_map dest!: inj_onD)

lemma host_process_of_Some: "host_process_of table p = Some h \<Longrightarrow> h \<in> set table \<and> hp_pid h = p"
  by (auto simp: host_process_of_def find_Some_iff)

lemma automatic_target_allowedD:
  "automatic_target_allowed recorded observed name \<Longrightarrow>
   observed = recorded \<and> id_start_time recorded \<noteq> unknown_start_time \<and> \<not> eq_ignore_ascii_case name ''conhost.exe''"
  by (auto simp: automatic_target_allowed_def automatic_identity_matches_def)

text \<open>An automatic kill reaches its root and what hangs below it in the table by killable processes.\<close>

definition killable_edges :: "host_process list \<Rightarrow> (pid \<Rightarrow> bool) \<Rightarrow> (pid \<times> pid) set" where
  "killable_edges table may_kill = {(p, c). (p, c) \<in> host_edges table \<and> killable_child table may_kill c}"

lemma visit_identity_next: "j \<in> set (snd (visit_identity table may_kill i)) \<longleftrightarrow> (i, j) \<in> killable_edges table may_kill"
  by (auto simp: visit_identity_def Let_def killable_edges_def host_edges_def)

lemma visited_identity:
  "visited (visit_identity table may_kill) [r] j \<longleftrightarrow> (r, j) \<in> (killable_edges table may_kill)\<^sup>*"
proof
  assume "visited (visit_identity table may_kill) [r] j"
  then show "(r, j) \<in> (killable_edges table may_kill)\<^sup>*"
    by induction (auto simp: visit_identity_next intro: rtrancl_into_rtrancl)
next
  assume "(r, j) \<in> (killable_edges table may_kill)\<^sup>*"
  then show "visited (visit_identity table may_kill) [r] j"
    by (induction rule: rtrancl_induct) (auto simp: visit_identity_next [symmetric] intro: visited.intros)
qed

lemma descendant_identities:
  assumes "descendant_identities_filtered table r may_kill = Some ds"
  shows "set ds = {host_identity (the (host_process_of table c)) |c. (r, c) \<in> (killable_edges table may_kill)\<^sup>+}"
proof -
  have "set ds = (\<Union>j\<in>{j. (r, j) \<in> (killable_edges table may_kill)\<^sup>*}. set (fst (visit_identity table may_kill j)))"
    using stack_walk_set [OF assms [unfolded descendant_identities_filtered_def]] by (simp add: visited_identity)
  also have "\<dots> = {host_identity (the (host_process_of table c)) |c.
      \<exists>j. (r, j) \<in> (killable_edges table may_kill)\<^sup>* \<and> (j, c) \<in> killable_edges table may_kill}"
    by (auto simp: visit_identity_def Let_def killable_edges_def host_edges_def)
  finally show ?thesis by (auto simp: trancl_unfold_right)
qed

lemma kill_identity_automatic:
  assumes "k \<in> set (kill_identity_filtered_automatic current may_kill i)"
  shows "k = i \<and> may_kill (id_pid k) \<and> id_start_time k \<noteq> unknown_start_time \<and>
    (\<exists>h. current (id_pid k) = Some h \<and> hp_start_time h = id_start_time k \<and> \<not> is_console_host h)"
proof -
  obtain h where h: "current (id_pid i) = Some h" "may_kill (id_pid i)" "id_start_time i \<noteq> unknown_start_time"
      "automatic_target_allowed i \<lparr>id_pid = id_pid i, id_start_time = hp_start_time h\<rparr> (hp_name h)"
      "k = \<lparr>id_pid = id_pid i, id_start_time = hp_start_time h\<rparr>"
    using assms
    by (cases "current (id_pid i)") (auto simp: kill_identity_filtered_automatic_def Let_def split: if_splits)
  from automatic_target_allowedD [OF h(4)] have "k = i" "\<not> is_console_host h"
    by (simp_all add: h(5) is_console_host_def)
  moreover have "hp_start_time h = id_start_time k" by (simp add: h(5))
  ultimately show ?thesis using h(1-3) by auto
qed

lemma automatic_kills:
  assumes "kill_tree_filtered_automatic table current root may_kill = Some ks" "k \<in> set ks"
  shows "may_kill (id_pid k) \<and> id_start_time k \<noteq> unknown_start_time \<and>
    (\<exists>h. current (id_pid k) = Some h \<and> hp_start_time h = id_start_time k \<and> \<not> is_console_host h) \<and>
    (k = root \<or> (\<exists>h\<in>set table. host_identity h = k) \<and> (id_pid root, id_pid k) \<in> (killable_edges table may_kill)\<^sup>+)"
proof -
  obtain ds where out: "descendant_identities_filtered table (id_pid root) may_kill = Some ds"
      "ks = concat (map (kill_identity_filtered_automatic current may_kill) (rev ds @ [root]))"
    using assms by (fastforce simp: kill_tree_filtered_automatic_def Let_def split: if_splits option.splits)
  then obtain i where ds: "descendant_identities_filtered table (id_pid root) may_kill = Some ds"
      "i \<in> set ds \<union> {root}" "k \<in> set (kill_identity_filtered_automatic current may_kill i)"
    using assms(2) by auto
  have i: "i = root \<or> (\<exists>h\<in>set table. host_identity h = i) \<and> (id_pid root, id_pid i) \<in> (killable_edges table may_kill)\<^sup>+"
  proof (cases "i = root")
    case False
    then obtain c where c: "(id_pid root, c) \<in> (killable_edges table may_kill)\<^sup>+"
        "i = host_identity (the (host_process_of table c))"
      using ds(2) descendant_identities [OF ds(1)] by auto
    from c(1) have "killable_child table may_kill c"
      by (auto simp: killable_edges_def dest: tranclD2)
    then obtain h where "host_process_of table c = Some h"
      by (auto simp: killable_child_def split: option.splits)
    then show ?thesis using c host_process_of_Some [of table c h] by (auto simp: host_identity_def)
  qed simp
  show ?thesis using kill_identity_automatic [OF ds(3)] i by auto
qed

lemma automatic_kills_below:
  assumes "kill_tree_filtered_automatic table current root may_kill = Some ks"
    and "may_kill (id_pid root)" "id_start_time root \<noteq> unknown_start_time"
    and "host_process_of table (id_pid root) = Some h" "hp_start_time h = id_start_time root" "\<not> is_console_host h"
    and "(id_pid root, c) \<in> (killable_edges table may_kill)\<^sup>+" "host_process_of table c = Some u"
    and "hp_start_time u \<noteq> unknown_start_time" "current c = Some u"
  shows "host_identity u \<in> set ks"
proof -
  have root: "automatic_target_allowed root \<lparr>id_pid = id_pid root, id_start_time = hp_start_time h\<rparr> (hp_name h)"
    using assms(3,5,6) by (simp add: automatic_target_allowed_def automatic_identity_matches_def is_console_host_def)
  obtain ds where ds: "descendant_identities_filtered table (id_pid root) may_kill = Some ds"
      "ks = concat (map (kill_identity_filtered_automatic current may_kill) (rev ds @ [root]))"
    using assms(1-4) root by (auto simp: kill_tree_filtered_automatic_def split: option.splits)
  have u: "hp_pid u = c" using host_process_of_Some [OF assms(8)] by simp
  have "killable_child table may_kill c"
    using assms(7) by (auto simp: killable_edges_def dest: tranclD2)
  then have "may_kill c" "\<not> is_console_host u"
    using assms(8) by (auto simp: killable_child_def)
  then have "host_identity u \<in> set (kill_identity_filtered_automatic current may_kill (host_identity u))"
    using assms(9,10) u
    by (auto simp: kill_identity_filtered_automatic_def host_identity_def automatic_target_allowed_def
        automatic_identity_matches_def is_console_host_def)
  moreover have "host_identity u \<in> set ds"
    using descendant_identities [OF ds(1)] assms(7,8) by force
  ultimately show ?thesis using ds(2) by auto
qed

end
