(* ===== verification/Shell_Reaper.thy ===== *)
theory Shell_Reaper
  imports Process_Facts "HOL-Library.AList"
begin

text \<open>
  The tool-shell reaper, \<^verbatim>\<open>job_orphan_reaper.rs\<close>: which processes a shell of an agent leaves behind, and
  which of them are killed. A graph of the tracked processes with their roles, the plan for one exited shell,
  the bookkeeping of pending exits, and the reconcile pass. A hash map that is only looked up is a map, one
  that is walked is a list in the arbitrary order of the walk; millisecond clocks are naturals, on which
  \<^verbatim>\<open>saturating_sub\<close> is the subtraction of the naturals.
\<close>

section \<open>Processes, backends and decisions\<close>

record process_meta =
  pm_pid :: pid
  pm_parent_pid :: pid
  pm_image_name :: string
  pm_alive :: bool
  pm_start_time :: nat
  pm_exited_at_ms :: "nat option"

type_synonym exit_identity = "pid \<times> nat"

definition meta_identity :: "process_meta \<Rightarrow> exit_identity" where
  "meta_identity p = (pm_pid p, pm_start_time p)"

record registered_backend =
  rb_pid :: pid
  rb_agent_images :: "string list"
  rb_start_time :: nat

definition new_backend :: "pid \<Rightarrow> string \<Rightarrow> nat \<Rightarrow> registered_backend" where
  "new_backend p executable_name start_time =
     (let img = to_ascii_lowercase (image_basename executable_name);
          img = (if ends_with img ''.exe'' then img else img @ ''.exe'');
          agent_images = [img] @ (if img = ''claude.exe'' then [''node.exe''] else [])
      in \<lparr>rb_pid = p, rb_agent_images = agent_images, rb_start_time = start_time\<rparr>)"

definition is_agent_image :: "registered_backend \<Rightarrow> string \<Rightarrow> bool" where
  "is_agent_image b img = list_ex (\<lambda>candidate. candidate = normalized_image img) (rb_agent_images b)"

datatype process_role = BackendRoot | BackendBootstrap | AgentHost | ToolShellRoot | ShellHandoff | Client

datatype decision_action = Reap | Spare | Handoff

datatype reap_decision_reason =
    LeakedToolClient | GitBashReexec | NestedShellDetach | DeclaredDaemon | ConsoleHost | OutsideJobObject
  | ServiceSession | SessionLeader | ForeignTokenOwner | ListeningEndpoint | ActiveDesktopShell
  | DockerDesktopProcessFamily | ConfiguredSpareList | CandidateIdentityChanged | NoLiveClients

fun process_role_str :: "process_role \<Rightarrow> string" where
  "process_role_str BackendRoot = ''backend_root''"
| "process_role_str BackendBootstrap = ''backend_bootstrap''"
| "process_role_str AgentHost = ''agent_host''"
| "process_role_str ToolShellRoot = ''tool_shell_root''"
| "process_role_str ShellHandoff = ''shell_handoff''"
| "process_role_str Client = ''client''"

fun decision_action_str :: "decision_action \<Rightarrow> string" where
  "decision_action_str Reap = ''reap''"
| "decision_action_str Spare = ''spare''"
| "decision_action_str Handoff = ''handoff''"

fun reason_of_spare :: "spare_reason \<Rightarrow> reap_decision_reason" where
  "reason_of_spare spare_reason.OutsideJobObject = OutsideJobObject"
| "reason_of_spare spare_reason.ServiceSession = ServiceSession"
| "reason_of_spare spare_reason.SessionLeader = SessionLeader"
| "reason_of_spare spare_reason.ForeignTokenOwner = ForeignTokenOwner"
| "reason_of_spare spare_reason.DeclaredDaemon = DeclaredDaemon"
| "reason_of_spare spare_reason.ListeningEndpoint = ListeningEndpoint"
| "reason_of_spare spare_reason.ActiveDesktopShell = ActiveDesktopShell"
| "reason_of_spare spare_reason.DockerDesktopProcessFamily = DockerDesktopProcessFamily"
| "reason_of_spare spare_reason.ConfiguredSpareList = ConfiguredSpareList"

fun reap_reason_str :: "reap_decision_reason \<Rightarrow> string" where
  "reap_reason_str LeakedToolClient = ''leaked_tool_client''"
| "reap_reason_str GitBashReexec = ''git_bash_reexec''"
| "reap_reason_str NestedShellDetach = ''nested_shell_detach''"
| "reap_reason_str DeclaredDaemon = ''declared_daemon''"
| "reap_reason_str ConsoleHost = ''console_host_never_targeted''"
| "reap_reason_str OutsideJobObject = ''outside_job_object''"
| "reap_reason_str ServiceSession = ''service_session''"
| "reap_reason_str SessionLeader = ''session_leader''"
| "reap_reason_str ForeignTokenOwner = ''foreign_token_owner''"
| "reap_reason_str ListeningEndpoint = ''listening_endpoint''"
| "reap_reason_str ActiveDesktopShell = ''active_desktop_shell''"
| "reap_reason_str DockerDesktopProcessFamily = ''docker_desktop_process_family''"
| "reap_reason_str ConfiguredSpareList = ''configured_spare_list''"
| "reap_reason_str CandidateIdentityChanged = ''candidate_identity_changed''"
| "reap_reason_str NoLiveClients = ''no_live_clients''"

record reap_decision =
  trigger_pid :: pid
  trigger_image :: string
  trigger_role :: process_role
  candidate_pid :: "pid option"
  candidate_parent_pid :: "pid option"
  candidate_image :: "string option"
  candidate_start_time :: "nat option"
  dec_action :: decision_action
  dec_reason :: reap_decision_reason

type_synonym spare_list = "pid \<rightharpoonup> reap_decision_reason"

definition reaper_spare_list :: "process_facts \<Rightarrow> (pid \<times> string) list \<Rightarrow> spare_list" where
  "reaper_spare_list facts candidates = (\<lambda>p. map_option reason_of_spare (build_spare_list facts candidates p))"

definition is_shell_image :: "string \<Rightarrow> bool" where
  "is_shell_image img = list_contains
     [''cmd.exe'', ''powershell.exe'', ''pwsh.exe'', ''bash.exe'', ''git-bash.exe''] (normalized_image img)"

definition is_bash_image :: "string \<Rightarrow> bool" where
  "is_bash_image img = list_contains [''bash.exe'', ''git-bash.exe''] (normalized_image img)"

definition is_conhost_image :: "string \<Rightarrow> bool" where
  "is_conhost_image img \<longleftrightarrow> normalized_image img = ''conhost.exe''"

section \<open>The graph and its roles\<close>

definition graph_by_pid :: "process_meta list \<Rightarrow> pid \<rightharpoonup> process_meta" where
  "graph_by_pid ps = map_of (rev (map (\<lambda>p. (pm_pid p, p)) ps))"

definition graph_children :: "process_meta list \<Rightarrow> pid \<Rightarrow> pid list" where
  "graph_children ps q = sort (map pm_pid (filter (\<lambda>p. pm_parent_pid p = q) ps))"

definition child_role :: "registered_backend \<Rightarrow> process_role \<Rightarrow> process_meta \<Rightarrow> process_meta \<Rightarrow> process_role" where
  "child_role backend parent_role parent child =
     (case parent_role of
        BackendRoot \<Rightarrow> if is_agent_image backend (pm_image_name child) then AgentHost else BackendBootstrap
      | BackendBootstrap \<Rightarrow>
          if is_agent_image backend (pm_image_name child) then AgentHost else BackendBootstrap
      | AgentHost \<Rightarrow> if is_shell_image (pm_image_name child) then ToolShellRoot else Client
      | ToolShellRoot \<Rightarrow>
          if is_bash_image (pm_image_name parent) \<and> is_bash_image (pm_image_name child) then ShellHandoff else Client
      | ShellHandoff \<Rightarrow>
          if is_bash_image (pm_image_name parent) \<and> is_bash_image (pm_image_name child) then ShellHandoff else Client
      | Client \<Rightarrow> Client)"

fun assign_children ::
    "registered_backend \<Rightarrow> (pid \<rightharpoonup> process_meta) \<Rightarrow> process_meta \<Rightarrow> process_role \<Rightarrow> pid list \<Rightarrow>
     (pid \<rightharpoonup> process_role) \<Rightarrow> pid list \<Rightarrow> (pid \<rightharpoonup> process_role) \<times> pid list" where
  "assign_children backend by_pid parent parent_role [] roles stack = (roles, stack)"
| "assign_children backend by_pid parent parent_role (child_pid # rest) roles stack =
     (case by_pid child_pid of
        None \<Rightarrow> assign_children backend by_pid parent parent_role rest roles stack
      | Some child \<Rightarrow>
          assign_children backend by_pid parent parent_role rest
            (roles(child_pid \<mapsto> child_role backend parent_role parent child))
            (if roles child_pid = None then child_pid # stack else stack))"

lemma assign_children_measure:
  assumes "set cs \<subseteq> U" "finite U"
  shows "card (U - dom (fst (assign_children b by_pid p r cs roles stack))) +
      length (snd (assign_children b by_pid p r cs roles stack)) \<le> card (U - dom roles) + length stack"
  using assms(1)
proof (induction cs arbitrary: roles stack)
  case (Cons c cs)
  show ?case
  proof (cases "by_pid c")
    case (Some child)
    let ?roles = "roles(c \<mapsto> child_role b r p child)"
    let ?stack = "if roles c = None then c # stack else stack"
    have "card (U - dom ?roles) + length ?stack \<le> card (U - dom roles) + length stack"
    proof (cases "roles c")
      case None
      then have "c \<in> U - dom roles" using Cons.prems by auto
      then have "card ((U - dom roles) - {c}) < card (U - dom roles)"
        using assms(2) by (intro card_Diff1_less) auto
      moreover have "U - dom ?roles = (U - dom roles) - {c}" by auto
      ultimately show ?thesis using None by (auto simp del: dom_fun_upd)
    next
      case (Some x)
      then have "dom ?roles = dom roles" by auto
      then show ?thesis using Some by (auto simp del: dom_fun_upd)
    qed
    moreover have "assign_children b by_pid p r (c # cs) roles stack =
        assign_children b by_pid p r cs ?roles ?stack"
      using Some by simp
    moreover have "set cs \<subseteq> U" using Cons.prems by simp
    ultimately show ?thesis
      using Cons.IH [of ?roles ?stack] by (metis (no_types, lifting) le_trans)
  qed (use Cons in simp)
qed simp

lemma set_graph_children: "set (graph_children ps q) = pm_pid ` {p \<in> set ps. pm_parent_pid p = q}"
  by (auto simp: graph_children_def)

function (sequential) classify_walk ::
    "process_meta list \<Rightarrow> registered_backend \<Rightarrow> pid list \<Rightarrow> (pid \<rightharpoonup> process_role) \<Rightarrow> (pid \<rightharpoonup> process_role)" where
  "classify_walk ps backend [] roles = roles"
| "classify_walk ps backend (parent_pid # stack) roles =
     (case graph_by_pid ps parent_pid of
        None \<Rightarrow> classify_walk ps backend stack roles
      | Some parent \<Rightarrow>
          (case roles parent_pid of
             None \<Rightarrow> classify_walk ps backend stack roles
           | Some parent_role \<Rightarrow>
               (let step = assign_children backend (graph_by_pid ps) parent parent_role
                             (graph_children ps parent_pid) roles stack
                in classify_walk ps backend (snd step) (fst step))))"
  by pat_completeness auto

termination
proof (relation "measure (\<lambda>(ps, b, stack, roles). card (pm_pid ` set ps - dom roles) + length stack)", goal_cases)
  case (4 ps b p stack roles parent parent_role step)
  have "card (pm_pid ` set ps - dom (fst step)) + length (snd step) \<le> card (pm_pid ` set ps - dom roles) + length stack"
    unfolding 4(3) by (rule assign_children_measure) (auto simp: set_graph_children)
  then show ?case by simp
qed simp_all

definition classify_backend ::
    "process_meta list \<Rightarrow> registered_backend \<Rightarrow> (pid \<rightharpoonup> process_role) \<Rightarrow> (pid \<rightharpoonup> process_role)" where
  "classify_backend ps backend roles =
     (case graph_by_pid ps (rb_pid backend) of
        None \<Rightarrow> roles
      | Some root \<Rightarrow>
          if rb_start_time backend = unknown_start_time \<or> pm_start_time root = unknown_start_time \<or>
             rb_start_time backend \<noteq> pm_start_time root then roles
          else
            (let root_role = (if is_agent_image backend (pm_image_name root) then AgentHost else BackendRoot);
                 roles = (if roles (pm_pid root) = None then roles(pm_pid root \<mapsto> root_role) else roles)
             in classify_walk ps backend [pm_pid root] roles))"

definition classify_roles :: "process_meta list \<Rightarrow> registered_backend list \<Rightarrow> (pid \<rightharpoonup> process_role)" where
  "classify_roles ps backends = fold (classify_backend ps) backends Map.empty"

record process_graph =
  by_pid :: "pid \<rightharpoonup> process_meta"
  children_of :: "pid \<Rightarrow> pid list"
  roles :: "pid \<rightharpoonup> process_role"

definition build_graph :: "process_meta list \<Rightarrow> registered_backend list \<Rightarrow> process_graph" where
  "build_graph ps backends =
     \<lparr>by_pid = graph_by_pid ps, children_of = graph_children ps, roles = classify_roles ps backends\<rparr>"

text \<open>The candidates of the spare list are the values of \<open>by_pid\<close>; \<open>ps\<close> lists them when its ids are distinct.\<close>

definition spare_candidates :: "process_meta list \<Rightarrow> (pid \<times> string) list" where
  "spare_candidates ps = map (\<lambda>p. (pm_pid p, pm_image_name p)) ps"

section \<open>The plan for an exited shell\<close>

definition decision ::
    "process_meta \<Rightarrow> process_role \<Rightarrow> process_meta option \<Rightarrow> decision_action \<Rightarrow> reap_decision_reason \<Rightarrow> reap_decision" where
  "decision trigger role candidate act reason =
     \<lparr>trigger_pid = pm_pid trigger, trigger_image = pm_image_name trigger, trigger_role = role,
      candidate_pid = map_option pm_pid candidate, candidate_parent_pid = map_option pm_parent_pid candidate,
      candidate_image = map_option pm_image_name candidate,
      candidate_start_time = map_option pm_start_time candidate, dec_action = act, dec_reason = reason\<rparr>"

definition candidate_identity :: "reap_decision \<Rightarrow> process_identity option" where
  "candidate_identity d =
     (case (candidate_pid d, candidate_start_time d) of
        (Some p, Some st) \<Rightarrow>
          (let i = \<lparr>id_pid = p, id_start_time = st\<rparr> in if has_start_time i then Some i else None)
      | _ \<Rightarrow> None)"

record pending =
  pe_pid :: pid
  has_non_shell_client :: bool
  reap_ancestor :: bool
  inherited_spare :: "reap_decision_reason option"

definition role_or_client :: "process_graph \<Rightarrow> pid \<Rightarrow> process_role" where
  "role_or_client g p = unwrap_or (roles g p) Client"

definition own_spare :: "process_graph \<Rightarrow> spare_list \<Rightarrow> bool \<Rightarrow> process_meta \<Rightarrow> pid \<Rightarrow> reap_decision_reason option" where
  "own_spare g spares non_shell_above process p =
     (case spares p of
        Some reason \<Rightarrow> Some reason
      | None \<Rightarrow>
          if is_conhost_image (pm_image_name process) then Some ConsoleHost
          else if role_or_client g p = Client \<and> is_shell_image (pm_image_name process) \<and> non_shell_above
          then Some NestedShellDetach
          else None)"

definition is_non_shell_client :: "process_graph \<Rightarrow> process_meta \<Rightarrow> pid \<Rightarrow> bool" where
  "is_non_shell_client g process p \<longleftrightarrow> role_or_client g p = Client \<and> \<not> is_shell_image (pm_image_name process)"

definition pending_children :: "process_graph \<Rightarrow> spare_list \<Rightarrow> process_meta \<Rightarrow> pending \<Rightarrow> pending list" where
  "pending_children g spares process item =
     (let spare = or_else (inherited_spare item)
                    (own_spare g spares (has_non_shell_client item) process (pe_pid item))
      in map (\<lambda>c.
           \<lparr>pe_pid = c,
            has_non_shell_client = has_non_shell_client item \<or> is_non_shell_client g process (pe_pid item),
            reap_ancestor = reap_ancestor item \<or> (pm_alive process \<and> spare = None),
            inherited_spare = spare\<rparr>) (children_of g (pe_pid item)))"

definition visit_pending ::
    "process_graph \<Rightarrow> spare_list \<Rightarrow> process_meta \<Rightarrow> process_role \<Rightarrow> pending \<Rightarrow> reap_decision list \<times> pending list" where
  "visit_pending g spares trigger role item =
     (case by_pid g (pe_pid item) of
        None \<Rightarrow> ([], [])
      | Some process \<Rightarrow>
          (let spare = or_else (inherited_spare item)
                         (own_spare g spares (has_non_shell_client item) process (pe_pid item));
               next = rev (pending_children g spares process item)
           in if pm_alive process then
                (case spare of
                   Some reason \<Rightarrow> ([decision trigger role (Some process) Spare reason], [])
                 | None \<Rightarrow>
                     (if reap_ancestor item then []
                      else [decision trigger role (Some process) Reap LeakedToolClient], next))
              else ([], next)))"

definition initial_pending :: "process_graph \<Rightarrow> pid \<Rightarrow> pending list" where
  "initial_pending g exited_pid =
     map (\<lambda>c. \<lparr>pe_pid = c, has_non_shell_client = False, reap_ancestor = False, inherited_spare = None\<rparr>)
       (children_of g exited_pid)"

definition handoff_of :: "process_graph \<Rightarrow> pid \<Rightarrow> process_meta option" where
  "handoff_of g exited_pid =
     find (\<lambda>process. pm_alive process \<and> roles g (pm_pid process) = Some ShellHandoff \<and>
                     is_bash_image (pm_image_name process))
       (List.map_filter (by_pid g) (children_of g exited_pid))"

definition plan_shell_exit :: "process_graph \<Rightarrow> spare_list \<Rightarrow> pid \<Rightarrow> reap_decision list option" where
  "plan_shell_exit g spares exited_pid =
     (case by_pid g exited_pid of
        None \<Rightarrow> Some []
      | Some trigger \<Rightarrow>
          (case roles g exited_pid of
             Some role \<Rightarrow>
               if role = ToolShellRoot \<or> role = ShellHandoff then
                 (case (if is_bash_image (pm_image_name trigger) then handoff_of g exited_pid else None) of
                    Some handoff \<Rightarrow> Some [decision trigger role (Some handoff) Handoff GitBashReexec]
                  | None \<Rightarrow>
                      (case stack_walk (visit_pending g spares trigger role)
                              (rev (initial_pending g exited_pid)) [] of
                         None \<Rightarrow> None
                       | Some decisions \<Rightarrow>
                           Some (if decisions = [] then [decision trigger role None Spare NoLiveClients]
                                 else decisions)))
               else Some []
           | None \<Rightarrow> Some []))"

section \<open>The tracker\<close>

definition eviction_grace_ms :: nat where "eviction_grace_ms = 5000"
definition empty_plan_defer_ms :: nat where "empty_plan_defer_ms = 3000"
definition provisional_defer_ms :: nat where "provisional_defer_ms = 60000"
definition max_metadata_retries :: nat where "max_metadata_retries = 10"
definition max_unkeyable :: nat where "max_unkeyable = 256"
definition unkeyable_ttl_ms :: nat where "unkeyable_ttl_ms = 300000"

text \<open>The fields of the tracker that \<^verbatim>\<open>split\<close> hands out together, and the tracker around them.\<close>

record exit_ledger =
  processed_exits :: "exit_identity set"
  provisional_empty_exits :: "exit_identity set"
  deferred_since :: "exit_identity \<rightharpoonup> nat"
  abandoned_exits :: "exit_identity list"

record tracker_processes =
  known :: "(pid \<times> process_meta) list"
  unresolved_new_pids :: "pid list"
  unresolved_retries :: "pid \<rightharpoonup> nat"
  unkeyable :: "(pid \<times> nat) list"
  exits :: exit_ledger

definition default_ledger :: exit_ledger where
  "default_ledger = \<lparr>processed_exits = {}, provisional_empty_exits = {}, deferred_since = Map.empty, abandoned_exits = []\<rparr>"

definition default_tracker :: tracker_processes where
  "default_tracker =
     \<lparr>known = [], unresolved_new_pids = [], unresolved_retries = Map.empty, unkeyable = [], exits = default_ledger\<rparr>"

definition known_values :: "tracker_processes \<Rightarrow> process_meta list" where
  "known_values t = map snd (known t)"

definition pending_exit_pids :: "process_meta list \<Rightarrow> exit_identity set \<Rightarrow> pid list" where
  "pending_exit_pids processes processed =
     map pm_pid (filter (\<lambda>p. \<not> pm_alive p \<and> is_shell_image (pm_image_name p) \<and>
                             (pm_pid p, pm_start_time p) \<notin> processed) processes)"

definition record_new_process_observation ::
    "tracker_processes \<Rightarrow> pid \<Rightarrow> process_meta option \<Rightarrow> tracker_processes" where
  "record_new_process_observation t p observed =
     (case (case observed of Some m \<Rightarrow> if pm_start_time m \<noteq> unknown_start_time then Some m else None
                           | None \<Rightarrow> None) of
        Some process \<Rightarrow>
          t\<lparr>known := AList.update p process (known t), unresolved_new_pids := removeAll p (unresolved_new_pids t)\<rparr>
      | None \<Rightarrow> t\<lparr>unresolved_new_pids := List.insert p (unresolved_new_pids t)\<rparr>)"

definition mark_exited :: "nat \<Rightarrow> process_meta \<Rightarrow> process_meta" where
  "mark_exited now_ms m = m\<lparr>pm_alive := False, pm_exited_at_ms := Some (unwrap_or (pm_exited_at_ms m) now_ms)\<rparr>"

definition record_process_exit ::
    "tracker_processes \<Rightarrow> pid \<Rightarrow> process_meta option \<Rightarrow> nat \<Rightarrow> tracker_processes \<times> bool" where
  "record_process_exit t p final_observation now_ms =
     (let t = (if list_contains (unresolved_new_pids t) p
               then record_new_process_observation t p final_observation else t);
          metadata_failed = list_contains (unresolved_new_pids t) p;
          t = t\<lparr>unresolved_new_pids := removeAll p (unresolved_new_pids t)\<rparr>
      in (case map_of (known t) p of
            Some process \<Rightarrow> t\<lparr>known := AList.update p (mark_exited now_ms process) (known t)\<rparr>
          | None \<Rightarrow> t, metadata_failed))"

subsection \<open>The ledger\<close>

definition defer_expired :: "exit_ledger \<Rightarrow> exit_identity \<Rightarrow> nat \<Rightarrow> nat \<Rightarrow> exit_ledger \<times> bool" where
  "defer_expired l i now_ms ttl_ms =
     (let since = unwrap_or (deferred_since l i) now_ms
      in (l\<lparr>deferred_since := (deferred_since l)(i \<mapsto> since)\<rparr>, now_ms - since \<ge> ttl_ms))"

definition cap_front :: "'a list \<Rightarrow> 'a list" where
  "cap_front xs = drop (length xs - max_unkeyable) xs"

definition abandon_exit :: "exit_ledger \<Rightarrow> exit_identity \<Rightarrow> exit_ledger" where
  "abandon_exit l i =
     l\<lparr>processed_exits := insert i (processed_exits l),
       provisional_empty_exits := provisional_empty_exits l - {i},
       deferred_since := (deferred_since l)(i := None),
       abandoned_exits :=
         (if list_contains (abandoned_exits l) i then abandoned_exits l
          else cap_front (abandoned_exits l @ [i]))\<rparr>"

definition finalize_exit :: "exit_ledger \<Rightarrow> exit_identity \<Rightarrow> exit_ledger" where
  "finalize_exit l i =
     l\<lparr>provisional_empty_exits := provisional_empty_exits l - {i},
       deferred_since := (deferred_since l)(i := None),
       processed_exits := insert i (processed_exits l)\<rparr>"

subsection \<open>Bounds of the tracked keys\<close>

definition metadata_complete :: "tracker_processes \<Rightarrow> bool" where
  "metadata_complete t \<longleftrightarrow> unresolved_new_pids t = []"

definition push_unkeyable :: "tracker_processes \<Rightarrow> pid \<Rightarrow> nat \<Rightarrow> tracker_processes" where
  "push_unkeyable t p now_ms = t\<lparr>unkeyable := cap_front (unkeyable t @ [(p, now_ms)])\<rparr>"

definition charge_retry :: "nat \<Rightarrow> tracker_processes \<times> pid list \<Rightarrow> pid \<Rightarrow> tracker_processes \<times> pid list" where
  "charge_retry now_ms = (\<lambda>(t, abandoned) p.
     (let attempts = unwrap_or (unresolved_retries t p) 0 + 1
      in if attempts \<ge> max_metadata_retries
         then (push_unkeyable (t\<lparr>unresolved_new_pids := removeAll p (unresolved_new_pids t),
                                 unresolved_retries := (unresolved_retries t)(p := None)\<rparr>) p now_ms,
               abandoned @ [p])
         else (t\<lparr>unresolved_retries := (unresolved_retries t)(p \<mapsto> attempts)\<rparr>, abandoned)))"

definition bump_unresolved_retries :: "tracker_processes \<Rightarrow> nat \<Rightarrow> tracker_processes \<times> pid list" where
  "bump_unresolved_retries t now_ms =
     (let (t, abandoned) = foldl (charge_retry now_ms) (t, []) (unresolved_new_pids t)
      in (t\<lparr>unresolved_retries := unresolved_retries t |` set (unresolved_new_pids t)\<rparr>, abandoned))"

definition take_abandoned :: "tracker_processes \<Rightarrow> tracker_processes \<times> exit_identity list" where
  "take_abandoned t = (t\<lparr>exits := (exits t)\<lparr>abandoned_exits := []\<rparr>\<rparr>, abandoned_exits (exits t))"

function protect_from :: "(pid \<times> process_meta) list \<Rightarrow> pid \<Rightarrow> pid set \<Rightarrow> pid set" where
  "protect_from ks cursor protected =
     (case map_of ks cursor of
        None \<Rightarrow> protected
      | Some parent \<Rightarrow>
          if pm_pid parent \<in> protected then protected
          else protect_from ks (pm_parent_pid parent) (insert (pm_pid parent) protected))"
  by auto
termination
proof (relation "measure (\<lambda>(ks, cursor, protected). card (pm_pid ` snd ` set ks - protected))", goal_cases)
  case (2 ks cursor protected parent)
  then have "pm_pid parent \<in> pm_pid ` snd ` set ks - protected"
    by (force dest!: map_of_SomeD)
  then have "card ((pm_pid ` snd ` set ks - protected) - {pm_pid parent}) < card (pm_pid ` snd ` set ks - protected)"
    by (intro card_Diff1_less) auto
  moreover have "pm_pid ` snd ` set ks - insert (pm_pid parent) protected = (pm_pid ` snd ` set ks - protected) - {pm_pid parent}"
    by auto
  ultimately show ?case by simp
qed simp

declare protect_from.simps [simp del]

definition identities_with_live_descendants :: "(pid \<times> process_meta) list \<Rightarrow> pid set" where
  "identities_with_live_descendants ks =
     fold (\<lambda>p protected. protect_from ks (pm_parent_pid p) protected) (filter pm_alive (map snd ks)) {}"

definition is_pending :: "exit_ledger \<Rightarrow> process_meta \<Rightarrow> bool" where
  "is_pending l p \<longleftrightarrow> is_shell_image (pm_image_name p) \<and> meta_identity p \<notin> processed_exits l"

definition evictable :: "tracker_processes \<Rightarrow> nat \<Rightarrow> process_meta \<Rightarrow> bool" where
  "evictable t now_ms p \<longleftrightarrow>
     \<not> pm_alive p \<and> pm_pid p \<notin> identities_with_live_descendants (known t) \<and> \<not> is_pending (exits t) p \<and>
     (case pm_exited_at_ms p of None \<Rightarrow> False | Some at \<Rightarrow> now_ms - at \<ge> eviction_grace_ms)"

definition evict :: "exit_identity \<Rightarrow> tracker_processes \<Rightarrow> tracker_processes" where
  "evict i t =
     t\<lparr>known := AList.delete (fst i) (known t),
       exits := (exits t)\<lparr>processed_exits := processed_exits (exits t) - {i},
                          provisional_empty_exits := provisional_empty_exits (exits t) - {i},
                          deferred_since := (deferred_since (exits t))(i := None)\<rparr>\<rparr>"

definition purge :: "tracker_processes \<Rightarrow> nat \<Rightarrow> tracker_processes \<times> nat" where
  "purge t now_ms =
     (let gone = map meta_identity (filter (evictable t now_ms) (known_values t));
          t = fold evict gone t;
          t = t\<lparr>unkeyable := filter (\<lambda>(_, seen). now_ms - seen < unkeyable_ttl_ms) (unkeyable t)\<rparr>;
          t = t\<lparr>exits := (exits t)\<lparr>deferred_since := (\<lambda>i.
                (case map_of (known t) (fst i) of
                   Some p \<Rightarrow> if pm_start_time p = snd i then deferred_since (exits t) i else None
                 | None \<Rightarrow> None))\<rparr>\<rparr>
      in (t, length gone))"

section \<open>Facts on the tracked processes\<close>

text \<open>
  The questions put to the system, cheapest first: the later ones only for processes the earlier ones leave.
  \<open>declared_among\<close> reads the daemon markers of the survivors.
\<close>

definition collect_facts ::
    "string list \<Rightarrow> (pid \<Rightarrow> bool option) \<Rightarrow> (pid \<Rightarrow> nat option) \<Rightarrow> ((pid \<times> nat) list \<Rightarrow> pid set) \<Rightarrow>
     (pid \<Rightarrow> bool) \<Rightarrow> pid option \<Rightarrow> process_meta list \<Rightarrow> facts_snapshot" where
  "collect_facts imgs process_in_job session_id declared_among listens desktop_shell ps =
     (let candidates = map (\<lambda>p. (pm_pid p, pm_start_time p)) ps;
          pids = map fst candidates;
          outside = set (filter (\<lambda>p. process_in_job p = Some False) pids);
          foreign = set (filter (\<lambda>p. process_in_job p = None) pids);
          service = set (filter (\<lambda>p. process_in_job p = Some True \<and> session_id p = Some 0) pids);
          snapshot =
            \<lparr>outside_job = outside, service_session = service, session_leaders = {}, foreign_owner = foreign,
             declared_daemons = {}, listening = {}, active_desktop_shells = {}, spare_images = imgs,
             unavailable = {SessionLeaderSignal}\<rparr>;
          survivors = filter (\<lambda>(p, _). p \<notin> outside \<and> p \<notin> foreign \<and> p \<notin> service) candidates
      in if survivors = [] then snapshot
         else snapshot\<lparr>declared_daemons := declared_among survivors,
                listening := set (filter listens (map fst survivors)),
                active_desktop_shells :=
                  (case desktop_shell of None \<Rightarrow> {}
                   | Some s \<Rightarrow> if list_contains (map fst survivors) s then {s} else {})\<rparr>)"

section \<open>Rate of host scans\<close>

definition scan_backoff_base :: duration where "scan_backoff_base = from_millis 50"
definition scan_backoff_max_multiplier :: nat where "scan_backoff_max_multiplier = 10"
definition retry_scan_interval :: duration where "retry_scan_interval = from_secs 2"

record scan_backoff =
  next_allowed :: instant
  last_retry_scan :: instant

definition new_backoff :: "instant \<Rightarrow> scan_backoff" where
  "new_backoff now = \<lparr>next_allowed = now, last_retry_scan = now - retry_scan_interval\<rparr>"

text \<open>The result is the time slept; \<open>after\<close> is the clock after the sleep.\<close>

definition acquire_scan :: "scan_backoff \<Rightarrow> instant \<Rightarrow> instant \<Rightarrow> nat \<Rightarrow> scan_backoff \<times> duration \<times> bool" where
  "acquire_scan b now after work_items =
     (let deferred = now < next_allowed b;
          multiplier = min (1 + work_items div 8) scan_backoff_max_multiplier
      in (b\<lparr>next_allowed := after + scan_backoff_base * multiplier\<rparr>,
          if deferred then next_allowed b - now else 0, deferred))"

definition claim_retry_scan :: "scan_backoff \<Rightarrow> instant \<Rightarrow> scan_backoff \<times> bool" where
  "claim_retry_scan b now =
     (if now - last_retry_scan b \<ge> retry_scan_interval then (b\<lparr>last_retry_scan := now\<rparr>, True) else (b, False))"

section \<open>Claiming a pending exit\<close>

record replay_control =
  finalize_provisional_empty :: bool
  rc_metadata_complete :: bool
  rc_now_ms :: nat

datatype exit_claim = Execute "reap_decision list" | Deferred | Abandoned

definition defer_or_abandon :: "exit_ledger \<Rightarrow> exit_identity \<Rightarrow> nat \<Rightarrow> nat \<Rightarrow> exit_claim \<times> exit_ledger" where
  "defer_or_abandon l i now_ms ttl_ms =
     (let (l, expired) = defer_expired l i now_ms ttl_ms
      in if expired then (Abandoned, abandon_exit l i) else (Deferred, l))"

definition claim_exit_replay ::
    "process_graph \<Rightarrow> spare_list \<Rightarrow> exit_ledger \<Rightarrow> pid \<Rightarrow> replay_control \<Rightarrow> (exit_claim \<times> exit_ledger) option" where
  "claim_exit_replay g spares l exited_pid control =
     (if \<not> rc_metadata_complete control then Some (Deferred, l)
      else (case by_pid g exited_pid of
          None \<Rightarrow> Some (Deferred, l)
        | Some trigger \<Rightarrow>
            (let i = meta_identity trigger
             in if i \<in> processed_exits l then Some (Deferred, l)
                else (case plan_shell_exit g spares exited_pid of
                    None \<Rightarrow> None
                  | Some decisions \<Rightarrow>
                      Some
                        (if decisions = [] then defer_or_abandon l i (rc_now_ms control) empty_plan_defer_ms
                         else if length decisions = 1 \<and> dec_reason (hd decisions) = NoLiveClients \<and>
                                 (\<not> finalize_provisional_empty control \<or> i \<notin> provisional_empty_exits l)
                         then defer_or_abandon
                                (l\<lparr>provisional_empty_exits := insert i (provisional_empty_exits l)\<rparr>)
                                i (rc_now_ms control) provisional_defer_ms
                         else (Execute decisions, finalize_exit l i))))))"

fun claim_all ::
    "process_graph \<Rightarrow> spare_list \<Rightarrow> replay_control \<Rightarrow> pid list \<Rightarrow> exit_ledger \<Rightarrow>
     ((pid \<times> exit_claim) list \<times> exit_ledger) option" where
  "claim_all g spares control [] l = Some ([], l)"
| "claim_all g spares control (p # ps) l =
     (case claim_exit_replay g spares l p control of
        None \<Rightarrow> None
      | Some (c, l) \<Rightarrow>
          (case claim_all g spares control ps l of
             None \<Rightarrow> None
           | Some (cs, l) \<Rightarrow> Some ((p, c) # cs, l)))"

text \<open>
  One reconcile pass. The facts are what the system reports on the tracked processes; the result lists what
  each pending exit came to.
\<close>

definition reconcile_pending ::
    "tracker_processes \<Rightarrow> registered_backend list \<Rightarrow> process_facts \<Rightarrow> nat \<Rightarrow> bool \<Rightarrow>
     (tracker_processes \<times> (pid \<times> exit_claim) list \<times> spare_list) option" where
  "reconcile_pending t backends facts now_ms finalize_empty =
     (let t = fst (purge t now_ms);
          control = \<lparr>finalize_provisional_empty = finalize_empty, rc_metadata_complete = metadata_complete t,
                     rc_now_ms = now_ms\<rparr>;
          todo = pending_exit_pids (known_values t) (processed_exits (exits t))
      in if todo = [] then Some (t, [], Map.empty)
         else
           (let g = build_graph (known_values t) backends;
                spares = reaper_spare_list facts (spare_candidates (known_values t))
            in (case claim_all g spares control todo (exits t) of
                  None \<Rightarrow> None
                | Some (claims, l) \<Rightarrow> Some (t\<lparr>exits := l\<rparr>, claims, spares))))"

section \<open>Executing decisions\<close>

text \<open>
  What the system shows while one decision is carried out: who holds an id at the last check, the process table
  the kill walks, and the process that holds an id when its own turn comes.
\<close>

record host_view =
  hv_observe :: "pid \<Rightarrow> process_identity option"
  hv_table :: "host_process list"
  hv_current :: "pid \<Rightarrow> host_process option"

definition candidate_identity_is_live :: "(pid \<Rightarrow> process_identity option) \<Rightarrow> reap_decision \<Rightarrow> bool" where
  "candidate_identity_is_live observe d =
     (case candidate_identity d of None \<Rightarrow> False
      | Some recorded \<Rightarrow>
          (case observe (id_pid recorded) of None \<Rightarrow> False
           | Some observed \<Rightarrow> automatic_identity_matches recorded observed))"

definition is_spared :: "reap_decision list \<Rightarrow> spare_list \<Rightarrow> pid \<Rightarrow> bool" where
  "is_spared decisions spares p \<longleftrightarrow>
     list_ex (\<lambda>d. dec_action d = Spare \<and> candidate_pid d = Some p) decisions \<or> spares p \<noteq> None"

definition execute_decision ::
    "(pid \<Rightarrow> bool) \<Rightarrow> host_view \<Rightarrow> reap_decision \<Rightarrow> (reap_decision \<times> process_identity list) option" where
  "execute_decision spared view d =
     (if dec_action d = Reap \<and> \<not> candidate_identity_is_live (hv_observe view) d
      then Some (d\<lparr>dec_action := Spare, dec_reason := CandidateIdentityChanged\<rparr>, [])
      else if dec_action d \<noteq> Reap then Some (d, [])
      else map_option (\<lambda>killed. (d, killed))
             (kill_tree_filtered_automatic (hv_table view) (hv_current view) (the (candidate_identity d))
               (\<lambda>p. \<not> spared p)))"

fun execute_each ::
    "(pid \<Rightarrow> bool) \<Rightarrow> (reap_decision \<times> host_view) list \<Rightarrow> (reap_decision \<times> process_identity list) list option" where
  "execute_each spared [] = Some []"
| "execute_each spared ((d, view) # rest) =
     (case execute_decision spared view d of None \<Rightarrow> None
      | Some r \<Rightarrow> map_option ((#) r) (execute_each spared rest))"

definition execute_decisions ::
    "(reap_decision \<times> host_view) list \<Rightarrow> spare_list \<Rightarrow> (reap_decision \<times> process_identity list) list option" where
  "execute_decisions ds spares = execute_each (is_spared (map fst ds) spares) ds"

section \<open>The end of the foreground process\<close>

text \<open>
  Exits that were given up are planned again. \<open>live\<close> is the fresh process table, \<open>start_time_of\<close> the start
  time read from the process that holds an id.
\<close>

definition refresh_liveness :: "(pid \<Rightarrow> bool) \<Rightarrow> (pid \<Rightarrow> nat) \<Rightarrow> process_meta \<Rightarrow> process_meta" where
  "refresh_liveness live start_time_of p =
     (if \<not> live (pm_pid p) then p\<lparr>pm_alive := False\<rparr>
      else if pm_alive p then p\<lparr>pm_alive := start_time_of (pm_pid p) = pm_start_time p\<rparr>
      else p)"

fun sweep_plans :: "process_graph \<Rightarrow> spare_list \<Rightarrow> exit_identity list \<Rightarrow> (nat \<times> reap_decision list list) option" where
  "sweep_plans g spares [] = Some (0, [])"
| "sweep_plans g spares ((p, start_time) # rest) =
     (case by_pid g p of
        None \<Rightarrow> sweep_plans g spares rest
      | Some trigger \<Rightarrow>
          if pm_start_time trigger \<noteq> start_time then sweep_plans g spares rest
          else (case plan_shell_exit g spares p of
                  None \<Rightarrow> None
                | Some decisions \<Rightarrow>
                    map_option (\<lambda>(swept, claimed).
                        (swept + 1, if decisions = [] then claimed else decisions # claimed))
                      (sweep_plans g spares rest)))"

definition sweep_abandoned_at_exit ::
    "tracker_processes \<Rightarrow> registered_backend list \<Rightarrow> (pid \<Rightarrow> bool) \<Rightarrow> (pid \<Rightarrow> nat) \<Rightarrow> process_facts \<Rightarrow>
     (tracker_processes \<times> nat \<times> reap_decision list list \<times> spare_list) option" where
  "sweep_abandoned_at_exit t backends live start_time_of facts =
     (let (t, given_up) = take_abandoned t
      in if given_up = [] then Some (t, 0, [], Map.empty)
         else
           (let t = t\<lparr>known := map (\<lambda>(p, m). (p, refresh_liveness live start_time_of m)) (known t)\<rparr>;
                g = build_graph (known_values t) backends;
                spares = reaper_spare_list facts (spare_candidates (known_values t))
            in map_option (\<lambda>(swept, claimed). (t, swept, claimed, spares)) (sweep_plans g spares given_up)))"

text \<open>
  What becomes of the members of the job object: a member without a reason is terminated. \<open>known_image\<close> and
  \<open>read_image\<close> are the two sources of its name, \<open>facts_of\<close> collects facts on members without any declared
  daemon.
\<close>

definition member_image :: "(pid \<Rightarrow> string option) \<Rightarrow> (pid \<Rightarrow> string option) \<Rightarrow> pid \<Rightarrow> string option" where
  "member_image known_image read_image p = or_else (known_image p) (read_image p)"

definition image_spare :: "string list \<Rightarrow> string option \<Rightarrow> string option" where
  "image_spare imgs name =
     (case name of None \<Rightarrow> None
      | Some n \<Rightarrow>
          if is_docker_desktop_family_root n then Some ''docker_desktop_process_family''
          else if list_ex (\<lambda>cfg. normalized_image cfg = normalized_image n) imgs then Some ''configured_spare_list''
          else None)"

definition explicitly_reap_job_members ::
    "pid list \<Rightarrow> pid \<Rightarrow> (pid \<Rightarrow> string option) \<Rightarrow> (pid \<Rightarrow> string option) \<Rightarrow> string list \<Rightarrow>
     (pid list \<Rightarrow> pid set \<Rightarrow> string list \<Rightarrow> facts_snapshot) \<Rightarrow> (pid \<times> string option) list" where
  "explicitly_reap_job_members members our_pid known_image read_image imgs facts_of =
     (let members = filter (\<lambda>p. p \<noteq> our_pid) members;
          name_of = member_image known_image read_image;
          remaining = filter (\<lambda>p. name_of p \<noteq> None \<and> image_spare imgs (name_of p) = None) members;
          facts = snapshot_facts (facts_of remaining {} imgs);
          spared = (\<lambda>p. or_else (image_spare imgs (name_of p))
            (if list_contains remaining p
             then map_option spare_reason_str (spare_signal facts p (the (name_of p))) else None))
      in map (\<lambda>p. (p, spared p)) members)"

section \<open>Messages of the job\<close>

datatype job_message = NewProcess | ExitProcess | ActiveProcessZero | OtherMessage

fun batch_needs_from :: "bool \<Rightarrow> job_message list \<Rightarrow> bool" where
  "batch_needs_from needs [] = needs"
| "batch_needs_from needs (m # ms) =
     batch_needs_from (case m of NewProcess \<Rightarrow> True | ExitProcess \<Rightarrow> True | ActiveProcessZero \<Rightarrow> False
                       | OtherMessage \<Rightarrow> needs) ms"

definition batch_needs_reconcile :: "job_message list \<Rightarrow> bool" where
  "batch_needs_reconcile = batch_needs_from False"

text \<open>One message with the observation its processing makes, and the clock.\<close>

definition apply_message ::
    "tracker_processes \<Rightarrow> job_message \<times> pid \<times> process_meta option \<times> nat \<Rightarrow> tracker_processes" where
  "apply_message t = (\<lambda>(m, p, observed, now_ms).
     (case m of
        NewProcess \<Rightarrow> record_new_process_observation t p observed
      | ExitProcess \<Rightarrow> fst (record_process_exit t p observed now_ms)
      | ActiveProcessZero \<Rightarrow> default_tracker
      | OtherMessage \<Rightarrow> t))"

definition apply_batch ::
    "tracker_processes \<Rightarrow> registered_backend list \<Rightarrow> process_facts \<Rightarrow> nat \<Rightarrow>
     (job_message \<times> pid \<times> process_meta option \<times> nat) list \<Rightarrow>
     (tracker_processes \<times> (pid \<times> exit_claim) list \<times> spare_list) option" where
  "apply_batch t backends facts now_ms batch =
     (let t = foldl apply_message t batch
      in if batch_needs_reconcile (map fst batch) then reconcile_pending t backends facts now_ms False
         else Some (t, [], Map.empty))"

text \<open>
  The retry of unresolved ids in a quiet period; \<open>observe\<close> is the fresh table. \<open>claimed\<close> tells whether the rate
  limit lets this period look.
\<close>

definition retry_unresolved_new_processes ::
    "tracker_processes \<Rightarrow> bool \<Rightarrow> (pid \<Rightarrow> process_meta option) \<Rightarrow> nat \<Rightarrow> tracker_processes \<times> bool" where
  "retry_unresolved_new_processes t claimed observe now_ms =
     (if unresolved_new_pids t = [] then (t, True)
      else if \<not> claimed then (t, metadata_complete t)
      else
        (let t = foldl (\<lambda>t p. record_new_process_observation t p (observe p)) t (unresolved_new_pids t);
             t = fst (bump_unresolved_retries t now_ms)
         in (t, metadata_complete t)))"

definition register_backend ::
    "tracker_processes \<Rightarrow> registered_backend list \<Rightarrow> pid \<Rightarrow> string \<Rightarrow> nat \<Rightarrow> process_meta option \<Rightarrow>
     tracker_processes \<times> registered_backend list" where
  "register_backend t backends p executable_name start_time snapshot =
     (let backends = filter (\<lambda>b. rb_pid b \<noteq> p) backends @ [new_backend p executable_name start_time]
      in case snapshot of
           None \<Rightarrow> (t, backends)
         | Some process \<Rightarrow>
             (let process = process\<lparr>pm_start_time := start_time\<rparr>;
                  t = t\<lparr>known := (if map_of (known t) p = None then AList.update p process (known t) else known t)\<rparr>;
                  t = (if start_time \<noteq> unknown_start_time
                       then t\<lparr>unresolved_new_pids := removeAll p (unresolved_new_pids t)\<rparr> else t)
              in (t, backends)))"

end
