(* ===== verification/Reaper_Plans.thy ===== *)
theory Reaper_Plans
  imports Shell_Reaper
begin

text \<open>
  What a plan of the tool-shell reaper names. A plan is the walk over the processes below the exited shell;
  \<open>lineage\<close> is the chain of tracked processes between the shell and one of them, and what the walk carries
  along is a function of that chain. Hence every candidate is described by its chain, and every live process
  below the shell is decided.
\<close>

section \<open>Chains of tracked processes\<close>

inductive lineage :: "process_graph \<Rightarrow> pid \<Rightarrow> pid list \<Rightarrow> pid \<Rightarrow> bool" for g t where
  lineage_child: "c \<in> set (children_of g t) \<Longrightarrow> lineage g t [] c"
| lineage_step: "lineage g t as p \<Longrightarrow> by_pid g p \<noteq> None \<Longrightarrow> c \<in> set (children_of g p) \<Longrightarrow> lineage g t (as @ [p]) c"

definition meta_of :: "process_graph \<Rightarrow> pid \<Rightarrow> process_meta" where
  "meta_of g p = the (by_pid g p)"

definition is_live :: "process_graph \<Rightarrow> pid \<Rightarrow> bool" where
  "is_live g p \<longleftrightarrow> by_pid g p \<noteq> None \<and> pm_alive (meta_of g p)"

definition below_client :: "process_graph \<Rightarrow> pid list \<Rightarrow> bool" where
  "below_client g as = list_ex (\<lambda>a. is_non_shell_client g (meta_of g a) a) as"

lemma below_client_snoc:
  "below_client g (as @ [p]) \<longleftrightarrow> below_client g as \<or> is_non_shell_client g (meta_of g p) p"
  by (simp add: below_client_def)

text \<open>The first reason on a chain to spare what is below it, \<open>b\<close> telling whether a client is above.\<close>

fun chain_spare :: "process_graph \<Rightarrow> spare_list \<Rightarrow> bool \<Rightarrow> pid list \<Rightarrow> reap_decision_reason option" where
  "chain_spare g spares b [] = None"
| "chain_spare g spares b (p # ps) =
     or_else (own_spare g spares b (meta_of g p) p)
       (chain_spare g spares (b \<or> is_non_shell_client g (meta_of g p) p) ps)"

lemma or_else_assoc: "or_else (or_else x y) z = or_else x (or_else y z)"
  by (cases x) simp_all

lemma chain_spare_append:
  "chain_spare g spares b (ps @ qs) =
     or_else (chain_spare g spares b ps) (chain_spare g spares (b \<or> below_client g ps) qs)"
  by (induction ps arbitrary: b) (auto simp: below_client_def or_else_assoc disj_ac)

lemma chain_spare_snoc:
  "chain_spare g spares False (ps @ [p]) =
     or_else (chain_spare g spares False ps) (own_spare g spares (below_client g ps) (meta_of g p) p)"
  by (simp add: chain_spare_append)

text \<open>The item the walk holds for a process with a given chain.\<close>

definition item_of :: "process_graph \<Rightarrow> spare_list \<Rightarrow> pid list \<Rightarrow> pid \<Rightarrow> pending" where
  "item_of g spares as c =
     \<lparr>pe_pid = c, has_non_shell_client = below_client g as, reap_ancestor = list_ex (is_live g) as,
      inherited_spare = chain_spare g spares False as\<rparr>"

text \<open>A chain is open when none of its live processes is spared, so that the walk passes it.\<close>

definition open_chain :: "process_graph \<Rightarrow> spare_list \<Rightarrow> pid list \<Rightarrow> bool" where
  "open_chain g spares as \<longleftrightarrow>
     (\<forall>pre a post. as = pre @ a # post \<longrightarrow> is_live g a \<longrightarrow> chain_spare g spares False (pre @ [a]) = None)"

lemma open_chain_Nil [simp]: "open_chain g spares []"
  by (simp add: open_chain_def)

lemma open_chain_snoc:
  "open_chain g spares (as @ [p]) \<longleftrightarrow>
     open_chain g spares as \<and> (is_live g p \<longrightarrow> chain_spare g spares False (as @ [p]) = None)"
  unfolding open_chain_def
proof (intro iffI conjI allI impI)
  fix pre a post
  assume *: "\<forall>pre a post. as @ [p] = pre @ a # post \<longrightarrow> is_live g a \<longrightarrow> chain_spare g spares False (pre @ [a]) = None"
    and "as = pre @ a # post" "is_live g a"
  then show "chain_spare g spares False (pre @ [a]) = None"
    using *[rule_format, of pre a "post @ [p]"] by simp
next
  fix pre a post
  assume *: "(\<forall>pre a post. as = pre @ a # post \<longrightarrow> is_live g a \<longrightarrow> chain_spare g spares False (pre @ [a]) = None) \<and>
      (is_live g p \<longrightarrow> chain_spare g spares False (as @ [p]) = None)"
    and **: "as @ [p] = pre @ a # post" "is_live g a"
  show "chain_spare g spares False (pre @ [a]) = None"
  proof (cases post rule: rev_cases)
    case Nil then show ?thesis using * ** by simp
  next
    case (snoc post' q) then show ?thesis using * ** by simp
  qed
qed auto

section \<open>The walk visits the items of the chains it can pass\<close>

abbreviation walk_visits :: "process_graph \<Rightarrow> spare_list \<Rightarrow> process_meta \<Rightarrow> process_role \<Rightarrow> pid \<Rightarrow> pending \<Rightarrow> bool" where
  "walk_visits g spares trigger role t \<equiv>
     visited (visit_pending g spares trigger role) (rev (initial_pending g t))"

lemma pending_children_item:
  assumes "by_pid g p \<noteq> None" "open_chain g spares (as @ [p])"
  shows "pending_children g spares (meta_of g p) (item_of g spares as p) =
    map (item_of g spares (as @ [p])) (children_of g p)"
proof -
  have live: "pm_alive (meta_of g p) \<longleftrightarrow> is_live g p" using assms(1) by (auto simp: is_live_def)
  have spare: "or_else (chain_spare g spares False as) (own_spare g spares (below_client g as) (meta_of g p) p) =
      chain_spare g spares False (as @ [p])" by (simp add: chain_spare_snoc)
  show ?thesis
    using assms(2)
    by (auto simp: pending_children_def item_of_def Let_def spare live below_client_snoc open_chain_snoc)
qed

lemma visit_item:
  assumes "by_pid g p \<noteq> None"
  shows "visit_pending g spares trigger role (item_of g spares as p) =
    (case (is_live g p, chain_spare g spares False (as @ [p])) of
       (True, Some reason) \<Rightarrow> ([decision trigger role (Some (meta_of g p)) Spare reason], [])
     | (True, None) \<Rightarrow>
         (if list_ex (is_live g) as then []
          else [decision trigger role (Some (meta_of g p)) Reap LeakedToolClient],
          rev (pending_children g spares (meta_of g p) (item_of g spares as p)))
     | (False, _) \<Rightarrow> ([], rev (pending_children g spares (meta_of g p) (item_of g spares as p))))"
  using assms
  by (auto simp: visit_pending_def item_of_def is_live_def meta_of_def chain_spare_snoc Let_def
      split: option.splits)

lemma visited_lineage:
  assumes "walk_visits g spares trigger role t i"
  shows "\<exists>as c. i = item_of g spares as c \<and> lineage g t as c \<and> open_chain g spares as"
  using assms
proof induction
  case (visited_start i)
  then obtain c where "c \<in> set (children_of g t)" "i = item_of g spares [] c"
    by (auto simp: initial_pending_def item_of_def below_client_def)
  then show ?case by (intro exI [of _ "[]"]) (auto intro: lineage_child)
next
  case (visited_next i j)
  then obtain as p where i: "i = item_of g spares as p" "lineage g t as p" "open_chain g spares as" by blast
  have p: "by_pid g p \<noteq> None"
    using visited_next.hyps(2) by (auto simp: i(1) visit_pending_def item_of_def split: option.splits)
  have passed: "open_chain g spares (as @ [p])" and j: "j \<in> set (pending_children g spares (meta_of g p) i)"
    using visited_next.hyps(2) i(3)
    by (auto simp: i(1) visit_item [OF p] open_chain_snoc split: option.splits bool.splits)
  from j obtain c where "c \<in> set (children_of g p)" "j = item_of g spares (as @ [p]) c"
    by (auto simp: i(1) pending_children_item [OF p passed])
  then show ?case
    using i(2) p passed by (blast intro: lineage_step)
qed

lemma lineage_visited:
  assumes "lineage g t as c" "open_chain g spares as"
  shows "walk_visits g spares trigger role t (item_of g spares as c)"
  using assms
proof (induction rule: lineage.induct)
  case (lineage_child c)
  then show ?case
    by (intro visited_start) (auto simp: initial_pending_def item_of_def below_client_def)
next
  case (lineage_step as p c)
  have passed: "open_chain g spares as" "is_live g p \<Longrightarrow> chain_spare g spares False (as @ [p]) = None"
    using lineage_step.prems by (simp_all add: open_chain_snoc)
  have "item_of g spares (as @ [p]) c \<in> set (snd (visit_pending g spares trigger role (item_of g spares as p)))"
    using passed(2) lineage_step.hyps pending_children_item [OF lineage_step.hyps(2) lineage_step.prems]
    by (auto simp: visit_item split: option.splits bool.splits)
  then show ?case using lineage_step.IH [OF passed(1)] by (rule visited_next [rotated])
qed


section \<open>What a plan decides\<close>

definition walks :: "process_graph \<Rightarrow> pid \<Rightarrow> bool" where
  "walks g t \<longleftrightarrow> (\<exists>trigger role. by_pid g t = Some trigger \<and> roles g t = Some role \<and>
     (role = ToolShellRoot \<or> role = ShellHandoff) \<and>
     (is_bash_image (pm_image_name trigger) \<longrightarrow> handoff_of g t = None))"

definition the_decision :: "process_graph \<Rightarrow> pid \<Rightarrow> pid \<Rightarrow> decision_action \<Rightarrow> reap_decision_reason \<Rightarrow> reap_decision" where
  "the_decision g t c act reason = decision (meta_of g t) (the (roles g t)) (Some (meta_of g c)) act reason"

lemma plan_walks:
  assumes "walks g t" "plan_shell_exit g spares t = Some ds"
  shows "set ds = (let out = (\<Union>i\<in>{i. walk_visits g spares (meta_of g t) (the (roles g t)) t i}.
        set (fst (visit_pending g spares (meta_of g t) (the (roles g t)) i)))
      in if out = {} then {decision (meta_of g t) (the (roles g t)) None Spare NoLiveClients} else out)"
proof -
  obtain trigger role where t: "by_pid g t = Some trigger" "roles g t = Some role"
      "role = ToolShellRoot \<or> role = ShellHandoff" "is_bash_image (pm_image_name trigger) \<longrightarrow> handoff_of g t = None"
    using assms(1) by (auto simp: walks_def)
  then have m: "meta_of g t = trigger" by (simp add: meta_of_def)
  obtain out where out: "stack_walk (visit_pending g spares trigger role) (rev (initial_pending g t)) [] = Some out"
      "ds = (if out = [] then [decision trigger role None Spare NoLiveClients] else out)"
    using assms(2) t by (auto simp: plan_shell_exit_def split: option.splits if_splits)
  have visits: "set out = (\<Union>i\<in>{i. walk_visits g spares (meta_of g t) (the (roles g t)) t i}.
        set (fst (visit_pending g spares (meta_of g t) (the (roles g t)) i)))"
    using stack_walk_set [OF out(1)] t(2) m by simp
  show ?thesis
    unfolding Let_def visits [symmetric] out(2) using t(2) m by simp
qed

definition decides :: "process_graph \<Rightarrow> spare_list \<Rightarrow> pid \<Rightarrow> reap_decision \<Rightarrow> bool" where
  "decides g spares t d \<longleftrightarrow> (\<exists>as c. lineage g t as c \<and> open_chain g spares as \<and> is_live g c \<and>
      (case chain_spare g spares False (as @ [c]) of
         Some reason \<Rightarrow> d = the_decision g t c Spare reason
       | None \<Rightarrow> \<not> list_ex (is_live g) as \<and> d = the_decision g t c Reap LeakedToolClient))"

lemma walk_decision_iff:
  "d \<in> (\<Union>i\<in>{i. walk_visits g spares (meta_of g t) (the (roles g t)) t i}.
        set (fst (visit_pending g spares (meta_of g t) (the (roles g t)) i))) \<longleftrightarrow> decides g spares t d" (is "?L \<longleftrightarrow> _")
proof
  assume ?L
  then obtain i where i: "walk_visits g spares (meta_of g t) (the (roles g t)) t i"
      "d \<in> set (fst (visit_pending g spares (meta_of g t) (the (roles g t)) i))" by auto
  obtain as c where c: "i = item_of g spares as c" "lineage g t as c" "open_chain g spares as"
    using visited_lineage [OF i(1)] by blast
  have tracked: "by_pid g c \<noteq> None"
    using i(2) by (auto simp: c(1) visit_pending_def item_of_def split: option.splits)
  show "decides g spares t d"
    unfolding decides_def using i(2) c(2,3)
    by (intro exI [of _ as] exI [of _ c])
       (auto simp: c(1) visit_item [OF tracked] the_decision_def split: option.splits bool.splits if_splits)
next
  assume "decides g spares t d"
  then obtain as c where c: "lineage g t as c" "open_chain g spares as" "is_live g c"
      "case chain_spare g spares False (as @ [c]) of
         Some reason \<Rightarrow> d = the_decision g t c Spare reason
       | None \<Rightarrow> \<not> list_ex (is_live g) as \<and> d = the_decision g t c Reap LeakedToolClient"
    unfolding decides_def by blast
  have tracked: "by_pid g c \<noteq> None" using c(3) by (simp add: is_live_def)
  have "d \<in> set (fst (visit_pending g spares (meta_of g t) (the (roles g t)) (item_of g spares as c)))"
    using c(3,4) by (auto simp: visit_item [OF tracked] the_decision_def split: option.splits)
  then show ?L using lineage_visited [OF c(1,2)] by blast
qed

text \<open>A plan that reaps is a walk.\<close>

lemma plan_reaps_walks:
  assumes "plan_shell_exit g spares t = Some ds" "d \<in> set ds" "dec_action d = Reap"
  shows "walks g t"
  using assms
  by (auto simp: plan_shell_exit_def walks_def decision_def split: option.splits if_splits)

lemma plan_member:
  assumes "walks g t" "plan_shell_exit g spares t = Some ds"
  shows "d \<in> set ds \<longleftrightarrow> decides g spares t d \<or>
    (d = decision (meta_of g t) (the (roles g t)) None Spare NoLiveClients \<and> \<not> (\<exists>d. decides g spares t d))"
proof -
  let ?out = "\<Union>i\<in>{i. walk_visits g spares (meta_of g t) (the (roles g t)) t i}.
        set (fst (visit_pending g spares (meta_of g t) (the (roles g t)) i))"
  have "?out = {d. decides g spares t d}" using walk_decision_iff by blast
  then show ?thesis using plan_walks [OF assms] by (auto simp: Let_def)
qed

section \<open>Built graphs\<close>

lemma graph_by_pid_Some: "graph_by_pid ps p = Some m \<Longrightarrow> m \<in> set ps \<and> pm_pid m = p"
  by (auto simp: graph_by_pid_def dest!: map_of_SomeD)

lemma graph_by_pid_None_iff: "graph_by_pid ps p = None \<longleftrightarrow> p \<notin> pm_pid ` set ps"
  by (auto simp: graph_by_pid_def map_of_eq_None_iff image_iff)

lemma build_graph_sel [simp]:
  "by_pid (build_graph ps bs) = graph_by_pid ps" "children_of (build_graph ps bs) = graph_children ps"
  "roles (build_graph ps bs) = classify_roles ps bs"
  by (simp_all add: build_graph_def)

lemma pid_meta_of: "graph_by_pid ps p \<noteq> None \<Longrightarrow> pm_pid (meta_of (build_graph ps bs) p) = p"
  by (auto simp: meta_of_def dest: graph_by_pid_Some)

definition graph_edges :: "process_meta list \<Rightarrow> (pid \<times> pid) set" where
  "graph_edges ps = {(p, c). c \<in> set (graph_children ps p)}"

lemma graph_edges_iff: "(p, c) \<in> graph_edges ps \<longleftrightarrow> (\<exists>m\<in>set ps. pm_parent_pid m = p \<and> pm_pid m = c)"
  by (auto simp: graph_edges_def set_graph_children)

lemma finite_graph_edges: "finite (graph_edges ps)"
proof -
  have "graph_edges ps \<subseteq> (\<lambda>m. (pm_parent_pid m, pm_pid m)) ` set ps"
    by (auto simp: graph_edges_iff image_iff)
  then show ?thesis by (rule finite_subset) simp
qed

lemma graph_edges_parent: "distinct (map pm_pid ps) \<Longrightarrow> single_valued ((graph_edges ps)\<inverse>)"
  by (auto simp: single_valued_def graph_edges_iff distinct_map dest!: inj_onD)

lemma lineage_edges: "lineage (build_graph ps bs) t as c \<Longrightarrow> (t, c) \<in> (graph_edges ps)\<^sup>+"
  by (induction rule: lineage.induct) (auto simp: graph_edges_def intro: trancl_into_trancl)

lemma lineage_unique:
  assumes "distinct (map pm_pid ps)" "(t, t) \<notin> (graph_edges ps)\<^sup>+"
  shows "lineage (build_graph ps bs) t as c \<Longrightarrow> lineage (build_graph ps bs) t as' c \<Longrightarrow> as = as'"
proof (induction arbitrary: as' rule: lineage.induct)
  case (lineage_child c)
  from lineage_child.prems lineage_child.hyps show ?case
  proof (cases rule: lineage.cases)
    case (lineage_step xs p)
    then have "p = t"
      using lineage_child.hyps graph_edges_parent [OF assms(1)]
      by (auto simp: graph_edges_def dest: single_valuedD)
    then show ?thesis using lineage_edges lineage_step(2) assms(2) by blast
  qed simp
next
  case (lineage_step xs p c)
  from lineage_step.prems show ?case
  proof (cases rule: lineage.cases)
    case lineage_child
    then have "p = t"
      using lineage_step.hyps graph_edges_parent [OF assms(1)]
      by (auto simp: graph_edges_def dest: single_valuedD)
    then show ?thesis using lineage_edges lineage_step.hyps(1) assms(2) by blast
  next
    case (lineage_step ys q)
    then have "p = q"
      using \<open>c \<in> set (children_of (build_graph ps bs) p)\<close> graph_edges_parent [OF assms(1)]
      by (auto simp: graph_edges_def dest: single_valuedD)
    then show ?thesis using lineage_step.IH lineage_step(1,2) by blast
  qed
qed

lemma lineage_tracked: "lineage (build_graph ps bs) t as c \<Longrightarrow> graph_by_pid ps c \<noteq> None"
  by (induction rule: lineage.induct) (auto simp: graph_by_pid_None_iff set_graph_children)

section \<open>Roles rest on a verified backend\<close>

definition verified_root :: "process_meta list \<Rightarrow> registered_backend \<Rightarrow> bool" where
  "verified_root ps b =
     (case graph_by_pid ps (rb_pid b) of None \<Rightarrow> False
      | Some root \<Rightarrow> rb_start_time b \<noteq> unknown_start_time \<and> pm_start_time root = rb_start_time b)"

lemma verified_root_iff:
  "verified_root ps b \<longleftrightarrow> (\<exists>root. graph_by_pid ps (rb_pid b) = Some root \<and>
     rb_start_time b \<noteq> unknown_start_time \<and> pm_start_time root = rb_start_time b)"
  by (auto simp: verified_root_def split: option.splits)

definition below_backend :: "process_meta list \<Rightarrow> registered_backend list \<Rightarrow> pid \<Rightarrow> bool" where
  "below_backend ps bs p \<longleftrightarrow> (\<exists>b\<in>set bs. verified_root ps b \<and>
     (p = rb_pid b \<or> (\<exists>as. lineage (build_graph ps bs) (rb_pid b) as p)))"

definition role_sound :: "process_meta list \<Rightarrow> registered_backend list \<Rightarrow> pid \<Rightarrow> process_role \<Rightarrow> bool" where
  "role_sound ps bs p r \<longleftrightarrow> below_backend ps bs p \<and> graph_by_pid ps p \<noteq> None \<and>
     (r = ToolShellRoot \<longrightarrow> is_shell_image (pm_image_name (the (graph_by_pid ps p)))) \<and>
     (r = ShellHandoff \<longrightarrow> is_bash_image (pm_image_name (the (graph_by_pid ps p))))"

definition roles_sound :: "process_meta list \<Rightarrow> registered_backend list \<Rightarrow> (pid \<rightharpoonup> process_role) \<Rightarrow> bool" where
  "roles_sound ps bs rs \<longleftrightarrow> (\<forall>p r. rs p = Some r \<longrightarrow> role_sound ps bs p r)"

lemma below_backend_child:
  assumes "below_backend ps bs p" "graph_by_pid ps p \<noteq> None" "c \<in> set (graph_children ps p)"
  shows "below_backend ps bs c"
proof -
  obtain b where b: "b \<in> set bs" "verified_root ps b" "p = rb_pid b \<or> (\<exists>as. lineage (build_graph ps bs) (rb_pid b) as p)"
    using assms(1) by (auto simp: below_backend_def)
  from b(3) have "\<exists>as. lineage (build_graph ps bs) (rb_pid b) as c"
  proof
    assume "p = rb_pid b"
    then show ?thesis using assms(3) by (intro exI [of _ "[]"] lineage_child) simp
  next
    assume "\<exists>as. lineage (build_graph ps bs) (rb_pid b) as p"
    then obtain as where "lineage (build_graph ps bs) (rb_pid b) as p" by blast
    then have "lineage (build_graph ps bs) (rb_pid b) (as @ [p]) c"
      using assms(2,3) by (intro lineage_step) simp_all
    then show ?thesis by blast
  qed
  then show ?thesis using b(1,2) by (auto simp: below_backend_def)
qed

lemma child_role_image:
  "child_role b r parent child = ToolShellRoot \<Longrightarrow> is_shell_image (pm_image_name child)"
  "child_role b r parent child = ShellHandoff \<Longrightarrow> is_bash_image (pm_image_name child)"
  by (auto simp: child_role_def split: process_role.splits if_splits)

lemma assign_children_sound:
  assumes "roles_sound ps bs rs" "below_backend ps bs p" "graph_by_pid ps p \<noteq> None"
    and "set cs \<subseteq> set (graph_children ps p)"
  shows "roles_sound ps bs (fst (assign_children b (graph_by_pid ps) parent r cs rs stack))"
  using assms(1,4)
proof (induction cs arbitrary: rs stack)
  case (Cons c cs)
  show ?case
  proof (cases "graph_by_pid ps c")
    case (Some child)
    have "below_backend ps bs c" using below_backend_child [OF assms(2,3)] Cons.prems by simp
    then have "role_sound ps bs c (child_role b r parent child)"
      using child_role_image [of b r parent child] Some by (auto simp: role_sound_def)
    then have "roles_sound ps bs (rs(c \<mapsto> child_role b r parent child))"
      using Cons.prems(1) by (auto simp: roles_sound_def)
    then have "roles_sound ps bs (fst (assign_children b (graph_by_pid ps) parent r cs
        (rs(c \<mapsto> child_role b r parent child)) st))" for st
      using Cons.IH Cons.prems(2) by (simp del: fun_upd_apply)
    then show ?thesis using Some by simp
  qed (use Cons in simp)
qed simp

lemma classify_walk_sound: "roles_sound ps bs rs \<Longrightarrow> roles_sound ps bs (classify_walk ps b stack rs)"
proof (induction ps b stack rs rule: classify_walk.induct)
  case (2 ps b p stack rs)
  show ?case
  proof (cases "graph_by_pid ps p")
    case (Some parent)
    show ?thesis
    proof (cases "rs p")
      case (Some r)
      then have "below_backend ps bs p" "graph_by_pid ps p \<noteq> None"
        using 2(4) by (auto simp: roles_sound_def role_sound_def)
      then have "roles_sound ps bs (fst (assign_children b (graph_by_pid ps) parent r (graph_children ps p) rs stack))"
        using assign_children_sound [OF 2(4)] by blast
      then show ?thesis
        using 2(3) [OF \<open>graph_by_pid ps p = Some parent\<close> Some refl] Some \<open>graph_by_pid ps p = Some parent\<close>
        by (simp add: Let_def)
    qed (use 2 Some in simp)
  qed (use 2 in simp)
qed simp

lemma classify_backend_sound:
  assumes "roles_sound ps bs rs" "b \<in> set bs"
  shows "roles_sound ps bs (classify_backend ps b rs)"
proof (cases "verified_root ps b")
  case True
  then obtain root where root: "graph_by_pid ps (rb_pid b) = Some root" "rb_start_time b \<noteq> unknown_start_time"
      "pm_start_time root = rb_start_time b" by (auto simp: verified_root_iff)
  have p: "pm_pid root = rb_pid b" using graph_by_pid_Some [OF root(1)] by simp
  have "role_sound ps bs (rb_pid b) (if is_agent_image b (pm_image_name root) then AgentHost else BackendRoot)"
    using assms(2) True root(1) by (auto simp: role_sound_def below_backend_def)
  then have "roles_sound ps bs (if rs (pm_pid root) = None
      then rs(pm_pid root \<mapsto> if is_agent_image b (pm_image_name root) then AgentHost else BackendRoot) else rs)"
    using assms(1) p by (auto simp: roles_sound_def)
  then show ?thesis
    using root by (auto simp: classify_backend_def Let_def simp del: classify_walk.simps intro!: classify_walk_sound)
next
  case False
  then show ?thesis using assms(1) by (auto simp: classify_backend_def verified_root_iff split: option.splits)
qed

lemma classify_roles_sound: "roles_sound ps bs (classify_roles ps bs)"
proof -
  have "set xs \<subseteq> set bs \<Longrightarrow> roles_sound ps bs rs \<Longrightarrow> roles_sound ps bs (fold (classify_backend ps) xs rs)" for xs rs
    by (induction xs arbitrary: rs) (auto intro: classify_backend_sound)
  moreover have "roles_sound ps bs Map.empty" by (simp add: roles_sound_def)
  ultimately show ?thesis by (simp add: classify_roles_def)
qed

lemma bash_is_shell: "is_bash_image img \<Longrightarrow> is_shell_image img"
  by (auto simp: is_bash_image_def is_shell_image_def)

lemma walks_tool_shell:
  assumes "walks (build_graph ps bs) t"
  shows "below_backend ps bs t \<and> graph_by_pid ps t \<noteq> None \<and> is_shell_image (pm_image_name (meta_of (build_graph ps bs) t))"
proof -
  obtain r where "classify_roles ps bs t = Some r" "r = ToolShellRoot \<or> r = ShellHandoff"
    using assms by (auto simp: walks_def)
  then have "role_sound ps bs t r" "r = ToolShellRoot \<or> r = ShellHandoff"
    using classify_roles_sound [of ps bs] by (auto simp: roles_sound_def)
  then show ?thesis by (auto simp: role_sound_def meta_of_def bash_is_shell)
qed

section \<open>Open chains spelled out\<close>

text \<open>
  Nothing on a chain spares what is below it: no process of it is on the spare list or a console host, and none
  is a shell of a client below another client.
\<close>

definition unprotected :: "process_graph \<Rightarrow> spare_list \<Rightarrow> pid list \<Rightarrow> bool" where
  "unprotected g spares ps \<longleftrightarrow>
     (\<forall>p\<in>set ps. spares p = None \<and> \<not> is_conhost_image (pm_image_name (meta_of g p))) \<and>
     (\<forall>pre p post. ps = pre @ p # post \<longrightarrow> role_or_client g p = Client \<longrightarrow>
        is_shell_image (pm_image_name (meta_of g p)) \<longrightarrow> \<not> below_client g pre)"

lemma own_spare_None_iff:
  "own_spare g spares b m p = None \<longleftrightarrow>
     spares p = None \<and> \<not> is_conhost_image (pm_image_name m) \<and>
     \<not> (role_or_client g p = Client \<and> is_shell_image (pm_image_name m) \<and> b)"
  by (auto simp: own_spare_def split: option.splits)

lemma or_else_None_iff: "or_else x y = None \<longleftrightarrow> x = None \<and> y = None"
  by (cases x) auto

lemma unprotected_snoc:
  "unprotected g spares (ps @ [p]) \<longleftrightarrow>
     unprotected g spares ps \<and> own_spare g spares (below_client g ps) (meta_of g p) p = None"
proof -
  have "(\<forall>pre q post. ps @ [p] = pre @ q # post \<longrightarrow> P pre q) \<longleftrightarrow>
      (\<forall>pre q post. ps = pre @ q # post \<longrightarrow> P pre q) \<and> P ps p" for P
  proof (intro iffI conjI allI impI)
    fix pre q post
    assume *: "\<forall>pre q post. ps @ [p] = pre @ q # post \<longrightarrow> P pre q" and "ps = pre @ q # post"
    then show "P pre q" using *[rule_format, of pre q "post @ [p]"] by simp
  next
    fix pre q post
    assume "(\<forall>pre q post. ps = pre @ q # post \<longrightarrow> P pre q) \<and> P ps p" "ps @ [p] = pre @ q # post"
    then show "P pre q" by (cases post rule: rev_cases) auto
  qed auto
  from this [of "\<lambda>pre q. role_or_client g q = Client \<longrightarrow> is_shell_image (pm_image_name (meta_of g q)) \<longrightarrow> \<not> below_client g pre"]
  show ?thesis
    unfolding unprotected_def own_spare_None_iff by auto
qed

lemma chain_spare_None_iff: "chain_spare g spares False ps = None \<longleftrightarrow> unprotected g spares ps"
proof (induction ps rule: rev_induct)
  case Nil then show ?case by (simp add: unprotected_def)
next
  case (snoc p ps)
  then show ?case by (simp add: chain_spare_snoc or_else_None_iff unprotected_snoc)
qed

end
