(* ===== verification/Reaper_Safety.thy ===== *)
theory Reaper_Safety
  imports Reaper_Plans
begin

text \<open>
  What the tool-shell reaper kills: the candidates of a plan, what hangs below them when the kill is carried
  out, when plans and kills return, and what is killed although a fact would have spared it.
\<close>

section \<open>Plans\<close>

lemma the_decision_sel [simp]:
  "dec_action (the_decision g t c a r) = a" "dec_reason (the_decision g t c a r) = r"
  "candidate_pid (the_decision g t c a r) = Some (pm_pid (meta_of g c))"
  "candidate_start_time (the_decision g t c a r) = Some (pm_start_time (meta_of g c))"
  "trigger_pid (the_decision g t c a r) = pm_pid (meta_of g t)"
  by (simp_all add: the_decision_def decision_def)

lemma reap_decision_chain:
  assumes "plan_shell_exit (build_graph ps bs) spares t = Some ds" "d \<in> set ds" "dec_action d = Reap"
  obtains as c where "walks (build_graph ps bs) t" "lineage (build_graph ps bs) t as c"
    "is_live (build_graph ps bs) c" "\<not> list_ex (is_live (build_graph ps bs)) as"
    "unprotected (build_graph ps bs) spares (as @ [c])"
    "d = the_decision (build_graph ps bs) t c Reap LeakedToolClient"
proof -
  have w: "walks (build_graph ps bs) t" by (rule plan_reaps_walks [OF assms])
  have "decides (build_graph ps bs) spares t d"
    using plan_member [OF w assms(1), of d] assms(2,3) by (auto simp: decision_def)
  then obtain as c where c: "lineage (build_graph ps bs) t as c" "is_live (build_graph ps bs) c"
      "case chain_spare (build_graph ps bs) spares False (as @ [c]) of
         Some reason \<Rightarrow> d = the_decision (build_graph ps bs) t c Spare reason
       | None \<Rightarrow> \<not> list_ex (is_live (build_graph ps bs)) as \<and> d = the_decision (build_graph ps bs) t c Reap LeakedToolClient"
    unfolding decides_def by blast
  moreover from this have chain: "chain_spare (build_graph ps bs) spares False (as @ [c]) = None"
    using assms(3) by (auto split: option.splits)
  ultimately show ?thesis
    using that [OF w c(1,2)] chain_spare_None_iff [of "build_graph ps bs" spares "as @ [c]"] by simp
qed

text \<open>
  C32. A process is reaped only when it is alive and hangs, by dead tracked processes, below an exited shell
  that an agent with a verified start time launched, and when neither it nor one of those in between is on the
  spare list, a console host, or a nested shell of a client.
\<close>

theorem reap_is_leaked_descendant:
  assumes "plan_shell_exit (build_graph ps bs) spares t = Some ds" "d \<in> set ds" "dec_action d = Reap"
  shows "below_backend ps bs t \<and> is_shell_image (pm_image_name (meta_of (build_graph ps bs) t)) \<and>
    (\<exists>as c. lineage (build_graph ps bs) t as c \<and> candidate_pid d = Some c \<and>
       candidate_start_time d = Some (pm_start_time (meta_of (build_graph ps bs) c)) \<and>
       is_live (build_graph ps bs) c \<and> (\<forall>a\<in>set as. \<not> is_live (build_graph ps bs) a) \<and>
       unprotected (build_graph ps bs) spares (as @ [c]))"
proof -
  obtain as c where c: "walks (build_graph ps bs) t" "lineage (build_graph ps bs) t as c"
    "is_live (build_graph ps bs) c" "\<not> list_ex (is_live (build_graph ps bs)) as"
    "unprotected (build_graph ps bs) spares (as @ [c])"
    "d = the_decision (build_graph ps bs) t c Reap LeakedToolClient"
    by (rule reap_decision_chain [OF assms])
  have "graph_by_pid ps c \<noteq> None" using c(3) by (simp add: is_live_def)
  then show ?thesis
    using walks_tool_shell [OF c(1)] c by (auto simp: pid_meta_of list_ex_iff)
qed

text \<open>
  C34. Nothing below the exited shell is forgotten: on the chain to every live tracked process there is a live
  process that the plan reaps or spares.
\<close>

theorem every_leak_is_decided:
  assumes "walks (build_graph ps bs) t" "plan_shell_exit (build_graph ps bs) spares t = Some ds"
    and "lineage (build_graph ps bs) t as c" "is_live (build_graph ps bs) c"
  shows "\<exists>a\<in>set (as @ [c]). is_live (build_graph ps bs) a \<and>
    (\<exists>d\<in>set ds. candidate_pid d = Some a \<and> (dec_action d = Reap \<or> dec_action d = Spare))"
proof -
  let ?g = "build_graph ps bs"
  have decided: "\<exists>d\<in>set ds. candidate_pid d = Some b \<and> (dec_action d = Reap \<or> dec_action d = Spare)"
    if "lineage ?g t pre b" "open_chain ?g spares pre" "is_live ?g b"
      "chain_spare ?g spares False (pre @ [b]) \<noteq> None \<or> \<not> list_ex (is_live ?g) pre" for pre b
  proof -
    let ?d = "case chain_spare ?g spares False (pre @ [b]) of
        Some reason \<Rightarrow> the_decision ?g t b Spare reason | None \<Rightarrow> the_decision ?g t b Reap LeakedToolClient"
    have "decides ?g spares t ?d"
      unfolding decides_def using that
      by (intro exI [of _ pre] exI [of _ b]) (auto split: option.splits)
    then have "?d \<in> set ds" using plan_member [OF assms(1,2)] by blast
    moreover have "graph_by_pid ps b \<noteq> None" using that(3) by (simp add: is_live_def)
    ultimately show ?thesis
      by (intro bexI [of _ ?d]) (auto simp: pid_meta_of split: option.splits)
  qed
  show ?thesis using assms(3,4)
  proof (induction "length as" arbitrary: as c rule: less_induct)
    case less
    have smaller: "\<exists>a\<in>set (as @ [c]). is_live ?g a \<and>
        (\<exists>d\<in>set ds. candidate_pid d = Some a \<and> (dec_action d = Reap \<or> dec_action d = Spare))"
      if "as = pre @ a # post" "is_live ?g a" for pre a post
    proof -
      have "lineage ?g t pre a"
        using less.prems(1) that(1)
      proof (induction as c arbitrary: post rule: lineage.induct)
        case (lineage_step xs p q)
        then show ?case by (cases post rule: rev_cases) auto
      qed simp
      then show ?thesis using less.hyps [of pre a] that by auto
    qed
    show ?case
    proof (cases "list_ex (is_live ?g) as")
      case True
      then obtain pre a post where "as = pre @ a # post" "is_live ?g a"
        by (auto simp: list_ex_iff dest: split_list)
      then show ?thesis by (rule smaller)
    next
      case False
      then have "open_chain ?g spares as" by (auto simp: open_chain_def)
      then show ?thesis using decided [OF less.prems(1) _ less.prems(2)] False less.prems(2) by auto
    qed
  qed
qed

section \<open>Plans and kills return\<close>

lemma lineage_pending_edge:
  assumes "j \<in> set (snd (visit_pending (build_graph ps bs) spares trigger role i))"
  shows "(pe_pid i, pe_pid j) \<in> graph_edges ps"
  using assms
  by (auto simp: visit_pending_def pending_children_def graph_edges_def Let_def split: option.splits if_splits)

text \<open>
  C35. When no registered backend has a tracked process as its parent, every plan is produced: the walk below a
  tool shell cannot run in a circle of recycled ids.
\<close>

theorem plans_return:
  assumes "distinct (map pm_pid ps)"
    and "\<forall>b\<in>set bs. verified_root ps b \<longrightarrow>
      graph_by_pid ps (pm_parent_pid (the (graph_by_pid ps (rb_pid b)))) = None"
  shows "\<exists>ds. plan_shell_exit (build_graph ps bs) spares t = Some ds"
proof (cases "walks (build_graph ps bs) t")
  case True
  let ?E = "graph_edges ps"
  obtain b where b: "b \<in> set bs" "verified_root ps b" "t = rb_pid b \<or> (\<exists>as. lineage (build_graph ps bs) (rb_pid b) as t)"
    using walks_tool_shell [OF True] by (auto simp: below_backend_def)
  obtain root where root: "graph_by_pid ps (rb_pid b) = Some root" "pm_pid root = rb_pid b" "root \<in> set ps"
    using b(2) graph_by_pid_Some by (fastforce simp: verified_root_iff)
  have outside: "graph_by_pid ps (pm_parent_pid root) = None" using assms(2) b(1,2) root(1) by auto
  have "(rb_pid b, rb_pid b) \<notin> ?E\<^sup>+"
  proof
    assume "(rb_pid b, rb_pid b) \<in> ?E\<^sup>+"
    then obtain z where z: "(rb_pid b, z) \<in> ?E\<^sup>*" "(z, rb_pid b) \<in> ?E" by (meson tranclD2)
    have "(pm_parent_pid root, rb_pid b) \<in> ?E" using root by (auto simp: graph_edges_iff)
    with z(2) have "z = pm_parent_pid root"
      using graph_edges_parent [OF assms(1)] by (auto dest: single_valuedD)
    moreover have "graph_by_pid ps z \<noteq> None"
      using z(1)
    proof (cases rule: rtranclE)
      case base then show ?thesis using root(1) by simp
    next
      case (step y) then show ?thesis by (auto simp: graph_edges_iff graph_by_pid_None_iff)
    qed
    ultimately show False using outside by simp
  qed
  moreover have "(rb_pid b, t) \<in> ?E\<^sup>*" using b(3) lineage_edges by (auto intro: trancl_into_rtrancl)
  ultimately have t: "(t, t) \<notin> ?E\<^sup>+"
    using forest_acyclic_below [OF graph_edges_parent [OF assms(1)]] by blast
  obtain trigger role where tr: "graph_by_pid ps t = Some trigger" "classify_roles ps bs t = Some role"
    using True by (auto simp: walks_def)
  have "visit_ends (visit_pending (build_graph ps bs) spares trigger role) i"
    if "i \<in> set (rev (initial_pending (build_graph ps bs) t))" for i
  proof (rule forest_walk_ends [OF finite_graph_edges graph_edges_parent [OF assms(1)] t])
    show "(t, pe_pid i) \<in> ?E\<^sup>*"
      using that by (auto simp: initial_pending_def graph_edges_def)
  qed (rule lineage_pending_edge)
  then obtain out where "stack_walk (visit_pending (build_graph ps bs) spares trigger role)
      (rev (initial_pending (build_graph ps bs) t)) [] = Some out"
    by (metis stack_walk_returns)
  then show ?thesis
    using tr by (cases "handoff_of (build_graph ps bs) t") (auto simp: plan_shell_exit_def)
next
  case False
  then show ?thesis
    by (auto simp: plan_shell_exit_def walks_def split: option.splits)
qed

text \<open>
  C36. The kill of a tree returns exactly when the process is not in the table or not below itself: with recycled
  ids on a cycle through it the walk never ends.
\<close>

theorem kill_tree_returns_iff:
  assumes "distinct (map hp_pid table)"
  shows "(\<exists>killed. kill_tree table observe p = Some killed) \<longleftrightarrow>
    host_process_of table p = None \<or> (p, p) \<notin> (host_edges table)\<^sup>+"
proof -
  let ?v = "visit_pid table (\<lambda>_. True)"
  have edges: "{(i, j). j \<in> set (snd (?v i))} = host_edges table"
    by (auto simp: visit_pid_def host_edges_def Let_def)
  have "visit_ends ?v p \<longleftrightarrow> (p, p) \<notin> (host_edges table)\<^sup>+"
  proof
    assume "visit_ends ?v p"
    then show "(p, p) \<notin> (host_edges table)\<^sup>+" using visit_ends_acyclic edges by metis
  next
    assume "(p, p) \<notin> (host_edges table)\<^sup>+"
    then show "visit_ends ?v p"
      by (rule forest_walk_ends [where key = "\<lambda>i. i", OF finite_host_edges host_edges_parent [OF assms]])
         (auto simp: visit_pid_def host_edges_def Let_def)
  qed
  then have "(\<exists>out. stack_walk ?v [p] [] = Some out) \<longleftrightarrow> (p, p) \<notin> (host_edges table)\<^sup>+"
    using stack_walk_Some_iff [of ?v "[p]" "[]"] by (simp del: stack_walk_simps)
  then show ?thesis
    by (auto simp: kill_tree_def kill_tree_filtered_def descendant_pids_filtered_def
        simp del: stack_walk_simps split: option.splits)
qed
section \<open>Kills\<close>

lemma execute_each_member:
  "execute_each sp dvs = Some rs \<Longrightarrow> r \<in> set rs \<longleftrightarrow> (\<exists>(d, view)\<in>set dvs. execute_decision sp view d = Some r)"
proof (induction sp dvs arbitrary: rs r rule: execute_each.induct)
  case (2 sp d view rest)
  obtain x xs where "execute_decision sp view d = Some x" "execute_each sp rest = Some xs" "rs = x # xs"
    using "2.prems" by (auto split: option.splits)
  then show ?case using "2.IH" [of x xs r] by auto
qed auto

lemma executed_kill:
  assumes "execute_decision sp view d = Some (d', ks)" "k \<in> set ks"
  shows "d' = d \<and> dec_action d = Reap \<and> (\<exists>i. candidate_identity d = Some i \<and> hv_observe view (id_pid i) = Some i \<and>
    kill_tree_filtered_automatic (hv_table view) (hv_current view) i (\<lambda>p. \<not> sp p) = Some ks)"
proof -
  have live: "candidate_identity_is_live (hv_observe view) d" "dec_action d = Reap"
    using assms by (auto simp: execute_decision_def split: if_splits)
  then obtain i where i: "candidate_identity d = Some i" "hv_observe view (id_pid i) = Some i"
    by (auto simp: candidate_identity_is_live_def automatic_identity_matches_def split: option.splits)
  then show ?thesis using assms(1) live by (auto simp: execute_decision_def)
qed

lemma candidate_identity_decision:
  "candidate_identity (the_decision g t c a r) =
     (if pm_start_time (meta_of g c) = unknown_start_time then None
      else Some \<lparr>id_pid = pm_pid (meta_of g c), id_start_time = pm_start_time (meta_of g c)\<rparr>)"
  by (simp add: candidate_identity_def has_start_time_def Let_def)

text \<open>
  C33. What is killed when a plan is carried out: a process that still has the recorded start time, is no console
  host and is not spared, and that is the candidate of a reap decision, checked to be the planned process, or
  hangs below it by processes that are not spared either.
\<close>

theorem kills_are_confined:
  assumes "plan_shell_exit (build_graph ps bs) spares t = Some (map fst dvs)"
    and "execute_decisions dvs spares = Some rs" "(d, ks) \<in> set rs" "k \<in> set ks"
  shows "\<exists>view as c. (d, view) \<in> set dvs \<and> dec_action d = Reap \<and>
    lineage (build_graph ps bs) t as c \<and> is_live (build_graph ps bs) c \<and>
    unprotected (build_graph ps bs) spares (as @ [c]) \<and>
    hv_observe view c = Some \<lparr>id_pid = c, id_start_time = pm_start_time (meta_of (build_graph ps bs) c)\<rparr> \<and>
    \<not> is_spared (map fst dvs) spares (id_pid k) \<and> id_start_time k \<noteq> unknown_start_time \<and>
    (\<exists>h. hv_current view (id_pid k) = Some h \<and> hp_start_time h = id_start_time k \<and> \<not> is_console_host h) \<and>
    (k = \<lparr>id_pid = c, id_start_time = pm_start_time (meta_of (build_graph ps bs) c)\<rparr> \<or>
     (c, id_pid k) \<in> (killable_edges (hv_table view) (\<lambda>p. \<not> is_spared (map fst dvs) spares p))\<^sup>+)"
proof -
  let ?sp = "is_spared (map fst dvs) spares"
  obtain d0 view where e: "(d0, view) \<in> set dvs" "execute_decision ?sp view d0 = Some (d, ks)"
    using execute_each_member [of ?sp dvs rs "(d, ks)"] assms(2,3) by (auto simp: execute_decisions_def)
  from executed_kill [OF e(2) assms(4)] obtain i where i: "d0 = d" "dec_action d = Reap"
      "candidate_identity d = Some i" "hv_observe view (id_pid i) = Some i"
      "kill_tree_filtered_automatic (hv_table view) (hv_current view) i (\<lambda>p. \<not> ?sp p) = Some ks" by auto
  have "d \<in> set (map fst dvs)" using e(1) i(1) by force
  then obtain as c where c: "lineage (build_graph ps bs) t as c" "is_live (build_graph ps bs) c"
    "unprotected (build_graph ps bs) spares (as @ [c])" "d = the_decision (build_graph ps bs) t c Reap LeakedToolClient"
    using reap_decision_chain [OF assms(1) _ i(2)] by metis
  have "graph_by_pid ps c \<noteq> None" using c(2) by (simp add: is_live_def)
  then have "i = \<lparr>id_pid = c, id_start_time = pm_start_time (meta_of (build_graph ps bs) c)\<rparr>"
    using i(3) by (simp add: c(4) candidate_identity_decision pid_meta_of split: if_splits)
  then show ?thesis
    using automatic_kills [OF i(5) assms(4)] e(1) i c(1-3)
    by (intro exI [of _ view] exI [of _ as] exI [of _ c]) auto
qed


section \<open>The members of the job at exit\<close>

text \<open>
  A member whose image name cannot be read is terminated, although the code means to leave it to the kernel;
  and so is a declared daemon without another signal, since the facts are collected without the daemons.
\<close>

lemma unresolved_members_are_killed:
  assumes "p \<in> set members" "p \<noteq> our_pid" "known_image p = None" "read_image p = None"
  shows "(p, None) \<in> set (explicitly_reap_job_members members our_pid known_image read_image imgs facts_of)"
  using assms by (auto simp: explicitly_reap_job_members_def Let_def member_image_def image_spare_def image_iff)

lemma exit_facts_know_no_daemon:
  assumes "\<And>ms s. declared_daemons (fill ms s) = declared_daemons s" "\<And>s. declared_daemons (mark s) = declared_daemons s"
  shows "declared_daemon (snapshot_facts (collect_host_facts fill mark members {} imgs)) p \<noteq> Some True"
  using assms by (simp add: collect_host_facts_def snapshot_facts_def fact_answer_def Let_def)

section \<open>A small tree\<close>

text \<open>An agent, a shell of it that has exited, a client the shell left, and a daemon below it that is not tracked.\<close>

definition demo_process :: "pid \<Rightarrow> pid \<Rightarrow> string \<Rightarrow> bool \<Rightarrow> process_meta" where
  "demo_process p q img alive =
     \<lparr>pm_pid = p, pm_parent_pid = q, pm_image_name = img, pm_alive = alive, pm_start_time = p + 1000,
      pm_exited_at_ms = (if alive then None else Some 7000)\<rparr>"

definition demo_tracked :: "process_meta list" where
  "demo_tracked = [demo_process 10 1 ''pi.exe'' True, demo_process 20 10 ''cmd.exe'' False, demo_process 30 20 ''rg'' True]"

definition demo_backends :: "registered_backend list" where
  "demo_backends = [new_backend 10 ''pi'' 1010]"

abbreviation demo_graph :: process_graph where
  "demo_graph \<equiv> build_graph demo_tracked demo_backends"

definition demo_plan :: "reap_decision list" where
  "demo_plan = the (plan_shell_exit demo_graph Map.empty 20)"

definition demo_host :: "pid \<Rightarrow> pid \<Rightarrow> string \<Rightarrow> host_process" where
  "demo_host p q name = \<lparr>hp_pid = p, hp_parent = Some q, hp_start_time = p + 1000, hp_name = name\<rparr>"

definition demo_table :: "host_process list" where
  "demo_table = [demo_host 30 20 ''rg'', demo_host 40 30 ''sccache'']"

definition demo_view :: host_view where
  "demo_view = \<lparr>hv_observe = (\<lambda>p. map_option host_identity (host_process_of demo_table p)), hv_table = demo_table,
     hv_current = host_process_of demo_table\<rparr>"

lemma demo_images:
  "is_agent_image (new_backend 10 ''pi'' 1010) ''pi.exe''"
  "is_shell_image ''cmd.exe''" "\<not> is_bash_image ''cmd.exe''"
  "\<not> is_shell_image ''rg''" "\<not> is_bash_image ''rg''" "\<not> is_conhost_image ''rg''"
  by code_simp+

lemma demo_children:
  "graph_children demo_tracked 10 = [20]" "graph_children demo_tracked 20 = [30]" "graph_children demo_tracked 30 = []"
  by (simp_all add: graph_children_def demo_tracked_def demo_process_def)

lemma demo_by_pid:
  "graph_by_pid demo_tracked = [10 \<mapsto> demo_process 10 1 ''pi.exe'' True, 20 \<mapsto> demo_process 20 10 ''cmd.exe'' False,
     30 \<mapsto> demo_process 30 20 ''rg'' True]"
  by (simp add: graph_by_pid_def demo_tracked_def demo_process_def)

lemma demo_backend: "rb_pid (new_backend 10 ''pi'' 1010) = 10" "rb_start_time (new_backend 10 ''pi'' 1010) = 1010"
  by (simp_all add: new_backend_def Let_def)

lemma demo_roles:
  "classify_roles demo_tracked demo_backends = [10 \<mapsto> AgentHost, 20 \<mapsto> ToolShellRoot, 30 \<mapsto> Client]"
  by (simp add: classify_roles_def demo_backends_def classify_backend_def demo_backend demo_by_pid demo_images
      demo_children demo_process_def child_role_def unknown_start_time_def)

definition demo_decision :: reap_decision where
  "demo_decision = decision (demo_process 20 10 ''cmd.exe'' False) ToolShellRoot
     (Some (demo_process 30 20 ''rg'' True)) Reap LeakedToolClient"

lemma demo_plan: "plan_shell_exit demo_graph Map.empty 20 = Some [demo_decision]"
  by (simp add: demo_decision_def plan_shell_exit_def demo_by_pid demo_roles demo_images demo_children demo_process_def
      initial_pending_def visit_pending_def own_spare_def role_or_client_def pending_children_def)

lemma demo_decision_sel [simp]:
  "candidate_pid demo_decision = Some 30" "candidate_start_time demo_decision = Some 1030"
  "dec_action demo_decision = Reap"
  by (simp_all add: demo_decision_def decision_def demo_process_def)

lemma demo_distinct: "distinct (map pm_pid demo_tracked)" by (simp add: demo_tracked_def demo_process_def)

lemma demo_lineage: "lineage demo_graph 20 [] 30" "is_live demo_graph 30" "walks demo_graph 20"
  by (auto intro: lineage_child
      simp: demo_children is_live_def meta_of_def demo_by_pid demo_process_def walks_def demo_roles demo_images)

theorem reap_is_leaked_descendant_witness:
  "below_backend demo_tracked demo_backends 20 \<and> (\<exists>as c. lineage demo_graph 20 as c \<and> is_live demo_graph c \<and>
     unprotected demo_graph Map.empty (as @ [c]))"
  using reap_is_leaked_descendant [OF demo_plan, of demo_decision] by auto

theorem every_leak_is_decided_witness: "\<exists>d\<in>set [demo_decision]. candidate_pid d = Some 30"
  using every_leak_is_decided [OF demo_lineage(3) demo_plan demo_lineage(1,2)] by auto

theorem plans_return_witness: "\<exists>ds. plan_shell_exit demo_graph Map.empty 20 = Some ds"
proof (rule plans_return [OF demo_distinct])
  show "\<forall>b\<in>set demo_backends. verified_root demo_tracked b \<longrightarrow>
      graph_by_pid demo_tracked (pm_parent_pid (the (graph_by_pid demo_tracked (rb_pid b)))) = None"
    by (simp add: demo_backends_def demo_backend demo_by_pid demo_process_def)
qed

lemma demo_hosts: "\<not> is_console_host (demo_host 30 20 ''rg'')" "\<not> is_console_host (demo_host 40 30 ''sccache'')"
    "\<not> eq_ignore_ascii_case ''rg'' ''conhost.exe''" "\<not> eq_ignore_ascii_case ''sccache'' ''conhost.exe''"
  by code_simp+

lemma demo_run: "execute_decisions [(demo_decision, demo_view)] Map.empty =
    Some [(demo_decision, [\<lparr>id_pid = 40, id_start_time = 1040\<rparr>, \<lparr>id_pid = 30, id_start_time = 1030\<rparr>])]"
  by (simp add: execute_decisions_def execute_decision_def
      candidate_identity_is_live_def candidate_identity_def has_start_time_def unknown_start_time_def demo_view_def demo_table_def
      host_process_of_def demo_host_def host_identity_def automatic_identity_matches_def is_spared_def
      kill_tree_filtered_automatic_def automatic_target_allowed_def descendant_identities_filtered_def
      visit_identity_def host_children_def killable_child_def is_console_host_def demo_hosts
      kill_identity_filtered_automatic_def)

theorem kills_are_confined_witness:
  "\<exists>as c. lineage demo_graph 20 as c \<and> is_live demo_graph c \<and>
     (c, 40) \<in> (killable_edges (hv_table demo_view) (\<lambda>p. \<not> is_spared [demo_decision] Map.empty p))\<^sup>+"
proof -
  have "plan_shell_exit demo_graph Map.empty 20 = Some (map fst [(demo_decision, demo_view)])"
    using demo_plan by simp
  from kills_are_confined [OF this demo_run, of demo_decision _ "\<lparr>id_pid = 40, id_start_time = 1040\<rparr>"]
  obtain as c where c: "lineage demo_graph 20 as c" "is_live demo_graph c"
     "\<lparr>id_pid = 40, id_start_time = 1040\<rparr> = \<lparr>id_pid = c, id_start_time = pm_start_time (meta_of demo_graph c)\<rparr> \<or>
      (c, 40) \<in> (killable_edges (hv_table demo_view) (\<lambda>p. \<not> is_spared [demo_decision] Map.empty p))\<^sup>+"
    by auto
  from c(2) have "c \<noteq> 40" by (auto simp: is_live_def demo_by_pid)
  then show ?thesis using c by auto
qed

definition demo_facts :: process_facts where
  "demo_facts = snapshot_facts \<lparr>outside_job = {}, service_session = {}, session_leaders = {}, foreign_owner = {},
    declared_daemons = {40}, listening = {40}, active_desktop_shells = {}, spare_images = [], unavailable = {}\<rparr>"

lemma demo_spares: "reaper_spare_list demo_facts (spare_candidates demo_tracked) = Map.empty"
proof -
  have "\<not> is_docker_desktop_family_root ''pi.exe''" "\<not> is_docker_desktop_family_root ''cmd.exe''"
    "\<not> is_docker_desktop_family_root ''rg''" by code_simp+
  then show ?thesis
    by (simp add: reaper_spare_list_def build_spare_list_def spare_candidates_def demo_tracked_def demo_process_def
        spare_signal_def demo_facts_def snapshot_facts_def fact_answer_def)
qed

lemma demo_edges: "(20, 20) \<notin> (graph_edges demo_tracked)\<^sup>+"
proof -
  have "(x, y) \<in> (graph_edges demo_tracked)\<^sup>+ \<Longrightarrow> x < y" for x y
    by (induction rule: trancl_induct)
       (auto simp: graph_edges_iff demo_tracked_def demo_process_def)
  then show ?thesis by blast
qed


theorem kill_tree_returns_iff_witness:
  "kill_tree [demo_host 30 40 ''a'', demo_host 40 30 ''b''] (\<lambda>_. None) 30 = None"
proof -
  let ?t = "[demo_host 30 40 ''a'', demo_host 40 30 ''b'']"
  have "(30, 40) \<in> host_edges ?t" "(40, 30) \<in> host_edges ?t" by (auto simp: host_edges_iff demo_host_def)
  then have "(30, 30) \<in> (host_edges ?t)\<^sup>+" by (meson trancl.intros)
  then show ?thesis
    using kill_tree_returns_iff [of ?t "\<lambda>_. None" 30] by (auto simp: demo_host_def host_process_of_def)
qed

end
