(* ===== verification/Reaper_Tracker.thy ===== *)
theory Reaper_Tracker
  imports Reaper_Safety
begin

text \<open>
  The bookkeeping of the tool-shell reaper over its whole life: the steps the listener makes as a relation, and
  what holds in every reachable tracker. An exit is executed at most once, waits for a bounded time, and what a
  plan needs is not evicted.
\<close>

section \<open>Association lists\<close>

lemma map_of_AList_update [simp]: "map_of (AList.update k v xs) = (map_of xs)(k \<mapsto> v)"
  by (simp add: update_conv')

lemma map_of_AList_delete [simp]: "map_of (AList.delete k xs) = (map_of xs)(k := None)"
  by (simp add: delete_conv')

declare distinct_removeAll [simp]

section \<open>Well-formed trackers\<close>

definition ledger_ok :: "exit_ledger \<Rightarrow> bool" where
  "ledger_ok l \<longleftrightarrow> length (abandoned_exits l) \<le> max_unkeyable \<and> distinct (abandoned_exits l) \<and>
     provisional_empty_exits l \<inter> processed_exits l = {} \<and> dom (deferred_since l) \<inter> processed_exits l = {}"

definition keys_ok :: "(pid \<times> process_meta) list \<Rightarrow> bool" where
  "keys_ok ks \<longleftrightarrow> distinct (map fst ks) \<and> (\<forall>p m. map_of ks p = Some m \<longrightarrow> pm_pid m = p)"

definition tracker_ok :: "tracker_processes \<Rightarrow> bool" where
  "tracker_ok t \<longleftrightarrow> keys_ok (known t) \<and> ledger_ok (exits t) \<and> length (unkeyable t) \<le> max_unkeyable \<and>
     distinct (unresolved_new_pids t) \<and> (\<forall>p n. unresolved_retries t p = Some n \<longrightarrow> n < max_metadata_retries)"

lemma keys_ok_update: "keys_ok ks \<Longrightarrow> pm_pid m = p \<Longrightarrow> keys_ok (AList.update p m ks)"
  by (simp add: keys_ok_def distinct_update)

lemma keys_ok_delete: "keys_ok ks \<Longrightarrow> keys_ok (AList.delete p ks)"
  by (simp add: keys_ok_def distinct_delete)

lemma map_of_pid: "keys_ok ks \<Longrightarrow> map_of ks p = Some m \<Longrightarrow> pm_pid m = p"
  by (simp add: keys_ok_def)

lemma map_of_value:
  assumes ok: "keys_ok ks"
  shows "m \<in> set (map snd ks) \<longleftrightarrow> map_of ks (pm_pid m) = Some m"
proof
  assume "m \<in> set (map snd ks)"
  then obtain p where "(p, m) \<in> set ks" by auto
  then have "map_of ks p = Some m" using ok by (simp add: keys_ok_def)
  then show "map_of ks (pm_pid m) = Some m" using map_of_pid [OF ok] by auto
next
  assume "map_of ks (pm_pid m) = Some m"
  then show "m \<in> set (map snd ks)" by (force dest: map_of_SomeD)
qed

lemma default_tracker_ok: "tracker_ok default_tracker"
  by (simp add: tracker_ok_def keys_ok_def ledger_ok_def default_tracker_def default_ledger_def)

lemma length_cap_front: "length (cap_front xs) \<le> max_unkeyable"
  by (simp add: cap_front_def)

lemma distinct_cap_front: "distinct xs \<Longrightarrow> distinct (cap_front xs)"
  by (simp add: cap_front_def)

lemma defer_expired_ok: "ledger_ok l \<Longrightarrow> i \<notin> processed_exits l \<Longrightarrow> ledger_ok (fst (defer_expired l i now ttl))"
  by (auto simp: defer_expired_def ledger_ok_def Let_def)

lemma abandon_exit_ok: "ledger_ok l \<Longrightarrow> ledger_ok (abandon_exit l i)"
  by (auto simp: abandon_exit_def ledger_ok_def length_cap_front intro: distinct_cap_front)

lemma finalize_exit_ok: "ledger_ok l \<Longrightarrow> ledger_ok (finalize_exit l i)"
  by (auto simp: finalize_exit_def ledger_ok_def)

lemma defer_or_abandon_ok: "ledger_ok l \<Longrightarrow> i \<notin> processed_exits l \<Longrightarrow> ledger_ok (snd (defer_or_abandon l i now ttl))"
  using defer_expired_ok [of l i now ttl] abandon_exit_ok [of "fst (defer_expired l i now ttl)" i]
  by (simp add: defer_or_abandon_def split_beta)

lemma ledger_ok_provisional:
  "ledger_ok l \<Longrightarrow> i \<notin> processed_exits l \<Longrightarrow>
   ledger_ok (l\<lparr>provisional_empty_exits := insert i (provisional_empty_exits l)\<rparr>)"
  by (simp add: ledger_ok_def)

lemma claim_exit_cases:
  assumes "claim_exit_replay g spares l p control = Some (c, l')"
  obtains (none) "c = Deferred" "l' = l"
      "\<not> rc_metadata_complete control \<or> by_pid g p = None \<or> meta_identity (the (by_pid g p)) \<in> processed_exits l"
  | (deferred) trigger l0 ttl where "rc_metadata_complete control" "by_pid g p = Some trigger"
      "meta_identity trigger \<notin> processed_exits l"
      "l0 = l \<or> l0 = l\<lparr>provisional_empty_exits := insert (meta_identity trigger) (provisional_empty_exits l)\<rparr>"
      "ttl \<le> provisional_defer_ms"
      "(c, l') = defer_or_abandon l0 (meta_identity trigger) (rc_now_ms control) ttl"
  | (executed) trigger ds where "rc_metadata_complete control" "by_pid g p = Some trigger"
      "meta_identity trigger \<notin> processed_exits l" "plan_shell_exit g spares p = Some ds" "c = Execute ds"
      "l' = finalize_exit l (meta_identity trigger)"
proof (cases "rc_metadata_complete control \<and> by_pid g p \<noteq> None \<and> meta_identity (the (by_pid g p)) \<notin> processed_exits l")
  case True
  then obtain trigger where tr: "rc_metadata_complete control" "by_pid g p = Some trigger"
      "meta_identity trigger \<notin> processed_exits l" by auto
  let ?i = "meta_identity trigger"
  obtain ds where ds: "plan_shell_exit g spares p = Some ds"
      "(c, l') = (if ds = [] then defer_or_abandon l ?i (rc_now_ms control) empty_plan_defer_ms
         else if length ds = 1 \<and> dec_reason (hd ds) = NoLiveClients \<and>
                (\<not> finalize_provisional_empty control \<or> ?i \<notin> provisional_empty_exits l)
         then defer_or_abandon (l\<lparr>provisional_empty_exits := insert ?i (provisional_empty_exits l)\<rparr>)
                ?i (rc_now_ms control) provisional_defer_ms
         else (Execute ds, finalize_exit l ?i))"
    using assms tr by (cases "plan_shell_exit g spares p") (auto simp: claim_exit_replay_def Let_def)
  have ttl: "empty_plan_defer_ms \<le> provisional_defer_ms" by (simp add: empty_plan_defer_ms_def provisional_defer_ms_def)
  from ds(2) consider "(c, l') = defer_or_abandon l ?i (rc_now_ms control) empty_plan_defer_ms"
    | "(c, l') = defer_or_abandon (l\<lparr>provisional_empty_exits := insert ?i (provisional_empty_exits l)\<rparr>)
                ?i (rc_now_ms control) provisional_defer_ms"
    | "c = Execute ds" "l' = finalize_exit l ?i" by (auto split: if_splits)
  then show ?thesis
  proof cases
    case 1 then show ?thesis using deferred [OF tr _ ttl] by blast
  next
    case 2 then show ?thesis using deferred [OF tr _ order_refl] by blast
  next
    case 3 then show ?thesis using executed [OF tr ds(1)] by blast
  qed
next
  case False
  then have "c = Deferred \<and> l' = l" using assms
    by (cases "rc_metadata_complete control"; cases "by_pid g p") (auto simp: claim_exit_replay_def Let_def)
  then show ?thesis using none False by auto
qed

lemma claim_exit_ok:
  assumes "claim_exit_replay g spares l p control = Some (c, l')" "ledger_ok l"
  shows "ledger_ok l'"
  using assms(1)
proof (cases rule: claim_exit_cases)
  case (deferred trigger l0 ttl)
  then have "ledger_ok l0" "meta_identity trigger \<notin> processed_exits l0"
    using assms(2) by (auto intro: ledger_ok_provisional)
  then have "ledger_ok (snd (c, l'))" unfolding deferred(6) by (rule defer_or_abandon_ok)
  then show ?thesis by simp
qed (use assms(2) finalize_exit_ok in auto)

section \<open>The purge\<close>

lemma fold_evict:
  "map_of (known (fold evict is t)) p = (if p \<in> fst ` set is then None else map_of (known t) p)"
  "processed_exits (exits (fold evict is t)) = processed_exits (exits t) - set is"
  "provisional_empty_exits (exits (fold evict is t)) = provisional_empty_exits (exits t) - set is"
  "deferred_since (exits (fold evict is t)) i = (if i \<in> set is then None else deferred_since (exits t) i)"
  "abandoned_exits (exits (fold evict is t)) = abandoned_exits (exits t)"
  "unkeyable (fold evict is t) = unkeyable t"
  "unresolved_new_pids (fold evict is t) = unresolved_new_pids t"
  "unresolved_retries (fold evict is t) = unresolved_retries t"
  by (induction "is" arbitrary: t) (auto simp: evict_def)

lemma fold_evict_keys: "keys_ok (known t) \<Longrightarrow> keys_ok (known (fold evict is t))"
  by (induction "is" arbitrary: t) (auto simp: evict_def keys_ok_delete)

definition gone_exits :: "tracker_processes \<Rightarrow> nat \<Rightarrow> exit_identity list" where
  "gone_exits t now_ms = map meta_identity (filter (evictable t now_ms) (known_values t))"

lemma purge_fields:
  "known (fst (purge t now)) = known (fold evict (gone_exits t now) t)"
  "processed_exits (exits (fst (purge t now))) = processed_exits (exits t) - set (gone_exits t now)"
  "provisional_empty_exits (exits (fst (purge t now))) = provisional_empty_exits (exits t) - set (gone_exits t now)"
  "abandoned_exits (exits (fst (purge t now))) = abandoned_exits (exits t)"
  "deferred_since (exits (fst (purge t now))) i =
     (case map_of (known (fst (purge t now))) (fst i) of
        Some p \<Rightarrow> if pm_start_time p = snd i \<and> i \<notin> set (gone_exits t now) then deferred_since (exits t) i else None
      | None \<Rightarrow> None)"
  "unresolved_new_pids (fst (purge t now)) = unresolved_new_pids t"
  "unresolved_retries (fst (purge t now)) = unresolved_retries t"
  "unkeyable (fst (purge t now)) = filter (\<lambda>(_, seen). now - seen < unkeyable_ttl_ms) (unkeyable t)"
  by (simp_all add: purge_def gone_exits_def Let_def fold_evict split: option.split)

lemma purge_ok: "tracker_ok t \<Longrightarrow> tracker_ok (fst (purge t now))"
proof -
  assume ok: "tracker_ok t"
  have "length (unkeyable (fst (purge t now))) \<le> length (unkeyable t)"
    by (simp add: purge_fields)
  moreover have "dom (deferred_since (exits (fst (purge t now)))) \<subseteq> dom (deferred_since (exits t))"
    by (auto simp: purge_fields(5) split: option.splits if_splits)
  ultimately show ?thesis
    using ok by (auto simp: tracker_ok_def ledger_ok_def purge_fields(1-4,6,7) fold_evict_keys dest: le_trans)
qed

lemma gone_value:
  assumes "keys_ok (known t)" "i \<in> set (gone_exits t now)"
  obtains m where "i = meta_identity m" "map_of (known t) (fst i) = Some m" "evictable t now m"
  using assms map_of_value [OF assms(1)]
  by (auto simp: gone_exits_def known_values_def meta_identity_def)

text \<open>Exactly the evictable processes leave the tracked set.\<close>

lemma purge_known:
  assumes "keys_ok (known t)"
  shows "map_of (known (fst (purge t now))) p = Some m \<longleftrightarrow> map_of (known t) p = Some m \<and> \<not> evictable t now m"
proof (cases "p \<in> fst ` set (gone_exits t now)")
  case True
  then obtain i where "i \<in> set (gone_exits t now)" "p = fst i" by auto
  then obtain m' where "map_of (known t) p = Some m'" "evictable t now m'"
    using gone_value [OF assms] by metis
  then show ?thesis using True by (auto simp: purge_fields fold_evict)
next
  case False
  have "\<not> evictable t now m" if "map_of (known t) p = Some m"
  proof
    assume "evictable t now m"
    moreover have "m \<in> set (known_values t)"
      using that by (force simp: known_values_def dest: map_of_SomeD)
    ultimately have "meta_identity m \<in> set (gone_exits t now)" by (auto simp: gone_exits_def)
    then show False using False map_of_pid [OF assms that] by (force simp: meta_identity_def)
  qed
  then show ?thesis using False by (auto simp: purge_fields fold_evict)
qed

subsection \<open>Ancestors of live processes\<close>

definition parent_closed :: "(pid \<times> process_meta) list \<Rightarrow> pid set \<Rightarrow> bool" where
  "parent_closed ks S \<longleftrightarrow> (\<forall>q\<in>S. \<forall>m. map_of ks q = Some m \<longrightarrow>
     map_of ks (pm_parent_pid m) \<noteq> None \<longrightarrow> pm_parent_pid m \<in> S)"

lemma protect_from_closed:
  assumes "keys_ok ks"
    and "\<forall>q\<in>S. \<forall>m. map_of ks q = Some m \<longrightarrow> map_of ks (pm_parent_pid m) \<noteq> None \<longrightarrow>
      pm_parent_pid m \<in> S \<or> pm_parent_pid m = cursor"
  shows "parent_closed ks (protect_from ks cursor S) \<and> S \<subseteq> protect_from ks cursor S \<and>
    (map_of ks cursor \<noteq> None \<longrightarrow> cursor \<in> protect_from ks cursor S)"
  using assms
proof (induction ks cursor S rule: protect_from.induct)
  case (1 ks cursor S)
  show ?case
  proof (cases "map_of ks cursor")
    case None
    then have "parent_closed ks S" using "1.prems"(2) unfolding parent_closed_def by (metis)
    then show ?thesis using None by (simp add: protect_from.simps [of ks cursor])
  next
    case (Some parent)
    have p: "pm_pid parent = cursor" by (rule map_of_pid [OF "1.prems"(1) Some])
    show ?thesis
    proof (cases "cursor \<in> S")
      case True
      then have "parent_closed ks S" using "1.prems"(2) unfolding parent_closed_def by metis
      then show ?thesis using True Some p by (simp add: protect_from.simps [of ks cursor])
    next
      case False
      have "protect_from ks cursor S = protect_from ks (pm_parent_pid parent) (insert cursor S)"
        using Some False p by (simp add: protect_from.simps [of ks cursor])
      moreover have "\<forall>q\<in>insert cursor S. \<forall>m. map_of ks q = Some m \<longrightarrow> map_of ks (pm_parent_pid m) \<noteq> None \<longrightarrow>
          pm_parent_pid m \<in> insert cursor S \<or> pm_parent_pid m = pm_parent_pid parent"
        using "1.prems"(2) Some by auto
      ultimately show ?thesis using "1.IH" [OF Some] False p "1.prems"(1) by auto
    qed
  qed
qed

lemma protected_fold:
  assumes "keys_ok ks" "parent_closed ks S"
  shows "parent_closed ks (fold (\<lambda>p S. protect_from ks (pm_parent_pid p) S) xs S) \<and>
    S \<subseteq> fold (\<lambda>p S. protect_from ks (pm_parent_pid p) S) xs S \<and>
    (\<forall>x\<in>set xs. map_of ks (pm_parent_pid x) \<noteq> None \<longrightarrow>
       pm_parent_pid x \<in> fold (\<lambda>p S. protect_from ks (pm_parent_pid p) S) xs S)"
  using assms(2)
proof (induction xs arbitrary: S)
  case (Cons x xs)
  have "\<forall>q\<in>S. \<forall>m. map_of ks q = Some m \<longrightarrow> map_of ks (pm_parent_pid m) \<noteq> None \<longrightarrow>
      pm_parent_pid m \<in> S \<or> pm_parent_pid m = pm_parent_pid x"
    using Cons.prems by (auto simp: parent_closed_def)
  from protect_from_closed [OF assms(1) this]
  show ?case using Cons.IH [of "protect_from ks (pm_parent_pid x) S"] by auto
qed simp

text \<open>The links among the tracked processes, from parent to child.\<close>

definition known_edges :: "(pid \<times> process_meta) list \<Rightarrow> (pid \<times> pid) set" where
  "known_edges ks = {(p, c). \<exists>m. map_of ks c = Some m \<and> pm_parent_pid m = p \<and> map_of ks p \<noteq> None}"

lemma ancestors_protected:
  assumes "keys_ok ks" "(p, c) \<in> (known_edges ks)\<^sup>+" "map_of ks c = Some m" "pm_alive m"
  shows "p \<in> identities_with_live_descendants ks"
proof -
  let ?S = "identities_with_live_descendants ks"
  have live: "m \<in> set (filter pm_alive (map snd ks))" using assms(3,4) by (force dest: map_of_SomeD)
  have S: "parent_closed ks ?S" "map_of ks (pm_parent_pid m) \<noteq> None \<Longrightarrow> pm_parent_pid m \<in> ?S"
    using protected_fold [OF assms(1), of "{}" "filter pm_alive (map snd ks)"] live
    unfolding identities_with_live_descendants_def parent_closed_def by auto
  show ?thesis
    using assms(2)
  proof (induction rule: converse_trancl_induct)
    case (base p)
    then show ?case using S(2) assms(3) by (auto simp: known_edges_def)
  next
    case (step p q)
    then show ?case using S(1) by (auto simp: known_edges_def parent_closed_def)
  qed
qed

lemma pending_kept:
  assumes "tracker_ok t" "map_of (known t) p = Some m" "is_pending (exits t) m"
  shows "map_of (known (fst (purge t now_ms))) p = Some m"
  using assms purge_known [of t now_ms p m] by (simp add: tracker_ok_def evictable_def)

text \<open>
  The purge keeps every live process, every pending exit and every tracked ancestor of a live process, so
  no eviction cuts a live process off from the shell it was left by.
\<close>

theorem purge_keeps_links:
  assumes "tracker_ok t" "map_of (known t) p = Some m"
    and "pm_alive m \<or> is_pending (exits t) m \<or>
      (\<exists>c live. (p, c) \<in> (known_edges (known t))\<^sup>+ \<and> map_of (known t) c = Some live \<and> pm_alive live)"
  shows "map_of (known (fst (purge t now_ms))) p = Some m"
proof -
  have keys: "keys_ok (known t)" using assms(1) by (simp add: tracker_ok_def)
  have "pm_pid m = p" by (rule map_of_pid [OF keys assms(2)])
  then have "\<not> evictable t now_ms m"
    using assms(3) ancestors_protected [OF keys] by (auto simp: evictable_def)
  then show ?thesis using assms(2) by (simp add: purge_known [OF keys])
qed

text \<open>
  An exit whose id was taken by another process is never forgotten: the purge removes only the identities of
  tracked processes.
\<close>

lemma recycled_exit_is_kept:
  assumes "keys_ok (known t)" "i \<in> processed_exits (exits t)"
    and "\<And>m. map_of (known t) (fst i) = Some m \<Longrightarrow> pm_start_time m \<noteq> snd i"
  shows "i \<in> processed_exits (exits (fst (purge t now_ms)))"
proof -
  have "i \<notin> set (gone_exits t now_ms)"
  proof
    assume "i \<in> set (gone_exits t now_ms)"
    then obtain m where "i = meta_identity m" "map_of (known t) (fst i) = Some m"
      by (rule gone_value [OF assms(1)])
    then show False using assms(3) [of m] by (simp add: meta_identity_def)
  qed
  then show ?thesis using assms(2) by (simp add: purge_fields)
qed

section \<open>Steps\<close>

fun claim_ids :: "(pid \<rightharpoonup> process_meta) \<Rightarrow> pid \<times> exit_claim \<Rightarrow> exit_identity list" where
  "claim_ids f (p, Execute ds) = (case f p of None \<Rightarrow> [] | Some m \<Rightarrow> [meta_identity m])"
| "claim_ids f _ = []"

definition executed_exits :: "tracker_processes \<Rightarrow> (pid \<times> exit_claim) list \<Rightarrow> exit_identity list" where
  "executed_exits t claims = concat (map (claim_ids (map_of (known t))) claims)"

definition observed_exit :: "process_meta option \<Rightarrow> exit_identity list" where
  "observed_exit observed = (case observed of None \<Rightarrow> [] | Some m \<Rightarrow> [meta_identity m])"

definition of_pid :: "pid \<Rightarrow> process_meta option \<Rightarrow> bool" where
  "of_pid p observed = (case observed of None \<Rightarrow> True | Some m \<Rightarrow> pm_pid m = p)"

text \<open>
  A step of the listener or of the foreground, with the identities it may observe and those whose plans are
  handed out for execution.
\<close>

inductive tracker_step ::
    "tracker_processes \<Rightarrow> exit_identity list \<Rightarrow> exit_identity list \<Rightarrow> tracker_processes \<Rightarrow> bool" where
  message: "of_pid p observed \<Longrightarrow>
     tracker_step t (observed_exit observed) [] (apply_message t (m, p, observed, now_ms))"
| retry: "(\<And>p. of_pid p (observe p)) \<Longrightarrow>
     tracker_step t (concat (map (\<lambda>p. observed_exit (observe p)) (unresolved_new_pids t))) []
       (fst (retry_unresolved_new_processes t claimed observe now_ms))"
| reconcile: "reconcile_pending t backends facts now_ms finalize_empty = Some (t', claims, spares) \<Longrightarrow>
     tracker_step t [] (executed_exits (fst (purge t now_ms)) claims) t'"
| register: "of_pid p snapshot \<Longrightarrow>
     tracker_step t [(p, start_time)] [] (fst (register_backend t backends p name start_time snapshot))"
| take: "tracker_step t [] [] (fst (take_abandoned t))"

inductive tracker_run ::
    "tracker_processes \<Rightarrow> exit_identity list \<Rightarrow> exit_identity list \<Rightarrow> tracker_processes \<Rightarrow> bool" where
  run_refl: "tracker_run t [] [] t"
| run_step: "tracker_run t obs ex u \<Longrightarrow> tracker_step u obs' ex' v \<Longrightarrow> tracker_run t (obs @ obs') (ex @ ex') v"

lemma record_new_ok:
  assumes "tracker_ok t" "of_pid p observed"
  shows "tracker_ok (record_new_process_observation t p observed)"
  using assms
  by (auto simp: record_new_process_observation_def tracker_ok_def of_pid_def keys_ok_update
      split: option.splits)

lemma record_new_simps [simp]:
  "exits (record_new_process_observation t p observed) = exits t"
  "unkeyable (record_new_process_observation t p observed) = unkeyable t"
  "unresolved_retries (record_new_process_observation t p observed) = unresolved_retries t"
  by (auto simp: record_new_process_observation_def split: option.splits)

lemma record_exit_ok:
  assumes "tracker_ok t" "of_pid p observed"
  shows "tracker_ok (fst (record_process_exit t p observed now_ms))"
proof -
  let ?t = "if list_contains (unresolved_new_pids t) p then record_new_process_observation t p observed else t"
  have ok: "tracker_ok ?t" using assms by (simp add: record_new_ok)
  then have "keys_ok (known ?t)" by (simp add: tracker_ok_def)
  from map_of_pid [OF this, of p]
  have "pm_pid (mark_exited now_ms m) = p" if "map_of (known ?t) p = Some m" for m
    using that by (simp add: mark_exited_def)
  then show ?thesis
    using ok by (auto simp: record_process_exit_def Let_def tracker_ok_def keys_ok_update split: option.splits)
qed

lemma foldl_record_ok:
  assumes "\<And>p. of_pid p (observe p)"
  shows "tracker_ok t \<Longrightarrow> tracker_ok (foldl (\<lambda>t p. record_new_process_observation t p (observe p)) t xs)"
  using assms by (induction xs arbitrary: t) (auto intro: record_new_ok)

lemma charge_retry_ok:
  "tracker_ok t \<Longrightarrow> tracker_ok (fst (charge_retry now_ms (t, ab) p))"
  by (auto simp: charge_retry_def Let_def push_unkeyable_def tracker_ok_def length_cap_front)

lemma tracker_bump_ok: "tracker_ok t \<Longrightarrow> tracker_ok (fst (bump_unresolved_retries t now_ms))"
proof -
  assume ok: "tracker_ok t"
  have "tracker_ok (fst s) \<Longrightarrow> tracker_ok (fst (foldl (charge_retry now_ms) s xs))" for s xs
  proof (induction xs arbitrary: s)
    case (Cons x xs)
    then show ?case using charge_retry_ok [of "fst s" now_ms "snd s" x] by simp
  qed simp
  from this [of "(t, [])" "unresolved_new_pids t"] ok show ?thesis
    by (auto simp: bump_unresolved_retries_def Let_def split_beta tracker_ok_def restrict_map_def)
qed

lemma claim_all_ok:
  "claim_all g spares control ps l = Some (cs, l') \<Longrightarrow> ledger_ok l \<Longrightarrow> ledger_ok l'"
proof (induction ps arbitrary: l cs)
  case (Cons p ps)
  obtain c l1 cs' where "claim_exit_replay g spares l p control = Some (c, l1)"
      "claim_all g spares control ps l1 = Some (cs', l')"
    using Cons.prems(1) by (auto split: option.splits prod.splits)
  then show ?case using Cons.IH claim_exit_ok Cons.prems(2) by blast
qed simp

lemma reconcile_parts:
  assumes "reconcile_pending t backends facts now_ms finalize_empty = Some (t', claims, spares)"
  obtains l where "t' = (fst (purge t now_ms))\<lparr>exits := l\<rparr>"
    "claim_all (build_graph (known_values (fst (purge t now_ms))) backends)
       (reaper_spare_list facts (spare_candidates (known_values (fst (purge t now_ms)))))
       \<lparr>finalize_provisional_empty = finalize_empty, rc_metadata_complete = metadata_complete (fst (purge t now_ms)),
        rc_now_ms = now_ms\<rparr>
       (pending_exit_pids (known_values (fst (purge t now_ms))) (processed_exits (exits (fst (purge t now_ms)))))
       (exits (fst (purge t now_ms))) = Some (claims, l)"
  using assms
  by (fastforce simp: reconcile_pending_def Let_def split: if_splits option.splits)

lemma step_ok:
  assumes "tracker_step t obs ex t'" "tracker_ok t"
  shows "tracker_ok t'"
  using assms(1)
proof (cases rule: tracker_step.cases)
  case (message p observed m now_ms)
  then show ?thesis
    using assms(2) record_new_ok record_exit_ok default_tracker_ok
    by (auto simp: apply_message_def split: job_message.split)
next
  case (retry observe claimed now_ms)
  then show ?thesis
    using assms(2) tracker_bump_ok foldl_record_ok by (auto simp: retry_unresolved_new_processes_def Let_def)
next
  case (reconcile backends facts now_ms finalize_empty claims spares)
  have ok: "tracker_ok (fst (purge t now_ms))" using purge_ok assms(2) .
  from reconcile_parts [OF reconcile(3)] obtain l where "t' = (fst (purge t now_ms))\<lparr>exits := l\<rparr>" "ledger_ok l"
    using claim_all_ok ok unfolding tracker_ok_def by metis
  then show ?thesis using ok by (simp add: tracker_ok_def)
next
  case (register p snapshot start_time backends name)
  then show ?thesis
    using assms(2)
    by (auto simp: register_backend_def Let_def tracker_ok_def of_pid_def keys_ok_update split: option.splits)
next
  case take
  then show ?thesis using assms(2) by (auto simp: take_abandoned_def tracker_ok_def ledger_ok_def)
qed

lemma run_ok: "tracker_run t obs ex u \<Longrightarrow> tracker_ok t \<Longrightarrow> tracker_ok u"
  by (induction rule: tracker_run.induct) (auto intro: step_ok)

text \<open>
  C40. Whatever the listener is told, in every reachable tracker the lists of exits given up and of ids without
  metadata stay within their cap, no id has used up its retries, and an exit that was dealt with is neither
  deferred nor provisional.
\<close>

theorem trackers_stay_bounded:
  assumes "tracker_run default_tracker obs ex t"
  shows "keys_ok (known t) \<and> length (abandoned_exits (exits t)) \<le> 256 \<and> length (unkeyable t) \<le> 256 \<and>
    (\<forall>n\<in>ran (unresolved_retries t). n < 10) \<and>
    (dom (deferred_since (exits t)) \<union> provisional_empty_exits (exits t)) \<inter> processed_exits (exits t) = {}"
  using run_ok [OF assms default_tracker_ok]
  by (auto simp: tracker_ok_def ledger_ok_def max_unkeyable_def max_metadata_retries_def ran_def)

theorem trackers_stay_bounded_witness:
  "length (unkeyable (apply_message default_tracker (NewProcess, 7, None, 0))) \<le> 256"
proof -
  have "tracker_step default_tracker (observed_exit None) [] (apply_message default_tracker (NewProcess, 7, None, 0))"
    by (rule tracker_step.message) (simp add: of_pid_def)
  from trackers_stay_bounded [OF run_step [OF run_refl this]] show ?thesis by simp
qed

section \<open>Exits are executed once\<close>

definition settled :: "exit_identity \<Rightarrow> tracker_processes \<Rightarrow> bool" where
  "settled i t \<longleftrightarrow> i \<in> processed_exits (exits t) \<or>
     (\<forall>m. map_of (known t) (fst i) = Some m \<longrightarrow> pm_start_time m \<noteq> snd i)"

lemma graph_by_pid_known:
  assumes "keys_ok ks"
  shows "graph_by_pid (map snd ks) = map_of ks"
proof -
  have "map (\<lambda>m. (pm_pid m, m)) (map snd ks) = ks"
    using assms by (auto simp: keys_ok_def intro!: map_idI)
  then have "graph_by_pid (map snd ks) = map_of (rev ks)" by (simp add: graph_by_pid_def rev_map)
  then show ?thesis
    using assms map_of_inject_set [of "rev ks" ks] by (simp add: keys_ok_def flip: rev_map)
qed

lemma defer_or_abandon_processed:
  "processed_exits l \<subseteq> processed_exits (snd (defer_or_abandon l i now ttl))"
  "fst (defer_or_abandon l i now ttl) \<noteq> Execute ds"
  by (auto simp: defer_or_abandon_def defer_expired_def abandon_exit_def Let_def)

lemma claim_exit_processed:
  assumes "claim_exit_replay g spares l p control = Some (c, l')"
  shows "processed_exits l \<subseteq> processed_exits l' \<and>
    (\<forall>ds. c = Execute ds \<longrightarrow> (\<exists>m. by_pid g p = Some m \<and> meta_identity m \<notin> processed_exits l \<and>
       meta_identity m \<in> processed_exits l'))"
  using assms
proof (cases rule: claim_exit_cases)
  case (deferred trigger l0 ttl)
  have "processed_exits l0 = processed_exits l" using deferred(4) by auto
  then show ?thesis
    using defer_or_abandon_processed [of l0 "meta_identity trigger" "rc_now_ms control" ttl]
    unfolding deferred(6) [symmetric] by auto
next
  case executed
  then show ?thesis by (auto simp: finalize_exit_def)
qed auto

lemma claim_all_executed:
  assumes "claim_all g spares control ps l = Some (cs, l')"
  shows "processed_exits l \<subseteq> processed_exits l' \<and>
    distinct (concat (map (claim_ids (by_pid g)) cs)) \<and>
    set (concat (map (claim_ids (by_pid g)) cs)) \<inter> processed_exits l = {} \<and>
    set (concat (map (claim_ids (by_pid g)) cs)) \<subseteq> processed_exits l'"
  using assms
proof (induction ps arbitrary: l cs)
  case (Cons p ps)
  obtain c l1 cs' where c: "claim_exit_replay g spares l p control = Some (c, l1)"
      "claim_all g spares control ps l1 = Some (cs', l')" "cs = (p, c) # cs'"
    using Cons.prems(1) by (auto split: option.splits prod.splits)
  note tail = Cons.IH [OF c(2)]
  have head: "processed_exits l \<subseteq> processed_exits l1" "distinct (claim_ids (by_pid g) (p, c))"
      "set (claim_ids (by_pid g) (p, c)) \<inter> processed_exits l = {}" "set (claim_ids (by_pid g) (p, c)) \<subseteq> processed_exits l1"
    using claim_exit_processed [OF c(1)] by (cases c; auto)+
  show ?case
    unfolding c(3) using head tail by auto
qed simp

lemma settled_purge:
  assumes "tracker_ok t" "settled i t"
  shows "settled i (fst (purge t now_ms))"
proof (cases "i \<in> set (gone_exits t now_ms)")
  case True
  then have "map_of (known (fst (purge t now_ms))) (fst i) = None"
    by (simp add: purge_fields fold_evict)
  then show ?thesis by (simp add: settled_def)
next
  case False
  have "keys_ok (known t)" using assms(1) by (simp add: tracker_ok_def)
  then show ?thesis
    using assms(2) False purge_known [of t now_ms "fst i"] by (auto simp: settled_def purge_fields(2))
qed

lemma settled_record:
  assumes "settled i t" "of_pid p observed" "i \<notin> set (observed_exit observed)"
  shows "settled i (record_new_process_observation t p observed)"
  using assms
  by (cases i) (auto simp: settled_def record_new_process_observation_def of_pid_def observed_exit_def meta_identity_def
      split: option.splits)

lemma settled_exit:
  assumes "settled i t" "of_pid p observed" "i \<notin> set (observed_exit observed)"
  shows "settled i (fst (record_process_exit t p observed now_ms))"
proof -
  have "settled i (if list_contains (unresolved_new_pids t) p then record_new_process_observation t p observed else t)"
    using settled_record [OF assms] assms(1) by simp
  then show ?thesis
    by (auto simp: record_process_exit_def Let_def settled_def mark_exited_def split: option.splits if_splits)
qed

lemma bump_known [simp]:
  "known (fst (bump_unresolved_retries t now_ms)) = known t" "exits (fst (bump_unresolved_retries t now_ms)) = exits t"
proof -
  have "known (fst (foldl (charge_retry now_ms) s xs)) = known (fst s) \<and>
      exits (fst (foldl (charge_retry now_ms) s xs)) = exits (fst s)" for s xs
  proof (induction xs arbitrary: s)
    case (Cons x xs)
    have "known (fst (charge_retry now_ms s x)) = known (fst s)" "exits (fst (charge_retry now_ms s x)) = exits (fst s)"
      by (simp_all add: charge_retry_def push_unkeyable_def Let_def split_beta)
    then show ?case using Cons.IH by simp
  qed simp
  from this [of "(t, [])" "unresolved_new_pids t"]
  show "known (fst (bump_unresolved_retries t now_ms)) = known t"
    "exits (fst (bump_unresolved_retries t now_ms)) = exits t"
    by (simp_all add: bump_unresolved_retries_def split_beta)
qed

lemma settled_records:
  assumes "\<And>p. of_pid p (observe p)" "i \<notin> set (concat (map (\<lambda>p. observed_exit (observe p)) xs))" "settled i t"
  shows "settled i (foldl (\<lambda>t p. record_new_process_observation t p (observe p)) t xs)"
  using assms(2,3) by (induction xs arbitrary: t) (auto intro: settled_record assms(1))

text \<open>What a reconcile pass executes was not settled, and is settled after it.\<close>

lemma reconcile_settles:
  assumes "tracker_ok t" "reconcile_pending t backends facts now_ms finalize_empty = Some (t', claims, spares)"
  shows "distinct (executed_exits (fst (purge t now_ms)) claims) \<and>
    (settled i t \<longrightarrow> settled i t' \<and> i \<notin> set (executed_exits (fst (purge t now_ms)) claims)) \<and>
    (i \<in> set (executed_exits (fst (purge t now_ms)) claims) \<longrightarrow> settled i t')"
proof -
  let ?t = "fst (purge t now_ms)"
  have "keys_ok (known ?t)" using purge_ok [OF assms(1)] by (simp add: tracker_ok_def)
  then have by_pid: "by_pid (build_graph (known_values ?t) backends) = map_of (known ?t)"
    by (simp add: known_values_def graph_by_pid_known)
  from reconcile_parts [OF assms(2)] obtain l where l: "t' = ?t\<lparr>exits := l\<rparr>"
    and run: "claim_all (build_graph (known_values ?t) backends)
       (reaper_spare_list facts (spare_candidates (known_values ?t)))
       \<lparr>finalize_provisional_empty = finalize_empty, rc_metadata_complete = metadata_complete ?t, rc_now_ms = now_ms\<rparr>
       (pending_exit_pids (known_values ?t) (processed_exits (exits ?t))) (exits ?t) = Some (claims, l)" .
  have tracked: "\<exists>m. map_of (known ?t) (fst i) = Some m \<and> pm_start_time m = snd i"
    if executed: "i \<in> set (executed_exits ?t claims)"
  proof -
    obtain p c where "i \<in> set (claim_ids (map_of (known ?t)) (p, c))" using executed by (auto simp: executed_exits_def)
    then obtain m where "map_of (known ?t) p = Some m" "i = meta_identity m"
      by (cases c; cases "map_of (known ?t) p") auto
    then show ?thesis using map_of_pid [OF \<open>keys_ok (known ?t)\<close>] by (auto simp: meta_identity_def)
  qed
  note facts = claim_all_executed [OF run, unfolded by_pid, folded executed_exits_def]
  have "settled i ?t \<Longrightarrow> settled i t' \<and> i \<notin> set (executed_exits ?t claims)"
    using facts tracked l by (auto simp: settled_def)
  moreover have "i \<in> set (executed_exits ?t claims) \<Longrightarrow> settled i t'"
    using facts l by (auto simp: settled_def)
  ultimately show ?thesis using facts settled_purge [OF assms(1)] by blast
qed

lemma settled_default: "settled i default_tracker"
  by (simp add: settled_def default_tracker_def)

lemma settled_step:
  assumes "tracker_step t obs ex t'" "tracker_ok t" "settled i t" "i \<notin> set obs"
  shows "settled i t' \<and> i \<notin> set ex"
  using assms(1)
proof (cases rule: tracker_step.cases)
  case (message p observed m now_ms)
  then show ?thesis
    using settled_record settled_exit assms(3,4)
    by (auto simp: apply_message_def settled_default split: job_message.split)
next
  case (retry observe claimed now_ms)
  then show ?thesis
    using settled_records [of observe i "unresolved_new_pids t" t] assms(3,4)
    by (auto simp: retry_unresolved_new_processes_def Let_def settled_def)
next
  case (reconcile backends facts now_ms finalize_empty claims spares)
  then show ?thesis using reconcile_settles [OF assms(2) reconcile(3)] assms(3) by blast
next
  case (register p snapshot start_time backends name)
  then show ?thesis
    using assms(3,4) by (cases i) (auto simp: register_backend_def Let_def settled_def split: option.splits)
next
  case take
  then show ?thesis using assms(3) by (auto simp: take_abandoned_def settled_def)
qed

lemma settled_run:
  assumes "tracker_run t obs ex u" "tracker_ok t" "settled i t" "i \<notin> set obs"
  shows "settled i u \<and> i \<notin> set ex"
  using assms
proof (induction rule: tracker_run.induct)
  case (run_step t obs ex u obs' ex' v)
  then have "settled i u" "i \<notin> set ex" by simp_all
  then show ?case
    using settled_step [OF run_step.hyps(2) run_ok [OF run_step.hyps(1) run_step.prems(1)]] run_step.prems by simp
qed simp


section \<open>Exits do not wait for ever\<close>

definition exited_shell :: "exit_identity \<Rightarrow> tracker_processes \<Rightarrow> bool" where
  "exited_shell i t \<longleftrightarrow> (\<exists>m. map_of (known t) (fst i) = Some m \<and> pm_start_time m = snd i \<and>
     \<not> pm_alive m \<and> is_shell_image (pm_image_name m))"

definition waits_since :: "exit_identity \<Rightarrow> nat \<Rightarrow> tracker_processes \<Rightarrow> bool" where
  "waits_since i n t \<longleftrightarrow> exited_shell i t \<and> (\<exists>s\<le>n. deferred_since (exits t) i = Some s)"

lemma claim_exit_defers:
  assumes "claim_exit_replay g spares l p control = Some (c, l')" "rc_metadata_complete control"
    and "\<And>q m. by_pid g q = Some m \<Longrightarrow> pm_pid m = q"
  shows "(i \<notin> processed_exits l' \<longrightarrow>
       unwrap_or (deferred_since l' i) (rc_now_ms control) = unwrap_or (deferred_since l i) (rc_now_ms control) \<and>
       (\<forall>s. deferred_since l i = Some s \<longrightarrow> deferred_since l' i = Some s)) \<and>
    (by_pid g p = Some m \<and> meta_identity m = i \<longrightarrow>
       i \<in> processed_exits l' \<or>
       (deferred_since l' i = Some (unwrap_or (deferred_since l i) (rc_now_ms control)) \<and>
        rc_now_ms control - unwrap_or (deferred_since l i) (rc_now_ms control) < provisional_defer_ms))"
  using assms(1)
proof (cases rule: claim_exit_cases)
  case none
  then show ?thesis using assms(2) by auto
next
  case (deferred trigger l0 ttl)
  have l0: "deferred_since l0 = deferred_since l" "processed_exits l0 = processed_exits l" using deferred(4) by auto
  have "l' = snd (defer_or_abandon l0 (meta_identity trigger) (rc_now_ms control) ttl)"
    using deferred(6) by (metis snd_conv)
  then show ?thesis
    using deferred(2,5) l0
    by (auto simp: defer_or_abandon_def defer_expired_def abandon_exit_def Let_def split: if_splits)
next
  case executed
  then show ?thesis by (auto simp: finalize_exit_def)
qed

lemma claim_all_defers:
  assumes "claim_all g spares control ps l = Some (cs, l')" "rc_metadata_complete control"
    and "\<And>q m. by_pid g q = Some m \<Longrightarrow> pm_pid m = q"
  shows "(i \<notin> processed_exits l' \<longrightarrow>
       unwrap_or (deferred_since l' i) (rc_now_ms control) = unwrap_or (deferred_since l i) (rc_now_ms control) \<and>
       (\<forall>s. deferred_since l i = Some s \<longrightarrow> deferred_since l' i = Some s)) \<and>
    (by_pid g p = Some m \<and> meta_identity m = i \<and> p \<in> set ps \<longrightarrow> i \<in> processed_exits l' \<or>
       (deferred_since l' i = Some (unwrap_or (deferred_since l i) (rc_now_ms control)) \<and>
        rc_now_ms control - unwrap_or (deferred_since l i) (rc_now_ms control) < provisional_defer_ms))"
  using assms(1)
proof (induction ps arbitrary: l cs)
  case (Cons q qs)
  obtain c l1 cs' where c: "claim_exit_replay g spares l q control = Some (c, l1)"
      "claim_all g spares control qs l1 = Some (cs', l')" "cs = (q, c) # cs'"
    using Cons.prems(1) by (auto split: option.splits prod.splits)
  have mono: "processed_exits l1 \<subseteq> processed_exits l'" using claim_all_executed [OF c(2)] by simp
  note head = claim_exit_defers [OF c(1) assms(2,3)] and tail = Cons.IH [OF c(2)]
  show ?case
  proof (cases "i \<in> processed_exits l'")
    case False
    then have "i \<notin> processed_exits l1" using mono by auto
    then show ?thesis
      using head [of i m] tail False by auto
  qed simp
qed simp

lemma exited_shell_pending:
  assumes "keys_ok (known t)" "exited_shell i t" "i \<notin> processed_exits (exits t)"
  shows "fst i \<in> set (pending_exit_pids (known_values t) (processed_exits (exits t)))"
proof -
  obtain m where m: "map_of (known t) (fst i) = Some m" "pm_start_time m = snd i" "\<not> pm_alive m"
      "is_shell_image (pm_image_name m)" using assms(2) by (auto simp: exited_shell_def)
  have "pm_pid m = fst i" "m \<in> set (known_values t)"
    using map_of_pid [OF assms(1) m(1)] m(1) by (force simp: known_values_def dest: map_of_SomeD)+
  then show ?thesis using m assms(3) by (force simp: pending_exit_pids_def)
qed

lemma exited_shell_purge:
  assumes "tracker_ok t" "exited_shell i t" "i \<notin> processed_exits (exits t)"
  shows "exited_shell i (fst (purge t now_ms)) \<and> i \<notin> processed_exits (exits (fst (purge t now_ms))) \<and>
    deferred_since (exits (fst (purge t now_ms))) i = deferred_since (exits t) i"
proof -
  obtain m where m: "map_of (known t) (fst i) = Some m" "pm_start_time m = snd i" "\<not> pm_alive m"
      "is_shell_image (pm_image_name m)" using assms(2) by (auto simp: exited_shell_def)
  have keys: "keys_ok (known t)" using assms(1) by (simp add: tracker_ok_def)
  have id: "meta_identity m = i" using map_of_pid [OF keys m(1)] m(2) by (simp add: meta_identity_def)
  have pending: "is_pending (exits t) m" using m(4) assms(3) id by (simp add: is_pending_def)
  have kept: "map_of (known (fst (purge t now_ms))) (fst i) = Some m"
    using pending_kept [OF assms(1) m(1) pending] .
  have "i \<notin> set (gone_exits t now_ms)"
  proof
    assume "i \<in> set (gone_exits t now_ms)"
    then have "map_of (known (fst (purge t now_ms))) (fst i) = None" by (simp add: purge_fields fold_evict)
    then show False using kept by simp
  qed
  then show ?thesis using kept m assms(3) by (auto simp: exited_shell_def purge_fields(2,5))
qed

text \<open>A complete pass settles an exited shell or defers it from its first deferral on.\<close>

lemma reconcile_exited_shell:
  assumes "tracker_ok t" "exited_shell i t" "metadata_complete t"
    and "reconcile_pending t backends facts now_ms finalize_empty = Some (t', claims, spares)"
  shows "settled i t' \<or> (exited_shell i t' \<and>
     deferred_since (exits t') i = Some (unwrap_or (deferred_since (exits t) i) now_ms) \<and>
     now_ms - unwrap_or (deferred_since (exits t) i) now_ms < provisional_defer_ms)"
proof (cases "i \<in> processed_exits (exits t)")
  case True
  then show ?thesis using reconcile_settles [OF assms(1,4)] by (auto simp: settled_def)
next
  case False
  let ?t = "fst (purge t now_ms)"
  have keys: "keys_ok (known ?t)" using purge_ok [OF assms(1)] by (simp add: tracker_ok_def)
  note kept = exited_shell_purge [OF assms(1,2) False, of now_ms]
  have complete: "metadata_complete ?t" using assms(3) by (simp add: metadata_complete_def purge_fields)
  from reconcile_parts [OF assms(4)] obtain l where l: "t' = ?t\<lparr>exits := l\<rparr>"
    and run: "claim_all (build_graph (known_values ?t) backends)
       (reaper_spare_list facts (spare_candidates (known_values ?t)))
       \<lparr>finalize_provisional_empty = finalize_empty, rc_metadata_complete = metadata_complete ?t, rc_now_ms = now_ms\<rparr>
       (pending_exit_pids (known_values ?t) (processed_exits (exits ?t))) (exits ?t) = Some (claims, l)" .
  obtain m where m: "map_of (known ?t) (fst i) = Some m" "pm_start_time m = snd i"
    using kept by (auto simp: exited_shell_def)
  have id: "meta_identity m = i" using map_of_pid [OF keys m(1)] m(2) by (simp add: meta_identity_def)
  have by_pid: "by_pid (build_graph (known_values ?t) backends) = map_of (known ?t)"
    using keys by (simp add: known_values_def graph_by_pid_known)
  have "i \<in> processed_exits l \<or> (deferred_since l i = Some (unwrap_or (deferred_since (exits ?t) i) now_ms) \<and>
      now_ms - unwrap_or (deferred_since (exits ?t) i) now_ms < provisional_defer_ms)"
    using claim_all_defers [OF run, of i "fst i" m] complete by_pid m(1) id map_of_pid [OF keys]
      exited_shell_pending [OF keys conjunct1 [OF kept]] kept by simp
  then show ?thesis using kept l by (auto simp: settled_def exited_shell_def)
qed

definition ages :: "exit_identity \<Rightarrow> nat \<Rightarrow> tracker_processes \<Rightarrow> bool" where
  "ages i n t \<longleftrightarrow> settled i t \<or> waits_since i n t"

lemma ages_record:
  assumes "ages i n t" "of_pid p observed" "i \<notin> set (observed_exit observed)"
  shows "ages i n (record_new_process_observation t p observed)"
proof (cases "settled i t")
  case True
  then show ?thesis using settled_record assms(2,3) by (simp add: ages_def)
next
  case False
  then have "waits_since i n t" using assms(1) by (simp add: ages_def)
  then show ?thesis
    using assms(2,3)
    by (cases i) (auto simp: ages_def settled_def waits_since_def exited_shell_def record_new_process_observation_def
      of_pid_def observed_exit_def meta_identity_def split: option.splits)
qed

lemma ages_exit:
  assumes "ages i n t" "of_pid p observed" "i \<notin> set (observed_exit observed)"
  shows "ages i n (fst (record_process_exit t p observed now_ms))"
proof -
  have "ages i n (if list_contains (unresolved_new_pids t) p then record_new_process_observation t p observed else t)"
    using ages_record [OF assms] assms(1) by simp
  then show ?thesis
    by (auto simp: record_process_exit_def Let_def ages_def settled_def waits_since_def exited_shell_def mark_exited_def
        split: option.splits if_splits)
qed

lemma ages_records:
  assumes "\<And>p. of_pid p (observe p)" "i \<notin> set (concat (map (\<lambda>p. observed_exit (observe p)) xs))" "ages i n t"
  shows "ages i n (foldl (\<lambda>t p. record_new_process_observation t p (observe p)) t xs)"
  using assms(2,3) by (induction xs arbitrary: t) (auto intro: ages_record assms(1))

lemma ages_cong: "known t' = known t \<Longrightarrow> processed_exits (exits t') = processed_exits (exits t) \<Longrightarrow>
    deferred_since (exits t') = deferred_since (exits t) \<Longrightarrow> ages i n t' \<longleftrightarrow> ages i n t"
  by (simp add: ages_def settled_def waits_since_def exited_shell_def)

lemma claim_all_incomplete:
  "claim_all g spares control ps l = Some (cs, l') \<Longrightarrow> \<not> rc_metadata_complete control \<Longrightarrow> l' = l"
proof (induction ps arbitrary: l cs)
  case (Cons p ps)
  then show ?case by (auto simp: claim_exit_replay_def split: option.splits)
qed simp

lemma ages_reconcile:
  assumes "tracker_ok t" "ages i n t" "reconcile_pending t backends facts now_ms finalize_empty = Some (t', claims, spares)"
  shows "ages i n t'"
proof (cases "settled i t")
  case True
  then show ?thesis using reconcile_settles [OF assms(1,3)] by (simp add: ages_def)
next
  case False
  then obtain s where w: "exited_shell i t" "deferred_since (exits t) i = Some s" "s \<le> n" "i \<notin> processed_exits (exits t)"
    using assms(2) by (auto simp: ages_def waits_since_def settled_def)
  show ?thesis
  proof (cases "metadata_complete t")
    case True
    from reconcile_exited_shell [OF assms(1) w(1) this assms(3)] show ?thesis
      using w(2,3) by (auto simp: ages_def waits_since_def)
  next
    case False
    then have "\<not> metadata_complete (fst (purge t now_ms))" by (simp add: metadata_complete_def purge_fields)
    with reconcile_parts [OF assms(3)] have "t' = fst (purge t now_ms)"
      using claim_all_incomplete by (metis (no_types, lifting) replay_control.select_convs(2) tracker_processes.surjective tracker_processes.update_convs(5))
    then show ?thesis
      using exited_shell_purge [OF assms(1) w(1,4)] w(2,3) by (auto simp: ages_def waits_since_def)
  qed
qed

lemma ages_step:
  assumes "tracker_step t obs ex t'" "tracker_ok t" "ages i n t" "i \<notin> set obs"
  shows "ages i n t'"
  using assms(1)
proof (cases rule: tracker_step.cases)
  case (message p observed m now_ms)
  have "ages i n default_tracker" by (simp add: ages_def settled_default)
  then show ?thesis
    using message ages_record ages_exit assms(3,4) by (auto simp: apply_message_def split: job_message.split)
next
  case (retry observe claimed now_ms)
  have "ages i n (fst (bump_unresolved_retries u now_ms)) \<longleftrightarrow> ages i n u" for u by (rule ages_cong) simp_all
  then show ?thesis
    using retry ages_records [of observe i "unresolved_new_pids t" n t] assms(3,4)
    by (auto simp: retry_unresolved_new_processes_def Let_def)
next
  case (reconcile backends facts now_ms finalize_empty claims spares)
  then show ?thesis using ages_reconcile assms(2,3) by blast
next
  case (register p snapshot start_time backends name)
  then show ?thesis
    using assms(3,4)
    by (cases i) (auto simp: register_backend_def Let_def ages_def settled_def waits_since_def exited_shell_def
      split: option.splits)
next
  case take
  have "ages i n (fst (take_abandoned t)) \<longleftrightarrow> ages i n t" by (rule ages_cong) (simp_all add: take_abandoned_def)
  then show ?thesis using take assms(3) by simp
qed

lemma ages_run:
  assumes "tracker_run t obs ex u" "tracker_ok t" "ages i n t" "i \<notin> set obs"
  shows "ages i n u"
  using assms
proof (induction rule: tracker_run.induct)
  case (run_step t obs ex u obs' ex' v)
  then show ?case using ages_step run_ok by (metis Un_iff set_append)
qed simp


fun quiet_periods :: "tracker_processes \<Rightarrow> ((pid \<Rightarrow> process_meta option) \<times> nat) list \<Rightarrow> tracker_processes" where
  "quiet_periods t [] = t"
| "quiet_periods t ((observe, now_ms) # rest) =
     quiet_periods (fst (retry_unresolved_new_processes t True observe now_ms)) rest"

definition retries_of :: "tracker_processes \<Rightarrow> pid \<Rightarrow> nat" where
  "retries_of t p = unwrap_or (unresolved_retries t p) 0"

lemma charge_fold:
  "set (unresolved_new_pids (fst (foldl (charge_retry now_ms) s xs))) \<subseteq> set (unresolved_new_pids (fst s)) \<and>
   (\<forall>p\<in>set (unresolved_new_pids (fst (foldl (charge_retry now_ms) s xs))).
      retries_of (fst s) p + (if p \<in> set xs then 1 else 0) \<le> retries_of (fst (foldl (charge_retry now_ms) s xs)) p)"
proof (induction xs arbitrary: s)
  case (Cons x xs)
  let ?s = "charge_retry now_ms s x"
  have sub: "set (unresolved_new_pids (fst ?s)) \<subseteq> set (unresolved_new_pids (fst s))"
    by (auto simp: charge_retry_def push_unkeyable_def Let_def split_beta)
  have step: "retries_of (fst s) p + (if p = x then 1 else 0) \<le> retries_of (fst ?s) p"
    if "p \<in> set (unresolved_new_pids (fst ?s))" for p
    using that by (auto simp: charge_retry_def push_unkeyable_def Let_def split_beta retries_of_def split: if_splits)
  show ?case
    using Cons.IH [of ?s] sub step by (force simp: split: if_splits)
qed simp

lemma bump_counts:
  "set (unresolved_new_pids (fst (bump_unresolved_retries t now_ms))) \<subseteq> set (unresolved_new_pids t) \<and>
   (\<forall>p\<in>set (unresolved_new_pids (fst (bump_unresolved_retries t now_ms))).
      retries_of t p + 1 \<le> retries_of (fst (bump_unresolved_retries t now_ms)) p)"
  using charge_fold [of now_ms "(t, [])" "unresolved_new_pids t"]
  by (fastforce simp: bump_unresolved_retries_def split_beta retries_of_def)

lemma records_unresolved:
  "set xs \<subseteq> U \<Longrightarrow> set (unresolved_new_pids t) \<subseteq> U \<Longrightarrow>
   set (unresolved_new_pids (foldl (\<lambda>t p. record_new_process_observation t p (observe p)) t xs)) \<subseteq> U"
proof (induction xs arbitrary: t)
  case (Cons x xs)
  have "set (unresolved_new_pids (record_new_process_observation t x (observe x))) \<subseteq> U"
    using Cons.prems by (auto simp: record_new_process_observation_def split: option.splits)
  then show ?case using Cons by simp
qed simp

lemma records_retries [simp]:
  "unresolved_retries (foldl (\<lambda>t p. record_new_process_observation t p (observe p)) t xs) = unresolved_retries t"
  by (induction xs arbitrary: t) simp_all

lemma retry_counts:
  assumes "p \<in> set (unresolved_new_pids (fst (retry_unresolved_new_processes t True observe now_ms)))"
  shows "p \<in> set (unresolved_new_pids t) \<and>
    retries_of t p + 1 \<le> retries_of (fst (retry_unresolved_new_processes t True observe now_ms)) p"
proof (cases "unresolved_new_pids t = []")
  case True
  then show ?thesis using assms by (simp add: retry_unresolved_new_processes_def)
next
  case False
  let ?u = "foldl (\<lambda>t p. record_new_process_observation t p (observe p)) t (unresolved_new_pids t)"
  have eq: "fst (retry_unresolved_new_processes t True observe now_ms) = fst (bump_unresolved_retries ?u now_ms)"
    using False by (simp add: retry_unresolved_new_processes_def Let_def)
  have "retries_of ?u p = retries_of t p" by (simp add: retries_of_def)
  then show ?thesis
    using assms bump_counts [of ?u now_ms] records_unresolved [of "unresolved_new_pids t" "set (unresolved_new_pids t)" t observe]
    unfolding eq by auto
qed

lemma quiet_counts:
  "p \<in> set (unresolved_new_pids (quiet_periods t rounds)) \<Longrightarrow>
   p \<in> set (unresolved_new_pids t) \<and> retries_of t p + length rounds \<le> retries_of (quiet_periods t rounds) p"
proof (induction t rounds rule: quiet_periods.induct)
  case (2 t observe now_ms rest)
  then show ?case using retry_counts [of p t observe now_ms] by fastforce
qed simp

lemma quiet_ok:
  "tracker_ok t \<Longrightarrow> \<forall>r\<in>set rounds. \<forall>p. of_pid p (fst r p) \<Longrightarrow> tracker_ok (quiet_periods t rounds)"
proof (induction t rounds rule: quiet_periods.induct)
  case (2 t observe now_ms rest)
  then have "tracker_ok (fst (retry_unresolved_new_processes t True observe now_ms))"
    by (intro step_ok [OF tracker_step.retry]) auto
  then show ?case using 2 by simp
qed simp

text \<open>
  The gate of complete metadata opens: after ten quiet periods in which the listener may look, no id is
  unresolved, whatever the looks have found.
\<close>

theorem metadata_gate_opens:
  assumes "tracker_run default_tracker obs ex t" "\<forall>r\<in>set rounds. \<forall>p. of_pid p (fst r p)" "10 \<le> length rounds"
  shows "metadata_complete (quiet_periods t rounds)"
proof -
  have ok: "tracker_ok (quiet_periods t rounds)" by (rule quiet_ok [OF run_ok [OF assms(1) default_tracker_ok] assms(2)])
  have "p \<notin> set (unresolved_new_pids (quiet_periods t rounds))" for p
  proof
    assume "p \<in> set (unresolved_new_pids (quiet_periods t rounds))"
    then have "10 \<le> retries_of (quiet_periods t rounds) p" using quiet_counts [of p t rounds] assms(3) by simp
    moreover have "retries_of (quiet_periods t rounds) p < 10"
      using ok by (cases "unresolved_retries (quiet_periods t rounds) p")
        (auto simp: tracker_ok_def retries_of_def max_metadata_retries_def)
    ultimately show False by simp
  qed
  then have "set (unresolved_new_pids (quiet_periods t rounds)) = {}"
    by (metis equals0I)
  then show ?thesis by (simp add: metadata_complete_def)
qed

section \<open>A small run\<close>

text \<open>The backend of the small tree is registered, its shell and the client of it appear, and the shell exits.\<close>

definition demo_registered :: tracker_processes where
  "demo_registered = fst (register_backend default_tracker [] 10 ''pi'' 1010 (Some (demo_process 10 1 ''pi.exe'' True)))"

definition demo_tracker :: tracker_processes where
  "demo_tracker = foldl apply_message demo_registered
     [(NewProcess, 20, Some (demo_process 20 10 ''cmd.exe'' True), 5000),
      (NewProcess, 30, Some (demo_process 30 20 ''rg'' True), 6000), (ExitProcess, 20, None, 7000)]"

lemma demo_tracker_eq:
  "demo_tracker = \<lparr>known = map (\<lambda>m. (pm_pid m, m)) demo_tracked, unresolved_new_pids = [], unresolved_retries = Map.empty,
     unkeyable = [], exits = default_ledger\<rparr>"
  by (simp add: demo_tracker_def demo_registered_def register_backend_def default_tracker_def apply_message_def
      record_new_process_observation_def record_process_exit_def mark_exited_def demo_tracked_def demo_process_def
      unknown_start_time_def)

lemma demo_reaches: "\<exists>obs. tracker_run default_tracker obs [] demo_tracker"
proof -
  have reg: "tracker_step default_tracker [(10, 1010)] [] demo_registered"
    unfolding demo_registered_def by (rule tracker_step.register) (simp add: of_pid_def demo_process_def)
  have msg: "\<exists>obs. tracker_run default_tracker obs [] (apply_message u (m, p, observed, now_ms))"
    if of_pid: "of_pid p observed" and reached: "\<exists>obs. tracker_run default_tracker obs [] u" for p observed u m now_ms
  proof -
    obtain obs where "tracker_run default_tracker obs [] u" using reached by blast
    from run_step [OF this tracker_step.message [OF of_pid], of m now_ms] show ?thesis by auto
  qed
  have "\<exists>obs. tracker_run default_tracker obs [] demo_registered"
    using run_step [OF run_refl reg] by auto
  then show ?thesis
    unfolding demo_tracker_def foldl.simps by (intro msg) (simp_all add: of_pid_def demo_process_def)
qed

lemma demo_purge: "fst (purge demo_tracker 7000) = demo_tracker"
  by (simp add: purge_def demo_tracker_eq known_values_def evictable_def is_pending_def demo_tracked_def demo_process_def
      demo_images default_ledger_def fun_eq_iff)

lemma demo_reconcile:
  "reconcile_pending demo_tracker demo_backends demo_facts 7000 False =
     Some (demo_tracker\<lparr>exits := default_ledger\<lparr>processed_exits := {(20, 1020)}\<rparr>\<rparr>,
           [(20, Execute [demo_decision])], Map.empty)"
proof -
  have vals: "known_values demo_tracker = demo_tracked" by (simp add: demo_tracker_eq known_values_def comp_def)
  have ledger: "exits demo_tracker = default_ledger" "metadata_complete demo_tracker"
    by (simp_all add: demo_tracker_eq metadata_complete_def)
  have todo: "pending_exit_pids demo_tracked (processed_exits default_ledger) = [20]"
    by (simp add: pending_exit_pids_def demo_tracked_def demo_process_def demo_images default_ledger_def)
  have reason: "dec_reason demo_decision = LeakedToolClient" by (simp add: demo_decision_def decision_def)
  show ?thesis
    unfolding reconcile_pending_def demo_purge vals ledger todo demo_spares Let_def
    by (simp add: claim_exit_replay_def demo_by_pid demo_plan [simplified] reason meta_identity_def demo_process_def
        default_ledger_def finalize_exit_def ledger)
qed

lemma demo_protected: "identities_with_live_descendants (known demo_tracker) = {10, 20}"
proof -
  have p: "protect_from (known demo_tracker) 1 S = S" for S
    by (subst protect_from.simps) (simp add: demo_tracker_eq demo_tracked_def demo_process_def)
  have "protect_from (known demo_tracker) 10 {20} = protect_from (known demo_tracker) 1 {10, 20}"
    by (subst protect_from.simps) (simp add: demo_tracker_eq demo_tracked_def demo_process_def)
  moreover have "protect_from (known demo_tracker) 20 {} = protect_from (known demo_tracker) 10 {20}"
    by (subst protect_from.simps) (simp add: demo_tracker_eq demo_tracked_def demo_process_def)
  ultimately have "protect_from (known demo_tracker) 20 {} = {10, 20}" by (simp add: p [simplified])
  moreover have "filter pm_alive (map snd (known demo_tracker)) =
      [demo_process 10 1 ''pi.exe'' True, demo_process 30 20 ''rg'' True]"
    by (simp add: demo_tracker_eq demo_tracked_def demo_process_def)
  ultimately show ?thesis
    by (simp add: identities_with_live_descendants_def p [simplified] demo_process_def)
qed



theorem metadata_gate_opens_witness:
  "metadata_complete (quiet_periods (apply_message default_tracker (NewProcess, 7, None, 0)) (replicate 10 (\<lambda>_. None, 0)))"
proof -
  have "tracker_step default_tracker (observed_exit None) [] (apply_message default_tracker (NewProcess, 7, None, 0))"
    by (rule tracker_step.message) (simp add: of_pid_def)
  from metadata_gate_opens [OF run_step [OF run_refl this], of "replicate 10 (\<lambda>_. None, 0)"]
  show ?thesis by (simp add: of_pid_def)
qed

theorem purge_keeps_links_witness:
  "map_of (known (fst (purge (demo_tracker\<lparr>exits := default_ledger\<lparr>processed_exits := {(20, 1020)}\<rparr>\<rparr>) 67000))) 20 =
     Some (demo_process 20 10 ''cmd.exe'' False)"
proof (rule purge_keeps_links)
  let ?u = "demo_tracker\<lparr>exits := default_ledger\<lparr>processed_exits := {(20, 1020)}\<rparr>\<rparr>"
  show "tracker_ok ?u"
    using run_ok [OF _ default_tracker_ok] demo_reaches
    by (auto simp: tracker_ok_def ledger_ok_def default_ledger_def)
  show "map_of (known ?u) 20 = Some (demo_process 20 10 ''cmd.exe'' False)"
    by (simp add: demo_tracker_eq demo_tracked_def demo_process_def)
  have "(20, 30) \<in> known_edges (known ?u)" "map_of (known ?u) 30 = Some (demo_process 30 20 ''rg'' True)"
    by (simp_all add: known_edges_def demo_tracker_eq demo_tracked_def demo_process_def)
  then show "pm_alive (demo_process 20 10 ''cmd.exe'' False) \<or>
      is_pending (exits ?u) (demo_process 20 10 ''cmd.exe'' False) \<or>
      (\<exists>c live. (20, c) \<in> (known_edges (known ?u))\<^sup>+ \<and> map_of (known ?u) c = Some live \<and> pm_alive live)"
    by (auto simp: demo_process_def)
qed

end
