(* ===== verification/Http_Message.thy ===== *)
theory Http_Message
  imports Shell_Syntax Utf8 "HOL-Library.Word"
begin

text \<open>
  \<^verbatim>\<open>codex_bridge.rs\<close>, the HTTP/1.1 messages of the loopback bridge: reading a request's head and body off
  a socket within a deadline, parsing the head, and writing a plain or a chunked response. The socket is
  a schedule of polls, each what one turn of a read loop finds: the shutdown flag and the clock before the
  read, whether the timeout could be armed, what the read gave, and flag and clock after a timeout. Bytes
  a read had no room for stay for the next. Failures of a write are left to the callers.
\<close>

definition crlf :: string where
  "crlf = [CHR 0x0D, CHR 0x0A]"

section \<open>The socket\<close>

text \<open>\<open>Arrived []\<close> is the end of the stream.\<close>

datatype socket_read = Arrived string | NotYet | ReadBroken

record poll =
  po_shutdown :: bool
  po_now :: instant
  po_armed :: bool
  po_read :: socket_read
  po_shutdown_after :: bool
  po_now_after :: instant

definition abandon :: nat where
  "abandon = 0"

definition set_remaining_read_timeout :: "instant \<Rightarrow> poll \<Rightarrow> (nat, unit) result" where
  "set_remaining_read_timeout deadline p =
     (if po_shutdown p then Inl abandon
      else if deadline \<le> po_now p then Inl 408
      else if po_armed p then Inr () else Inl 400)"

definition read_expired :: "instant \<Rightarrow> poll \<Rightarrow> nat option" where
  "read_expired deadline p =
     (if po_shutdown_after p then Some abandon
      else if deadline \<le> po_now_after p then Some 408 else None)"

text \<open>One turn of a read loop: a status to fail with, nothing yet, or bytes and what is left of them.\<close>

definition poll_read :: "nat \<Rightarrow> instant \<Rightarrow> poll \<Rightarrow> (nat, (string \<times> string) option) result" where
  "poll_read cap deadline p =
     rbind (set_remaining_read_timeout deadline p) (\<lambda>_.
       case po_read p of
         Arrived bytes \<Rightarrow> if bytes = [] then Inl 400 else Inr (Some (take cap bytes, drop cap bytes))
       | NotYet \<Rightarrow> (case read_expired deadline p of Some status \<Rightarrow> Inl status | None \<Rightarrow> Inr None)
       | ReadBroken \<Rightarrow> Inl 400)"

definition requeue :: "poll \<Rightarrow> string \<Rightarrow> poll list \<Rightarrow> poll list" where
  "requeue p left ps = (if left = [] then ps else p\<lparr>po_read := Arrived left\<rparr> # ps)"

fun pending_bytes :: "socket_read \<Rightarrow> string" where
  "pending_bytes (Arrived b) = b"
| "pending_bytes _ = []"

definition poll_work :: "poll list \<Rightarrow> nat" where
  "poll_work ps = sum_list (map (\<lambda>p. Suc (length (pending_bytes (po_read p)))) ps)"

lemma poll_work_simps [simp]:
  "poll_work [] = 0" "poll_work (p # ps) = Suc (length (pending_bytes (po_read p))) + poll_work ps"
  by (simp_all add: poll_work_def)

lemma poll_read_shrinks:
  assumes "poll_read cap deadline p = Inr (Some (got, left))" "0 < cap"
  shows "poll_work (requeue p left ps) < poll_work (p # ps)"
  using assms
  by (auto simp: poll_read_def requeue_def rbind_Inr_iff split: socket_read.splits if_splits option.splits)

section \<open>The head of a request\<close>

fun find_header_end :: "string \<Rightarrow> nat option" where
  "find_header_end [] = None"
| "find_header_end (c # s) =
     (if prefix (crlf @ crlf) (c # s) then Some 0 else map_option Suc (find_header_end s))"

text \<open>
  The read loop of \<^verbatim>\<open>read_headers\<close>: the bytes read and the end of the head in them, or a status. \<open>None\<close>
  means the schedule ended with the loop still reading.
\<close>

function read_head ::
    "nat \<Rightarrow> instant \<Rightarrow> string \<Rightarrow> poll list \<Rightarrow> ((nat, string \<times> nat) result \<times> poll list) option" where
  "read_head limit deadline buffer ps =
     (case find_header_end buffer of
        Some i \<Rightarrow> Some (if limit < i + 4 then Inl 431 else Inr (buffer, i + 4), ps)
      | None \<Rightarrow>
          if limit \<le> length buffer then Some (Inl 431, ps)
          else
            (case ps of
               [] \<Rightarrow> None
             | p # rest \<Rightarrow>
                 (case poll_read 1024 deadline p of
                    Inl status \<Rightarrow> Some (Inl status, rest)
                  | Inr None \<Rightarrow> read_head limit deadline buffer rest
                  | Inr (Some (got, left)) \<Rightarrow>
                      read_head limit deadline (buffer @ got) (requeue p left rest))))"
  by pat_completeness auto
termination
proof (relation "measure (\<lambda>(_, _, _, ps). poll_work ps)", goal_cases)
  case (3 limit deadline buffer ps p rest r pr got left)
  then show ?case using poll_read_shrinks [of 1024 deadline p got left rest] by simp
qed auto

declare read_head.simps [simp del]

record parsed_request =
  rq_method :: string
  rq_path :: string
  rq_headers :: "(string \<times> string) list"
  rq_authorization :: "string option"
  rq_session_id :: "string option"
  rq_agent_id :: "string option"
  rq_content_length :: nat
  rq_body_prefix :: string

definition request_header :: "parsed_request \<Rightarrow> string \<Rightarrow> string option" where
  "request_header r name =
     map_option snd (List.find (\<lambda>(candidate, _). eq_ignore_ascii_case candidate name) (rq_headers r))"

text \<open>\<^verbatim>\<open>split("\r\n")\<close>.\<close>

fun split_crlf :: "string \<Rightarrow> string list" where
  "split_crlf [] = [[]]"
| "split_crlf [c] = [[c]]"
| "split_crlf (c # d # s) =
     (if c = CHR 0x0D \<and> d = CHR 0x0A then [] # split_crlf s
      else (case split_crlf (d # s) of [] \<Rightarrow> [[c]] | l # ls \<Rightarrow> (c # l) # ls))"

definition parse_header_line :: "string \<Rightarrow> parsed_request \<Rightarrow> (nat, parsed_request) result" where
  "parse_header_line line r =
     (case split_once CHR '':'' line of
        None \<Rightarrow> Inl 400
      | Some (name, raw) \<Rightarrow>
          let value = trim raw
          in if list_ex (\<lambda>c. c = CHR 0x0D \<or> c = CHR 0x0A) value then Inl 400
             else
               let r = r\<lparr>rq_headers := rq_headers r @ [(name, value)]\<rparr>
               in if eq_ignore_ascii_case name ''authorization'' then
                    Inr (r\<lparr>rq_authorization := Some value\<rparr>)
                  else if eq_ignore_ascii_case name ''x-claude-code-session-id'' then
                    Inr (r\<lparr>rq_session_id := Some value\<rparr>)
                  else if eq_ignore_ascii_case name ''x-claude-code-agent-id'' then
                    Inr (r\<lparr>rq_agent_id := Some value\<rparr>)
                  else if eq_ignore_ascii_case name ''x-claude-code-parent-agent-id'' then Inr r
                  else if eq_ignore_ascii_case name ''content-length'' then
                    rbind (ok_or (parse_u64 value) 400) (\<lambda>n. Inr (r\<lparr>rq_content_length := n\<rparr>))
                  else Inr r)"

fun parse_header_lines :: "string list \<Rightarrow> parsed_request \<Rightarrow> (nat, parsed_request) result" where
  "parse_header_lines [] r = Inr r"
| "parse_header_lines (l # ls) r = rbind (parse_header_line l r) (parse_header_lines ls)"

definition new_request :: "string \<Rightarrow> string \<Rightarrow> string \<Rightarrow> parsed_request" where
  "new_request method path body =
     \<lparr>rq_method = method, rq_path = path, rq_headers = [], rq_authorization = None,
      rq_session_id = None, rq_agent_id = None, rq_content_length = 0, rq_body_prefix = body\<rparr>"

definition parse_head :: "string \<Rightarrow> string \<Rightarrow> (nat, parsed_request) result" where
  "parse_head head body =
     (if \<not> valid_utf8 head then Inl 400
      else
        (case split_crlf head of
           [] \<Rightarrow> Inl 400
         | line # lines \<Rightarrow>
             (case split_whitespace line of
                [method, path, version] \<Rightarrow>
                  if version = ''HTTP/1.1'' then parse_header_lines lines (new_request method path body)
                  else Inl 400
              | _ \<Rightarrow> Inl 400)))"

definition read_headers ::
    "nat \<Rightarrow> instant \<Rightarrow> poll list \<Rightarrow> ((nat, parsed_request) result \<times> poll list) option" where
  "read_headers limit deadline ps =
     map_option
       (\<lambda>(r, rest).
         (rbind r (\<lambda>(buffer, header_end). parse_head (take (header_end - 4) buffer) (drop header_end buffer)),
          rest))
       (read_head limit deadline [] ps)"

section \<open>The body of a request\<close>

function fill_body ::
    "nat \<Rightarrow> instant \<Rightarrow> string \<Rightarrow> poll list \<Rightarrow> ((nat, string) result \<times> poll list) option" where
  "fill_body content_length deadline body ps =
     (if length body < content_length then
        (case ps of
           [] \<Rightarrow> None
         | p # rest \<Rightarrow>
             (case poll_read (min (content_length - length body) 4096) deadline p of
                Inl status \<Rightarrow> Some (Inl status, rest)
              | Inr None \<Rightarrow> fill_body content_length deadline body rest
              | Inr (Some (got, left)) \<Rightarrow>
                  fill_body content_length deadline (body @ got) (requeue p left rest)))
      else Some (Inr body, ps))"
  by pat_completeness auto
termination
proof (relation "measure (\<lambda>(_, _, _, ps). poll_work ps)", goal_cases)
  case (3 content_length deadline body ps p rest r pr got left)
  then show ?case
    using poll_read_shrinks [of "min (content_length - length body) 4096" deadline p got left rest] by simp
qed auto

declare fill_body.simps [simp del]

definition read_body ::
    "nat \<Rightarrow> instant \<Rightarrow> string \<Rightarrow> poll list \<Rightarrow> ((nat, string) result \<times> poll list) option" where
  "read_body content_length deadline body ps =
     fill_body content_length deadline (take content_length body) ps"

section \<open>Comparing credentials\<close>

definition byte_word :: "char \<Rightarrow> 8 word" where
  "byte_word c = word_of_nat (code_of c)"

definition constant_time_eq :: "string \<Rightarrow> string \<Rightarrow> bool" where
  "constant_time_eq left right \<longleftrightarrow>
     (if length left \<noteq> length right then False
      else foldl (\<lambda>difference (a, b). or difference (xor (byte_word a) (byte_word b))) 0 (zip left right) = 0)"

section \<open>Responses\<close>

definition reason_phrase :: "nat \<Rightarrow> string" where
  "reason_phrase status =
     (if status = 200 then ''OK'' else if status = 204 then ''No Content''
      else if status = 400 then ''Bad Request'' else if status = 401 then ''Unauthorized''
      else if status = 404 then ''Not Found'' else if status = 408 then ''Request Timeout''
      else if status = 413 then ''Payload Too Large'' else if status = 429 then ''Too Many Requests''
      else if status = 431 then ''Request Header Fields Too Large''
      else if status = 499 then ''Client Closed Request'' else if status = 502 then ''Bad Gateway''
      else if status = 503 then ''Service Unavailable'' else if status = 504 then ''Gateway Timeout''
      else ''Error'')"

definition write_response_with ::
    "nat \<Rightarrow> string \<Rightarrow> string \<Rightarrow> bool \<Rightarrow> (string \<times> string) list \<Rightarrow> string" where
  "write_response_with status content_type body head_only extra =
     ''HTTP/1.1 '' @ show_nat status @ '' '' @ reason_phrase status @ crlf @
     ''Content-Type: '' @ content_type @ crlf @
     ''Content-Length: '' @ show_nat (length body) @ crlf @
     ''Cache-Control: no-store'' @ crlf @ ''Connection: close'' @ crlf @
     concat (map (\<lambda>(name, value). name @ '': '' @ value @ crlf) extra) @ crlf @
     (if head_only then [] else body)"

section \<open>Event streams\<close>

fun show_hex :: "nat \<Rightarrow> string" where
  "show_hex n = (if n < 16 then [hex_digit n] else show_hex (n div 16) @ [hex_digit (n mod 16)])"

declare show_hex.simps [simp del]

definition event_stream_head :: string where
  "event_stream_head =
     ''HTTP/1.1 200 OK'' @ crlf @ ''Content-Type: text/event-stream'' @ crlf @
     ''Transfer-Encoding: chunked'' @ crlf @ ''Cache-Control: no-store'' @ crlf @
     ''Connection: close'' @ crlf @ crlf"

definition chunk_bytes :: "string \<Rightarrow> string" where
  "chunk_bytes frame = show_hex (length frame) @ crlf @ frame @ crlf"

record stream_writer =
  sw_started :: bool
  sw_wire :: string

definition write_frame :: "string \<Rightarrow> stream_writer \<Rightarrow> stream_writer" where
  "write_frame frame w =
     \<lparr>sw_started = True,
      sw_wire = sw_wire w @ (if sw_started w then [] else event_stream_head) @ chunk_bytes frame\<rparr>"

definition finish_stream :: "stream_writer \<Rightarrow> stream_writer" where
  "finish_stream w =
     (if sw_started w then w\<lparr>sw_wire := sw_wire w @ ''0'' @ crlf @ crlf\<rparr> else w)"

definition event_stream_bytes :: "string list \<Rightarrow> string" where
  "event_stream_bytes frames =
     sw_wire (finish_stream (foldl (\<lambda>w f. write_frame f w) \<lparr>sw_started = False, sw_wire = []\<rparr> frames))"

end
