(* ===== verification/Http_Reading.thy ===== *)
theory Http_Reading
  imports Http_Message
begin

text \<open>
  What reading a request promises: how the network cuts the bytes up is invisible, a loop answers once its
  deadline has passed, memory is bounded, credentials are compared exactly, and what the event-stream
  writer puts on the wire reads back as the frames it was given.
\<close>

section \<open>The end of the head\<close>

lemma length_crlf [simp]: "length crlf = 2"
  by (simp add: crlf_def)

lemma find_header_end_append:
  "find_header_end s = Some i \<Longrightarrow> find_header_end (s @ t) = Some i \<and> i + 4 \<le> length s"
proof (induction s arbitrary: i)
  case (Cons c s)
  show ?case
  proof (cases "prefix (crlf @ crlf) (c # s)")
    case True
    then have "prefix (crlf @ crlf) ((c # s) @ t)" by (metis prefix_prefix)
    with True Cons.prems prefix_length_le [OF True] show ?thesis by simp
  next
    case False
    with Cons.prems obtain j where j: "find_header_end s = Some j" "i = Suc j" by auto
    from Cons.IH [OF j(1)] have "4 \<le> length s" by simp
    then have "\<not> prefix (crlf @ crlf) ((c # s) @ t)"
      using False prefix_length_prefix [of "crlf @ crlf" "(c # s) @ t" "c # s"] by auto
    with Cons.IH [OF j(1)] j(2) show ?thesis by simp
  qed
qed simp

lemma find_header_end_late:
  "find_header_end s = None \<Longrightarrow> find_header_end (s @ t) = Some i \<Longrightarrow> length s < i + 4"
proof (induction s arbitrary: i)
  case (Cons c s)
  from Cons.prems(1) have "\<not> prefix (crlf @ crlf) (c # s)" "find_header_end s = None"
    by (auto split: if_splits)
  show ?case
  proof (cases "prefix (crlf @ crlf) ((c # s) @ t)")
    case True
    then have "\<not> length (crlf @ crlf) \<le> length (c # s)"
      using \<open>\<not> prefix (crlf @ crlf) (c # s)\<close> prefix_length_prefix [of "crlf @ crlf" "(c # s) @ t" "c # s"]
      by auto
    with True Cons.prems(2) show ?thesis by simp
  next
    case False
    with Cons show ?thesis by (auto split: if_splits)
  qed
qed simp

text \<open>One turn of each loop.\<close>

lemma read_head_step:
  "find_header_end raw = None \<Longrightarrow> \<not> limit \<le> length raw \<Longrightarrow>
    read_head limit deadline raw (p # rest) =
      (case poll_read 1024 deadline p of
         Inl status \<Rightarrow> Some (Inl status, rest)
       | Inr None \<Rightarrow> read_head limit deadline raw rest
       | Inr (Some (got, left)) \<Rightarrow> read_head limit deadline (raw @ got) (requeue p left rest))"
  by (simp add: read_head.simps [of _ _ raw "p # rest"])

lemma fill_body_step:
  "length body < n \<Longrightarrow>
    fill_body n deadline body (p # rest) =
      (case poll_read (min (n - length body) 4096) deadline p of
         Inl status \<Rightarrow> Some (Inl status, rest)
       | Inr None \<Rightarrow> fill_body n deadline body rest
       | Inr (Some (got, left)) \<Rightarrow> fill_body n deadline (body @ got) (requeue p left rest))"
  by (simp add: fill_body.simps [of _ _ body "p # rest"])

section \<open>Fragmentation\<close>

text \<open>
  A calm schedule delivers bytes, or nothing yet, in time; the client then ends the stream. What the bytes
  mean does not mention the schedule.
\<close>

definition calm :: "instant \<Rightarrow> poll \<Rightarrow> bool" where
  "calm deadline p \<longleftrightarrow>
     \<not> po_shutdown p \<and> po_now p < deadline \<and> po_armed p \<and> \<not> po_shutdown_after p \<and>
     po_now_after p < deadline \<and> po_read p \<noteq> ReadBroken"

definition delivers :: "instant \<Rightarrow> poll list \<Rightarrow> bool" where
  "delivers deadline ps \<longleftrightarrow> list_all (\<lambda>p. calm deadline p \<and> po_read p \<noteq> Arrived []) ps"

definition closes :: "instant \<Rightarrow> poll \<Rightarrow> bool" where
  "closes deadline p \<longleftrightarrow> calm deadline p \<and> po_read p = Arrived []"

definition stream_of :: "poll list \<Rightarrow> string" where
  "stream_of ps = concat (map (\<lambda>p. pending_bytes (po_read p)) ps)"

definition head_of :: "nat \<Rightarrow> string \<Rightarrow> (nat, string \<times> string) result" where
  "head_of limit s =
     (case find_header_end s of
        Some i \<Rightarrow> if limit < i + 4 then Inl 431 else Inr (take i s, drop (i + 4) s)
      | None \<Rightarrow> Inl (if limit \<le> length s then 431 else 400))"

definition body_of :: "nat \<Rightarrow> string \<Rightarrow> (nat, string) result" where
  "body_of n s = (if length s < n then Inl 400 else Inr (take n s))"

lemma delivers_simps [simp]:
  "delivers deadline []"
  "delivers deadline (p # ps) \<longleftrightarrow> calm deadline p \<and> po_read p \<noteq> Arrived [] \<and> delivers deadline ps"
  by (simp_all add: delivers_def)

lemma stream_of_simps [simp]:
  "stream_of [] = []" "stream_of (p # ps) = pending_bytes (po_read p) @ stream_of ps"
  "stream_of (ps @ qs) = stream_of ps @ stream_of qs"
  by (simp_all add: stream_of_def)

lemma calm_later: "calm d p \<Longrightarrow> d \<le> d' \<Longrightarrow> calm d' p"
  by (auto simp: calm_def)

lemma poll_read_calm:
  "calm deadline p \<Longrightarrow> poll_read cap deadline p =
    (case po_read p of
       Arrived b \<Rightarrow> if b = [] then Inl 400 else Inr (Some (take cap b, drop cap b))
     | _ \<Rightarrow> Inr None)"
  by (auto simp: poll_read_def calm_def set_remaining_read_timeout_def read_expired_def
      split: socket_read.splits)

lemma poll_read_closes: "closes d e \<Longrightarrow> d \<le> deadline \<Longrightarrow> poll_read cap deadline e = Inl 400"
  using poll_read_calm [of deadline e cap] by (auto simp: closes_def dest: calm_later)

lemma requeue_calm:
  assumes "calm deadline p" "delivers deadline ps"
  shows "requeue p left (ps @ qs) = requeue p left ps @ qs" "delivers deadline (requeue p left ps)"
    "stream_of (requeue p left ps) = left @ stream_of ps"
  using assms by (auto simp: requeue_def calm_def)

text \<open>One turn of a loop on such a schedule.\<close>

lemma poll_read_delivers [consumes 3, case_names quiet bytes]:
  assumes "delivers d (p # ps)" "0 < cap" "d \<le> deadline"
  obtains "poll_read cap deadline p = Inr None" "pending_bytes (po_read p) = []"
  | got left where "poll_read cap deadline p = Inr (Some (got, left))"
      "pending_bytes (po_read p) = got @ left" "length got \<le> cap"
      "poll_work (requeue p left ps) < poll_work (p # ps)"
proof (cases "po_read p")
  case (Arrived b)
  then have "poll_read cap deadline p = Inr (Some (take cap b, drop cap b))"
    using assms poll_read_calm [of deadline p cap] calm_later [of d p deadline] by auto
  with that(2) [OF this] poll_read_shrinks [OF this assms(2)] Arrived show thesis by simp
qed (use that(1) assms poll_read_calm [of deadline p cap] calm_later [of d p deadline] in auto)

definition head_read ::
    "instant \<Rightarrow> poll \<Rightarrow> (nat, string \<times> string) result \<Rightarrow>
      ((nat, string \<times> nat) result \<times> poll list) option \<Rightarrow> bool" where
  "head_read deadline e spec got \<longleftrightarrow>
     (case spec of
        Inl status \<Rightarrow> \<exists>rest. got = Some (Inl status, rest)
      | Inr (head, body) \<Rightarrow>
          \<exists>raw rest. got = Some (Inr (raw, length head + 4), rest @ [e]) \<and> delivers deadline rest \<and>
            length head + 4 \<le> length raw \<and> take (length head) raw = head \<and>
            drop (length head + 4) raw @ stream_of rest = body)"

lemma read_head_stream:
  assumes "closes d e" "d \<le> deadline"
  shows "delivers d ps \<Longrightarrow>
    head_read d e (head_of limit (raw @ stream_of ps)) (read_head limit deadline raw (ps @ [e]))"
proof (induction "poll_work ps" arbitrary: raw ps rule: less_induct)
  case less
  show ?case
  proof (cases "find_header_end raw")
    case (Some i)
    with find_header_end_append [OF Some, of "stream_of ps"] less.prems show ?thesis
      by (auto simp: read_head.simps [of _ _ raw] head_of_def head_read_def min_def)
  next
    case None
    show ?thesis
    proof (cases "limit \<le> length raw")
      case True
      with None find_header_end_late [OF None, of "stream_of ps"] show ?thesis
        by (auto simp: read_head.simps [of _ _ raw] head_of_def head_read_def split: option.splits)
    next
      case False
      show ?thesis
      proof (cases ps)
        case Nil
        with None False assms show ?thesis
          by (auto simp: read_head.simps [of _ _ raw] head_of_def head_read_def poll_read_closes)
      next
        case (Cons p qs)
        with less.prems have d: "delivers d (p # qs)" "calm d p" "delivers d qs" by simp_all
        have pos: "0 < (1024 :: nat)" by simp
        from d(1) pos assms(2) show ?thesis
        proof (cases rule: poll_read_delivers)
          case quiet
          then have "read_head limit deadline raw (ps @ [e]) = read_head limit deadline raw (qs @ [e])"
            using None False Cons by (simp add: read_head_step)
          moreover have "stream_of ps = stream_of qs" "poll_work qs < poll_work ps"
            using quiet(2) Cons by simp_all
          ultimately show ?thesis using less.hyps [of qs raw] d(3) by simp
        next
          case (bytes got left)
          then have "read_head limit deadline raw (ps @ [e]) =
              read_head limit deadline (raw @ got) (requeue p left qs @ [e])"
            using None False Cons requeue_calm(1) [OF d(2,3)]
            by (simp add: read_head_step)
          with less.hyps [of "requeue p left qs" "raw @ got"] bytes requeue_calm [OF d(2,3)] Cons
          show ?thesis by simp
        qed
      qed
    qed
  qed
qed

lemma fill_body_stream:
  assumes "closes d e" "d \<le> deadline"
  shows "delivers d ps \<Longrightarrow> length body \<le> n \<Longrightarrow>
    \<exists>rest. fill_body n deadline body (ps @ [e]) = Some (body_of n (body @ stream_of ps), rest)"
proof (induction "poll_work ps" arbitrary: body ps rule: less_induct)
  case less
  show ?case
  proof (cases "length body < n")
    case False
    with less.prems show ?thesis by (simp add: fill_body.simps [of _ _ body] body_of_def)
  next
    case True
    show ?thesis
    proof (cases ps)
      case Nil
      with True assms show ?thesis
        by (simp add: fill_body.simps [of _ _ body] body_of_def poll_read_closes)
    next
      case (Cons p qs)
      let ?cap = "min (n - length body) 4096"
      from Cons less.prems have d: "delivers d (p # qs)" "calm d p" "delivers d qs"
        by simp_all
      have pos: "0 < ?cap" using True by simp
      from d(1) pos assms(2) show ?thesis
      proof (cases rule: poll_read_delivers)
        case quiet
        then have "fill_body n deadline body (ps @ [e]) = fill_body n deadline body (qs @ [e])"
          using True Cons by (simp add: fill_body_step)
        moreover have "stream_of ps = stream_of qs" "poll_work qs < poll_work ps"
          using quiet(2) Cons by simp_all
        ultimately show ?thesis using less.hyps [of qs body] d(3) less.prems(2) by simp
      next
        case (bytes got left)
        then have "fill_body n deadline body (ps @ [e]) =
            fill_body n deadline (body @ got) (requeue p left qs @ [e])"
          using True Cons requeue_calm(1) [OF d(2,3)]
          by (simp add: fill_body_step)
        moreover have "length (body @ got) \<le> n" using bytes(3) True by auto
        ultimately show ?thesis
          using less.hyps [of "requeue p left qs" "body @ got"] bytes requeue_calm [OF d(2,3)] Cons by simp
      qed
    qed
  qed
qed

section \<open>Deadlines\<close>

definition runs_late :: "instant \<Rightarrow> poll list \<Rightarrow> bool" where
  "runs_late deadline ps \<longleftrightarrow> list_ex (\<lambda>p. deadline \<le> po_now p) ps"

lemma runs_late_simps [simp]:
  "\<not> runs_late deadline []"
  "runs_late deadline (p # ps) \<longleftrightarrow> deadline \<le> po_now p \<or> runs_late deadline ps"
  by (simp_all add: runs_late_def)

lemma poll_read_in_time: "poll_read cap deadline p = Inr r \<Longrightarrow> po_now p < deadline"
  by (auto simp: poll_read_def set_remaining_read_timeout_def rbind_Inr_iff split: if_splits)

lemma requeue_late: "runs_late deadline ps \<Longrightarrow> runs_late deadline (requeue p left ps)"
  by (simp add: requeue_def)

text \<open>Later deadlines \<open>d\<close> are those of the phases still to come.\<close>

lemma read_head_answers:
  "deadline \<le> d \<Longrightarrow> runs_late d ps \<Longrightarrow>
    \<exists>r rest. read_head limit deadline raw ps = Some (r, rest) \<and> (\<forall>x. r = Inr x \<longrightarrow> runs_late d rest)"
proof (induction "poll_work ps" arbitrary: raw ps rule: less_induct)
  case less
  show ?case
  proof (cases "find_header_end raw = None \<and> \<not> limit \<le> length raw")
    case False
    with less.prems show ?thesis by (auto simp: read_head.simps [of _ _ raw] split: option.splits)
  next
    case True
    from less.prems obtain p qs where ps: "ps = p # qs" by (cases ps) auto
    show ?thesis
    proof (cases "poll_read 1024 deadline p")
      case (Inl status)
      with True ps show ?thesis by (simp add: read_head.simps [of _ _ raw])
    next
      case (Inr r)
      then have late: "runs_late d qs" using less.prems ps poll_read_in_time [OF Inr] by auto
      show ?thesis
      proof (cases r)
        case None
        with Inr True ps have "read_head limit deadline raw ps = read_head limit deadline raw qs"
          by (simp add: read_head_step)
        with less.hyps [of qs raw] ps late less.prems(1) show ?thesis by simp
      next
        case (Some gl)
        obtain got left where gl: "gl = (got, left)" by fastforce
        with Inr Some True ps have "read_head limit deadline raw ps =
            read_head limit deadline (raw @ got) (requeue p left qs)"
          by (simp add: read_head_step)
        with less.hyps [of "requeue p left qs" "raw @ got"] ps requeue_late [OF late] less.prems(1)
          poll_read_shrinks [of 1024 deadline p got left qs] Inr Some gl
        show ?thesis by simp
      qed
    qed
  qed
qed

lemma fill_body_answers:
  "runs_late deadline ps \<Longrightarrow> \<exists>r. fill_body n deadline body ps = Some r"
proof (induction "poll_work ps" arbitrary: body ps rule: less_induct)
  case less
  show ?case
  proof (cases "length body < n")
    case False
    then show ?thesis by (simp add: fill_body.simps [of _ _ body])
  next
    case True
    from less.prems obtain p qs where ps: "ps = p # qs" by (cases ps) auto
    let ?cap = "min (n - length body) 4096"
    show ?thesis
    proof (cases "poll_read ?cap deadline p")
      case (Inl status)
      with True ps show ?thesis by (simp add: fill_body.simps [of _ _ body])
    next
      case (Inr r)
      then have late: "runs_late deadline qs" using less.prems ps poll_read_in_time [OF Inr] by auto
      show ?thesis
      proof (cases r)
        case None
        with Inr True ps have "fill_body n deadline body ps = fill_body n deadline body qs"
          by (simp add: fill_body_step)
        with less.hyps [of qs body] ps late show ?thesis by simp
      next
        case (Some gl)
        obtain got left where gl: "gl = (got, left)" by fastforce
        with Inr Some True ps have "fill_body n deadline body ps =
            fill_body n deadline (body @ got) (requeue p left qs)"
          by (simp add: fill_body_step)
        with less.hyps [of "requeue p left qs" "body @ got"] ps requeue_late [OF late]
          poll_read_shrinks [of ?cap deadline p got left qs] Inr Some gl True
        show ?thesis by simp
      qed
    qed
  qed
qed

section \<open>Credentials\<close>

lemma byte_word_inject [simp]: "byte_word a = byte_word b \<longleftrightarrow> a = b"
proof
  assume "byte_word a = byte_word b"
  then have "unat (word_of_nat (code_of a) :: 8 word) = unat (word_of_nat (code_of b) :: 8 word)"
    by (simp add: byte_word_def)
  then have "code_of a mod 256 = code_of b mod 256" by (simp add: unat_of_nat)
  then show "a = b" by simp
qed simp

lemma or_zero_iff: "or a b = 0 \<longleftrightarrow> a = 0 \<and> b = (0 :: 8 word)"
  by (metis or.right_neutral or_eq_0_iff)

lemma fold_difference:
  "foldl (\<lambda>d (a, b). or d (xor (byte_word a) (byte_word b))) acc ps = 0 \<longleftrightarrow>
    acc = 0 \<and> (\<forall>(a, b) \<in> set ps. a = b)"
proof (induction ps arbitrary: acc)
  case (Cons p ps)
  obtain a b where p: "p = (a, b)" by fastforce
  have "xor (byte_word a) (byte_word b) = 0 \<longleftrightarrow> a = b"
    by (metis byte_word_inject xor.left_neutral xor.assoc xor_self_eq)
  with Cons p show ?case by (auto simp: or_zero_iff)
qed simp

lemma constant_time_eq_iff [simp]: "constant_time_eq a b \<longleftrightarrow> a = b"
proof (cases "length a = length b")
  case True
  then have "(\<forall>(x, y) \<in> set (zip a b). x = y) \<longleftrightarrow> a = b"
    by (induction a b rule: list_induct2) auto
  with True show ?thesis by (simp add: constant_time_eq_def fold_difference)
next
  case False
  then show ?thesis by (auto simp: constant_time_eq_def)
qed

section \<open>Event streams read back\<close>

text \<open>
  A reader of chunked bodies: a size in hexadecimal, a line end, that many bytes, a line end, until a
  size of zero. It has nothing of the writer in it.
\<close>

definition from_hex_digit :: "char \<Rightarrow> nat" where
  "from_hex_digit c = (if is_digit c then code_of c - 48 else code_of c - 87)"

definition from_hex :: "string \<Rightarrow> nat" where
  "from_hex s = foldl (\<lambda>n c. 16 * n + from_hex_digit c) 0 s"

fun line_of :: "string \<Rightarrow> (string \<times> string) option" where
  "line_of (c # d # s) =
     (if c = CHR 0x0D \<and> d = CHR 0x0A then Some ([], s)
      else map_option (\<lambda>(l, r). (c # l, r)) (line_of (d # s)))"
| "line_of _ = None"

lemma line_of_shorter: "line_of s = Some (l, r) \<Longrightarrow> length r < length s"
  by (induction s arbitrary: l r rule: line_of.induct) (auto split: if_splits)

function dechunk :: "string \<Rightarrow> string list option" where
  "dechunk s =
     (case line_of s of
        None \<Rightarrow> None
      | Some (digits, rest) \<Rightarrow>
          let n = from_hex digits
          in if n = 0 then (if rest = crlf then Some [] else None)
             else if length rest < n + 2 \<or> take 2 (drop n rest) \<noteq> crlf then None
             else map_option ((#) (take n rest)) (dechunk (drop (n + 2) rest)))"
  by pat_completeness auto
termination
  by (relation "measure length") (auto dest: line_of_shorter)

declare dechunk.simps [simp del]

lemma hex_digit_back: "n < 16 \<Longrightarrow> from_hex_digit (hex_digit n) = n"
  by (auto simp: from_hex_digit_def hex_digit_def is_digit_def)

lemma from_hex_snoc: "from_hex (s @ [c]) = 16 * from_hex s + from_hex_digit c"
  by (simp add: from_hex_def)

lemma from_hex_show [simp]: "from_hex (show_hex n) = n"
proof (induction n rule: show_hex.induct)
  case (1 n)
  show ?case
  proof (cases "n < 16")
    case True
    then show ?thesis by (simp add: show_hex.simps [of n] from_hex_def hex_digit_back)
  next
    case False
    with 1 show ?thesis by (simp add: show_hex.simps [of n] from_hex_snoc hex_digit_back)
  qed
qed

lemma hex_digit_not_cr: "n < 16 \<Longrightarrow> hex_digit n \<noteq> CHR 0x0D"
proof
  assume n: "n < 16" "hex_digit n = CHR 0x0D"
  then have "code_of (hex_digit n) = 13" by (simp add: code_of_def)
  with n(1) show False by (auto simp: hex_digit_def split: if_splits)
qed

lemma show_hex_no_cr: "CHR 0x0D \<notin> set (show_hex n)"
proof (induction n rule: show_hex.induct)
  case (1 n)
  then show ?case
    using hex_digit_not_cr [of n] hex_digit_not_cr [of "n mod 16"]
    by (auto simp: show_hex.simps [of n])
qed

lemma line_of_append:
  "CHR 0x0D \<notin> set l \<Longrightarrow> line_of (l @ crlf @ r) = Some (l, r)"
proof (induction l)
  case Nil
  then show ?case by (simp add: crlf_def)
next
  case (Cons c l)
  then have "line_of (l @ crlf @ r) = Some (l, r)" "c \<noteq> CHR 0x0D" by auto
  moreover obtain d t where "l @ crlf @ r = d # t" by (cases l) (auto simp: crlf_def)
  ultimately show ?case by simp
qed

lemma dechunk_chunk:
  assumes "f \<noteq> []"
  shows "dechunk (chunk_bytes f @ s) = map_option ((#) f) (dechunk s)"
proof -
  have "line_of (chunk_bytes f @ s) = Some (show_hex (length f), f @ crlf @ s)"
    using line_of_append [OF show_hex_no_cr, of "length f" "f @ crlf @ s"] by (simp add: chunk_bytes_def)
  then show ?thesis using assms by (subst dechunk.simps) (simp add: Let_def)
qed

lemma dechunk_end: "dechunk (''0'' @ crlf @ crlf) = Some []"
proof -
  have "line_of (''0'' @ crlf @ crlf) = Some (''0'', crlf)" by (simp add: crlf_def)
  then show ?thesis
    by (subst dechunk.simps) (simp add: from_hex_def from_hex_digit_def is_digit_def code_of_def)
qed

lemma foldl_write_frame:
  "sw_started w \<Longrightarrow>
    foldl (\<lambda>w f. write_frame f w) w fs = w\<lparr>sw_wire := sw_wire w @ concat (map chunk_bytes fs)\<rparr>"
  by (induction fs arbitrary: w) (simp_all add: write_frame_def)

lemma write_first_frame:
  "write_frame f \<lparr>sw_started = False, sw_wire = []\<rparr> =
    \<lparr>sw_started = True, sw_wire = event_stream_head @ chunk_bytes f\<rparr>"
  by (simp add: write_frame_def)

lemma event_stream_bytes_eq:
  "event_stream_bytes [] = []"
  "event_stream_bytes (f # fs) =
    event_stream_head @ concat (map chunk_bytes (f # fs)) @ ''0'' @ crlf @ crlf"
  by (simp_all add: event_stream_bytes_def finish_stream_def foldl_write_frame write_first_frame)

lemma dechunk_frames:
  "list_all (\<lambda>f. f \<noteq> []) fs \<Longrightarrow> dechunk (concat (map chunk_bytes fs) @ ''0'' @ crlf @ crlf) = Some fs"
  by (induction fs) (simp_all add: dechunk_end [simplified] dechunk_chunk)

end
