(* ===== verification/Http_Gateway.thy ===== *)
theory Http_Gateway
  imports Http_Message Gateway Message_Aggregator
begin

text \<open>
  \<^verbatim>\<open>codex_bridge.rs\<close>, one connection of the bridge, from the first byte read to the answer: the checks before
  anything is served, the routes, the context-lifecycle endpoints, the catalogs, and a Messages request in
  both gateway modes, down to the turn pipeline and the failover descent. The state is the conversation
  store, the gateway with its route ledger, and the log of rejected requests; the other log records are
  left out. Everything outside (the socket, the clock, JSON, SHA-256, the upstreams, the Responses
  client) is the record \<open>exchange\<close>, one per connection. A JSON body is named by what is serialised.
\<close>

section \<open>Answers\<close>

datatype 'v reply_body =
    Literal string
  | ErrorEnvelope string string
  | ModelList "(string \<times> string) list"
  | MessageBody "'v message"

record 'v http_response =
  rs_status :: nat
  rs_body :: "'v reply_body"
  rs_head_only :: bool
  rs_extra :: "(string \<times> string) list"

datatype 'v http_answer =
    NoAnswer
  | Response "'v http_response"
  | EventStream "aframe list"
  | UpstreamAnswer nat string

definition plain_response :: "nat \<Rightarrow> 'v reply_body \<Rightarrow> 'v http_answer" where
  "plain_response status body =
     Response \<lparr>rs_status = status, rs_body = body, rs_head_only = False, rs_extra = []\<rparr>"

definition error_literal :: "string \<Rightarrow> string \<Rightarrow> string" where
  "error_literal kind message =
     ''{\"error\":{\"type\":\"'' @ kind @ ''\",\"message\":\"'' @ message @ ''\"}}''"

definition write_error :: "nat \<Rightarrow> 'v http_answer" where
  "write_error status =
     (let (kind, message) =
        (if status = 400 then (''invalid_request_error'', ''invalid request'')
         else if status = 401 then (''authentication_error'', ''unauthorized'')
         else if status = 404 then (''not_found_error'', ''not found'')
         else if status = 408 then (''timeout_error'', ''request timeout'')
         else if status = 413 then (''invalid_request_error'', ''request body too large'')
         else if status = 431 then (''invalid_request_error'', ''request headers too large'')
         else (''api_error'', ''bridge error''))
      in plain_response status (Literal (error_literal kind message)))"

definition anthropic_error_type :: "nat \<Rightarrow> string" where
  "anthropic_error_type status =
     (if status = 400 then ''invalid_request_error'' else if status = 401 then ''authentication_error''
      else if status = 403 then ''permission_error'' else if status = 404 then ''not_found_error''
      else if status = 413 then ''request_too_large'' else if status = 422 then ''invalid_request_error''
      else if status = 429 then ''rate_limit_error'' else if status = 499 then ''request_cancelled''
      else if status = 504 then ''timeout_error'' else ''api_error'')"

definition error_type_for :: "pipeline_error \<Rightarrow> string" where
  "error_type_for e =
     (if pipeline_failure_class e = Some Exhausted then ''billing_error''
      else anthropic_error_type (http_status e))"

definition retry_after_header :: "pipeline_error \<Rightarrow> (string \<times> string) list" where
  "retry_after_header e =
     (case retry_after_seconds e of
        Some seconds \<Rightarrow> [(''Retry-After'', show_nat seconds)]
      | None \<Rightarrow> [])"

definition write_pipeline_error :: "pipeline_error \<Rightarrow> 'v http_answer" where
  "write_pipeline_error e =
     Response \<lparr>rs_status = http_status e, rs_body = ErrorEnvelope (error_type_for e) (client_message e),
       rs_head_only = False, rs_extra = retry_after_header e\<rparr>"

section \<open>The bridge and one connection\<close>

record bridge_config =
  bc_max_body_bytes :: nat
  bc_max_header_bytes :: nat
  bc_header_timeout :: duration
  bc_body_timeout :: duration
  bc_token :: string

definition default_bridge :: "string \<Rightarrow> bridge_config" where
  "default_bridge token =
     \<lparr>bc_max_body_bytes = 32 * 1024 * 1024, bc_max_header_bytes = 32 * 1024,
      bc_header_timeout = from_secs 5, bc_body_timeout = from_secs 30, bc_token = token\<rparr>"

text \<open>No gateway is \<^verbatim>\<open>GatewayMode::Codex\<close>.\<close>

record 'v bridge =
  br_store :: "'v conversation_store"
  br_gateway :: "gateway option"
  br_rejections :: "(nat \<times> string) list"

text \<open>\<open>ex_size\<close> is the serialised size of a history item; \<open>ex_header_ok\<close> and \<open>ex_frame_ok\<close> are the writes of
  the event stream, by the number of frames tried before.\<close>

record 'v exchange =
  ex_json :: "'v json_api"
  ex_as_bool :: "'v \<Rightarrow> bool option"
  ex_set_model :: "string \<Rightarrow> 'v \<Rightarrow> 'v"
  ex_sha :: "string \<Rightarrow> string"
  ex_timeout_set :: bool
  ex_accepted :: instant
  ex_body_start :: instant
  ex_upstream :: gateway_env
  ex_pipeline :: "'v \<Rightarrow> (upstream_error, 'v turn_env) result"
  ex_compact :: "(upstream_error, 'v list \<Rightarrow> (pipeline_error, 'v list) result) result"
  ex_size :: "'v \<Rightarrow> nat option"
  ex_message_id :: string
  ex_header_ok :: "nat \<Rightarrow> bool"
  ex_frame_ok :: "nat \<Rightarrow> bool"
  ex_write_ok :: bool

definition refuse :: "nat \<Rightarrow> string \<Rightarrow> 'v bridge \<Rightarrow> 'v bridge \<times> 'v http_answer" where
  "refuse status reason br =
     (br\<lparr>br_rejections := br_rejections br @ [(status, reason)]\<rparr>, write_error status)"

text \<open>A connection accepted without a free slot: what it sent is read for a moment and ignored.\<close>

definition reject_busy :: "bool \<Rightarrow> 'v bridge \<Rightarrow> 'v bridge \<times> 'v http_answer" where
  "reject_busy timeout_set br =
     (br\<lparr>br_rejections := br_rejections br @ [(503, ''admission_cap'')]\<rparr>,
      if timeout_set then plain_response 503 (Literal (error_literal ''overloaded_error'' ''bridge busy''))
      else NoAnswer)"

definition request_is_authenticated :: "parsed_request \<Rightarrow> string \<Rightarrow> bool \<Rightarrow> bool" where
  "request_is_authenticated r token unified =
     (let provided = (if unified then request_header r gateway_token_header else rq_authorization r);
          expected = (if unified then token else ''Bearer '' @ token)
      in case provided of None \<Rightarrow> False | Some p \<Rightarrow> constant_time_eq p expected)"

section \<open>Catalogs\<close>

definition catalog_rows :: "catalog_model list \<Rightarrow> (string \<times> string) list" where
  "catalog_rows ms = List.map_filter (\<lambda>m. map_option (\<lambda>i. (i, display_name m)) (discovery_id m)) ms"

definition serve_codex_catalog :: "'v http_answer" where
  "serve_codex_catalog =
     plain_response 200 (ModelList (catalog_rows (filter (\<lambda>m. cm_provider m = Codex) models)))"

definition serve_unified_catalog :: "gateway \<Rightarrow> 'v http_answer" where
  "serve_unified_catalog g =
     plain_response 200 (ModelList (catalog_rows (filter (\<lambda>m. catalog_row_served g (cm_provider m)) models)))"

section \<open>Context lifecycle\<close>

datatype context_control = ControlCompact | ControlCompactFinished | ControlClear

definition lifecycle_event :: "'v json_api \<Rightarrow> context_control \<Rightarrow> 'v \<Rightarrow> bool" where
  "lifecycle_event J control v =
     (case control of
        ControlCompact \<Rightarrow>
          get_str J v ''hook_event_name'' = Some ''PreCompact'' \<and>
          (get_str J v ''trigger'' = Some ''manual'' \<or> get_str J v ''trigger'' = Some ''auto'')
      | ControlClear \<Rightarrow>
          get_str J v ''hook_event_name'' = Some ''SessionStart'' \<and> get_str J v ''source'' = Some ''clear''
      | ControlCompactFinished \<Rightarrow>
          get_str J v ''hook_event_name'' = Some ''SessionStart'' \<and> get_str J v ''source'' = Some ''compact'')"

text \<open>Which conversation a hook's payload names; none for an empty body or one without ids.\<close>

definition context_control_key ::
    "'v json_api \<Rightarrow> (string \<Rightarrow> string) \<Rightarrow> context_control \<Rightarrow> string \<Rightarrow>
      (nat, conversation_key option) result" where
  "context_control_key J sha control body =
     (if body = [] then Inr None
      else
        (case from_str J body of
           None \<Rightarrow> Inl 400
         | Some v \<Rightarrow>
             if lifecycle_event J control v then
               (let session = get_str J v ''session_id''; agent = get_str J v ''agent_id''
                in Inr (if session \<noteq> None \<or> agent \<noteq> None then Some (from_headers sha session agent) else None))
             else Inl 400))"

definition store_answer :: "(history_error, 'a) result \<Rightarrow> 'v http_answer" where
  "store_answer r =
     (case r of
        Inr _ \<Rightarrow> plain_response 204 (Literal [])
      | Inl e \<Rightarrow> write_pipeline_error (history_failure e))"

definition compact_result ::
    "'v exchange \<Rightarrow> 'v conversation_history \<Rightarrow> 'v conversation_history \<times> (pipeline_error, unit) result" where
  "compact_result ex h =
     (case validate_canonical_history (ex_json ex) (history_snapshot h) of
        Inl f \<Rightarrow> (h, Inl (PContinuation f))
      | Inr _ \<Rightarrow>
          (case ex_compact ex of
             Inl e \<Rightarrow> (h, Inl (PUpstream e))
           | Inr compact \<Rightarrow>
               (case compact (history_snapshot h) of
                  Inl e \<Rightarrow> (h, Inl e)
                | Inr compacted \<Rightarrow>
                    (case install_compaction (ex_size ex) compacted h of
                       (h', Inl e) \<Rightarrow> (h', Inl (history_failure e))
                     | (h', Inr _) \<Rightarrow> (h', Inr ())))))"

definition compact_operation :: "'v exchange \<Rightarrow> ('v, unit) history_op" where
  "compact_operation ex h =
     (if history_snapshot h = [] then (begin_fallback h, Inr ())
      else
        (case compact_result ex h of
           (h', Inr _) \<Rightarrow> (h', Inr ())
         | (h', Inl _) \<Rightarrow> (begin_fallback h', Inr ())))"

definition serve_context_compact ::
    "'v exchange \<Rightarrow> conversation_key \<Rightarrow> 'v bridge \<Rightarrow> 'v bridge \<times> 'v http_answer" where
  "serve_context_compact ex key br =
     (let (store, r) = with_history (key_id key) (compact_operation ex) (br_store br)
      in (br\<lparr>br_store := store\<rparr>, store_answer r))"

definition serve_context_compact_finished ::
    "conversation_key \<Rightarrow> 'v bridge \<Rightarrow> 'v bridge \<times> 'v http_answer" where
  "serve_context_compact_finished key br =
     (let (store, r) =
        with_history (key_id key) (\<lambda>h. (fst (finish_fallback h), Inr (snd (finish_fallback h)))) (br_store br)
      in (br\<lparr>br_store := store\<rparr>, store_answer r))"

definition serve_context_clear :: "conversation_key \<Rightarrow> 'v bridge \<Rightarrow> 'v bridge \<times> 'v http_answer" where
  "serve_context_clear key br =
     (br\<lparr>br_store := clear_session (session_prefix key) (br_store br)\<rparr>, plain_response 204 (Literal []))"

section \<open>A Messages request of the Codex pipeline\<close>

text \<open>The writer has started once the head of the stream went out, before the frame itself.\<close>

definition writer_started :: "'v exchange \<Rightarrow> nat \<Rightarrow> bool" where
  "writer_started ex tried = list_ex (ex_header_ok ex) [0..<tried]"

definition write_sink :: "'v exchange \<Rightarrow> sink" where
  "write_sink ex sent f =
     (let k = length sent
      in if (writer_started ex k \<or> ex_header_ok ex k) \<and> ex_frame_ok ex k then None
         else Some (Downstream ''client write failed''))"

definition entered ::
    "conversation_route option \<Rightarrow> 'v conversation_history \<Rightarrow> 'v conversation_history" where
  "entered route h = (case route of Some r \<Rightarrow> enter_route r h | None \<Rightarrow> h)"

definition the_history ::
    "'v conversation_history option \<Rightarrow> 'v conversation_history \<Rightarrow> 'v conversation_history" where
  "the_history h' h = unwrap_or h' h"

definition stream_operation ::
    "'v exchange \<Rightarrow> 'v turn_env \<Rightarrow> conversation_route option \<Rightarrow>
      ('v, aframe list \<times> (pipeline_error, 'v stream_summary) result) history_op" where
  "stream_operation ex env route h =
     (let h = entered route h;
          (sent, h', r) = stream_inner (ex_json ex) (write_sink ex) env (ex_message_id ex) (Some h);
          h' = the_history h' h;
          h' = (case r of
                  Inr summary \<Rightarrow>
                    if ss_history_append_rejected summary \<and> writer_started ex (length sent)
                    then clear_after_commit summary h' else h'
                | Inl _ \<Rightarrow> h')
      in (h', Inr (sent, r)))"

definition streamed_answer ::
    "'v exchange \<Rightarrow> aframe list \<Rightarrow> (pipeline_error, 'v stream_summary) result \<Rightarrow> 'v http_answer" where
  "streamed_answer ex sent r =
     (if writer_started ex (length sent) then EventStream sent
      else (case r of Inr _ \<Rightarrow> NoAnswer | Inl e \<Rightarrow> write_pipeline_error e))"

definition complete_operation ::
    "'v exchange \<Rightarrow> 'v turn_env \<Rightarrow> conversation_route option \<Rightarrow>
      ('v, (pipeline_error, 'v completion) result) history_op" where
  "complete_operation ex env route h =
     (let h = entered route h;
          (h', r) = complete_inner (ex_json ex) env (ex_message_id ex) (Some h);
          h' = the_history h' h;
          h' = (case r of
                  Inr completion \<Rightarrow>
                    if ex_write_ok ex \<and> co_history_append_rejected completion then clear_history h' else h'
                | Inl _ \<Rightarrow> h')
      in (h', Inr r))"

definition serve_messages ::
    "'v exchange \<Rightarrow> bool \<Rightarrow> string \<Rightarrow> conversation_route option \<Rightarrow> 'v \<Rightarrow>
      'v conversation_store \<Rightarrow> 'v conversation_store \<times> 'v http_answer" where
  "serve_messages ex streaming conversation route request s =
     (case ex_pipeline ex request of
        Inl e \<Rightarrow> (s, write_pipeline_error (PUpstream e))
      | Inr env \<Rightarrow>
          if streaming then
            (case with_history conversation (stream_operation ex env route) s of
               (s', Inl e) \<Rightarrow> (s', write_pipeline_error (history_failure e))
             | (s', Inr (sent, r)) \<Rightarrow> (s', streamed_answer ex sent r))
          else
            (case with_history conversation (complete_operation ex env route) s of
               (s', Inl e) \<Rightarrow> (s', write_pipeline_error (history_failure e))
             | (s', Inr (Inl e)) \<Rightarrow> (s', write_pipeline_error e)
             | (s', Inr (Inr completion)) \<Rightarrow>
                 (s', plain_response 200 (MessageBody (co_message completion)))))"

definition request_model :: "'v exchange \<Rightarrow> string \<Rightarrow> string option \<Rightarrow> 'v \<Rightarrow> 'v" where
  "request_model ex old new request =
     (case new of None \<Rightarrow> request | Some m \<Rightarrow> if m = old then request else ex_set_model ex m request)"

definition unknown_model :: "string \<Rightarrow> string list \<Rightarrow> 'v http_answer" where
  "unknown_model text ids =
     plain_response 400 (ErrorEnvelope ''invalid_request_error'' (text @ join_with '', '' ids))"

definition serve_codex_discovery_messages ::
    "'v exchange \<Rightarrow> bool \<Rightarrow> conversation_key \<Rightarrow> 'v \<Rightarrow> 'v bridge \<Rightarrow> 'v bridge \<times> 'v http_answer" where
  "serve_codex_discovery_messages ex streaming key request br =
     (case get_str (ex_json ex) request ''model'' of
        None \<Rightarrow> (br, write_error 400)
      | Some model \<Rightarrow>
          (case codex_discovery_model model of
             Inl ids \<Rightarrow> (br, unknown_model ''unknown clud Codex model; available IDs: '' ids)
           | Inr wire \<Rightarrow>
               (let (store, answer) =
                  serve_messages ex streaming (key_id key) None
                    (request_model ex model (Some wire) request) (br_store br)
                in (br\<lparr>br_store := store\<rparr>, answer))))"

section \<open>A Messages request of the unified gateway\<close>

text \<open>
  The descent asks before each attempt it proxies whether the store admits the conversation; alone on the
  store, the answer does not change. The conversation has then entered the route of every proxied attempt.
\<close>

definition store_admits :: "string \<Rightarrow> 'v conversation_store \<Rightarrow> bool" where
  "store_admits conversation s = (case snd (open_conversation conversation s) of Inr _ \<Rightarrow> True | Inl _ \<Rightarrow> False)"

definition gateway_environment :: "'v exchange \<Rightarrow> string \<Rightarrow> 'v conversation_store \<Rightarrow> gateway_env" where
  "gateway_environment ex conversation s =
     (ex_upstream ex)\<lparr>ge_history_ok := (\<lambda>_. store_admits conversation s)\<rparr>"

definition enter_on_store ::
    "string \<Rightarrow> conversation_route \<Rightarrow> 'v conversation_store \<Rightarrow> 'v conversation_store" where
  "enter_on_store conversation route s = fst (with_history conversation (\<lambda>h. (enter_route route h, Inr ())) s)"

definition is_proxied :: "gateway \<Rightarrow> gateway_attempt \<Rightarrow> bool" where
  "is_proxied g a \<longleftrightarrow>
     (case at_provider a of
        Claude \<Rightarrow> True
      | DeepSeek \<Rightarrow> gw_deepseek g \<noteq> None
      | OpenRouter \<Rightarrow> gw_openrouter g \<noteq> None
      | _ \<Rightarrow> False)"

definition proxied_routes :: "gateway \<Rightarrow> descent \<Rightarrow> conversation_route list" where
  "proxied_routes g d =
     (case d_reply d of
        Some InvalidRequest \<Rightarrow> []
      | Some (UnknownGatewayModel _) \<Rightarrow> []
      | _ \<Rightarrow> map at_route (filter (is_proxied g) (map fst (d_declined d) @ [d_last d])))"

definition history_refused :: "string \<Rightarrow> 'v conversation_store \<Rightarrow> 'v http_answer" where
  "history_refused conversation s =
     (case snd (open_conversation conversation s) of
        Inl e \<Rightarrow> write_pipeline_error (history_failure e)
      | Inr _ \<Rightarrow> NoAnswer)"

definition gateway_answer :: "string \<Rightarrow> 'v conversation_store \<Rightarrow> client_reply \<Rightarrow> 'v http_answer" where
  "gateway_answer conversation s reply =
     (case reply of
        InvalidRequest \<Rightarrow> write_error 400
      | UnknownGatewayModel ids \<Rightarrow> unknown_model ''unknown clud gateway model; available IDs: '' ids
      | ProviderNotConfigured \<Rightarrow>
          plain_response 400 (ErrorEnvelope ''invalid_request_error''
            ''the selected provider is not configured; run `clud auth status`'')
      | HistoryRefused \<Rightarrow> history_refused conversation s
      | UpstreamUnavailable \<Rightarrow>
          plain_response 502 (Literal (error_literal ''api_error'' ''gateway upstream unavailable''))
      | Relayed status body \<Rightarrow> UpstreamAnswer status body
      | CountUnsupported \<Rightarrow>
          plain_response 404 (Literal (error_literal ''not_found_error''
            ''token counting is not supported for this unified provider route''))
      | CodexPipeline \<Rightarrow> NoAnswer)"

definition serve_unified ::
    "'v exchange \<Rightarrow> bool \<Rightarrow> conversation_key \<Rightarrow> 'v \<Rightarrow> gateway \<Rightarrow> 'v bridge \<Rightarrow>
      ('v bridge \<times> 'v http_answer) option" where
  "serve_unified ex streaming key request g br =
     (let conversation = key_id key; s = br_store br;
          model = get_str (ex_json ex) request ''model''
      in map_option
           (\<lambda>d.
             let routed = foldl (\<lambda>s r. enter_on_store conversation r s) s (proxied_routes g d);
                 (store, answer) =
                   (if d_reply d = Some CodexPipeline then
                      serve_messages ex streaming conversation (Some CodexRoute)
                        (request_model ex (unwrap_or model []) (at_model (d_last d)) request) routed
                    else
                      (routed,
                       case d_reply d of Some reply \<Rightarrow> gateway_answer conversation s reply | None \<Rightarrow> NoAnswer))
             in (br\<lparr>br_store := store, br_gateway := Some (d_gateway d)\<rparr>, answer))
           (serve_unified_messages (ex_json ex) (gateway_environment ex conversation s)
              (Suc (length (fl_rungs (gw_ladder g)))) g model))"

definition count_tokens ::
    "'v exchange \<Rightarrow> conversation_key \<Rightarrow> string \<Rightarrow> 'v bridge \<Rightarrow> 'v bridge \<times> 'v http_answer" where
  "count_tokens ex key body br =
     (let conversation = key_id key; s = br_store br;
          model = Option.bind (from_str (ex_json ex) body) (\<lambda>v. get_str (ex_json ex) v ''model'')
      in (case serve_unified_count_tokens (ex_json ex) (gateway_environment ex conversation s) model of
            Declined _ \<Rightarrow> (br, NoAnswer)
          | Committed reply \<Rightarrow>
              (br\<lparr>br_store :=
                 (if reply = InvalidRequest \<or> reply = CountUnsupported then s
                  else enter_on_store conversation ClaudeRoute s)\<rparr>,
               gateway_answer conversation s reply)))"

section \<open>Routing\<close>

definition with_body ::
    "bridge_config \<Rightarrow> 'v exchange \<Rightarrow> parsed_request \<Rightarrow> poll list \<Rightarrow> string \<Rightarrow> 'v bridge \<Rightarrow>
      (string \<Rightarrow> ('v bridge \<times> 'v http_answer) option) \<Rightarrow> ('v bridge \<times> 'v http_answer) option" where
  "with_body cfg ex r ps reason br serve =
     (case read_body (rq_content_length r) (ex_body_start ex + bc_body_timeout cfg) (rq_body_prefix r) ps of
        None \<Rightarrow> None
      | Some (Inl status, _) \<Rightarrow>
          Some (if status = abandon then (br, NoAnswer) else refuse status reason br)
      | Some (Inr body, _) \<Rightarrow> serve body)"

definition serve_control ::
    "bridge_config \<Rightarrow> 'v exchange \<Rightarrow> parsed_request \<Rightarrow> poll list \<Rightarrow> context_control \<Rightarrow> 'v bridge \<Rightarrow>
      ('v bridge \<times> 'v http_answer) option" where
  "serve_control cfg ex r ps control br =
     with_body cfg ex r ps ''context_control_body'' br (\<lambda>body.
       Some
         (case context_control_key (ex_json ex) (ex_sha ex) control body of
            Inl status \<Rightarrow> refuse status ''context_control_body'' br
          | Inr named \<Rightarrow>
              let key = unwrap_or named (from_headers (ex_sha ex) (rq_session_id r) (rq_agent_id r))
              in (case control of
                    ControlCompact \<Rightarrow> serve_context_compact ex key br
                  | ControlClear \<Rightarrow> serve_context_clear key br
                  | ControlCompactFinished \<Rightarrow> serve_context_compact_finished key br)))"

definition serve_post_messages ::
    "'v exchange \<Rightarrow> conversation_key \<Rightarrow> string \<Rightarrow> 'v bridge \<Rightarrow> ('v bridge \<times> 'v http_answer) option" where
  "serve_post_messages ex key body br =
     (case from_str (ex_json ex) body of
        None \<Rightarrow> Some (refuse 400 ''invalid_json'' br)
      | Some request \<Rightarrow>
          let streaming =
            Option.bind (get_field (ex_json ex) request ''stream'') (ex_as_bool ex) = Some True
          in (case br_gateway br of
                Some g \<Rightarrow> serve_unified ex streaming key request g br
              | None \<Rightarrow> Some (serve_codex_discovery_messages ex streaming key request br)))"

definition route_path :: "string \<Rightarrow> string" where
  "route_path path = takeWhile (\<lambda>c. c \<noteq> CHR ''?'') path"

definition dispatch ::
    "bridge_config \<Rightarrow> 'v exchange \<Rightarrow> parsed_request \<Rightarrow> poll list \<Rightarrow> 'v bridge \<Rightarrow>
      ('v bridge \<times> 'v http_answer) option" where
  "dispatch cfg ex r ps br =
     (let key = from_headers (ex_sha ex) (rq_session_id r) (rq_agent_id r);
          routed = (\<lambda>method path. rq_method r = method \<and> route_path (rq_path r) = path)
      in if routed ''POST'' ''/_clud/context/compact'' then serve_control cfg ex r ps ControlCompact br
         else if routed ''POST'' ''/_clud/context/clear'' then serve_control cfg ex r ps ControlClear br
         else if routed ''POST'' ''/_clud/context/compact-finished'' then
           serve_control cfg ex r ps ControlCompactFinished br
         else if routed ''GET'' ''/v1/models'' then
           Some (br, case br_gateway br of None \<Rightarrow> serve_codex_catalog | Some g \<Rightarrow> serve_unified_catalog g)
         else if routed ''HEAD'' ''/v1/messages'' then
           Some (br, Response \<lparr>rs_status = 200, rs_body = Literal [], rs_head_only = True, rs_extra = []\<rparr>)
         else if routed ''POST'' ''/v1/messages/count_tokens'' then
           (if br_gateway br = None then
              Some (br\<lparr>br_rejections := br_rejections br @ [(404, ''token_counting_unsupported'')]\<rparr>,
                plain_response 404 (Literal (error_literal ''not_found_error''
                  ''token counting is not supported by the Codex bridge'')))
            else with_body cfg ex r ps ''request_body'' br (\<lambda>body. Some (count_tokens ex key body br)))
         else if routed ''POST'' ''/v1/messages'' then
           with_body cfg ex r ps ''request_body'' br (\<lambda>body. serve_post_messages ex key body br)
         else Some (refuse 404 ''unrouted_request'' br))"

text \<open>\<open>None\<close>: the schedule of polls ended with a read loop still waiting.\<close>

definition handle_connection ::
    "bridge_config \<Rightarrow> 'v exchange \<Rightarrow> poll list \<Rightarrow> 'v bridge \<Rightarrow> ('v bridge \<times> 'v http_answer) option" where
  "handle_connection cfg ex polls br =
     (if \<not> ex_timeout_set ex then Some (br, NoAnswer)
      else
        (case read_headers (bc_max_header_bytes cfg) (ex_accepted ex + bc_header_timeout cfg) polls of
           None \<Rightarrow> None
         | Some (Inl status, _) \<Rightarrow>
             Some (if status = abandon then (br, NoAnswer) else refuse status ''request_headers'' br)
         | Some (Inr r, ps) \<Rightarrow>
             if rq_content_length r > bc_max_body_bytes cfg then
               Some (refuse 413 ''request_body_too_large'' br)
             else if \<not> request_is_authenticated r (bc_token cfg) (br_gateway br \<noteq> None) then
               Some (refuse 401
                 (if br_gateway br = None then ''bearer_mismatch'' else ''gateway_token_mismatch'') br)
             else dispatch cfg ex r ps br))"

text \<open>The bytes of an answer: \<open>json\<close> serialises a body, \<open>frame_json\<close> the data of a frame.\<close>

fun frame_event :: "aframe \<Rightarrow> string" where
  "frame_event (MessageStart _ _) = ''message_start''"
| "frame_event (BlockStart _ _) = ''content_block_start''"
| "frame_event (BlockDelta _ _) = ''content_block_delta''"
| "frame_event (BlockStop _) = ''content_block_stop''"
| "frame_event (MessageDelta _ _ _ _) = ''message_delta''"
| "frame_event MessageStop = ''message_stop''"
| "frame_event (ErrorFrame _ _) = ''error''"

definition frame_text :: "(aframe \<Rightarrow> string) \<Rightarrow> aframe \<Rightarrow> string" where
  "frame_text frame_json f = anthropic_frame_text (frame_event f) (frame_json f)"

definition response_bytes :: "('v reply_body \<Rightarrow> string) \<Rightarrow> 'v http_response \<Rightarrow> string" where
  "response_bytes json r =
     write_response_with (rs_status r) ''application/json'' (json (rs_body r)) (rs_head_only r) (rs_extra r)"

end
