(* ===== verification/Http_Safety.thy ===== *)
theory Http_Safety
  imports Http_Reading Http_Gateway
begin

text \<open>
  What one connection of the bridge promises: the answer depends on the bytes the client sent and not on how
  they arrived, it comes once the deadlines have passed, nothing happens without the token of the launch,
  and a streamed turn reaches the client whole.
\<close>

section \<open>The bytes decide\<close>

lemma delivers_later: "delivers d ps \<Longrightarrow> d \<le> d' \<Longrightarrow> delivers d' ps"
  by (auto simp: delivers_def list_all_iff intro: calm_later)

lemma closes_later: "closes d p \<Longrightarrow> d \<le> d' \<Longrightarrow> closes d' p"
  by (auto simp: closes_def intro: calm_later)

lemma parse_header_line_prefix:
  "parse_header_line l (r\<lparr>rq_body_prefix := b\<rparr>) =
    rbind (parse_header_line l r) (\<lambda>r. Inr (r\<lparr>rq_body_prefix := b\<rparr>))"
proof -
  have *: "rbind (ok_or x e) (\<lambda>n. Inr (r\<lparr>rq_body_prefix := b, rq_headers := h, rq_content_length := n\<rparr>)) =
      rbind (rbind (ok_or x e) (\<lambda>n. Inr (r\<lparr>rq_headers := h, rq_content_length := n\<rparr>)))
        (\<lambda>r. Inr (r\<lparr>rq_body_prefix := b\<rparr>))" for x e h
    by (cases x) simp_all
  show ?thesis by (simp add: parse_header_line_def Let_def * split: option.splits prod.splits)
qed

lemma parse_header_lines_prefix:
  "parse_header_lines ls (r\<lparr>rq_body_prefix := b\<rparr>) =
    rbind (parse_header_lines ls r) (\<lambda>r. Inr (r\<lparr>rq_body_prefix := b\<rparr>))"
proof (induction ls arbitrary: r)
  case (Cons l ls)
  then show ?case by (cases "parse_header_line l r") (simp_all add: parse_header_line_prefix)
qed simp

lemma parse_head_prefix:
  "parse_head head b = rbind (parse_head head []) (\<lambda>r. Inr (r\<lparr>rq_body_prefix := b\<rparr>))"
proof -
  have "new_request m p b = (new_request m p [])\<lparr>rq_body_prefix := b\<rparr>" for m p
    by (simp add: new_request_def)
  then show ?thesis
    by (simp add: parse_head_def parse_header_lines_prefix split: list.splits)
qed

text \<open>A request as its bytes determine it.\<close>

definition request_of :: "nat \<Rightarrow> string \<Rightarrow> (nat, parsed_request \<times> string) result" where
  "request_of limit s =
     rbind (head_of limit s) (\<lambda>(head, rest). rbind (parse_head head []) (\<lambda>r. Inr (r, rest)))"

lemma read_headers_stream:
  assumes "closes d e" "delivers d ps" "d \<le> deadline"
  shows "case request_of limit (stream_of ps) of
      Inl status \<Rightarrow> \<exists>rest. read_headers limit deadline (ps @ [e]) = Some (Inl status, rest)
    | Inr (r, body) \<Rightarrow>
        \<exists>b qs. read_headers limit deadline (ps @ [e]) = Some (Inr (r\<lparr>rq_body_prefix := b\<rparr>), qs @ [e]) \<and>
          delivers d qs \<and> b @ stream_of qs = body"
proof -
  have *: "head_read d e (head_of limit (stream_of ps)) (read_head limit deadline [] (ps @ [e]))"
    using read_head_stream [OF assms(1,3,2), of limit "[]"] by simp
  show ?thesis
  proof (cases "head_of limit (stream_of ps)")
    case (Inl status)
    with * show ?thesis by (auto simp: head_read_def request_of_def read_headers_def)
  next
    case (Inr hb)
    obtain head body where hb: "hb = (head, body)" by fastforce
    with * Inr obtain raw rest where got:
      "read_head limit deadline [] (ps @ [e]) = Some (Inr (raw, length head + 4), rest @ [e])"
      "delivers d rest" "take (length head) raw = head" "drop (length head + 4) raw @ stream_of rest = body"
      by (auto simp: head_read_def)
    then show ?thesis
      using parse_head_prefix [of head "drop (length head + 4) raw"] Inr hb
      by (cases "parse_head head []") (auto simp: request_of_def read_headers_def)
  qed
qed

lemma read_body_stream:
  assumes "closes d e" "delivers d qs" "d \<le> deadline"
  shows "\<exists>rest. read_body n deadline b (qs @ [e]) = Some (body_of n (b @ stream_of qs), rest)"
proof -
  have "body_of n (take n b @ stream_of qs) = body_of n (b @ stream_of qs)"
    by (cases "n \<le> length b") (simp_all add: body_of_def)
  then show ?thesis
    using fill_body_stream [OF assms(1,3,2), of "take n b" n] by (simp add: read_body_def)
qed

text \<open>A connection's request is parsed off the stream, and everything after the head is its body.\<close>

lemma with_body_stream:
  assumes "closes d e" "delivers d qs" "d \<le> ex_body_start ex + bc_body_timeout cfg"
    and "rq_body_prefix r @ stream_of qs = body"
  shows "with_body cfg ex r (qs @ [e]) reason br serve =
    (case body_of (rq_content_length r) body of
       Inl status \<Rightarrow> Some (refuse status reason br)
     | Inr b \<Rightarrow> serve b)"
proof -
  obtain rest where "read_body (rq_content_length r) (ex_body_start ex + bc_body_timeout cfg) (rq_body_prefix r)
      (qs @ [e]) = Some (body_of (rq_content_length r) body, rest)"
    using read_body_stream [OF assms(1-3)] assms(4) by blast
  then show ?thesis
    by (auto simp: with_body_def body_of_def abandon_def)
qed

definition same_request :: "parsed_request \<Rightarrow> parsed_request \<Rightarrow> bool" where
  "same_request r r' \<longleftrightarrow> r\<lparr>rq_body_prefix := []\<rparr> = r'\<lparr>rq_body_prefix := []\<rparr>"

lemma same_request_fields:
  assumes "same_request r r'"
  shows "rq_method r = rq_method r'" "rq_path r = rq_path r'" "rq_headers r = rq_headers r'"
    "rq_authorization r = rq_authorization r'" "rq_session_id r = rq_session_id r'"
    "rq_agent_id r = rq_agent_id r'" "rq_content_length r = rq_content_length r'"
  using assms by (cases r; cases r'; simp add: same_request_def)+

lemma dispatch_stream:
  assumes "closes d e" "delivers d qs" "closes d e'" "delivers d qs'"
    and "d \<le> ex_body_start ex + bc_body_timeout cfg" "same_request r r'"
    and "rq_body_prefix r @ stream_of qs = rq_body_prefix r' @ stream_of qs'"
  shows "dispatch cfg ex r (qs @ [e]) br = dispatch cfg ex r' (qs' @ [e']) br"
proof -
  note eq = same_request_fields [OF assms(6)]
  have body: "with_body cfg ex r (qs @ [e]) reason br serve = with_body cfg ex r' (qs' @ [e']) reason br serve"
    for reason serve
    using with_body_stream [OF assms(1,2,5) assms(7)] with_body_stream [OF assms(3,4,5) refl] eq(7) by simp
  show ?thesis unfolding dispatch_def serve_control_def Let_def body eq(1,2,5,6) ..
qed

section \<open>Statuses of a request that is not served\<close>

definition early_status :: "nat \<Rightarrow> bool" where
  "early_status status \<longleftrightarrow> list_contains [abandon, 400, 408, 431] status"

lemma poll_read_status: "poll_read cap deadline p = Inl status \<Longrightarrow> early_status status"
  by (auto simp: poll_read_def set_remaining_read_timeout_def read_expired_def early_status_def
      split: socket_read.splits if_splits option.splits)

lemma read_head_status:
  "read_head limit deadline raw ps = Some (Inl status, rest) \<Longrightarrow> early_status status"
proof (induction "poll_work ps" arbitrary: raw ps rule: less_induct)
  case less
  show ?case
  proof (cases "find_header_end raw = None \<and> \<not> limit \<le> length raw")
    case False
    with less.prems show ?thesis
      by (auto simp: read_head.simps [of _ _ raw] early_status_def split: option.splits if_splits)
  next
    case True
    with less.prems obtain p qs where ps: "ps = p # qs"
      by (cases ps) (auto simp: read_head.simps [of _ _ raw])
    show ?thesis
    proof (cases "poll_read 1024 deadline p")
      case (Inl st)
      with less.prems True ps poll_read_status [OF Inl] show ?thesis by (simp add: read_head_step)
    next
      case (Inr r)
      show ?thesis
      proof (cases r)
        case None
        with less.prems less.hyps [of qs raw] Inr True ps show ?thesis by (simp add: read_head_step)
      next
        case (Some gl)
        obtain got left where "gl = (got, left)" by fastforce
        with less.prems less.hyps [of "requeue p left qs" "raw @ got"] Inr Some True ps
          poll_read_shrinks [of 1024 deadline p got left qs]
        show ?thesis by (simp add: read_head_step)
      qed
    qed
  qed
qed

lemma parse_header_lines_status: "parse_header_lines ls r = Inl status \<Longrightarrow> status = 400"
proof (induction ls arbitrary: r)
  case (Cons l ls)
  have "parse_header_line l r = Inl s \<Longrightarrow> s = 400" for s
    by (cases "parse_u64 (trim (snd (the (split_once CHR '':'' l))))")
      (auto simp: parse_header_line_def Let_def split: option.splits prod.splits if_splits)
  with Cons show ?case by (cases "parse_header_line l r") auto
qed simp

lemma read_headers_status:
  assumes "read_headers limit deadline ps = Some (Inl status, rest)"
  shows "early_status status"
proof -
  from assms obtain r where r: "read_head limit deadline [] ps = Some (r, rest)"
    "rbind r (\<lambda>(raw, n). parse_head (take (n - 4) raw) (drop n raw)) = Inl status"
    by (auto simp: read_headers_def)
  show ?thesis
  proof (cases r)
    case (Inl s)
    with r read_head_status [of limit deadline "[]" ps s rest] show ?thesis by simp
  next
    case (Inr x)
    with r(2) have "status = 400"
      by (auto simp: parse_head_def split: prod.splits if_splits list.splits dest: parse_header_lines_status)
    then show ?thesis by (simp add: early_status_def)
  qed
qed

end
