(* ===== verification/Http_Properties.thy ===== *)
theory Http_Properties
  imports Http_Safety
begin

text \<open>
  The properties of a connection, on the lemmas of \<open>Http_Safety\<close>, with a small exchange for witnesses.
\<close>

section \<open>Helpers\<close>

lemma authenticated_iff:
  "request_is_authenticated r token unified \<longleftrightarrow>
    (if unified then request_header r gateway_token_header = Some token
     else rq_authorization r = Some (''Bearer '' @ token))"
  by (auto simp: request_is_authenticated_def Let_def split: option.splits)

lemma same_request_prefix: "same_request (r\<lparr>rq_body_prefix := a\<rparr>) (r\<lparr>rq_body_prefix := b\<rparr>)"
  by (simp add: same_request_def)

lemma serve_unified_answers:
  assumes "distinct (map rung_spec (fl_rungs (gw_ladder g)))"
  shows "\<exists>br' answer. serve_unified ex streaming key request g br = Some (br', answer)"
proof -
  have "\<exists>d. serve_unified_messages J env (Suc (length (fl_rungs (gw_ladder g)))) g model = Some d" for J :: "'a json_api" and env model
  proof (cases model)
    case (Some m)
    show ?thesis
      using Some descend_enough_fuel [OF assms, of "Suc (length (fl_rungs (gw_ladder g)))" "initial_attempt m" J env 0]
      by (auto simp: serve_unified_messages_def)
  qed (simp add: serve_unified_messages_def)
  then obtain d where d: "serve_unified_messages (ex_json ex) (gateway_environment ex (key_id key) (br_store br))
      (Suc (length (fl_rungs (gw_ladder g)))) g (get_str (ex_json ex) request ''model'') = Some d" by blast
  show ?thesis by (simp add: serve_unified_def Let_def d split: prod.splits)
qed

lemma with_body_answers:
  assumes "runs_late d ps" "ex_body_start ex + bc_body_timeout cfg \<le> d"
    and "\<And>b. \<exists>br' answer. serve b = Some (br', answer)"
  shows "\<exists>br' answer. with_body cfg ex r ps reason br serve = Some (br', answer)"
proof -
  have "runs_late (ex_body_start ex + bc_body_timeout cfg) ps"
    using assms(1,2) by (auto simp: runs_late_def list_ex_iff intro: order_trans)
  then obtain x rest where "read_body (rq_content_length r) (ex_body_start ex + bc_body_timeout cfg)
      (rq_body_prefix r) ps = Some (x, rest)"
    using fill_body_answers unfolding read_body_def by (metis surj_pair)
  with assms(3) show ?thesis by (cases x) (auto simp: with_body_def refuse_def)
qed

lemma dispatch_answers:
  assumes "runs_late d ps" "ex_body_start ex + bc_body_timeout cfg \<le> d"
    and "\<And>g. br_gateway br = Some g \<Longrightarrow> distinct (map rung_spec (fl_rungs (gw_ladder g)))"
  shows "\<exists>br' answer. dispatch cfg ex r ps br = Some (br', answer)"
proof -
  note body = with_body_answers [OF assms(1,2)]
  have control: "\<exists>br' answer. serve_control cfg ex r ps control br = Some (br', answer)" for control
    unfolding serve_control_def by (rule body) (auto simp: refuse_def split: sum.splits context_control.splits)
  have post: "\<exists>br' answer. serve_post_messages ex key b br = Some (br', answer)" for key b
    by (auto simp: serve_post_messages_def refuse_def Let_def split: option.splits
        intro: serve_unified_answers [OF assms(3)])
  have count: "\<exists>br' answer. Some (count_tokens ex key b br) = Some (br', answer)" for key b
    by (cases "count_tokens ex key b br") simp
  show ?thesis
    unfolding dispatch_def Let_def
    using control body [of "\<lambda>b. serve_post_messages ex (from_headers (ex_sha ex) (rq_session_id r) (rq_agent_id r)) b br"]
      body [of "\<lambda>b. Some (count_tokens ex (from_headers (ex_sha ex) (rq_session_id r) (rq_agent_id r)) b br)"] post count
    by (simp add: refuse_def split: if_splits)
qed

lemma http_status_error: "400 \<le> http_status e"
  by (cases e rule: http_status.cases) (auto simp: client_closed_request_def)

lemma pipeline_error_response: "\<exists>r. write_pipeline_error e = Response r \<and> 400 \<le> rs_status r"
  by (simp add: write_pipeline_error_def http_status_error)

lemma writer_started_ok: "(\<And>k. ex_header_ok ex k) \<Longrightarrow> writer_started ex (length sent) \<longleftrightarrow> sent \<noteq> []"
  by (cases sent) (auto simp: writer_started_def list_ex_iff)

lemma with_history_result:
  assumes "with_history i f s = (s', Inr x)"
  shows "\<exists>h. snd (f h) = Inr x"
proof -
  from assms obtain s1 a where "run_on a f s1 = (s', Inr x)"
    by (auto simp: with_history_def split: prod.splits sum.splits)
  then have "snd (f (cs_cells s1 ! a)) = Inr x" by (simp add: run_on_def split: prod.splits)
  then show ?thesis ..
qed

lemma streamed_ends_well:
  assumes "\<And>k. ex_header_ok ex k" "\<And>k. ex_frame_ok ex k"
    and "\<And>pr. te_prepared env = Inr pr \<Longrightarrow> names_ok (pr_tool_names pr)"
    and "with_history conversation (stream_operation ex env route) s = (s', Inr (sent, r))"
  shows "ends_well sent r"
proof -
  have ok: "sink_ok (write_sink ex)" using assms(1,2) by (simp add: sink_ok_def write_sink_def Let_def)
  obtain h where "snd (stream_operation ex env route h) = Inr (sent, r)"
    using with_history_result [OF assms(4)] by blast
  then obtain history' where "stream_inner (ex_json ex) (write_sink ex) env (ex_message_id ex) (Some (entered route h)) =
      (sent, history', r)"
    by (auto simp: stream_operation_def Let_def split: prod.splits)
  with stream_inner_ends_well [OF ok] assms(3) show ?thesis by blast
qed

lemma frame_event_plain: "set (frame_event f) \<inter> {cr, lf} = {} \<and> list_all is_ascii (frame_event f)"
  by (cases f) (simp_all add: is_ascii_def code_of_def)

lemma frame_text_utf8: "valid_utf8 (json f) \<Longrightarrow> valid_utf8 (frame_text json f)"
proof -
  assume json: "valid_utf8 (json f)"
  have "list_all is_ascii (''event: '' @ frame_event f @ [lf] @ ''data: '')"
    using frame_event_plain [of f] by (simp add: is_ascii_def code_of_def)
  then have "valid_utf8 (''event: '' @ frame_event f @ [lf] @ ''data: '')" by (rule valid_utf8_ascii)
  moreover have "valid_utf8 [lf, lf]" by (simp add: valid_utf8_ascii is_ascii_def code_of_def)
  ultimately have "valid_utf8 ((''event: '' @ frame_event f @ [lf] @ ''data: '') @ json f @ [lf, lf])"
    using json by (blast intro: valid_utf8_append)
  then show ?thesis by (simp add: frame_text_def anthropic_frame_text_def)
qed

lemma with_history_known:
  assumes "validate_conversation_id i = Inr ()" "cs_map s i = Some a"
  shows "open_conversation i s = (s, Inr a)" "with_history i f s = run_on a f s"
  using assms by (simp_all add: open_conversation_def with_history_def)

lemma run_on_cell:
  "a < length (cs_cells s) \<Longrightarrow> cs_cells (fst (run_on a f s)) ! a = fst (f (cs_cells s ! a))"
  by (simp add: run_on_def split: prod.splits)

lemma begin_fallback_clears [simp]: "history_snapshot (begin_fallback h) = []" "h_reset (begin_fallback h)"
  by (simp_all add: begin_fallback_def clear_items_def history_snapshot_def)

lemma compact_result_done:
  assumes "compact_result ex h = (h', Inr u)"
  obtains compact new where "validate_canonical_history (ex_json ex) (history_snapshot h) = Inr ()"
    "ex_compact ex = Inr compact" "compact (history_snapshot h) = Inr new" "history_snapshot h' = new" "\<not> h_reset h'"
proof -
  from assms obtain compact new v where *:
    "validate_canonical_history (ex_json ex) (history_snapshot h) = Inr v" "ex_compact ex = Inr compact"
    "compact (history_snapshot h) = Inr new" "install_compaction (ex_size ex) new h = (h', Inr ())"
    by (auto simp: compact_result_def split: sum.splits prod.splits)
  then obtain h1 where "replace_history (ex_size ex) new h = (h1, Inr ())" "h' = h1\<lparr>h_reset := False\<rparr>"
    by (auto simp: install_compaction_def split: sum.splits prod.splits)
  with kept.replace_done [of "ex_size ex" new h h1 "()"] have "history_snapshot h' = new" "\<not> h_reset h'"
    by (simp_all add: history_snapshot_def)
  with * that show thesis by simp
qed

lemma compact_operation_done: "snd (compact_operation ex h) = Inr ()"
  by (simp add: compact_operation_def split: prod.splits sum.splits)

lemma unprobed_proxy_reply:
  "\<exists>reply. serve_anthropic_proxy J False up = Committed reply \<and> reply \<noteq> InvalidRequest \<and> reply \<noteq> CountUnsupported"
  by (cases up) (simp_all add: serve_anthropic_proxy_def)

section \<open>Properties\<close>

text \<open>
  C1. How the network cuts a request up is invisible: two connections that deliver the same bytes in time,
  in whatever reads and with whatever pauses, and then close, get the same answer and leave the bridge
  in the same state, whatever route and gateway mode they reach.
\<close>

theorem connection_ignores_fragmentation:
  assumes "d \<le> ex_accepted ex + bc_header_timeout cfg" "d \<le> ex_body_start ex + bc_body_timeout cfg"
    and "delivers d ps" "closes d e" "delivers d ps'" "closes d e'" "stream_of ps = stream_of ps'"
  shows "handle_connection cfg ex (ps @ [e]) br = handle_connection cfg ex (ps' @ [e']) br"
proof -
  let ?l = "bc_max_header_bytes cfg"
  note one = read_headers_stream [OF assms(4,3,1), of ?l] and two = read_headers_stream [OF assms(6,5,1), of ?l]
  show ?thesis
  proof (cases "request_of ?l (stream_of ps)")
    case (Inl status)
    with one two assms(7) show ?thesis by (auto simp: handle_connection_def)
  next
    case (Inr rb)
    obtain r body where rb: "rb = (r, body)" by fastforce
    obtain b qs where q: "read_headers ?l (ex_accepted ex + bc_header_timeout cfg) (ps @ [e]) =
        Some (Inr (r\<lparr>rq_body_prefix := b\<rparr>), qs @ [e])" "delivers d qs" "b @ stream_of qs = body"
      using one Inr rb by auto
    obtain b' qs' where q': "read_headers ?l (ex_accepted ex + bc_header_timeout cfg) (ps' @ [e']) =
        Some (Inr (r\<lparr>rq_body_prefix := b'\<rparr>), qs' @ [e'])" "delivers d qs'" "b' @ stream_of qs' = body"
      using two Inr rb assms(7) by auto
    have "dispatch cfg ex (r\<lparr>rq_body_prefix := b\<rparr>) (qs @ [e]) br =
        dispatch cfg ex (r\<lparr>rq_body_prefix := b'\<rparr>) (qs' @ [e']) br"
      using q(3) q'(3) by (intro dispatch_stream [OF assms(4) q(2) assms(6) q'(2) assms(2) same_request_prefix]) simp
    moreover have "request_is_authenticated (r\<lparr>rq_body_prefix := b\<rparr>) t u =
        request_is_authenticated (r\<lparr>rq_body_prefix := b'\<rparr>) t u" for t u
      by (simp add: authenticated_iff request_header_def)
    ultimately show ?thesis by (simp add: handle_connection_def q(1) q'(1))
  qed
qed

text \<open>
  C3. Every connection is answered, or given up at shutdown, once the clock has reached the deadlines of
  its two reading phases; no read loop outlives them, whatever the client sends or withholds. The ladder's
  rungs are distinct.
\<close>

theorem connection_ends_by_its_deadlines:
  assumes "runs_late d ps" "ex_accepted ex + bc_header_timeout cfg \<le> d"
    and "ex_body_start ex + bc_body_timeout cfg \<le> d"
    and "\<And>g. br_gateway br = Some g \<Longrightarrow> distinct (map rung_spec (fl_rungs (gw_ladder g)))"
  shows "\<exists>br' answer. handle_connection cfg ex ps br = Some (br', answer)"
proof -
  let ?l = "bc_max_header_bytes cfg" and ?dh = "ex_accepted ex + bc_header_timeout cfg"
  obtain r rest where r: "read_head ?l ?dh [] ps = Some (r, rest)" "\<And>x. r = Inr x \<Longrightarrow> runs_late d rest"
    using read_head_answers [OF assms(2,1), of ?l "[]"] by blast
  then obtain r' where r': "read_headers ?l ?dh ps = Some (r', rest)" "\<And>x. r' = Inr x \<Longrightarrow> runs_late d rest"
    by (cases r) (auto simp: read_headers_def)
  show ?thesis
  proof (cases r')
    case (Inl status)
    with r' show ?thesis by (auto simp: handle_connection_def refuse_def)
  next
    case (Inr q)
    from dispatch_answers [OF r'(2) [OF Inr] assms(3) assms(4)] r'(1) Inr show ?thesis
      by (simp add: handle_connection_def refuse_def)
  qed
qed

text \<open>
  C2. Without the launch's token nothing is served: a connection whose head does not carry it, in the
  header its gateway mode asks for and equal in every byte, leaves the conversations, the route ledger
  and the gateway as they were and gets at most one of the five error answers of the connection layer.
\<close>

theorem nothing_without_the_token:
  assumes "handle_connection cfg ex ps br = Some (br', answer)"
  shows "(\<exists>r rest. read_headers (bc_max_header_bytes cfg) (ex_accepted ex + bc_header_timeout cfg) ps =
            Some (Inr r, rest) \<and>
          (if br_gateway br = None then rq_authorization r = Some (''Bearer '' @ bc_token cfg)
           else request_header r gateway_token_header = Some (bc_token cfg))) \<or>
    (br_store br' = br_store br \<and> br_gateway br' = br_gateway br \<and>
     (answer = NoAnswer \<or>
      (\<exists>status. list_contains [400, 401, 408, 413, 431] status \<and> answer = write_error status)))"
proof (cases "read_headers (bc_max_header_bytes cfg) (ex_accepted ex + bc_header_timeout cfg) ps")
  case None
  with assms show ?thesis by (auto simp: handle_connection_def split: if_splits)
next
  case (Some x)
  obtain r rest where x: "x = (r, rest)" by fastforce
  show ?thesis
  proof (cases r)
    case (Inl status)
    with Some x have "early_status status" using read_headers_status by blast
    with assms Some x Inl show ?thesis
      by (auto simp: handle_connection_def refuse_def early_status_def split: if_splits)
  next
    case (Inr q)
    with assms Some x show ?thesis
      by (auto simp: handle_connection_def refuse_def authenticated_iff split: if_splits)
  qed
qed


text \<open>
  C5. Round trip to the client: what the bridge puts on the wire for a stream is the head of a chunked
  response and a body that a reader of chunks and server-sent events takes apart into exactly the frames
  that were sent, each with its event name and data, in order and with nothing left over. The data of a
  frame is one line of well-formed text, as compact JSON is.
\<close>

theorem event_stream_reads_back:
  assumes "frames \<noteq> []"
    and "\<And>f. f \<in> set frames \<Longrightarrow> valid_utf8 (json f) \<and> set (json f) \<inter> {cr, lf} = {}"
  shows "\<exists>body chunks. event_stream_bytes (map (frame_text json) frames) = event_stream_head @ body \<and>
    dechunk body = Some chunks \<and>
    decode_stream chunks = map (\<lambda>f. \<lparr>event = Some (frame_event f), data = json f\<rparr>) frames"
proof -
  let ?chunks = "map (frame_text json) frames" and ?fs = "map (\<lambda>f. (frame_event f, json f)) frames"
  let ?body = "concat (map chunk_bytes ?chunks) @ ''0'' @ crlf @ crlf"
  have "event_stream_bytes ?chunks = event_stream_head @ ?body"
    using assms(1) by (cases frames) (simp_all add: event_stream_bytes_eq)
  moreover have "list_all (\<lambda>c. c \<noteq> []) ?chunks"
    by (simp add: list_all_iff frame_text_def anthropic_frame_text_def)
  then have "dechunk ?body = Some ?chunks" by (rule dechunk_frames)
  moreover have "list_all frame_ok ?fs" using assms(2) frame_event_plain by (auto simp: list_all_iff frame_ok_def)
  moreover have "list_all valid_utf8 ?chunks" using assms(2) by (auto simp: list_all_iff frame_text_utf8)
  moreover have "concat ?chunks = frames_text ?fs" by (simp add: frames_text_def frame_text_def [abs_def] comp_def)
  ultimately show ?thesis using decode_frames_roundtrip [of ?fs ?chunks] by (auto simp: comp_def)
qed

text \<open>
  C7. Compaction is never refused by its own difficulties: a request to compact a conversation the store
  admits is answered 204 whatever the transcript, the credentials or the provider do, and afterwards the
  conversation holds either the provider's replacement of a transcript without open calls, with no reset
  pending, or nothing, with the reset pending that its end carries out.
\<close>

theorem compaction_always_completes:
  assumes "serve_context_compact ex key br = (br', answer)"
    and "cs_map (br_store br) (key_id key) = Some a" "a < length (cs_cells (br_store br))"
    and "validate_conversation_id (key_id key) = Inr ()"
    and "h = cs_cells (br_store br) ! a" "h' = cs_cells (br_store br') ! a"
  shows "answer = plain_response 204 (Literal []) \<and>
    ((\<exists>compact. validate_canonical_history (ex_json ex) (history_snapshot h) = Inr () \<and>
        ex_compact ex = Inr compact \<and> compact (history_snapshot h) = Inr (history_snapshot h') \<and>
        \<not> h_reset h') \<or>
     (history_snapshot h' = [] \<and> h_reset h'))"
proof -
  have ran: "with_history (key_id key) (compact_operation ex) (br_store br) =
      run_on a (compact_operation ex) (br_store br)"
    using with_history_known [OF assms(4,2)] by blast
  have cell: "h' = fst (compact_operation ex h)" and answer: "answer = plain_response 204 (Literal [])"
    using assms(1,6) run_on_cell [OF assms(3), of "compact_operation ex"] compact_operation_done [of ex h]
    by (auto simp: serve_context_compact_def ran assms(5) store_answer_def run_on_def split: prod.splits)
  obtain h1 r where r: "compact_result ex h = (h1, r)" by fastforce
  show ?thesis
  proof (cases "history_snapshot h = [] \<or> (\<exists>e. r = Inl e)")
    case True
    with cell r answer show ?thesis by (auto simp: compact_operation_def)
  next
    case False
    then obtain u where "r = Inr u" by (cases r) auto
    with cell r False have "h' = h1" "compact_result ex h = (h', Inr u)" by (auto simp: compact_operation_def)
    from compact_result_done [OF this(2)] answer show ?thesis by metis
  qed
qed

text \<open>
  A question about token counts that names an ordinary Claude model, which is proxied and advisory,
  erases the transcript of a conversation that runs on another route: it enters the Claude route as a
  turn would.
\<close>

theorem count_tokens_erases_other_routes:
  assumes "from_str (ex_json ex) body = Some v" "get_str (ex_json ex) v ''model'' = Some model"
    and "model_by_discovery_id model = None" "non_claude_model_by_any_id model = None"
    and "\<not> starts_with model ''clud-claude-''"
    and "cs_map (br_store br) (key_id key) = Some a" "a < length (cs_cells (br_store br))"
    and "validate_conversation_id (key_id key) = Inr ()"
    and "h_route (cs_cells (br_store br) ! a) = Some route" "route \<noteq> ClaudeRoute"
  shows "history_snapshot (cs_cells (br_store (fst (count_tokens ex key body br))) ! a) = []"
proof -
  note known = with_history_known [OF assms(8,6)]
  let ?env = "gateway_environment ex (key_id key) (br_store br)"
  have "ge_history_ok ?env 0" by (simp add: gateway_environment_def store_admits_def known(1))
  then obtain reply where reply: "serve_unified_count_tokens (ex_json ex) ?env (Some model) = Committed reply"
    "reply \<noteq> InvalidRequest" "reply \<noteq> CountUnsupported"
    using unprobed_proxy_reply [of "ex_json ex" "ge_upstream ?env 0"] assms(3-5)
    by (auto simp: serve_unified_count_tokens_def Let_def serve_unified_proxy_def)
  then have "br_store (fst (count_tokens ex key body br)) = enter_on_store (key_id key) ClaudeRoute (br_store br)"
    by (simp add: count_tokens_def Let_def assms(1,2))
  then have "cs_cells (br_store (fst (count_tokens ex key body br))) ! a =
      enter_route ClaudeRoute (cs_cells (br_store br) ! a)"
    by (simp add: enter_on_store_def known(2) run_on_cell [OF assms(7)])
  then show ?thesis
    using assms(9,10) by (simp add: enter_route_def clear_history_def clear_items_def history_snapshot_def)
qed

section \<open>Witnesses\<close>

definition demo_exchange :: "(string \<times> json_value) list \<Rightarrow> json_value exchange" where
  "demo_exchange table =
     \<lparr>ex_json = demo_json table, ex_as_bool = (\<lambda>_. None), ex_set_model = (\<lambda>_ v. v), ex_sha = demo_sha,
      ex_timeout_set = True, ex_accepted = 0, ex_body_start = 1, ex_upstream = throttled_env,
      ex_pipeline = (\<lambda>_. Inr demo_env), ex_compact = Inr (\<lambda>_. Inr [demo_text ''summary'']),
      ex_size = (\<lambda>_. Some 1), ex_message_id = ''id'', ex_header_ok = (\<lambda>_. True),
      ex_frame_ok = (\<lambda>_. True), ex_write_ok = True\<rparr>"

text \<open>A conversation of the bridge that runs on the Codex route.\<close>

definition codex_store :: "json_value conversation_store" where
  "codex_store =
     \<lparr>cs_limits = default_limits, cs_map = [''main'' \<mapsto> 0],
      cs_cells = [demo_history\<lparr>h_route := Some CodexRoute\<rparr>]\<rparr>"

definition main_key :: conversation_key where
  "main_key = \<lparr>key_id = ''main'', session_prefix = ''main''\<rparr>"

definition demo_bridge :: "gateway option \<Rightarrow> json_value bridge" where
  "demo_bridge g = \<lparr>br_store = codex_store, br_gateway = g, br_rejections = []\<rparr>"

definition read_at :: "instant \<Rightarrow> socket_read \<Rightarrow> poll" where
  "read_at t r =
     \<lparr>po_shutdown = False, po_now = t, po_armed = True, po_read = r, po_shutdown_after = False, po_now_after = t\<rparr>"

lemma main_key_valid: "validate_conversation_id (key_id main_key) = Inr ()"
proof -
  have "list_all id_char ''main''" by code_simp
  then show ?thesis by (simp add: validate_conversation_id_def main_key_def)
qed

lemma demo_cell:
  "cs_map (br_store (demo_bridge g)) (key_id main_key) = Some 0"
  "0 < length (cs_cells (br_store (demo_bridge g)))"
  "h_route (cs_cells (br_store (demo_bridge g)) ! 0) = Some CodexRoute"
  by (simp_all add: demo_bridge_def codex_store_def main_key_def)

definition catalog_request :: "string \<times> string" where
  "catalog_request =
     (''GET /v1/models HTTP/1.1'' @ [CHR 0x0D],
      [CHR 0x0A] @ ''Authorization: Bearer t'' @ crlf @ crlf)"

theorem connection_ignores_fragmentation_witness:
  "handle_connection (default_bridge ''t'') (demo_exchange [])
     [read_at 0 (Arrived (fst catalog_request)), read_at 1 NotYet, read_at 2 (Arrived (snd catalog_request)),
      read_at 3 (Arrived [])] (demo_bridge None) =
   handle_connection (default_bridge ''t'') (demo_exchange [])
     [read_at 0 (Arrived (fst catalog_request @ snd catalog_request)), read_at 1 (Arrived [])] (demo_bridge None)"
  using connection_ignores_fragmentation [of 5 "demo_exchange []" "default_bridge ''t''"
      "[read_at 0 (Arrived (fst catalog_request)), read_at 1 NotYet, read_at 2 (Arrived (snd catalog_request))]"
      "read_at 3 (Arrived [])" "[read_at 0 (Arrived (fst catalog_request @ snd catalog_request))]"
      "read_at 1 (Arrived [])" "demo_bridge None"]
  by (simp add: demo_exchange_def default_bridge_def from_secs_def calm_def closes_def read_at_def catalog_request_def)

theorem connection_ends_by_its_deadlines_witness:
  "\<exists>br' answer. handle_connection (default_bridge ''t'') (demo_exchange [])
     [read_at 0 (Arrived ''GET''), read_at (from_secs 31) NotYet] (demo_bridge (Some demo_gateway)) = Some (br', answer)"
  using connection_ends_by_its_deadlines [of "from_secs 31"
      "[read_at 0 (Arrived ''GET''), read_at (from_secs 31) NotYet]" "demo_exchange []" "default_bridge ''t''"
      "demo_bridge (Some demo_gateway)"]
  by (simp add: demo_exchange_def default_bridge_def from_secs_def read_at_def demo_bridge_def demo_gateway_def
      claude_rung_def)

theorem nothing_without_the_token_witness:
  "\<exists>br' answer. handle_connection (default_bridge ''t'') (demo_exchange []) [read_at 0 (Arrived [])] (demo_bridge None) =
      Some (br', answer) \<and> br_store br' = codex_store \<and> answer = write_error 400"
proof -
  let ?ps = "[read_at 0 (Arrived [])]"
  have head: "read_headers (bc_max_header_bytes (default_bridge ''t''))
      (ex_accepted (demo_exchange []) + bc_header_timeout (default_bridge ''t'')) ?ps = Some (Inl 400, [])"
    by (simp add: read_headers_def read_head_step poll_read_def read_at_def demo_exchange_def default_bridge_def
        set_remaining_read_timeout_def from_secs_def)
  then obtain br' where run: "handle_connection (default_bridge ''t'') (demo_exchange []) ?ps (demo_bridge None) =
      Some (br', write_error 400)"
    by (simp add: handle_connection_def demo_exchange_def refuse_def abandon_def)
  from nothing_without_the_token [OF run] head have "br_store br' = codex_store"
    by (simp add: demo_bridge_def)
  with run show ?thesis by blast
qed


theorem event_stream_reads_back_witness:
  "\<exists>body chunks. event_stream_bytes (map (frame_text (\<lambda>_. ''{}'')) [MessageStart ''i'' ''m'', MessageStop]) =
      event_stream_head @ body \<and> dechunk body = Some chunks \<and>
    decode_stream chunks = [\<lparr>event = Some ''message_start'', data = ''{}''\<rparr>, \<lparr>event = Some ''message_stop'', data = ''{}''\<rparr>]"
proof -
  have "valid_utf8 ''{}''" by (simp add: valid_utf8_ascii is_ascii_def code_of_def)
  then show ?thesis
    using event_stream_reads_back [of "[MessageStart ''i'' ''m'', MessageStop]" "\<lambda>_. ''{}''"] by simp
qed

theorem compaction_always_completes_witness:
  "snd (serve_context_compact (demo_exchange []) main_key (demo_bridge None)) = plain_response 204 (Literal [])"
  using compaction_always_completes [OF _ demo_cell(1,2) main_key_valid refl refl] by (metis prod.collapse)

lemma unlisted_model:
  "model_by_discovery_id ''x'' = None" "non_claude_model_by_any_id ''x'' = None"
  by (simp_all add: model_by_discovery_id_def non_claude_model_by_any_id_def opt_filter_def catalog_match_eq
      models_def row_ids_def eq_ignore_ascii_case_def to_ascii_lowercase_def)

theorem count_tokens_erases_other_routes_witness:
  "history_snapshot (cs_cells (br_store (fst (count_tokens
      (demo_exchange [(''q'', JObj [(''model'', JStr ''x'')])]) main_key ''q''
      (demo_bridge (Some demo_gateway))))) ! 0) = []"
proof -
  have "\<not> starts_with ''x'' ''clud-claude-''" by code_simp
  then show ?thesis
    using count_tokens_erases_other_routes [OF _ _ unlisted_model _ demo_cell(1,2) main_key_valid demo_cell(3)]
    by (simp add: demo_exchange_def get_str_def)
qed

end
