(* ===== verification/Http_Listener.thy ===== *)
theory Http_Listener
  imports Prelude
begin

text \<open>
  \<^verbatim>\<open>codex_bridge.rs\<close>, the accept loop of the bridge (\<^verbatim>\<open>serve\<close>), its worker slots and the shutdown of
  \<^verbatim>\<open>BridgeHandle\<close>. The loop is cut at its shared accesses: the look at the active count, the accept and
  the reservation of a slot, the registration of the stream under the connections' lock, the spawn; workers
  end and the handle shuts down between any two of them. Worker ids do not wrap.
\<close>

section \<open>Model\<close>

datatype accept_phase = AtTop | Admitting | Registering nat | Spawning nat | Left

record listener =
  li_phase :: accept_phase
  li_active :: nat
  li_full_since :: "instant option"
  li_next_id :: nat
  li_registered :: "nat set"
  li_running :: "nat set"
  li_closed :: "nat set"
  li_shutdown :: bool
  li_refused :: nat

record listener_config =
  lc_max_concurrency :: nat
  lc_admission_wait :: duration

definition concurrency_limit :: "listener_config \<Rightarrow> nat" where
  "concurrency_limit cfg = max (lc_max_concurrency cfg) 1"

definition default_listener :: listener_config where
  "default_listener = \<lparr>lc_max_concurrency = 1, lc_admission_wait = from_secs 10\<rparr>"

definition new_listener :: listener where
  "new_listener =
     \<lparr>li_phase = AtTop, li_active = 0, li_full_since = None, li_next_id = 0, li_registered = {},
      li_running = {}, li_closed = {}, li_shutdown = False, li_refused = 0\<rparr>"

text \<open>The top of the loop at \<open>now\<close>: stop, keep waiting for a slot, or go on to accept.\<close>

definition admission :: "listener_config \<Rightarrow> instant \<Rightarrow> listener \<Rightarrow> listener" where
  "admission cfg now l =
     (if li_shutdown l then l\<lparr>li_phase := Left\<rparr>
      else if concurrency_limit cfg \<le> li_active l then
        (let since = unwrap_or (li_full_since l) now; l = l\<lparr>li_full_since := Some since\<rparr>
         in if now - since < lc_admission_wait cfg then l else l\<lparr>li_phase := Admitting\<rparr>)
      else l\<lparr>li_full_since := None, li_phase := Admitting\<rparr>)"

text \<open>What the accept finds: a connection (made blocking and cloned, or not), nothing, or a failure.\<close>

datatype accepted = Incoming bool bool | NothingPending | AcceptFailed

definition reserve_worker :: "nat \<Rightarrow> nat \<Rightarrow> nat option" where
  "reserve_worker limit current = (if current < limit then Some (current + 1) else None)"

definition refuse_connection :: "listener \<Rightarrow> listener" where
  "refuse_connection l = l\<lparr>li_refused := li_refused l + 1\<rparr>"

definition accept_one :: "listener_config \<Rightarrow> accepted \<Rightarrow> listener \<Rightarrow> listener" where
  "accept_one cfg a l =
     (case a of
        AcceptFailed \<Rightarrow> l\<lparr>li_phase := Left\<rparr>
      | NothingPending \<Rightarrow> l\<lparr>li_phase := AtTop\<rparr>
      | Incoming blocking cloned \<Rightarrow>
          if \<not> blocking then l\<lparr>li_phase := AtTop\<rparr>
          else
            (case reserve_worker (concurrency_limit cfg) (li_active l) of
               None \<Rightarrow> refuse_connection (l\<lparr>li_phase := AtTop\<rparr>)
             | Some n \<Rightarrow>
                 if cloned then
                   l\<lparr>li_active := n, li_phase := Registering (li_next_id l), li_next_id := li_next_id l + 1\<rparr>
                 else l\<lparr>li_active := n - 1, li_phase := AtTop\<rparr>))"

text \<open>Under the lock of the connections.\<close>

definition register_worker :: "nat \<Rightarrow> listener \<Rightarrow> listener" where
  "register_worker i l =
     (let l = l\<lparr>li_registered := insert i (li_registered l), li_phase := Spawning i\<rparr>
      in if li_shutdown l then l\<lparr>li_closed := insert i (li_closed l)\<rparr> else l)"

definition spawn_worker :: "nat \<Rightarrow> bool \<Rightarrow> listener \<Rightarrow> listener" where
  "spawn_worker i spawned l =
     (if spawned then l\<lparr>li_running := insert i (li_running l), li_phase := AtTop\<rparr>
      else l\<lparr>li_active := li_active l - 1, li_registered := li_registered l - {i}, li_phase := AtTop\<rparr>)"

text \<open>The drop of a worker's guard.\<close>

definition finish_worker :: "nat \<Rightarrow> listener \<Rightarrow> listener" where
  "finish_worker i l =
     l\<lparr>li_running := li_running l - {i}, li_registered := li_registered l - {i},
       li_active := li_active l - 1\<rparr>"

definition shut_down :: "listener \<Rightarrow> listener" where
  "shut_down l = l\<lparr>li_shutdown := True, li_closed := li_closed l \<union> li_registered l\<rparr>"

inductive listener_step :: "listener_config \<Rightarrow> listener \<Rightarrow> listener \<Rightarrow> bool" for cfg where
  step_top: "li_phase l = AtTop \<Longrightarrow> listener_step cfg l (admission cfg now l)"
| step_accept: "li_phase l = Admitting \<Longrightarrow> listener_step cfg l (accept_one cfg a l)"
| step_register: "li_phase l = Registering i \<Longrightarrow> listener_step cfg l (register_worker i l)"
| step_spawn: "li_phase l = Spawning i \<Longrightarrow> listener_step cfg l (spawn_worker i ok l)"
| step_finish: "i \<in> li_running l \<Longrightarrow> listener_step cfg l (finish_worker i l)"
| step_shutdown: "listener_step cfg l (shut_down l)"

inductive_cases listener_stepE: "listener_step cfg l l'"

definition listener_steps :: "listener_config \<Rightarrow> listener \<Rightarrow> listener \<Rightarrow> bool" where
  "listener_steps cfg = (listener_step cfg)\<^sup>*\<^sup>*"

section \<open>Invariant\<close>

fun reserved_slots :: "accept_phase \<Rightarrow> nat" where
  "reserved_slots (Registering _) = 1"
| "reserved_slots (Spawning _) = 1"
| "reserved_slots _ = 0"

fun spawning_ids :: "accept_phase \<Rightarrow> nat set" where
  "spawning_ids (Spawning i) = {i}"
| "spawning_ids _ = {}"

fun claimed_ids :: "accept_phase \<Rightarrow> nat set" where
  "claimed_ids (Registering i) = {i}"
| "claimed_ids (Spawning i) = {i}"
| "claimed_ids _ = {}"

definition listener_ok :: "listener_config \<Rightarrow> listener \<Rightarrow> bool" where
  "listener_ok cfg l \<longleftrightarrow>
     finite (li_running l) \<and> li_active l = card (li_running l) + reserved_slots (li_phase l) \<and>
     li_active l \<le> concurrency_limit cfg \<and> li_registered l = li_running l \<union> spawning_ids (li_phase l) \<and>
     li_running l \<inter> claimed_ids (li_phase l) = {} \<and>
     (\<forall>i \<in> li_running l \<union> claimed_ids (li_phase l). i < li_next_id l) \<and>
     (li_shutdown l \<longrightarrow> li_registered l \<subseteq> li_closed l)"

lemma new_listener_ok: "listener_ok cfg new_listener"
  by (simp add: listener_ok_def new_listener_def)

lemma admission_ok: "listener_ok cfg l \<Longrightarrow> li_phase l = AtTop \<Longrightarrow> listener_ok cfg (admission cfg now l)"
  by (auto simp: listener_ok_def admission_def Let_def)

lemma accept_ok: "listener_ok cfg l \<Longrightarrow> li_phase l = Admitting \<Longrightarrow> listener_ok cfg (accept_one cfg a l)"
  by (auto simp: listener_ok_def accept_one_def refuse_connection_def reserve_worker_def less_Suc_eq
      split: accepted.splits)

lemma register_ok:
  "listener_ok cfg l \<Longrightarrow> li_phase l = Registering i \<Longrightarrow> listener_ok cfg (register_worker i l)"
  by (auto simp: listener_ok_def register_worker_def Let_def)

lemma spawn_ok: "listener_ok cfg l \<Longrightarrow> li_phase l = Spawning i \<Longrightarrow> listener_ok cfg (spawn_worker i ok l)"
  by (auto simp: listener_ok_def spawn_worker_def)

lemma finish_ok: "listener_ok cfg l \<Longrightarrow> i \<in> li_running l \<Longrightarrow> listener_ok cfg (finish_worker i l)"
proof -
  assume ok: "listener_ok cfg l" and i: "i \<in> li_running l"
  then have "0 < card (li_running l)" by (auto simp: listener_ok_def card_gt_0_iff)
  moreover have "i \<notin> spawning_ids (li_phase l)"
    using ok i by (cases "li_phase l") (auto simp: listener_ok_def)
  ultimately show ?thesis using ok i by (auto simp: listener_ok_def finish_worker_def)
qed

lemma shut_down_ok: "listener_ok cfg l \<Longrightarrow> listener_ok cfg (shut_down l)"
  by (auto simp: listener_ok_def shut_down_def)

lemma listener_step_ok:
  assumes "listener_step cfg l l'" "listener_ok cfg l"
  shows "listener_ok cfg l'"
  using assms
  by cases (simp_all add: admission_ok accept_ok register_ok spawn_ok finish_ok shut_down_ok)

lemma listener_steps_ok:
  assumes "listener_steps cfg new_listener l"
  shows "listener_ok cfg l"
  using assms unfolding listener_steps_def
  by (induction rule: rtranclp_induct) (auto intro: new_listener_ok listener_step_ok)

section \<open>Properties\<close>

text \<open>
  C6. However the accept loop, the workers and a shutdown interleave, the bridge never runs more workers
  than its limit, and at least one is allowed; the active count is exactly the workers running and the
  slot being handed out, so no slot leaks; and once the handle has shut down, every stream that is
  registered, before or after, is closed, so no worker is left waiting on an open one.
\<close>

theorem workers_stay_within_the_limit:
  assumes "listener_steps cfg new_listener l"
  shows "card (li_running l) \<le> max (lc_max_concurrency cfg) 1 \<and>
    li_active l = card (li_running l) + reserved_slots (li_phase l) \<and>
    (li_shutdown l \<longrightarrow> li_running l \<subseteq> li_closed l)"
  using listener_steps_ok [OF assms] by (auto simp: listener_ok_def concurrency_limit_def)

text \<open>
  The wait for a slot is not the connection's: the loop remembers when it first found every slot busy,
  and once that is an admission wait ago it accepts every connection only to refuse it, however
  recently it came, for as long as no slot is free when the loop looks. The constant is documented as the
  time a connection may wait before it is refused.
\<close>

theorem saturated_bridge_refuses_at_once:
  assumes "li_phase l = AtTop" "\<not> li_shutdown l" "max (lc_max_concurrency cfg) 1 \<le> li_active l"
    and "li_full_since l = Some since" "since + lc_admission_wait cfg \<le> now"
  shows "accept_one cfg (Incoming True cloned) (admission cfg now l) = refuse_connection l"
proof -
  have "\<not> li_active l < max (lc_max_concurrency cfg) 1" using assms(3) by (simp only: not_less)
  moreover have "\<not> now - since < lc_admission_wait cfg" using assms(5) by simp
  ultimately show ?thesis
    using assms(1,2,4)
    by (cases l) (simp add: admission_def accept_one_def reserve_worker_def concurrency_limit_def
        refuse_connection_def Let_def)
qed

text \<open>
  The clock of the saturation even outlives it: when the only worker ends between the loop's look and its
  accept and another connection takes the slot, the loop still counts from the first saturation, and the
  next connection is refused although the slot has been busy for no time at all.
\<close>

lemma stale_saturation_refuses:
  assumes "li_phase l = AtTop" "\<not> li_shutdown l" "li_active l = 1" "li_running l = {i}"
    and "li_registered l = {i}" "li_full_since l = Some since" "since + from_secs 10 \<le> now" "now \<le> now'"
    and "l1 = accept_one default_listener (Incoming True True) (finish_worker i (admission default_listener now l))"
    and "l2 = spawn_worker (li_next_id l) True (register_worker (li_next_id l) l1)"
  shows "li_running l2 = {li_next_id l} \<and> li_full_since l2 = Some since \<and>
    accept_one default_listener (Incoming True cloned) (admission default_listener now' l2) = refuse_connection l2"
proof -
  have "li_running l2 = {li_next_id l}" "li_full_since l2 = Some since" "li_phase l2 = AtTop"
    "\<not> li_shutdown l2" "li_active l2 = 1"
    using assms
    by (simp_all add: admission_def accept_one_def finish_worker_def register_worker_def spawn_worker_def
        reserve_worker_def concurrency_limit_def default_listener_def Let_def)
  then show ?thesis
    using assms(7,8)
    by (simp add: admission_def accept_one_def reserve_worker_def concurrency_limit_def refuse_connection_def
        default_listener_def Let_def)
qed

section \<open>Witnesses\<close>

definition one_worker :: listener where
  "one_worker = spawn_worker 0 True (register_worker 0
     (accept_one default_listener (Incoming True True) (admission default_listener 0 new_listener)))"

lemma one_worker_steps: "listener_steps default_listener new_listener one_worker"
proof -
  let ?a = "admission default_listener 0 new_listener"
  let ?b = "accept_one default_listener (Incoming True True) ?a"
  let ?c = "register_worker 0 ?b"
  have "listener_step default_listener new_listener ?a" by (rule step_top) (simp add: new_listener_def)
  moreover have "listener_step default_listener ?a ?b"
    by (rule step_accept) (simp add: admission_def new_listener_def concurrency_limit_def)
  moreover have b: "li_phase ?b = Registering 0"
    by (simp add: admission_def new_listener_def concurrency_limit_def accept_one_def reserve_worker_def)
  then have "listener_step default_listener ?b ?c" by (rule step_register)
  moreover have "li_phase ?c = Spawning 0" by (simp add: register_worker_def Let_def)
  then have "listener_step default_listener ?c one_worker" unfolding one_worker_def by (rule step_spawn)
  ultimately show ?thesis unfolding listener_steps_def by (meson converse_rtranclp_into_rtranclp rtranclp.rtrancl_refl)
qed

theorem workers_stay_within_the_limit_witness: "card (li_running (shut_down one_worker)) \<le> 1"
proof -
  have "listener_steps default_listener new_listener (shut_down one_worker)"
    using one_worker_steps step_shutdown unfolding listener_steps_def by (rule rtranclp.rtrancl_into_rtrancl)
  from workers_stay_within_the_limit [OF this] show ?thesis by (simp add: default_listener_def)
qed

theorem saturated_bridge_refuses_at_once_witness:
  "let l = one_worker\<lparr>li_full_since := Some 1\<rparr>
   in accept_one default_listener (Incoming True True) (admission default_listener (from_secs 11) l) = refuse_connection l"
proof -
  let ?l = "one_worker\<lparr>li_full_since := Some 1\<rparr>"
  have "li_phase ?l = AtTop" "\<not> li_shutdown ?l" "max (lc_max_concurrency default_listener) 1 \<le> li_active ?l"
    by (simp_all add: one_worker_def spawn_worker_def register_worker_def accept_one_def admission_def
        new_listener_def reserve_worker_def concurrency_limit_def default_listener_def Let_def)
  then show ?thesis
    using saturated_bridge_refuses_at_once [of ?l default_listener 1 "from_secs 11" True]
    by (simp add: default_listener_def from_secs_def)
qed

end
