(* ===== verification/Spec2Isabelle.thy ===== *)
theory Spec2Isabelle
  imports Sse_Protocol Upstream_Retry Gateway Message_Aggregator Guard_Limits Rm_Rewriting Cd_Safety
    Request_Fidelity Request_Compaction Terminal_Fidelity Reaper_Tracker Http_Properties Http_Listener
begin

text \<open>
  \<^bold>\<open>clud\<close> launches coding agents (Claude, Codex and others), and bridges them to model providers: its
  gateway accepts Anthropic Messages requests, picks a provider, and for a Codex model translates the
  request to OpenAI Responses and the answer back. It also installs a hook in the agents that reads every
  shell command before it runs and may refuse or rewrite it. All sources below are under
  \<^verbatim>\<open>src/crates/clud-bin/src/\<close>.

  \<^bold>\<open>How the parts interact.\<close> A launch resolves provider, harness and model (\<open>Launch_Target\<close>,
  \<open>Provider_Catalog\<close>, \<open>Codex_Model\<close>). The bridge accepts connections (\<open>Http_Listener\<close>), reads a
  request off the socket (\<open>Http_Message\<close>), checks and routes it (\<open>Http_Gateway\<close>).
  A Messages request that reaches the gateway (\<open>Gateway\<close>) selects a provider
  from its model id; Anthropic-compatible providers are proxied, with a probe of the answer before
  anything is written, so that a route that cannot serve can be left for the next rung of the user's
  ladder (\<open>Failover\<close>), as the health ledger allows (\<open>Route_Health\<close>). A Codex request is
  translated (\<open>Request_Translation\<close>, \<open>Request_Compaction\<close>), opens its
  conversation (\<open>Conversation_History\<close>), assembles the input of the turn (\<open>Continuation\<close>) and runs it
  (\<open>Turn_Pipeline\<close>): the upstream client retries (\<open>Upstream_Retry\<close>, with failures read by
  \<open>Upstream_Failure\<close>), its bytes are decoded to frames (\<open>Utf8\<close>, \<open>Sse_Frames\<close>), translated
  (\<open>Sse_Translator\<close>), forwarded or withheld, folded to one message when the client did not ask for a
  stream (\<open>Message_Aggregator\<close>), and failures become a status and a text (\<open>Pipeline_Error\<close>). A shell
  command reaches the guard: its text is cut into segments and words (\<open>Shell_Syntax\<close>), what else it runs is
  extracted (\<open>Command_Scan\<close>), configured and built-in rules are applied at every level (\<open>Command_Rules\<close>,
  \<open>Command_Guard\<close>), and removals below a variable are rewritten to a proven literal or refused
  (\<open>Rm_Variables\<close>). What moves the session out of its repository is refused as strictly as the configured
  hooks need (\<open>Cd_Guard\<close>, \<open>Cd_Policy\<close>), and the hook turns all of it into one answer (\<open>Bad_Cmd_Hook\<close>).
  While an agent runs, the bytes between it and the terminal pass two filters (\<open>Terminal_Filters\<close>), and the
  processes that a shell of the agent leaves behind are tracked, planned for and killed or spared
  (\<open>Process_Facts\<close>, \<open>Shell_Reaper\<close>).

  \<^bold>\<open>Theories and sources.\<close>
  \<^item> \<open>Prelude\<close>, \<open>Rust_Text\<close>, \<open>Utf8\<close>, \<open>Json_Api\<close>: results as sums, the contract \<open>chunked_machine\<close> of
    resumable byte machines, Rust strings as byte lists, lossy UTF-8 decoding, and the accessors of
    \<^verbatim>\<open>serde_json\<close> as a parameter (\<open>demo_json\<close> instantiates it for the witnesses).
  \<^item> \<open>Sse_Frames\<close>: \<^verbatim>\<open>codex_sse.rs\<close> \<^verbatim>\<open>FrameDecoder\<close>; any fragmentation decodes as the whole stream.
  \<^item> \<open>Sse_Translator\<close>, \<open>Sse_Invariants\<close>, \<open>Sse_Protocol\<close>: \<^verbatim>\<open>codex_sse.rs\<close> \<^verbatim>\<open>StreamTranslator\<close>; the
    protocol its client expects as an acceptor, laws that hold event by event (\<open>event_law\<close>), and the
    simulation between translator and acceptor.
  \<^item> \<open>Upstream_Failure\<close>, \<open>Upstream_Retry\<close>: \<^verbatim>\<open>codex_upstream.rs\<close> and the configuration in
    \<^verbatim>\<open>codex_upstream_credentials.rs\<close>; classification, scrubbing of tokens, backoff, attempts.
  \<^item> \<open>Launch_Target\<close> (\<^verbatim>\<open>backend.rs\<close>), \<open>Provider_Catalog\<close> (\<^verbatim>\<open>provider_catalog.rs\<close>), \<open>Codex_Model\<close>
    (\<^verbatim>\<open>codex_model.rs\<close>): precedence of selections, the registry and its lookups, suffix notation.
  \<^item> \<open>Route_Health\<close> (\<^verbatim>\<open>route_health.rs\<close>), \<open>Failover\<close> (\<^verbatim>\<open>failover.rs\<close>), \<open>Gateway\<close> (\<^verbatim>\<open>codex_bridge.rs\<close>):
    verdicts and cooldowns, rungs, selection, the proxy attempt, and the descent over the ladder.
  \<^item> \<open>Http_Message\<close>, \<open>Http_Gateway\<close>, \<open>Http_Listener\<close> (\<^verbatim>\<open>codex_bridge.rs\<close>): the messages on the wire, one
    connection from its first byte to its answer, and the accept loop with its worker slots.
    \<open>Http_Reading\<close>, \<open>Http_Safety\<close>, \<open>Http_Properties\<close>: a request as its bytes determine it, whatever the reads;
    deadlines, the token, streams that read back, context endpoints.
  \<^item> \<open>Conversation_History\<close> (\<^verbatim>\<open>codex_history.rs\<close>): keys, transcripts with their limits (\<open>transcript\<close>
    states their contract), the store as a map to cells so that evicted transcripts stay with whoever
    holds them; steps of the store by induction over \<open>store_step\<close>.
  \<^item> \<open>Request_Translation\<close> (\<^verbatim>\<open>codex_translate.rs\<close>): the decoded Messages request and the Responses request
    it becomes; \<open>Request_Fidelity\<close>: the transcript, identifiers, schemas and the new input are kept, and what
    is refused; \<open>Request_Compaction\<close>: compaction requests and answers, and how \<^verbatim>\<open>codex_pipeline.rs\<close> prepares
    a request.
  \<^item> \<open>Continuation\<close>, \<open>Pipeline_Error\<close>, \<open>Turn_Pipeline\<close>, \<open>Message_Aggregator\<close> (\<^verbatim>\<open>codex_pipeline.rs\<close>): what
    is sent, what a failure tells the client, how one turn runs and commits, non-streaming replies.
  \<^item> \<open>Shell_Syntax\<close> (\<^verbatim>\<open>block_bad_cmd_shell.rs\<close>), \<open>Command_Scan\<close>, \<open>Unix_Path\<close>, \<open>Command_Rules\<close>,
    \<open>Command_Guard\<close> (\<^verbatim>\<open>block_bad_cmd.rs\<close>, rule data in \<^verbatim>\<open>repo_clud_config.rs\<close>): the evaluation as steps with
    early returns. \<open>Guard_Coverage\<close>: the texts a command reaches as an inductive relation, and that the
    evaluation denies exactly when one of them offends; \<open>Guard_Limits\<close>: plain words are read back, hence
    where the guard stops looking.
  \<^item> \<open>Rm_Variables\<close> (\<^verbatim>\<open>block_bad_cmd_rm_vars.rs\<close>): statements, words with the offsets of their expansions,
    tracked variables, checks, rewriting. \<open>Rm_Safety\<close>: values are read back, accepted removals stay below
    the second level; \<open>Rm_Rewriting\<close>: the rewrite is local.
  \<^item> \<open>Cd_Guard\<close>, \<open>Cd_Policy\<close> (\<^verbatim>\<open>block_bad_cmd_cd.rs\<close>, keys in \<^verbatim>\<open>path_norm.rs\<close>), \<open>Bad_Cmd_Hook\<close>
    (\<^verbatim>\<open>run\<close> of \<^verbatim>\<open>block_bad_cmd.rs\<close>): moves of the session, the policy, one tool call. \<open>Cd_Safety\<close>: text keys
    compare names, allowed moves, checked rewrites, and where the guard misses a move or panics.
  \<^item> \<open>Terminal_Filters\<close> (\<^verbatim>\<open>console_title_osc.rs\<close>, \<^verbatim>\<open>session/bracketed_paste.rs\<close>, the path forms of
    \<^verbatim>\<open>dnd/mod.rs\<close>): byte machines between terminal and agent. \<open>Terminal_Fidelity\<close>: what they change, under
    any fragmentation (\<open>marker\<close> is the contract of the two paste markers).
  \<^item> \<open>Process_Facts\<close> (\<^verbatim>\<open>process_identity.rs\<close>, \<^verbatim>\<open>reaper_facts.rs\<close>, \<^verbatim>\<open>process_tree.rs\<close>): identities, reasons to
    spare, the kill of a tree. \<open>Shell_Reaper\<close> (\<^verbatim>\<open>job_orphan_reaper.rs\<close>): the graph of tracked processes and
    its roles, the plan for an exited shell, the tracker. \<open>Reaper_Plans\<close>: a plan as a function of the chains
    of tracked processes below the shell, and roles as descent from a verified backend. \<open>Reaper_Safety\<close>: what
    is reaped and killed, and that plans and kills return. \<open>Reaper_Tracker\<close>: steps of the listener as a
    relation, its invariant, exits executed once and within bounded time.

  \<^bold>\<open>Parameters.\<close> JSON parsing and access, SHA-256, the size of a serialised item, multiplication of a
  duration by a float, clocks, cancellation flags, sinks, base64, the network (reads and ends of attempts), the
  compaction call, sockets (schedules of polls), regular expressions, process tables and the facts the system reports on a process, \<^verbatim>\<open>is_alphanumeric\<close> beyond ASCII, the
  override variable, the platform, settings, files and git as the hook sees them are arguments. Where a property needs a law of one,
  it is a hypothesis of it and its witness has an instance.

  \<^bold>\<open>Loops and bounds.\<close> Loops over lists and bytes are structural; the retry loop recurses on the attempts
  left in the configured budget, the read loops on the script of the network or the polls of the socket (a measure
  counts polls and bytes not yet read), the sliced sleep on the
  time left. Only the descent over the ladder takes fuel: \<open>descent_terminates\<close> shows that one more than
  the number of rungs is enough. The walks of the reapers may run for ever: \<open>stack_walk\<close> is a partial function,
  with theorems on when it returns. The guard and the removal rewriting recurse on the levels left of the
  code's own depth cap of eight. Integers are naturals where the code saturates or its counts are
  bounded by data in memory; saturation is written out.

  \<^bold>\<open>Not modelled.\<close> The derived encoding and decoding of requests; failed writes
  in the middle of a relayed body; the daemon, sessions, consoles, garbage
  collection, credentials, hooks' files and logs, whose effects are operating system calls; and the
  components listed in the manifest with their reason.
\<close>

end
